(* ===== verification/Prelude.thy ===== *)
theory Prelude
  imports Main "HOL-Library.List_Lexorder" "HOL-Library.Char_ord"
begin

section \<open>Shared vocabulary: results, Rust integers, text\<close>

text \<open>
  What every component theory of this development shares.

  \<^item> A fallible Rust function is a value of the sum type \<open>'e + 'a\<close>: \<open>Inl\<close> is
    \<open>Err\<close>, \<open>Inr\<close> is \<open>Ok\<close>. \<open>rbind\<close> is the \<open>?\<close> operator and \<open>rfold\<close> a \<open>for\<close> loop
    whose body may leave with an error.
  \<^item> A Rust \<open>i128\<close> is an \<open>int\<close> whose range is checked where the code checks it
    (\<open>checked_i128\<close>); a \<open>u32\<close> or \<open>u64\<close> that only counts is a \<open>nat\<close>.
  \<^item> A Rust \<open>String\<close> is a \<open>string\<close>, the list of its UTF-8 bytes, ordered as Rust
    orders it: byte by byte (the lexicographic order of \<open>List_Lexorder\<close>).
\<close>

named_theorems result_simps \<open>how results propagate\<close>
named_theorems frame_simps \<open>what an operation leaves alone\<close>

subsection \<open>Results\<close>

definition rbind :: "'e + 'a \<Rightarrow> ('a \<Rightarrow> 'e + 'b) \<Rightarrow> 'e + 'b" where
  "rbind m f = (case m of Inl e \<Rightarrow> Inl e | Inr a \<Rightarrow> f a)"

lemma rbind_Inl [simp]: "rbind (Inl e) f = Inl e"
  by (simp add: rbind_def)

lemma rbind_Inr [simp]: "rbind (Inr a) f = f a"
  by (simp add: rbind_def)

lemma rbind_eq_Inr [result_simps]:
  "rbind m f = Inr b \<longleftrightarrow> (\<exists>a. m = Inr a \<and> f a = Inr b)"
  by (cases m) auto

lemma rbind_eq_Inl [result_simps]:
  "rbind m f = Inl e \<longleftrightarrow> m = Inl e \<or> (\<exists>a. m = Inr a \<and> f a = Inl e)"
  by (cases m) auto

lemma rbind_cong [fundef_cong]:
  assumes "m = n" and "\<And>a. n = Inr a \<Longrightarrow> f a = g a"
  shows "rbind m f = rbind n g"
  using assms by (cases n) auto

lemma rbind_assoc: "rbind (rbind m f) g = rbind m (\<lambda>a. rbind (f a) g)"
  by (cases m) auto

definition ok_or :: "'e \<Rightarrow> 'a option \<Rightarrow> 'e + 'a" where
  "ok_or e m = (case m of None \<Rightarrow> Inl e | Some a \<Rightarrow> Inr a)"

lemma ok_or_simps [simp]: "ok_or e None = Inl e" "ok_or e (Some a) = Inr a"
  by (simp_all add: ok_or_def)

lemma ok_or_eq_Inr [result_simps]: "ok_or e m = Inr a \<longleftrightarrow> m = Some a"
  by (cases m) auto

definition guard_r :: "'e \<Rightarrow> bool \<Rightarrow> 'e + unit" where
  "guard_r e b = (if b then Inr () else Inl e)"

lemma guard_r_eq_Inr [result_simps]: "guard_r e b = Inr u \<longleftrightarrow> b"
  by (simp add: guard_r_def)

text \<open>A loop over a list that leaves at the first error.\<close>

fun rfold :: "('a \<Rightarrow> 's \<Rightarrow> 'e + 's) \<Rightarrow> 'a list \<Rightarrow> 's \<Rightarrow> 'e + 's" where
  "rfold f [] s = Inr s"
| "rfold f (x # xs) s = rbind (f x s) (rfold f xs)"

lemma rfold_append: "rfold f (xs @ ys) s = rbind (rfold f xs s) (rfold f ys)"
proof (induction xs arbitrary: s)
  case (Cons x xs)
  then have "rfold f (xs @ ys) = (\<lambda>u. rbind (rfold f xs u) (rfold f ys))" by blast
  then show ?case by (simp add: rbind_assoc)
qed simp

lemma rfold_cong [fundef_cong]:
  assumes "xs = ys" and "s = t" and "\<And>x u. x \<in> set ys \<Longrightarrow> f x u = g x u"
  shows "rfold f xs s = rfold g ys t"
proof -
  have "rfold f ys u = rfold g ys u" if "\<And>x u. x \<in> set ys \<Longrightarrow> f x u = g x u" for u
    using that by (induction ys arbitrary: u) (auto intro: rbind_cong)
  with assms show ?thesis by simp
qed

text \<open>An invariant of the body is one of the loop.\<close>

lemma rfold_invariant:
  assumes "rfold f xs s = Inr t" and "P s"
    and "\<And>x u v. x \<in> set xs \<Longrightarrow> P u \<Longrightarrow> f x u = Inr v \<Longrightarrow> P v"
  shows "P t"
  using assms
proof (induction xs arbitrary: s)
  case Nil
  then show ?case by simp
next
  case (Cons x xs)
  from Cons.prems(1) obtain u where u: "f x s = Inr u" "rfold f xs u = Inr t"
    by (auto simp: rbind_eq_Inr)
  have "P u" using Cons.prems(2,3) u(1) by auto
  with u(2) Cons.prems(3) show ?case by (auto intro: Cons.IH)
qed

text \<open>A loop whose body can only make a fact true makes it true exactly by one of its steps.\<close>

lemma fold_grows:
  assumes "\<And>a s. P (f a s) \<longleftrightarrow> P s \<or> Q a"
  shows "P (fold f as s) \<longleftrightarrow> P s \<or> (\<exists>a \<in> set as. Q a)"
  by (induction as arbitrary: s) (auto simp: assms)

subsection \<open>Signed 128-bit integers, truncating division\<close>

definition i128_fits :: "int \<Rightarrow> bool" where
  "i128_fits n \<longleftrightarrow> - (2 ^ 127) \<le> n \<and> n < 2 ^ 127"

lemma i128_fits_0 [simp]: "i128_fits 0"
  by (simp add: i128_fits_def)

definition checked_i128 :: "int \<Rightarrow> int option" where
  "checked_i128 n = (if i128_fits n then Some n else None)"

lemma checked_i128_eq_Some [result_simps]: "checked_i128 n = Some m \<longleftrightarrow> i128_fits n \<and> m = n"
  by (auto simp: checked_i128_def)

text \<open>Rust's \<open>/\<close> and \<open>%\<close> round towards zero.\<close>

definition tdiv :: "int \<Rightarrow> int \<Rightarrow> int" where
  "tdiv a b = sgn a * sgn b * (\<bar>a\<bar> div \<bar>b\<bar>)"

definition tmod :: "int \<Rightarrow> int \<Rightarrow> int" where
  "tmod a b = sgn a * (\<bar>a\<bar> mod \<bar>b\<bar>)"

lemma tdiv_tmod: "tdiv a b * b + tmod a b = a"
proof -
  have q: "sgn a * sgn b * (\<bar>a\<bar> div \<bar>b\<bar>) * b = sgn a * ((\<bar>a\<bar> div \<bar>b\<bar>) * \<bar>b\<bar>)"
    by (cases "b = 0") (auto simp: sgn_if abs_if)
  have "sgn a * ((\<bar>a\<bar> div \<bar>b\<bar>) * \<bar>b\<bar>) + sgn a * (\<bar>a\<bar> mod \<bar>b\<bar>) = sgn a * \<bar>a\<bar>"
    by (simp add: distrib_left [symmetric])
  then show ?thesis
    by (simp only: tdiv_def tmod_def q sgn_mult_abs)
qed

lemma tmod_zero_iff: "tmod a b = 0 \<longleftrightarrow> b dvd a"
  by (auto simp: tmod_def sgn_eq_0_iff dvd_eq_mod_eq_0 [symmetric])

lemma tdiv_exact: "b dvd a \<Longrightarrow> tdiv a b * b = a"
  using tdiv_tmod [of a b] by (simp add: tmod_zero_iff [symmetric])

lemma abs_tdiv: "\<bar>tdiv a b\<bar> \<le> \<bar>a\<bar>"
proof (cases "a = 0 \<or> b = 0")
  case False
  have nonneg: "0 \<le> \<bar>a\<bar> div \<bar>b\<bar>"
    by (cases "b = 0") (simp_all add: pos_imp_zdiv_nonneg_iff)
  from False have "\<bar>tdiv a b\<bar> = \<bar>a\<bar> div \<bar>b\<bar>"
    using nonneg by (simp add: tdiv_def abs_mult abs_sgn_eq)
  moreover have "\<bar>a\<bar> div \<bar>b\<bar> \<le> \<bar>a\<bar> div 1"
    using False by (intro zdiv_mono2) auto
  ultimately show ?thesis by simp
qed (auto simp: tdiv_def)

subsection \<open>Orderings\<close>

datatype ordering = Less | Equal | Greater

definition cmp :: "'a::linorder \<Rightarrow> 'a \<Rightarrow> ordering" where
  "cmp a b = (if a < b then Less else if a = b then Equal else Greater)"

fun reverse_ord :: "ordering \<Rightarrow> ordering" where
  "reverse_ord Less = Greater"
| "reverse_ord Equal = Equal"
| "reverse_ord Greater = Less"

fun then_with :: "ordering \<Rightarrow> ordering \<Rightarrow> ordering" where
  "then_with Equal y = y"
| "then_with x y = x"

lemma cmp_eq [simp]:
  "cmp a b = Less \<longleftrightarrow> a < b" "cmp a b = Equal \<longleftrightarrow> a = b" "cmp a b = Greater \<longleftrightarrow> b < a"
  by (auto simp: cmp_def)

lemma cmp_eq' [simp]:
  "Less = cmp a b \<longleftrightarrow> a < b" "Equal = cmp a b \<longleftrightarrow> a = b" "Greater = cmp a b \<longleftrightarrow> b < a"
  by (auto simp: cmp_def)

lemma cmp_refl [simp]: "cmp a a = Equal"
  by (simp add: cmp_def)

lemma reverse_cmp: "reverse_ord (cmp a b) = cmp b a"
  by (auto simp: cmp_def)

end
