(* ===== verification/Exact_Decimal.thy ===== *)
theory Exact_Decimal
  imports Prelude Complex_Main "HOL-Library.Word"
begin

section \<open>Exact decimals\<close>

text \<open>
  \<open>crates/domain/src/exact.rs\<close>: an integer and its scale, compared numerically, added
  and negated exactly, read from and written to the wire's two 64-bit halves, parsed from
  and printed as plain decimal text. Also \<open>multiply\<close> of \<open>crates/bor/src/orders.rs\<close> and the
  rounding to cents of \<open>crates/bor/src/numbers.rs\<close>, which act on these numbers alone.

  The two bounds come from the contract's data dictionary (a crate outside this
  repository); their values here are the ones the source's own text and tests fix: a
  nineteenth place and a thirty-ninth digit are refused.
\<close>

definition PLACES :: nat where "PLACES = 18"

definition DIGITS :: nat where "DIGITS = 38"

definition LIMIT :: int where "LIMIT = 10 ^ DIGITS"

datatype out_of_range = OutScale nat | OutDigits | NotDecimal string

record exact =
  integer :: int
  scale :: nat

text \<open>What every constructor establishes: no value outside it is ever made.\<close>

definition exact_ok :: "exact \<Rightarrow> bool" where
  "exact_ok x \<longleftrightarrow> scale x \<le> PLACES \<and> \<bar>integer x\<bar> < LIMIT"

definition mk :: "int \<Rightarrow> nat \<Rightarrow> exact" where
  "mk n s = \<lparr>integer = n, scale = s\<rparr>"

definition ex_zero :: exact where "ex_zero = mk 0 0"

definition ex_one :: exact where "ex_one = mk 1 0"

definition ex_new :: "int \<Rightarrow> nat \<Rightarrow> out_of_range + exact" where
  "ex_new n s =
     (if s > PLACES then Inl (OutScale s)
      else if \<bar>n\<bar> \<ge> LIMIT then Inl OutDigits
      else Inr (mk n s))"

definition is_zero :: "exact \<Rightarrow> bool" where "is_zero x \<longleftrightarrow> integer x = 0"

definition is_negative :: "exact \<Rightarrow> bool" where "is_negative x \<longleftrightarrow> integer x < 0"

definition negated :: "exact \<Rightarrow> exact" where "negated x = mk (- integer x) (scale x)"

subsection \<open>The wire\<close>

record decimal =
  high :: "64 word"
  low :: "64 word"
  d_scale :: nat

definition from_wire :: "decimal \<Rightarrow> out_of_range + exact" where
  "from_wire d = ex_new (sint (high d) * 2 ^ 64 + uint (low d)) (d_scale d)"

definition to_wire :: "exact \<Rightarrow> decimal" where
  "to_wire x = \<lparr>high = word_of_int (integer x div 2 ^ 64), low = word_of_int (integer x), d_scale = scale x\<rparr>"

subsection \<open>Sums\<close>

definition widen :: "nat \<Rightarrow> exact \<Rightarrow> out_of_range + int" where
  "widen s x = ok_or OutDigits (checked_i128 (integer x * 10 ^ (s - scale x)))"

definition checked_add :: "exact \<Rightarrow> exact \<Rightarrow> out_of_range + exact" where
  "checked_add a b =
     (let s = max (scale a) (scale b) in
      rbind (widen s a) (\<lambda>x. rbind (widen s b) (\<lambda>y.
        rbind (ok_or OutDigits (checked_i128 (x + y))) (\<lambda>z. ex_new z s))))"

definition checked_sub :: "exact \<Rightarrow> exact \<Rightarrow> out_of_range + exact" where
  "checked_sub a b = checked_add a (negated b)"

subsection \<open>Comparison and the least scale\<close>

definition parts :: "exact \<Rightarrow> int \<times> int" where
  "parts x =
     (let m = \<bar>integer x\<bar>; u = 10 ^ scale x in (m div u, (m mod u) * 10 ^ (PLACES - scale x)))"

definition cmp_parts :: "int \<times> int \<Rightarrow> int \<times> int \<Rightarrow> ordering" where
  "cmp_parts p q = then_with (cmp (fst p) (fst q)) (cmp (snd p) (snd q))"

definition ex_cmp :: "exact \<Rightarrow> exact \<Rightarrow> ordering" where
  "ex_cmp a b =
     (case cmp (sgn (integer a)) (sgn (integer b)) of
        Equal \<Rightarrow>
          (let m = cmp_parts (parts a) (parts b) in if integer a < 0 then reverse_ord m else m)
      | unequal \<Rightarrow> unequal)"

definition ex_eq :: "exact \<Rightarrow> exact \<Rightarrow> bool" where "ex_eq a b \<longleftrightarrow> ex_cmp a b = Equal"

definition ex_less :: "exact \<Rightarrow> exact \<Rightarrow> bool" where "ex_less a b \<longleftrightarrow> ex_cmp a b = Less"

definition ex_le :: "exact \<Rightarrow> exact \<Rightarrow> bool" where "ex_le a b \<longleftrightarrow> ex_cmp a b \<noteq> Greater"

fun trim_from :: "int \<Rightarrow> nat \<Rightarrow> int \<times> nat" where
  "trim_from n 0 = (n, 0)"
| "trim_from n (Suc s) = (if tmod n 10 = 0 then trim_from (tdiv n 10) s else (n, Suc s))"

definition trimmed :: "exact \<Rightarrow> int \<times> nat" where
  "trimmed x = trim_from (integer x) (scale x)"

subsection \<open>Text\<close>

definition digit_char :: "int \<Rightarrow> char" where "digit_char n = char_of (48 + n)"

definition digit_val :: "char \<Rightarrow> int" where "digit_val c = of_char c - 48"

definition is_digit :: "char \<Rightarrow> bool" where
  "is_digit c \<longleftrightarrow> 48 \<le> (of_char c :: int) \<and> (of_char c :: int) \<le> 57"

text \<open>An unsigned integer as \<open>to_string\<close> writes it, and as \<open>parse\<close> reads digits.\<close>

function show_uint :: "int \<Rightarrow> string" where
  "show_uint n = (if n < 10 then [digit_char n] else show_uint (n div 10) @ [digit_char (n mod 10)])"
  by pat_completeness auto
termination by (relation "measure nat") auto

declare show_uint.simps [simp del]

definition read_uint :: "string \<Rightarrow> int" where
  "read_uint s = foldl (\<lambda>a c. 10 * a + digit_val c) 0 s"

text \<open>\<open>{:0>w}\<close>: padded on the left with zeros to a least width.\<close>

definition pad0 :: "nat \<Rightarrow> string \<Rightarrow> string" where
  "pad0 w s = replicate (w - length s) (CHR ''0'') @ s"

definition to_string :: "exact \<Rightarrow> string" where
  "to_string x =
     (let sign = (if integer x < 0 then ''-'' else []);
          digits = show_uint \<bar>integer x\<bar>
      in if scale x = 0 then sign @ digits
         else let padded = pad0 (scale x + 1) digits;
                  cut = length padded - scale x
              in sign @ take cut padded @ ''.'' @ drop cut padded)"

fun split_once :: "char \<Rightarrow> string \<Rightarrow> (string \<times> string) option" where
  "split_once c [] = None"
| "split_once c (x # xs) =
     (if x = c then Some ([], xs)
      else map_option (\<lambda>(a, b). (x # a, b)) (split_once c xs))"

definition strip_minus :: "string \<Rightarrow> bool \<times> string" where
  "strip_minus text =
     (case text of [] \<Rightarrow> (False, [])
      | c # rest \<Rightarrow> if c = CHR ''-'' then (True, rest) else (False, text))"

definition from_str :: "string \<Rightarrow> out_of_range + exact" where
  "from_str text =
     (let (negative, unsigned) = strip_minus text;
          (whole, fraction) =
            (case split_once (CHR ''.'') unsigned of None \<Rightarrow> (unsigned, []) | Some p \<Rightarrow> p)
      in if whole = [] \<or> \<not> list_all is_digit whole \<or> \<not> list_all is_digit fraction
            \<or> (CHR ''.'' \<in> set unsigned \<and> fraction = [])
         then Inl (NotDecimal text)
         else if int (length fraction) \<ge> 2 ^ 32 then Inl (NotDecimal text)
         else if length fraction > PLACES then Inl (OutScale (length fraction))
         else let significant = dropWhile (\<lambda>c. c = CHR ''0'') (whole @ fraction)
              in if length significant > 38 then Inl OutDigits
                 else let m = read_uint significant
                      in ex_new (if negative then - m else m) (length fraction))"

subsection \<open>Products and cents\<close>

text \<open>\<open>multiply\<close> of the order path and the cent rounding of the book.\<close>

fun trim_over :: "int \<Rightarrow> nat \<Rightarrow> int \<times> nat" where
  "trim_over n s = (if s > 18 \<and> tmod n 10 = 0 then trim_over (tdiv n 10) (s - 1) else (n, s))"

declare trim_over.simps [simp del]

definition ex_multiply :: "exact \<Rightarrow> exact \<Rightarrow> out_of_range + exact" where
  "ex_multiply a b =
     rbind (ok_or OutDigits (checked_i128 (integer a * integer b))) (\<lambda>n.
       let s = scale a + scale b; (n', s') = trim_over n s in ex_new n' s')"

definition half_even :: "int \<Rightarrow> int \<Rightarrow> int" where
  "half_even n d =
     (let q = n div d; r = n mod d in if r * 2 > d \<or> (r * 2 = d \<and> q mod 2 = 1) then q + 1 else q)"

definition ex_cents :: "exact \<Rightarrow> out_of_range + exact" where
  "ex_cents x =
     (if scale x \<le> 2 then Inr x
      else rbind (ok_or OutDigits (checked_i128 (10 ^ (scale x - 2)))) (\<lambda>power.
        rbind (ok_or OutDigits (checked_i128 (half_even \<bar>integer x\<bar> \<bar>power\<bar>))) (\<lambda>q.
          ex_new (if integer x < 0 then - q else q) 2)))"

subsection \<open>What a value stands for\<close>

text \<open>The number a decimal states, and the same number in units of the last place.\<close>

definition ex_val :: "exact \<Rightarrow> rat" where
  "ex_val x = of_int (integer x) / 10 ^ scale x"

definition units :: "exact \<Rightarrow> int" where
  "units x = integer x * 10 ^ (PLACES - scale x)"

lemma mk_simps [simp]: "integer (mk n s) = n" "scale (mk n s) = s"
  by (simp_all add: mk_def)

lemma mk_eq_iff [simp]: "mk n s = mk m t \<longleftrightarrow> n = m \<and> s = t"
  by (simp add: mk_def)

lemma mk_integer_scale [simp]: "mk (integer x) (scale x) = x"
  by (simp add: mk_def)

lemma LIMIT_pos [simp]: "0 < LIMIT"
  by (simp add: LIMIT_def)

lemma LIMIT_fits: "\<bar>n\<bar> < LIMIT \<Longrightarrow> i128_fits n"
  by (auto simp: i128_fits_def LIMIT_def DIGITS_def)

lemma ex_new_eq_Inr [result_simps]:
  "ex_new n s = Inr x \<longleftrightarrow> s \<le> PLACES \<and> \<bar>n\<bar> < LIMIT \<and> x = mk n s"
  by (auto simp: ex_new_def)

lemma ex_new_ok: "ex_new n s = Inr x \<Longrightarrow> exact_ok x"
  by (auto simp: ex_new_eq_Inr exact_ok_def)

lemma exact_ok_negated [simp]: "exact_ok (negated x) = exact_ok x"
  by (simp add: exact_ok_def negated_def)

lemma exact_ok_zero [simp]: "exact_ok ex_zero"
  by (simp add: exact_ok_def ex_zero_def)

lemma ex_val_negated [simp]: "ex_val (negated x) = - ex_val x"
  by (simp add: ex_val_def negated_def)

lemma scale_negated [simp]: "scale (negated x) = scale x"
  by (simp add: negated_def)

lemma units_val: "scale x \<le> PLACES \<Longrightarrow> of_int (units x) = ex_val x * 10 ^ PLACES"
proof -
  assume "scale x \<le> PLACES"
  then have "(10 :: rat) ^ (PLACES - scale x) * 10 ^ scale x = 10 ^ PLACES"
    by (simp add: power_add [symmetric])
  then show ?thesis by (simp add: units_def ex_val_def field_simps)
qed

lemma units_eq_iff: "scale a \<le> PLACES \<Longrightarrow> scale b \<le> PLACES \<Longrightarrow> units a = units b \<longleftrightarrow> ex_val a = ex_val b"
  using units_val [of a] units_val [of b] by (metis mult_cancel_right of_int_eq_iff power_eq_0_iff zero_neq_numeral)

lemma units_less_iff: "scale a \<le> PLACES \<Longrightarrow> scale b \<le> PLACES \<Longrightarrow> units a < units b \<longleftrightarrow> ex_val a < ex_val b"
proof -
  assume "scale a \<le> PLACES" "scale b \<le> PLACES"
  then have "units a < units b \<longleftrightarrow> ex_val a * 10 ^ PLACES < ex_val b * 10 ^ PLACES"
    by (metis of_int_less_iff units_val)
  then show ?thesis by simp
qed

lemma is_zero_val: "is_zero x \<longleftrightarrow> ex_val x = 0"
  by (simp add: is_zero_def ex_val_def)

lemma is_negative_val: "is_negative x \<longleftrightarrow> ex_val x < 0"
  by (simp add: is_negative_def ex_val_def divide_less_0_iff)

subsection \<open>Comparison is numeric\<close>

lemma cmp_parts_lex:
  fixes q r q' r' M :: int
  assumes "0 \<le> r" "r < M" "0 \<le> r'" "r' < M"
  shows "cmp_parts (q, r) (q', r') = cmp (q * M + r) (q' * M + r')"
proof -
  have lt: "x * M + y < x' * M + y'"
    if "x < x'" "0 \<le> y" "y < M" "0 \<le> y'" for x x' y y' :: int
  proof -
    from that have "(x + 1) * M \<le> x' * M" by (intro mult_right_mono) auto
    then show ?thesis using that by (simp add: distrib_right)
  qed
  consider "q < q'" | "q = q'" | "q' < q" by linarith
  then show ?thesis
  proof cases
    case 1
    then show ?thesis using lt [OF 1] assms by (simp add: cmp_parts_def cmp_def)
  next
    case 2
    then show ?thesis by (auto simp: cmp_parts_def cmp_def)
  next
    case 3
    then show ?thesis using lt [OF 3, of r' r] assms by (auto simp: cmp_parts_def cmp_def)
  qed
qed

lemma parts_units:
  assumes "scale x \<le> PLACES"
  obtains q r where "parts x = (q, r)" "0 \<le> r" "r < 10 ^ PLACES" "q * 10 ^ PLACES + r = \<bar>units x\<bar>"
proof -
  let ?m = "\<bar>integer x\<bar>" and ?u = "10 ^ scale x :: int" and ?w = "10 ^ (PLACES - scale x) :: int"
  have uw: "?u * ?w = 10 ^ PLACES" using assms by (simp add: power_add [symmetric])
  have mw: "?m mod ?u * ?w < ?u * ?w" by (intro mult_strict_right_mono) simp_all
  have "?m div ?u * (?u * ?w) + ?m mod ?u * ?w = (?m div ?u * ?u + ?m mod ?u) * ?w"
    by (simp only: distrib_right mult.assoc)
  also have "\<dots> = \<bar>units x\<bar>" by (simp only: div_mult_mod_eq units_def abs_mult) simp
  finally show thesis
    using that [of "?m div ?u" "?m mod ?u * ?w"] mw by (simp add: parts_def Let_def uw)
qed

lemma cmp_parts_units:
  assumes "scale a \<le> PLACES" "scale b \<le> PLACES"
  shows "cmp_parts (parts a) (parts b) = cmp \<bar>units a\<bar> \<bar>units b\<bar>"
proof -
  obtain q r where a: "parts a = (q, r)" "0 \<le> r" "r < 10 ^ PLACES" "q * 10 ^ PLACES + r = \<bar>units a\<bar>"
    by (rule parts_units [OF assms(1)])
  obtain q' r' where b: "parts b = (q', r')" "0 \<le> r'" "r' < 10 ^ PLACES" "q' * 10 ^ PLACES + r' = \<bar>units b\<bar>"
    by (rule parts_units [OF assms(2)])
  show ?thesis using cmp_parts_lex [OF a(2,3) b(2,3), of q q'] a(1,4) b(1,4) by simp
qed

lemma sgn_units [simp]: "sgn (units x) = sgn (integer x)"
  by (simp add: units_def sgn_mult)

lemma ex_cmp_units:
  assumes "scale a \<le> PLACES" "scale b \<le> PLACES"
  shows "ex_cmp a b = cmp (units a) (units b)"
proof (cases "sgn (units a) = sgn (units b)")
  case True
  then have same: "cmp (sgn (integer a)) (sgn (integer b)) = Equal" by simp
  have neg: "integer a < 0 \<longleftrightarrow> units a < 0" by (metis sgn_less sgn_units)
  show ?thesis
  proof (cases "units a < 0")
    case True
    with \<open>sgn (units a) = sgn (units b)\<close> have "units b < 0" by (metis sgn_less)
    have "ex_cmp a b = reverse_ord (cmp_parts (parts a) (parts b))"
      using True same neg by (simp add: ex_cmp_def Let_def)
    also have "\<dots> = cmp \<bar>units b\<bar> \<bar>units a\<bar>"
      by (simp only: cmp_parts_units [OF assms] reverse_cmp)
    finally show ?thesis using True \<open>units b < 0\<close> by (simp add: cmp_def)
  next
    case False
    with \<open>sgn (units a) = sgn (units b)\<close> have "\<not> units b < 0" by (metis sgn_less)
    with False same neg show ?thesis
      by (simp add: ex_cmp_def Let_def cmp_parts_units [OF assms])
  qed
next
  case False
  then have "cmp (sgn (units a)) (sgn (units b)) = cmp (units a) (units b)"
    by (auto simp: cmp_def sgn_if split: if_splits)
  with False show ?thesis by (auto simp: ex_cmp_def split: ordering.splits)
qed

lemma ex_cmp_val:
  assumes "scale a \<le> PLACES" "scale b \<le> PLACES"
  shows "ex_cmp a b = cmp (ex_val a) (ex_val b)"
  using ex_cmp_units [OF assms] units_eq_iff [OF assms] units_less_iff [OF assms]
  by (auto simp: cmp_def)

subsection \<open>Sums\<close>

lemma widen_eq_Inr [result_simps]:
  "widen s x = Inr n \<longleftrightarrow> n = integer x * 10 ^ (s - scale x) \<and> i128_fits n"
  by (auto simp: widen_def ok_or_eq_Inr checked_i128_eq_Some)

lemma widened_val:
  assumes "scale x \<le> s"
  shows "of_int (integer x * 10 ^ (s - scale x)) / 10 ^ s = ex_val x"
proof -
  have "(10 :: rat) ^ (s - scale x) * 10 ^ scale x = 10 ^ s"
    using assms by (simp add: power_add [symmetric])
  then show ?thesis by (simp add: ex_val_def field_simps)
qed

lemma checked_add_eq_Inr:
  "checked_add a b = Inr c \<longleftrightarrow>
     (let s = max (scale a) (scale b);
          x = integer a * 10 ^ (s - scale a); y = integer b * 10 ^ (s - scale b)
      in i128_fits x \<and> i128_fits y \<and> s \<le> PLACES \<and> \<bar>x + y\<bar> < LIMIT \<and> c = mk (x + y) s)"
  by (auto simp: checked_add_def Let_def rbind_eq_Inr widen_eq_Inr ok_or_eq_Inr
      checked_i128_eq_Some ex_new_eq_Inr LIMIT_fits)

lemma checked_add_val:
  assumes "checked_add a b = Inr c"
  shows "ex_val c = ex_val a + ex_val b"
proof -
  let ?s = "max (scale a) (scale b)"
  from assms have "c = mk (integer a * 10 ^ (?s - scale a) + integer b * 10 ^ (?s - scale b)) ?s"
    by (simp add: checked_add_eq_Inr Let_def)
  then have "ex_val c = of_int (integer a * 10 ^ (?s - scale a)) / 10 ^ ?s
      + of_int (integer b * 10 ^ (?s - scale b)) / 10 ^ ?s"
    by (simp add: ex_val_def add_divide_distrib)
  then show ?thesis by (simp only: widened_val max.cobounded1 max.cobounded2)
qed

lemma checked_add_ok: "checked_add a b = Inr c \<Longrightarrow> exact_ok c"
  by (auto simp: checked_add_eq_Inr Let_def exact_ok_def)

lemma checked_add_scale: "checked_add a b = Inr c \<Longrightarrow> scale c = max (scale a) (scale b)"
  by (auto simp: checked_add_eq_Inr Let_def)

lemma checked_add_comm: "checked_add a b = checked_add b a"
proof -
  have err: "widen s x = Inl e \<Longrightarrow> e = OutDigits" for s x e
    by (auto simp: widen_def ok_or_def split: option.splits)
  show ?thesis
    by (cases "widen (max (scale a) (scale b)) a"; cases "widen (max (scale a) (scale b)) b")
      (auto simp: checked_add_def max.commute add.commute dest: err)
qed

lemma ex_zero_val [simp]: "ex_val ex_zero = 0" "integer ex_zero = 0" "scale ex_zero = 0"
  by (simp_all add: ex_val_def ex_zero_def)

lemma checked_add_zero: "exact_ok a \<Longrightarrow> checked_add ex_zero a = Inr a"
  by (simp add: checked_add_eq_Inr Let_def exact_ok_def LIMIT_fits)

subsection \<open>The wire\<close>

lemma from_to_wire:
  assumes "exact_ok x"
  shows "from_wire (to_wire x) = Inr x"
proof -
  from assms have fit: "- (2 ^ 127) \<le> integer x" "integer x < 2 ^ 127"
    using LIMIT_fits by (auto simp: exact_ok_def i128_fits_def)
  have h: "sint (word_of_int (integer x div 2 ^ 64) :: 64 word) = integer x div 2 ^ 64"
    using fit by (simp add: sint_sbintrunc' signed_take_bit_int_eq_self)
  have l: "uint (word_of_int (integer x) :: 64 word) = integer x mod 2 ^ 64"
    by (simp add: uint_word_of_int)
  have "sint (word_of_int (integer x div 2 ^ 64) :: 64 word) * 2 ^ 64
      + uint (word_of_int (integer x) :: 64 word) = integer x"
    by (simp only: h l div_mult_mod_eq)
  then have "from_wire (to_wire x) = ex_new (integer x) (scale x)"
    by (simp only: from_wire_def to_wire_def decimal.simps)
  with assms show ?thesis
    by (simp add: ex_new_eq_Inr exact_ok_def)
qed

lemma to_from_wire:
  assumes "from_wire d = Inr x"
  shows "to_wire x = d"
proof -
  have n: "integer x = sint (high d) * 2 ^ 64 + uint (low d)" and s: "scale x = d_scale d"
    using assms by (auto simp: from_wire_def ex_new_eq_Inr)
  have lt: "0 \<le> uint (low d)" "uint (low d) < 2 ^ 64"
    using uint_bounded [of "low d"] by simp_all
  then have "integer x div 2 ^ 64 = sint (high d)" by (simp add: n)
  moreover have "(word_of_int (integer x) :: 64 word) = low d"
  proof (rule word_uint_eqI)
    have "integer x mod 2 ^ 64 = uint (low d)" using lt by (simp add: n)
    then show "uint (word_of_int (integer x) :: 64 word) = uint (low d)"
      by (simp add: uint_word_of_int)
  qed
  ultimately show ?thesis using s by (simp add: to_wire_def)
qed

subsection \<open>The least scale\<close>

lemma trim_from_props:
  assumes "trim_from n s = (m, r)"
  shows "r \<le> s \<and> m * 10 ^ (s - r) = n \<and> (r = 0 \<or> \<not> 10 dvd m)"
  using assms
proof (induction n s rule: trim_from.induct)
  case (2 n s)
  show ?case
  proof (cases "tmod n 10 = 0")
    case True
    with 2 have IH: "r \<le> s \<and> m * 10 ^ (s - r) = tdiv n 10 \<and> (r = 0 \<or> \<not> 10 dvd m)" by simp
    then have "m * 10 ^ (Suc s - r) = tdiv n 10 * 10" by (simp add: Suc_diff_le)
    with IH True show ?thesis by (simp add: tdiv_exact tmod_zero_iff)
  qed (use 2 in \<open>auto simp: tmod_zero_iff\<close>)
qed simp

lemma canonical_unique:
  fixes m n :: int
  assumes "m * 10 ^ t = n * 10 ^ r" and "r = 0 \<or> \<not> 10 dvd m" and "t = 0 \<or> \<not> 10 dvd n"
  shows "r = t \<and> m = n"
proof -
  have no: False
    if eq: "x * 10 ^ c = y * 10 ^ b" and lt: "b < c" and c: "\<not> 10 dvd y" for x y :: int and b c
  proof -
    have "x * 10 ^ (c - b) * 10 ^ b = y * 10 ^ b"
      using eq lt by (simp add: mult.assoc power_add [symmetric])
    then have "y = x * 10 ^ (c - b)" by simp
    with lt have "10 dvd y" by (simp add: dvd_mult)
    with c show False by simp
  qed
  have rt: "r = t"
  proof (rule linorder_cases [of r t])
    assume "r < t"
    then show ?thesis using no [OF assms(1) \<open>r < t\<close>] assms(3) by auto
  next
    assume "t < r"
    then show ?thesis using no [OF assms(1) [symmetric] \<open>t < r\<close>] assms(2) by auto
  qed simp
  then have "m * 10 ^ r = n * 10 ^ r" using assms(1) by simp
  with rt show ?thesis by simp
qed

lemma trimmed_eq_iff: "trimmed a = trimmed b \<longleftrightarrow> ex_val a = ex_val b"
proof -
  obtain m r where a: "trimmed a = (m, r)" by force
  obtain n t where b: "trimmed b = (n, t)" by force
  from trim_from_props [OF a [unfolded trimmed_def]]
  have A: "r \<le> scale a" "m * 10 ^ (scale a - r) = integer a" "r = 0 \<or> \<not> 10 dvd m" by auto
  from trim_from_props [OF b [unfolded trimmed_def]]
  have B: "t \<le> scale b" "n * 10 ^ (scale b - t) = integer b" "t = 0 \<or> \<not> 10 dvd n" by auto
  have va: "ex_val a = of_int m / 10 ^ r"
    using widened_val [of "mk m r" "scale a"] A by (simp add: ex_val_def)
  have vb: "ex_val b = of_int n / 10 ^ t"
    using widened_val [of "mk n t" "scale b"] B by (simp add: ex_val_def)
  have "ex_val a = ex_val b \<longleftrightarrow> of_int (m * 10 ^ t) = (of_int (n * 10 ^ r) :: rat)"
    by (simp add: va vb field_simps)
  also have "\<dots> \<longleftrightarrow> m * 10 ^ t = n * 10 ^ r" by (simp only: of_int_eq_iff)
  also have "\<dots> \<longleftrightarrow> (m, r) = (n, t)"
    using canonical_unique [OF _ A(3) B(3)] by blast
  finally show ?thesis by (simp add: a b)
qed

subsection \<open>Text\<close>

lemma of_char_digit: "0 \<le> n \<Longrightarrow> n < 10 \<Longrightarrow> of_char (digit_char n) = (48 + n :: int)"
  by (simp add: digit_char_def)

lemma is_digit_char [simp]: "0 \<le> n \<Longrightarrow> n < 10 \<Longrightarrow> is_digit (digit_char n)"
  by (simp add: is_digit_def of_char_digit)

lemma digit_val_char [simp]: "0 \<le> n \<Longrightarrow> n < 10 \<Longrightarrow> digit_val (digit_char n) = n"
  by (simp add: digit_val_def of_char_digit)

lemma digit_val_bounds: "is_digit c \<Longrightarrow> 0 \<le> digit_val c \<and> digit_val c \<le> 9"
  by (simp add: is_digit_def digit_val_def)

lemma digit_0 [simp]: "is_digit CHR ''0''" "digit_val CHR ''0'' = 0"
  by (simp_all add: is_digit_def digit_val_def)

lemma digit_val_0_iff: "is_digit c \<Longrightarrow> digit_val c = 0 \<longleftrightarrow> c = CHR ''0''"
proof -
  assume d: "is_digit c"
  have "digit_val c = 0 \<longleftrightarrow> (of_char c :: int) = of_char CHR ''0''" by (simp add: digit_val_def)
  then show ?thesis by (simp only: of_char_eq_iff)
qed

lemma read_uint_Nil [simp]: "read_uint [] = 0"
  by (simp add: read_uint_def)

lemma read_uint_snoc [simp]: "read_uint (s @ [c]) = 10 * read_uint s + digit_val c"
  by (simp add: read_uint_def)

lemma read_uint_Cons: "read_uint (c # s) = digit_val c * 10 ^ length s + read_uint s"
proof (induction s rule: rev_induct)
  case (snoc d s)
  have "read_uint (c # s @ [d]) = 10 * read_uint (c # s) + digit_val d"
    using read_uint_snoc [of "c # s" d] by simp
  with snoc show ?case by simp
qed (simp add: read_uint_def)

lemma read_drop_zeros: "read_uint (dropWhile (\<lambda>c. c = CHR ''0'') s) = read_uint s"
  by (induction s) (simp_all add: read_uint_Cons)

lemma read_uint_nonneg: "list_all is_digit s \<Longrightarrow> 0 \<le> read_uint s"
  by (induction s) (auto simp: read_uint_Cons dest: digit_val_bounds)

lemma show_uint_digits: "0 \<le> n \<Longrightarrow> list_all is_digit (show_uint n) \<and> show_uint n \<noteq> []"
proof (induction n rule: show_uint.induct)
  case (1 n)
  then show ?case by (subst (1 2) show_uint.simps) auto
qed

lemma read_show_uint: "0 \<le> n \<Longrightarrow> read_uint (show_uint n) = n"
proof (induction n rule: show_uint.induct)
  case (1 n)
  show ?case
  proof (cases "n < 10")
    case True
    with 1 show ?thesis by (subst show_uint.simps) (simp add: read_uint_def)
  next
    case False
    with 1 show ?thesis by (subst show_uint.simps) simp
  qed
qed

lemma length_show_uint: "0 \<le> n \<Longrightarrow> n < 10 ^ Suc k \<Longrightarrow> length (show_uint n) \<le> Suc k"
proof (induction k arbitrary: n)
  case 0
  then show ?case by (subst show_uint.simps) simp
next
  case (Suc k)
  show ?case
  proof (cases "n < 10")
    case True
    then show ?thesis by (subst show_uint.simps) simp
  next
    case False
    from Suc.prems have "n div 10 < 10 ^ Suc k" by simp
    with False Suc have "length (show_uint (n div 10)) \<le> Suc k" by simp
    with False show ?thesis by (subst show_uint.simps) simp
  qed
qed

lemma split_once_none: "c \<notin> set s \<Longrightarrow> split_once c s = None"
  by (induction s) auto

lemma split_once_some: "c \<notin> set a \<Longrightarrow> split_once c (a @ c # b) = Some (a, b)"
  by (induction a) auto

lemma digits_have_no_point: "list_all is_digit s \<Longrightarrow> CHR ''.'' \<notin> set s"
  by (auto simp: list_all_iff is_digit_def)

lemma strip_minus_digits: "list_all is_digit s \<Longrightarrow> s \<noteq> [] \<Longrightarrow> strip_minus (s @ t) = (False, s @ t)"
  by (cases s) (auto simp: strip_minus_def is_digit_def)

lemma strip_minus_minus: "strip_minus (CHR ''-'' # s) = (True, s)"
  by (simp add: strip_minus_def)

lemma pad0_drop: "dropWhile (\<lambda>c. c = CHR ''0'') (pad0 w s) = dropWhile (\<lambda>c. c = CHR ''0'') s"
proof -
  have "dropWhile (\<lambda>c. c = CHR ''0'') (replicate k CHR ''0'' @ s) = dropWhile (\<lambda>c. c = CHR ''0'') s" for k
    by (induction k) auto
  then show ?thesis by (simp add: pad0_def)
qed

lemma pad0_length: "w \<le> length (pad0 w s)"
  by (simp add: pad0_def)

lemma pad0_digits: "list_all is_digit s \<Longrightarrow> list_all is_digit (pad0 w s)"
  by (auto simp: pad0_def list_all_iff)

lemma from_str_split:
  assumes "list_all is_digit whole" "whole \<noteq> []" "list_all is_digit fraction" "length fraction \<le> PLACES"
    and "body = (if fraction = [] then whole else whole @ ''.'' @ fraction)"
    and "text = (if neg then ''-'' else []) @ body"
    and "length (dropWhile (\<lambda>c. c = CHR ''0'') (whole @ fraction)) \<le> 38"
  shows "from_str text = (let m = read_uint (whole @ fraction) in ex_new (if neg then - m else m) (length fraction))"
proof -
  have strip: "strip_minus text = (neg, body)"
    using assms(1,2,5,6) strip_minus_digits [of whole] strip_minus_digits [of whole "[]"]
    by (auto simp: strip_minus_minus)
  have short: "\<not> int (length fraction) \<ge> 2 ^ 32"
    using assms(4) by (simp add: PLACES_def)
  have split: "(case split_once (CHR ''.'') body of None \<Rightarrow> (body, []) | Some p \<Rightarrow> p) = (whole, fraction)"
    using assms(1,5) by (auto simp: split_once_none split_once_some digits_have_no_point)
  have point: "CHR ''.'' \<in> set body \<Longrightarrow> fraction \<noteq> []"
    using assms(1,5) by (auto dest: digits_have_no_point)
  show ?thesis
    using assms(1-4,7) short point
    by (auto simp: from_str_def strip split read_drop_zeros Let_def)
qed

lemma from_to_string:
  assumes "exact_ok x"
  shows "from_str (to_string x) = Inr x"
proof -
  let ?n = "\<bar>integer x\<bar>" and ?neg = "integer x < 0" and ?z = "\<lambda>c. c = CHR ''0''"
  let ?D = "show_uint ?n"
  have D: "list_all is_digit ?D" "?D \<noteq> []" "read_uint ?D = ?n"
    using show_uint_digits [of ?n] read_show_uint [of ?n] by simp_all
  have "length ?D \<le> Suc 37"
    using assms by (intro length_show_uint) (simp_all add: exact_ok_def LIMIT_def DIGITS_def)
  then have short: "length (dropWhile ?z ?D) \<le> 38"
    using length_dropWhile_le [of ?z ?D] by simp
  have answer: "ex_new (if ?neg then - ?n else ?n) (scale x) = Inr x"
    using assms by (auto simp: ex_new_eq_Inr exact_ok_def)
  show ?thesis
  proof (cases "scale x = 0")
    case True
    with from_str_split [of ?D "[]" ?D "to_string x" ?neg] D short answer show ?thesis
      by (simp add: to_string_def)
  next
    case False
    let ?P = "pad0 (scale x + 1) ?D"
    let ?c = "length ?P - scale x"
    have len: "scale x + 1 \<le> length ?P" by (rule pad0_length)
    have digits: "list_all is_digit ?P" using D(1) by (rule pad0_digits)
    have parts: "take ?c ?P @ drop ?c ?P = ?P" by simp
    have read: "read_uint ?P = ?n"
      by (metis D(3) pad0_drop read_drop_zeros)
    have lf: "length (drop ?c ?P) = scale x" using len by simp
    have "from_str (to_string x) = (let m = read_uint (take ?c ?P @ drop ?c ?P)
        in ex_new (if ?neg then - m else m) (length (drop ?c ?P)))"
    proof (rule from_str_split)
      show "list_all is_digit (take ?c ?P)" "list_all is_digit (drop ?c ?P)"
        using digits by (auto simp: list_all_iff dest: in_set_takeD in_set_dropD)
      show "take ?c ?P \<noteq> []" using len by auto
      show "length (drop ?c ?P) \<le> PLACES" using assms lf by (simp add: exact_ok_def)
      show "to_string x = (if ?neg then ''-'' else []) @
          (if drop ?c ?P = [] then take ?c ?P else take ?c ?P @ ''.'' @ drop ?c ?P)"
        using False lf by (auto simp: to_string_def Let_def)
      show "length (dropWhile ?z (take ?c ?P @ drop ?c ?P)) \<le> 38"
        using short by (simp add: pad0_drop)
    qed simp
    then show ?thesis by (simp only: parts read lf Let_def answer)
  qed
qed

subsection \<open>Products\<close>

lemma trim_over_props:
  assumes "trim_over n s = (m, r)"
  shows "r \<le> s \<and> m * 10 ^ (s - r) = n \<and> (r \<le> 18 \<or> \<not> 10 dvd m)"
  using assms
proof (induction n s rule: trim_over.induct)
  case (1 n s)
  show ?case
  proof (cases "s > 18 \<and> tmod n 10 = 0")
    case True
    with 1 have IH: "r \<le> s - 1 \<and> m * 10 ^ (s - 1 - r) = tdiv n 10 \<and> (r \<le> 18 \<or> \<not> 10 dvd m)"
      by (simp add: trim_over.simps [of n s])
    with True have "Suc (s - 1 - r) = s - r" by linarith
    then have "m * 10 ^ (s - r) = m * 10 ^ (s - 1 - r) * 10" by (metis mult.assoc power_Suc2)
    with IH True have "m * 10 ^ (s - r) = n" by (simp add: tdiv_exact tmod_zero_iff)
    moreover from IH have "r \<le> s" by linarith
    ultimately show ?thesis using IH by blast
  next
    case False
    with 1 show ?thesis by (auto simp: trim_over.simps [of n s] tmod_zero_iff)
  qed
qed

lemma ex_multiply_val:
  assumes "ex_multiply a b = Inr c"
  shows "ex_val c = ex_val a * ex_val b" and "exact_ok c" and "scale c \<le> scale a + scale b"
proof -
  obtain m r where t: "trim_over (integer a * integer b) (scale a + scale b) = (m, r)" by force
  from assms t have c: "ex_new m r = Inr c"
    by (auto simp: ex_multiply_def rbind_eq_Inr ok_or_eq_Inr checked_i128_eq_Some Let_def)
  from trim_over_props [OF t]
  have m: "r \<le> scale a + scale b" "m * 10 ^ (scale a + scale b - r) = integer a * integer b" by auto
  from c show "exact_ok c" by (auto simp: ex_new_eq_Inr exact_ok_def)
  from c m(1) show "scale c \<le> scale a + scale b" by (auto simp: ex_new_eq_Inr)
  have "ex_val c = of_int (integer a * integer b) / 10 ^ (scale a + scale b)"
    using widened_val [of c "scale a + scale b", symmetric] m c
    by (simp only: ex_new_eq_Inr mk_simps)
  then show "ex_val c = ex_val a * ex_val b" by (simp add: ex_val_def power_add)
qed

text \<open>It is refused only where the integers' product leaves the machine's width or no
  integer of the wire's digits states it at the wire's places.\<close>

lemma ex_multiply_ok:
  assumes "i128_fits (integer a * integer b)"
    and "\<bar>n\<bar> < LIMIT" and "n * 10 ^ (scale a + scale b - PLACES) = integer a * integer b"
  shows "\<exists>c. ex_multiply a b = Inr c"
proof -
  let ?s = "scale a + scale b"
  obtain m r where t: "trim_over (integer a * integer b) ?s = (m, r)" by force
  from trim_over_props [OF t]
  have m: "r \<le> ?s" "m * 10 ^ (?s - r) = n * 10 ^ (?s - PLACES)" "r \<le> 18 \<or> \<not> 10 dvd m"
    using assms(3) by auto
  have "r \<le> PLACES \<and> \<bar>m\<bar> < LIMIT"
  proof (cases "r \<le> PLACES")
    case True
    then have e: "?s - r = (?s - PLACES) + (min PLACES ?s - r)" using m(1) by simp
    have "m * 10 ^ (min PLACES ?s - r) * 10 ^ (?s - PLACES) = n * 10 ^ (?s - PLACES)"
      using m(2) unfolding e by (simp add: power_add mult_ac)
    then have n: "m * 10 ^ (min PLACES ?s - r) = n" by simp
    have "\<bar>m\<bar> * 1 \<le> \<bar>m\<bar> * \<bar>10 ^ (min PLACES ?s - r)\<bar>" by (intro mult_left_mono) simp_all
    then have "\<bar>m\<bar> \<le> \<bar>n\<bar>" unfolding n [symmetric] abs_mult by simp
    with True assms(2) show ?thesis by simp
  next
    case False
    with m have e: "?s - PLACES = (r - PLACES) + (?s - r)" and no: "\<not> 10 dvd m"
      by (simp_all add: PLACES_def)
    from m(2) have "m * 10 ^ (?s - r) = n * 10 ^ (r - PLACES) * 10 ^ (?s - r)"
      unfolding e by (simp add: power_add mult_ac)
    then have "m = n * 10 ^ (r - PLACES)" by simp
    with False no show ?thesis by (simp add: dvd_mult)
  qed
  with t assms(1) show ?thesis
    by (simp add: ex_multiply_def ok_or_def checked_i128_def ex_new_def Let_def)
qed

subsection \<open>Cents\<close>

lemma half_even_props:
  fixes n d :: int
  assumes "0 \<le> n" "0 < d"
  defines "h \<equiv> half_even n d"
  shows "2 * \<bar>h * d - n\<bar> \<le> d" "2 * \<bar>h * d - n\<bar> = d \<Longrightarrow> even h" "0 \<le> h" "h \<le> n div d + 1"
proof -
  define q r where "q = n div d" and "r = n mod d"
  have h: "h = (if r * 2 > d \<or> (r * 2 = d \<and> q mod 2 = 1) then q + 1 else q)"
    by (simp add: h_def half_even_def Let_def q_def r_def)
  have n: "n = q * d + r" and r: "0 \<le> r" "r < d"
    using assms(2) by (simp_all add: q_def r_def)
  have up: "(q + 1) * d - n = d - r" and down: "q * d - n = - r"
    by (simp_all add: n algebra_simps)
  show "2 * \<bar>h * d - n\<bar> \<le> d" using up down r by (auto simp: h)
  show "even h" if "2 * \<bar>h * d - n\<bar> = d"
  proof (cases "r * 2 = d")
    case True
    have "h = (if q mod 2 = 1 then q + 1 else q)" by (simp add: h True)
    then show ?thesis by (auto simp: mod2_eq_if split: if_splits)
  next
    case False
    with that up down r have "r * 2 > d" by (simp add: h split: if_splits)
    then have "h = q + 1" by (simp add: h)
    with that up r False show ?thesis by simp
  qed
  have "0 \<le> q" using assms(1,2) by (simp add: q_def pos_imp_zdiv_nonneg_iff)
  then show "0 \<le> h" "h \<le> n div d + 1" by (auto simp: h q_def)
qed

lemma ex_cents_eq:
  assumes "exact_ok x" "2 < scale x"
  shows "ex_cents x = Inr (mk (sgn (integer x) * half_even (\<bar>integer x\<bar>) (10 ^ (scale x - 2))) 2)"
    and "\<bar>sgn (integer x) * half_even (\<bar>integer x\<bar>) (10 ^ (scale x - 2))\<bar> < LIMIT"
proof -
  define d n q :: int where "d = 10 ^ (scale x - 2)" and "n = \<bar>integer x\<bar>" and "q = half_even n d"
  from assms(2) have "(10 :: int) ^ 1 \<le> 10 ^ (scale x - 2)" by (intro power_increasing) auto
  then have d10: "10 \<le> d" by (simp add: d_def)
  from assms(1) have "(10 :: int) ^ (scale x - 2) \<le> 10 ^ 16"
    by (intro power_increasing) (auto simp: exact_ok_def PLACES_def)
  then have d: "10 \<le> d" "d \<le> 10 ^ 16" using d10 by (simp_all add: d_def)
  have n: "0 \<le> n" "n < LIMIT" using assms by (auto simp: n_def exact_ok_def)
  have "n div d \<le> n div 10" using d n by (intro zdiv_mono2) auto
  then have q: "0 \<le> q" "q < LIMIT"
    using half_even_props(3,4) [of n d] d n by (auto simp: LIMIT_def DIGITS_def q_def)
  then have limit: "\<bar>sgn (integer x) * q\<bar> < LIMIT" by (simp add: abs_mult sgn_if)
  then show "\<bar>sgn (integer x) * half_even (\<bar>integer x\<bar>) (10 ^ (scale x - 2))\<bar> < LIMIT"
    by (simp add: q_def n_def d_def)
  have zero: "integer x = 0 \<Longrightarrow> q = 0"
    using half_even_props(1,3) [of n d] d q by (auto simp: q_def n_def half_even_def)
  have fits: "i128_fits d" "i128_fits q" "\<bar>d\<bar> = d"
    using d q LIMIT_fits [of q] by (auto simp: i128_fits_def)
  then have "ex_cents x = ex_new (if integer x < 0 then - q else q) 2"
    using assms(2) by (simp add: ex_cents_def ok_or_def checked_i128_def d_def q_def n_def)
  also have "(if integer x < 0 then - q else q) = sgn (integer x) * q"
    using zero by (simp add: sgn_if)
  finally show "ex_cents x = Inr (mk (sgn (integer x) * half_even (\<bar>integer x\<bar>) (10 ^ (scale x - 2))) 2)"
    using limit by (simp add: ex_new_def PLACES_def q_def n_def d_def)
qed

lemma ex_cents_props:
  assumes "exact_ok x"
  shows "\<exists>c. ex_cents x = Inr c \<and> exact_ok c
    \<and> (scale x \<le> 2 \<longrightarrow> c = x) \<and> (2 < scale x \<longrightarrow> scale c = 2)
    \<and> \<bar>ex_val c - ex_val x\<bar> \<le> 1 / 200 \<and> (\<bar>ex_val c - ex_val x\<bar> = 1 / 200 \<longrightarrow> even (integer c))"
proof (cases "scale x \<le> 2")
  case True
  with assms show ?thesis by (simp add: ex_cents_def)
next
  case False
  define d n h i :: int where "d = 10 ^ (scale x - 2)" and "n = \<bar>integer x\<bar>" and "h = half_even n d"
    and "i = integer x"
  have d: "0 < d" and n: "0 \<le> n" by (simp_all add: d_def n_def)
  have c: "ex_cents x = Inr (mk (sgn i * h) 2)" "\<bar>sgn i * h\<bar> < LIMIT"
    using ex_cents_eq [OF assms] False by (simp_all add: d_def n_def h_def i_def)
  have diff: "\<bar>sgn i * h * d - i\<bar> = \<bar>h * d - n\<bar>" if "h = 0 \<or> i \<noteq> 0"
    using that by (cases "i < 0") (auto simp: n_def i_def sgn_if)
  have zero: "h = 0 \<or> i \<noteq> 0" using d by (auto simp: h_def n_def i_def half_even_def Let_def)
  have "scale x = Suc (Suc (scale x - 2))" using False by simp
  then have "10 ^ scale x = (10 * (10 * 10 ^ (scale x - 2)) :: rat)" by (metis power_Suc)
  then have p: "10 ^ scale x = (100 * of_int d :: rat)" by (simp add: d_def)
  have "ex_val (mk (sgn i * h) 2) - ex_val x = of_int (sgn i * h * d - i) / (100 * of_int d)"
    using d by (simp add: ex_val_def p i_def [symmetric] field_simps)
  then have err: "\<bar>ex_val (mk (sgn i * h) 2) - ex_val x\<bar> = of_int \<bar>h * d - n\<bar> / (100 * of_int d)"
    using d by (simp only: abs_divide of_int_abs [symmetric] diff [OF zero] abs_mult)
  have bound: "of_int \<bar>h * d - n\<bar> / (100 * of_int d) \<le> (1 / 200 :: rat)"
  proof -
    have "of_int (2 * \<bar>h * d - n\<bar>) \<le> (of_int d :: rat)"
      using half_even_props(1) [OF n d] by (simp only: of_int_le_iff h_def)
    then show ?thesis using d by (simp add: field_simps)
  qed
  have tie: "even (sgn i * h)" if "of_int \<bar>h * d - n\<bar> / (100 * of_int d) = (1 / 200 :: rat)"
  proof -
    from that have "of_int (2 * \<bar>h * d - n\<bar>) = (of_int d :: rat)" using d by (simp add: field_simps)
    then have "2 * \<bar>h * d - n\<bar> = d" by (simp only: of_int_eq_iff)
    then show ?thesis using half_even_props(2) [OF n d] by (simp add: h_def)
  qed
  have "exact_ok (mk (sgn i * h) 2)" using c(2) by (simp add: exact_ok_def PLACES_def)
  with c(1) False bound tie show ?thesis
    by (intro exI [of _ "mk (sgn i * h) 2"]) (simp add: err)
qed

section \<open>Properties\<close>

lemma checked_add_refused:
  assumes "checked_add a b = Inl e" "exact_ok a" "exact_ok b"
  shows "e = OutDigits
    \<and> (\<not> i128_fits (integer a * 10 ^ (scale b - scale a))
      \<or> \<not> i128_fits (integer b * 10 ^ (scale a - scale b))
      \<or> LIMIT \<le> \<bar>integer a * 10 ^ (scale b - scale a) + integer b * 10 ^ (scale a - scale b)\<bar>)"
proof -
  have s: "max (scale a) (scale b) - scale a = scale b - scale a"
    "max (scale a) (scale b) - scale b = scale a - scale b" by simp_all
  have m: "max (scale a) (scale b) \<le> PLACES" using assms(2,3) by (simp add: exact_ok_def)
  show ?thesis
  proof (rule ccontr)
    assume not: "\<not> ?thesis"
    have "e = OutDigits" using assms(1) m
      by (auto simp: checked_add_def widen_def Let_def ok_or_def checked_i128_def ex_new_def split: if_splits)
    with not assms(1) m LIMIT_fits show False
      by (auto simp: checked_add_def widen_def Let_def ok_or_def checked_i128_def ex_new_def s not_le split: if_splits)
  qed
qed

text \<open>C32: Equal is numeric: two decimals compare as the numbers they state, whatever their
  scales, and the least-scale form that equality and hashing use coincides exactly when
  the numbers do.\<close>

theorem comparison_is_numeric:
  assumes "exact_ok a" "exact_ok b"
  shows "ex_cmp a b = cmp (ex_val a) (ex_val b) \<and> (trimmed a = trimmed b \<longleftrightarrow> ex_eq a b)"
  using assms by (simp add: ex_cmp_val trimmed_eq_iff ex_eq_def exact_ok_def)

theorem comparison_is_numeric_witness:
  "ex_cmp (mk 15 1) (mk 150 2) = Equal \<and> ex_cmp (mk (-15) 1) (mk 150 2) = cmp (ex_val (mk (-15) 1)) (ex_val (mk 150 2))"
  using comparison_is_numeric [of "mk 15 1" "mk 150 2"] comparison_is_numeric [of "mk (-15) 1" "mk 150 2"]
  by (simp add: exact_ok_def PLACES_def LIMIT_def DIGITS_def ex_val_def)

text \<open>C33: A value reads back as it was stated: printing and parsing, and writing to the wire's
  two halves and reading them, return the same integer at the same scale.\<close>

theorem decimal_round_trips:
  assumes "exact_ok x"
  shows "from_str (to_string x) = Inr x \<and> from_wire (to_wire x) = Inr x"
  using assms by (simp add: from_to_string from_to_wire)

theorem decimal_round_trips_witness:
  "from_str (to_string (mk (-50) 3)) = Inr (mk (-50) 3) \<and> from_wire (to_wire (mk (-50) 3)) = Inr (mk (-50) 3)"
  by (rule decimal_round_trips) (simp add: exact_ok_def PLACES_def LIMIT_def DIGITS_def)

text \<open>C27: A sum is exact at the larger of the two scales, or refused: where \<open>checked_add\<close>
  answers, the answer is the numbers' sum and within the wire's range; where it refuses,
  an operand does not widen to the common scale within 128 bits or the sum has too many
  digits.\<close>

theorem sums_are_exact:
  assumes "exact_ok a" "exact_ok b"
  shows "case checked_add a b of
      Inr c \<Rightarrow> ex_val c = ex_val a + ex_val b \<and> scale c = max (scale a) (scale b) \<and> exact_ok c
    | Inl e \<Rightarrow> e = OutDigits
        \<and> (\<not> i128_fits (integer a * 10 ^ (scale b - scale a))
          \<or> \<not> i128_fits (integer b * 10 ^ (scale a - scale b))
          \<or> LIMIT \<le> \<bar>integer a * 10 ^ (scale b - scale a) + integer b * 10 ^ (scale a - scale b)\<bar>)"
proof (cases "checked_add a b")
  case (Inl e)
  with checked_add_refused [OF Inl assms] show ?thesis by simp
qed (simp add: checked_add_val checked_add_scale checked_add_ok)

theorem sums_are_exact_witness:
  "checked_add (mk 15 3) (mk 25 4) = Inr (mk 175 4) \<and> ex_val (mk 175 4) = ex_val (mk 15 3) + ex_val (mk 25 4)"
  using sums_are_exact [of "mk 15 3" "mk 25 4"]
  by (simp add: exact_ok_def PLACES_def LIMIT_def DIGITS_def checked_add_def widen_def Let_def
      ok_or_def checked_i128_def i128_fits_def ex_new_def)


text \<open>A product is exact and never rounded: where \<open>multiply\<close> answers, the answer is the
  numbers' product in range; and it answers whenever the integers' product is within
  128 bits and some integer of the wire's digits states it at the wire's places.\<close>

theorem products_are_exact:
  "(\<forall>c. ex_multiply a b = Inr c \<longrightarrow> ex_val c = ex_val a * ex_val b \<and> exact_ok c)
    \<and> (i128_fits (integer a * integer b)
        \<and> (\<exists>n. \<bar>n\<bar> < LIMIT \<and> n * 10 ^ (scale a + scale b - PLACES) = integer a * integer b)
      \<longrightarrow> (\<exists>c. ex_multiply a b = Inr c))"
  using ex_multiply_val ex_multiply_ok by blast

theorem products_are_exact_witness:
  "ex_multiply (mk 15 10) (mk 20 9) = Inr (mk 30 18) \<and> ex_val (mk 30 18) = ex_val (mk 15 10) * ex_val (mk 20 9)"
proof -
  have m: "ex_multiply (mk 15 10) (mk 20 9) = Inr (mk 30 18)"
    by (simp add: ex_multiply_def ok_or_def checked_i128_def i128_fits_def trim_over.simps tmod_def tdiv_def
        Let_def ex_new_def PLACES_def LIMIT_def DIGITS_def)
  with products_are_exact [of "mk 15 10" "mk 20 9"] show ?thesis by blast
qed

text \<open>Cash rounds to the cent half-even and is never refused: a value of at most two
  places is kept as it is; any other becomes a value of two places, at most half a cent
  away, and exactly half a cent away only to an even number of cents.\<close>

theorem cents_round_half_even:
  assumes "exact_ok x"
  shows "\<exists>c. ex_cents x = Inr c \<and> exact_ok c
    \<and> (scale x \<le> 2 \<longrightarrow> c = x) \<and> (2 < scale x \<longrightarrow> scale c = 2)
    \<and> \<bar>ex_val c - ex_val x\<bar> \<le> 1 / 200 \<and> (\<bar>ex_val c - ex_val x\<bar> = 1 / 200 \<longrightarrow> even (integer c))"
  using assms by (rule ex_cents_props)

theorem cents_round_half_even_witness:
  "\<exists>c. ex_cents (mk 125 3) = Inr c \<and> exact_ok c \<and> c = mk 12 2 \<and> \<bar>ex_val c - ex_val (mk 125 3)\<bar> \<le> 1 / 200"
  using cents_round_half_even [of "mk 125 3"]
  by (simp add: exact_ok_def PLACES_def LIMIT_def DIGITS_def ex_cents_def half_even_def Let_def
      ok_or_def checked_i128_def i128_fits_def ex_new_def)

end
