(* ===== verification/Topics.thy ===== *)
theory Topics
  imports Rust_Text
begin

section \<open>Topic patterns\<close>

text \<open>
  \<open>crates/bus/src/topic.rs\<close>: what a pattern matches, and what may be published on. The
  matcher's loop over the pattern's segments is \<open>match_from\<close>, its index kept;
  \<open>seg_match\<close> is the grammar it implements, segment by segment.
\<close>

fun match_from :: "string list \<Rightarrow> string list \<Rightarrow> nat \<Rightarrow> string list \<Rightarrow> bool" where
  "match_from pat tops i [] \<longleftrightarrow> length pat = length tops"
| "match_from pat tops i (segment # rest) \<longleftrightarrow>
     (if segment = ''**'' then i < length tops \<and> i + 1 = length pat
      else if segment = ''*'' then (if i \<ge> length tops then False else match_from pat tops (i + 1) rest)
      else if \<not> (i < length tops \<and> tops ! i = segment) then False
      else match_from pat tops (i + 1) rest)"

definition matches :: "string \<Rightarrow> string \<Rightarrow> bool" where
  "matches pattern topic \<longleftrightarrow>
     (if CHR ''*'' \<notin> set pattern then pattern = topic
      else let pat = split_on (CHR ''.'') pattern; tops = split_on (CHR ''.'') topic
           in match_from pat tops 0 pat)"

fun has_double_dot :: "string \<Rightarrow> bool" where
  "has_double_dot (a # b # s) \<longleftrightarrow> (a = CHR ''.'' \<and> b = CHR ''.'') \<or> has_double_dot (b # s)"
| "has_double_dot s \<longleftrightarrow> False"

definition is_publishable :: "string \<Rightarrow> bool" where
  "is_publishable topic \<longleftrightarrow>
     topic \<noteq> [] \<and> CHR ''*'' \<notin> set topic \<and> \<not> has_double_dot topic
     \<and> \<not> starts_with ''.'' topic \<and> \<not> ends_with ''.'' topic"

subsection \<open>The grammar\<close>

text \<open>\<open>*\<close> is one segment, \<open>**\<close> one or more and only last, anything else itself.\<close>

fun seg_match :: "string list \<Rightarrow> string list \<Rightarrow> bool" where
  "seg_match [] tops \<longleftrightarrow> tops = []"
| "seg_match (s # rest) [] \<longleftrightarrow> False"
| "seg_match (s # rest) (t # tops) \<longleftrightarrow>
     (if s = ''**'' then rest = [] else (s = ''*'' \<or> s = t) \<and> seg_match rest tops)"

lemma match_from_seg:
  "i + length todo = length pat \<Longrightarrow> length seen = i
    \<Longrightarrow> match_from pat (seen @ tops) i todo \<longleftrightarrow> seg_match todo tops"
proof (induction todo arbitrary: i seen tops)
  case Nil
  then show ?case by simp
next
  case (Cons s rest)
  show ?case
  proof (cases tops)
    case Nil
    with Cons.prems show ?thesis by simp
  next
    case t: (Cons t topr)
    have IH: "match_from pat (seen @ t # topr) (i + 1) rest \<longleftrightarrow> seg_match rest topr"
      using Cons.IH [of "i + 1" "seen @ [t]" topr] Cons.prems by simp
    with Cons.prems t show ?thesis by (cases rest) (auto simp: nth_append)
  qed
qed

lemma match_from_0: "match_from pat tops 0 pat \<longleftrightarrow> seg_match pat tops"
  using match_from_seg [of 0 pat pat "[]" tops] by simp

lemma seg_match_literal: "\<forall>s \<in> set pat. CHR ''*'' \<notin> set s \<Longrightarrow> seg_match pat tops \<longleftrightarrow> pat = tops"
  by (induction pat tops rule: seg_match.induct) auto

lemma matches_iff: "matches p t \<longleftrightarrow> seg_match (split_on (CHR ''.'') p) (split_on (CHR ''.'') t)"
proof (cases "CHR ''*'' \<in> set p")
  case False
  then have "\<forall>s \<in> set (split_on (CHR ''.'') p). CHR ''*'' \<notin> set s"
    using set_split_on [of "CHR ''*''" "CHR ''.''" p] by auto
  with False show ?thesis by (simp add: matches_def seg_match_literal split_on_inj)
qed (simp add: matches_def match_from_0 Let_def)

lemma seg_match_refl_literal: "CHR ''*'' \<notin> set t \<Longrightarrow> matches t t"
  by (simp add: matches_def)

lemma seg_match_length: "seg_match pat tops \<Longrightarrow> length pat \<le> length tops"
  by (induction pat tops rule: seg_match.induct) (auto split: if_splits)

text \<open>A literal prefix shared by a request and a grant ending in \<open>**\<close>.\<close>

lemma seg_match_prefix:
  "rest \<noteq> [] \<Longrightarrow> seg_match (pre @ rest) tops \<Longrightarrow> seg_match (pre @ [''**'']) tops"
proof (induction pre tops rule: seg_match.induct)
  case (1 tops)
  then show ?case by (cases tops; cases rest) auto
qed (auto split: if_splits)

subsection \<open>What may be published on\<close>

lemma has_double_dot_split:
  "has_double_dot s \<longleftrightarrow> (\<exists>a b. s = a @ ''..'' @ b)"
proof (induction s rule: has_double_dot.induct)
  case (1 a b s)
  have "(\<exists>u v. a # b # s = u @ ''..'' @ v) \<longleftrightarrow> (a = CHR ''.'' \<and> b = CHR ''.'') \<or> (\<exists>u v. b # s = u @ ''..'' @ v)"
    by (auto simp: Cons_eq_append_conv)
  with 1 show ?case by simp
qed (auto simp: Cons_eq_append_conv)

text \<open>A topic is publishable exactly when no segment is empty and none holds a wildcard.\<close>

lemma has_double_dot_Cons:
  "has_double_dot (a # s) \<longleftrightarrow> (a = CHR ''.'' \<and> s \<noteq> [] \<and> hd s = CHR ''.'') \<or> has_double_dot s"
  by (cases s) auto

lemma hd_split_on: "hd (split_on c s) = [] \<longleftrightarrow> s = [] \<or> hd s = c"
  by (cases s) (auto split: list.splits)

lemma tl_split_on:
  "[] \<in> set (tl (split_on (CHR ''.'') s)) \<longleftrightarrow> s \<noteq> [] \<and> (has_double_dot s \<or> last s = CHR ''.'')"
proof (induction s)
  case (Cons a s)
  show ?case
  proof (cases "a = CHR ''.''")
    case True
    have "[] \<in> set (split_on (CHR ''.'') s) \<longleftrightarrow>
        hd (split_on (CHR ''.'') s) = [] \<or> [] \<in> set (tl (split_on (CHR ''.'') s))"
      by (cases "split_on (CHR ''.'') s") auto
    with True Cons show ?thesis by (auto simp: has_double_dot_Cons hd_split_on)
  next
    case False
    with Cons show ?thesis by (auto simp: has_double_dot_Cons split: list.splits)
  qed
qed simp

lemma ends_with_dot: "ends_with [c] s \<longleftrightarrow> s \<noteq> [] \<and> last s = c"
  by (cases s rule: rev_cases) (auto simp: ends_with_def)

lemma empty_segment_iff:
  "[] \<in> set (split_on (CHR ''.'') s) \<longleftrightarrow>
     s = [] \<or> has_double_dot s \<or> starts_with ''.'' s \<or> ends_with ''.'' s"
proof -
  have "[] \<in> set (split_on (CHR ''.'') s) \<longleftrightarrow>
      hd (split_on (CHR ''.'') s) = [] \<or> [] \<in> set (tl (split_on (CHR ''.'') s))"
    by (cases "split_on (CHR ''.'') s") auto
  moreover have "starts_with ''.'' s \<longleftrightarrow> s \<noteq> [] \<and> hd s = CHR ''.''"
    by (cases s) (auto simp: starts_with_def)
  ultimately show ?thesis by (auto simp: hd_split_on tl_split_on ends_with_dot)
qed

lemma publishable_iff:
  "is_publishable t \<longleftrightarrow> (\<forall>s \<in> set (split_on (CHR ''.'') t). s \<noteq> [] \<and> CHR ''*'' \<notin> set s)"
proof -
  have "CHR ''*'' \<in> set t \<longleftrightarrow> (\<exists>s \<in> set (split_on (CHR ''.'') t). CHR ''*'' \<in> set s)"
    by (rule set_split_on) simp
  with empty_segment_iff [of t] show ?thesis by (auto simp: is_publishable_def)
qed

end
