(* ===== verification/BTree_Map.thy ===== *)
theory BTree_Map
  imports Prelude
begin

section \<open>Ordered maps and sets\<close>

text \<open>
  \<open>std::collections::BTreeMap\<close> as the source uses it: an association list in strictly
  ascending key order, so that iteration (\<open>values()\<close>, \<open>pop_first\<close>) sees the entries in
  the order Rust's iterators do. A \<open>BTreeSet\<close> is the same with unit values, kept as the
  strictly ascending list of its elements. The locale \<open>lookup_map\<close> states what the
  clients rely on; the interpretation at the end discharges it for these operations.
\<close>

type_synonym ('k, 'v) btree = "('k \<times> 'v) list"

fun bt_get :: "('k::linorder, 'v) btree \<Rightarrow> 'k \<Rightarrow> 'v option" where
  "bt_get [] k = None"
| "bt_get ((a, v) # m) k = (if k = a then Some v else bt_get m k)"

fun bt_insert :: "'k::linorder \<Rightarrow> 'v \<Rightarrow> ('k, 'v) btree \<Rightarrow> ('k, 'v) btree" where
  "bt_insert k v [] = [(k, v)]"
| "bt_insert k v ((a, w) # m) =
     (if k < a then (k, v) # (a, w) # m
      else if k = a then (k, v) # m
      else (a, w) # bt_insert k v m)"

fun bt_remove :: "'k::linorder \<Rightarrow> ('k, 'v) btree \<Rightarrow> ('k, 'v) btree" where
  "bt_remove k [] = []"
| "bt_remove k ((a, w) # m) = (if k = a then m else (a, w) # bt_remove k m)"

text \<open>\<open>get_mut\<close> followed by an update of what it found; nothing where the key is absent.\<close>

fun bt_adjust :: "'k::linorder \<Rightarrow> ('v \<Rightarrow> 'v) \<Rightarrow> ('k, 'v) btree \<Rightarrow> ('k, 'v) btree" where
  "bt_adjust k f [] = []"
| "bt_adjust k f ((a, w) # m) = (if k = a then (a, f w) # m else (a, w) # bt_adjust k f m)"

text \<open>\<open>entry(k).or_insert(d)\<close> followed by an update of the value.\<close>

definition bt_entry :: "'k::linorder \<Rightarrow> 'v \<Rightarrow> ('v \<Rightarrow> 'v) \<Rightarrow> ('k, 'v) btree \<Rightarrow> ('k, 'v) btree" where
  "bt_entry k d f m = bt_insert k (f (case bt_get m k of None \<Rightarrow> d | Some v \<Rightarrow> v)) m"

definition bt_has :: "('k::linorder, 'v) btree \<Rightarrow> 'k \<Rightarrow> bool" where
  "bt_has m k \<longleftrightarrow> bt_get m k \<noteq> None"

abbreviation bt_keys :: "('k, 'v) btree \<Rightarrow> 'k list" where
  "bt_keys m \<equiv> map fst m"

abbreviation bt_values :: "('k, 'v) btree \<Rightarrow> 'v list" where
  "bt_values m \<equiv> map snd m"

definition bt_wf :: "('k::linorder, 'v) btree \<Rightarrow> bool" where
  "bt_wf m \<longleftrightarrow> sorted_wrt (<) (bt_keys m)"

lemma bt_wf_Nil [simp]: "bt_wf []"
  by (simp add: bt_wf_def)

lemma bt_wf_Cons: "bt_wf ((a, v) # m) \<longleftrightarrow> (\<forall>k \<in> fst ` set m. a < k) \<and> bt_wf m"
  by (auto simp: bt_wf_def)

lemma bt_get_None_iff: "bt_get m k = None \<longleftrightarrow> k \<notin> fst ` set m"
  by (induction m k rule: bt_get.induct) auto

lemma bt_get_Some_mem: "bt_get m k = Some v \<Longrightarrow> (k, v) \<in> set m"
  by (induction m k rule: bt_get.induct) (auto split: if_splits)

lemma bt_get_mem: "bt_wf m \<Longrightarrow> bt_get m k = Some v \<longleftrightarrow> (k, v) \<in> set m"
proof (induction m)
  case (Cons x m)
  obtain a w where x: "x = (a, w)" by force
  with Cons.prems have wf: "bt_wf m" and lt: "\<forall>k \<in> fst ` set m. a < k"
    by (simp_all add: bt_wf_Cons)
  from lt have "(a, v) \<notin> set m" by force
  with Cons.IH [OF wf] show ?case by (auto simp: x)
qed simp

lemma fst_set_bt_insert: "fst ` set (bt_insert k v m) = insert k (fst ` set m)"
  by (induction k v m rule: bt_insert.induct) auto

lemma fst_set_bt_remove: "fst ` set (bt_remove k m) \<subseteq> fst ` set m"
  by (induction k m rule: bt_remove.induct) auto

lemma bt_keys_adjust [simp]: "bt_keys (bt_adjust k f m) = bt_keys m"
  by (induction k f m rule: bt_adjust.induct) auto

lemma bt_wf_insert [simp]: "bt_wf m \<Longrightarrow> bt_wf (bt_insert k v m)"
proof (induction k v m rule: bt_insert.induct)
  case (2 k v a w m)
  then show ?case
    by (auto simp: bt_wf_Cons fst_set_bt_insert intro: less_trans)
qed (simp add: bt_wf_def)

lemma bt_wf_remove [simp]: "bt_wf m \<Longrightarrow> bt_wf (bt_remove k m)"
proof (induction k m rule: bt_remove.induct)
  case (2 k a w m)
  then have "\<forall>b \<in> fst ` set m. a < b" and "bt_wf m" by (simp_all add: bt_wf_Cons)
  with 2 fst_set_bt_remove [of k m] have "\<forall>b \<in> fst ` set (bt_remove k m). a < b" by blast
  with 2 \<open>bt_wf m\<close> show ?case by (auto simp: bt_wf_Cons)
qed simp

lemma bt_wf_adjust [simp]: "bt_wf (bt_adjust k f m) = bt_wf m"
  by (simp add: bt_wf_def)

lemma bt_get_insert [simp]:
  "bt_get (bt_insert k v m) j = (if j = k then Some v else bt_get m j)"
  by (induction k v m rule: bt_insert.induct) auto

lemma bt_get_remove:
  "bt_wf m \<Longrightarrow> bt_get (bt_remove k m) j = (if j = k then None else bt_get m j)"
proof (induction k m rule: bt_remove.induct)
  case (2 k a w m)
  then have "\<forall>b \<in> fst ` set m. a < b" and "bt_wf m" by (simp_all add: bt_wf_Cons)
  moreover from this have "bt_get m a = None" by (auto simp: bt_get_None_iff)
  ultimately show ?case using 2 by auto
qed simp

lemma bt_get_adjust [simp]:
  "bt_get (bt_adjust k f m) j = (if j = k then map_option f (bt_get m j) else bt_get m j)"
  by (induction k f m rule: bt_adjust.induct) auto

lemma bt_get_entry [simp]:
  "bt_get (bt_entry k d f m) j =
     (if j = k then Some (f (case bt_get m k of None \<Rightarrow> d | Some v \<Rightarrow> v)) else bt_get m j)"
  by (simp add: bt_entry_def)

lemma bt_wf_entry [simp]: "bt_wf m \<Longrightarrow> bt_wf (bt_entry k d f m)"
  by (simp add: bt_entry_def)

lemma bt_has_iff: "bt_has m k \<longleftrightarrow> k \<in> fst ` set m"
  by (simp add: bt_has_def bt_get_None_iff)

lemma bt_adjust_absent: "bt_get m k = None \<Longrightarrow> bt_adjust k f m = m"
  by (induction k f m rule: bt_adjust.induct) (auto split: if_splits)

lemma bt_remove_absent: "bt_get m k = None \<Longrightarrow> bt_remove k m = m"
  by (induction k m rule: bt_remove.induct) (auto split: if_splits)

lemma bt_wf_distinct: "bt_wf m \<Longrightarrow> distinct (bt_keys m)"
  by (simp add: bt_wf_def strict_sorted_iff)

lemma bt_get_eqI:
  assumes "bt_wf m" and "bt_wf n" and "\<And>k. bt_get m k = bt_get n k"
  shows "m = n"
proof -
  have set: "set m = set n"
    using assms(3) bt_get_mem [OF assms(1)] bt_get_mem [OF assms(2)] by auto
  then have "set (bt_keys m) = set (bt_keys n)" by auto
  then have keys: "bt_keys m = bt_keys n"
    using assms(1,2) by (metis bt_wf_def sorted_list_of_set.idem_if_sorted_distinct strict_sorted_iff)
  have "length m = length n" using keys by (metis length_map)
  moreover have "m ! i = n ! i" if i: "i < length m" for i
  proof -
    have j: "i < length n" using i \<open>length m = length n\<close> by simp
    have "fst (m ! i) = fst (n ! i)" using keys i j by (metis nth_map)
    moreover have "m ! i \<in> set n" "n ! i \<in> set n"
      using set nth_mem [OF i] nth_mem [OF j] by auto
    ultimately show ?thesis
      using bt_wf_distinct [OF assms(2)] by (metis eq_key_imp_eq_value prod.collapse)
  qed
  ultimately show ?thesis by (rule nth_equalityI)
qed

subsection \<open>Sums over the values\<close>

text \<open>What a counter kept beside a map relies on.\<close>

lemma sum_list_insert_fresh:
  fixes g :: "'v \<Rightarrow> 'a::comm_monoid_add"
  shows "bt_get m k = None \<Longrightarrow>
    sum_list (map g (bt_values (bt_insert k v m))) = g v + sum_list (map g (bt_values m))"
  by (induction k v m rule: bt_insert.induct) (auto split: if_splits simp: add_ac)

lemma sum_list_remove:
  fixes g :: "'v \<Rightarrow> nat"
  shows "bt_get m k = Some v \<Longrightarrow>
    g v + sum_list (map g (bt_values (bt_remove k m))) = sum_list (map g (bt_values m))"
  by (induction k m rule: bt_remove.induct) (auto split: if_splits)

lemma sum_list_adjust:
  fixes g :: "'v \<Rightarrow> nat"
  assumes "\<And>v. g (f v) = g v"
  shows "sum_list (map g (bt_values (bt_adjust k f m))) = sum_list (map g (bt_values m))"
  using assms by (induction k f m rule: bt_adjust.induct) auto

subsection \<open>The interface\<close>

locale lookup_map =
  fixes get :: "'m \<Rightarrow> 'k \<Rightarrow> 'v option"
    and put :: "'k \<Rightarrow> 'v \<Rightarrow> 'm \<Rightarrow> 'm"
    and drop_key :: "'k \<Rightarrow> 'm \<Rightarrow> 'm"
    and ok :: "'m \<Rightarrow> bool"
  assumes get_put: "ok m \<Longrightarrow> get (put k v m) = (get m)(k \<mapsto> v)"
    and get_drop: "ok m \<Longrightarrow> get (drop_key k m) = (get m)(k := None)"
    and ok_put: "ok m \<Longrightarrow> ok (put k v m)"
    and ok_drop: "ok m \<Longrightarrow> ok (drop_key k m)"
begin

fun put_all :: "('k \<times> 'v) list \<Rightarrow> 'm \<Rightarrow> 'm" where
  "put_all [] m = m"
| "put_all ((k, v) # kvs) m = put_all kvs (put k v m)"

lemma ok_put_all: "ok m \<Longrightarrow> ok (put_all kvs m)"
  by (induction kvs m rule: put_all.induct) (auto intro: ok_put)

lemma get_put_all: "ok m \<Longrightarrow> get (put_all kvs m) = get m ++ map_of (rev kvs)"
proof (induction kvs m rule: put_all.induct)
  case (2 k v kvs m)
  have "get (put_all kvs (put k v m)) = get (put k v m) ++ map_of (rev kvs)"
    using 2 by (simp add: ok_put)
  also have "get (put k v m) = (get m)(k \<mapsto> v)"
    using 2(2) by (rule get_put)
  finally show ?case
    by (auto simp: map_add_def fun_eq_iff split: option.splits)
qed simp

lemma get_put_other: "ok m \<Longrightarrow> j \<noteq> k \<Longrightarrow> get (put k v m) j = get m j"
  by (simp add: get_put)

lemma get_put_drop: "ok m \<Longrightarrow> get (drop_key k (put k v m)) = (get m)(k := None)"
  by (simp add: get_put get_drop ok_put)

end

interpretation bt: lookup_map bt_get bt_insert bt_remove bt_wf
  by unfold_locales (auto simp: fun_eq_iff bt_get_remove)

subsection \<open>Ordered sets\<close>

type_synonym 'k bset = "'k list"

fun bs_insert :: "'k::linorder \<Rightarrow> 'k bset \<Rightarrow> 'k bset" where
  "bs_insert k [] = [k]"
| "bs_insert k (a # s) = (if k < a then k # a # s else if k = a then a # s else a # bs_insert k s)"

definition bs_extend :: "'k::linorder bset \<Rightarrow> 'k list \<Rightarrow> 'k bset" where
  "bs_extend s ks = fold bs_insert ks s"

definition bs_wf :: "'k::linorder bset \<Rightarrow> bool" where
  "bs_wf s \<longleftrightarrow> sorted_wrt (<) s"

lemma set_bs_insert [simp]: "set (bs_insert k s) = insert k (set s)"
  by (induction k s rule: bs_insert.induct) auto

lemma bs_wf_insert [simp]: "bs_wf s \<Longrightarrow> bs_wf (bs_insert k s)"
  by (induction k s rule: bs_insert.induct) (auto simp: bs_wf_def)

lemma bs_wf_Nil [simp]: "bs_wf []"
  by (simp add: bs_wf_def)

lemma set_bs_extend [simp]: "set (bs_extend s ks) = set s \<union> set ks"
  unfolding bs_extend_def by (induction ks arbitrary: s) auto

lemma bs_wf_extend [simp]: "bs_wf s \<Longrightarrow> bs_wf (bs_extend s ks)"
  unfolding bs_extend_def by (induction ks arbitrary: s) auto

lemma bs_eqI: "bs_wf s \<Longrightarrow> bs_wf t \<Longrightarrow> set s = set t \<Longrightarrow> s = t"
  by (metis bs_wf_def sorted_list_of_set.idem_if_sorted_distinct strict_sorted_iff)

lemma bs_wf_distinct: "bs_wf s \<Longrightarrow> distinct s"
  by (simp add: bs_wf_def strict_sorted_iff)

lemma bs_wf_filter [simp]: "bs_wf s \<Longrightarrow> bs_wf (filter P s)"
  by (simp add: bs_wf_def sorted_wrt_filter)

end
