(* ===== verification/Grants.thy ===== *)
theory Grants
  imports Topics BTree_Map "HOL-Library.Sublist"
begin

section \<open>What a plugin may do on the bus\<close>

text \<open>
  \<open>crates/sidecar/src/grants.rs\<close>: the contract read from its two generated files, the
  grants of a role, a plugin and a component, and the two admission checks; the roles a
  declaration serves (\<open>crates/sidecar/src/roles.rs\<close>) and the renaming of roles
  (\<open>role_now\<close>, \<open>crates/domain/src/lib.rs\<close>). The sentences of the refusals are the
  constructors of \<open>grant_error\<close>, holding what the sentence names. The locale
  \<open>pattern_cover\<close> is what the admission of a subscription needs of the pattern language;
  it is interpreted on \<open>matches\<close> and \<open>covers\<close>.
\<close>

subsection \<open>The interface of the pattern language\<close>

locale pattern_cover =
  fixes hit :: "'p \<Rightarrow> 't \<Rightarrow> bool" and wide :: "'p \<Rightarrow> 'p \<Rightarrow> bool"
  assumes wide_refl: "wide g g"
    and wide_hit: "wide g r \<Longrightarrow> hit r t \<Longrightarrow> hit g t"
begin

definition admits :: "'p list \<Rightarrow> 'p \<Rightarrow> bool" where
  "admits gs r \<longleftrightarrow> (\<exists>g \<in> set gs. wide g r)"

lemma admitted_within: "admits gs r \<Longrightarrow> hit r t \<Longrightarrow> \<exists>g \<in> set gs. hit g t"
  by (auto simp: admits_def intro: wide_hit)

lemma own_admitted: "g \<in> set gs \<Longrightarrow> admits gs g"
  by (auto simp: admits_def intro: wide_refl)

lemma admits_mono: "set gs \<subseteq> set hs \<Longrightarrow> admits gs r \<Longrightarrow> admits hs r"
  by (auto simp: admits_def)

end

subsection \<open>Grants\<close>

record grants =
  publish :: "string list"
  subscribe :: "string list"

definition covers :: "string \<Rightarrow> string \<Rightarrow> bool" where
  "covers grant request \<longleftrightarrow>
     (if grant = request then True
      else if CHR ''*'' \<notin> set request then matches grant request
      else case strip_suffix ''.**'' grant of
          Some pre \<Rightarrow> starts_with (pre @ ''.'') request
        | None \<Rightarrow> False)"

definition may_publish :: "grants \<Rightarrow> string \<Rightarrow> bool" where
  "may_publish g topic \<longleftrightarrow> list_ex (\<lambda>p. matches p topic) (publish g)"

definition may_subscribe :: "grants \<Rightarrow> string \<Rightarrow> bool" where
  "may_subscribe g pattern \<longleftrightarrow> list_ex (\<lambda>granted. covers granted pattern) (subscribe g)"

lemma covers_sound:
  assumes "covers g r" "matches r t"
  shows "matches g t"
proof (cases "g = r \<or> CHR ''*'' \<notin> set r")
  case True
  with assms show ?thesis by (auto simp: covers_def matches_def split: if_splits)
next
  case False
  with assms(1) obtain pre rest where g: "g = pre @ ''.**''" and r: "r = (pre @ ''.'') @ rest"
    by (auto simp: covers_def strip_suffix_Some starts_with_iff split: option.splits)
  have "split_on (CHR ''.'') g = split_on (CHR ''.'') pre @ [''**'']"
    using split_on_append [of "CHR ''.''" pre "''**''"] by (simp add: g)
  moreover have "split_on (CHR ''.'') r = split_on (CHR ''.'') pre @ split_on (CHR ''.'') rest"
    using split_on_append [of "CHR ''.''" pre rest] by (simp add: r)
  ultimately show ?thesis
    using assms(2) seg_match_prefix [of "split_on (CHR ''.'') rest"] by (simp add: matches_iff)
qed

interpretation topic_cover: pattern_cover matches covers
  by unfold_locales (auto simp: covers_def intro: covers_sound)

lemma may_subscribe_admits: "may_subscribe g r \<longleftrightarrow> topic_cover.admits (subscribe g) r"
  by (simp add: may_subscribe_def topic_cover.admits_def list_ex_iff)

subsection \<open>The contract\<close>

datatype grant_error = NotNameAndKind "string list" | NotFourColumns "string list"
  | OwnComponent string | NotARole string "string list"

record row =
  row_topic :: string
  row_publishers :: "string list"
  row_subscribers :: "string list"

record contract =
  c_rows :: "row list"
  c_roles :: "string list"
  c_components :: "string list"

definition file_lines :: "string \<Rightarrow> string list list" where
  "file_lines file =
     map (split_on (CHR 0x09))
       (drop 1 (filter (\<lambda>line. trim line \<noteq> [] \<and> \<not> starts_with ''#'' line) (text_lines file)))"

definition parse_role_line :: "string list \<Rightarrow> contract \<Rightarrow> grant_error + contract" where
  "parse_role_line columns c =
     (case columns of
        [name, kind] \<Rightarrow>
          if kind = ''role'' then Inr (c\<lparr>c_roles := bs_insert name (c_roles c)\<rparr>)
          else if kind = ''component'' then Inr (c\<lparr>c_components := bs_insert name (c_components c)\<rparr>)
          else Inl (NotNameAndKind columns)
      | _ \<Rightarrow> Inl (NotNameAndKind columns))"

definition column_names :: "string \<Rightarrow> string list" where
  "column_names column = filter (\<lambda>name. name \<noteq> []) (map trim (split_on (CHR '','') column))"

definition parse_topic_line :: "string list \<Rightarrow> contract \<Rightarrow> grant_error + contract" where
  "parse_topic_line columns c =
     (case columns of
        [topic, kind, publishers, subscribers] \<Rightarrow>
          Inr (c\<lparr>c_rows := c_rows c @ [\<lparr>row_topic = topic, row_publishers = column_names publishers,
            row_subscribers = column_names subscribers\<rparr>]\<rparr>)
      | _ \<Rightarrow> Inl (NotFourColumns columns))"

definition parse_contract :: "string \<Rightarrow> string \<Rightarrow> grant_error + contract" where
  "parse_contract topics roles =
     rbind (rfold parse_role_line (file_lines roles) \<lparr>c_rows = [], c_roles = [], c_components = []\<rparr>)
       (rfold parse_topic_line (file_lines topics))"

definition is_role :: "contract \<Rightarrow> string \<Rightarrow> bool" where
  "is_role c name \<longleftrightarrow> List.member (c_roles c) name"

definition is_component :: "contract \<Rightarrow> string \<Rightarrow> bool" where
  "is_component c name \<longleftrightarrow> List.member (c_components c) name"

text \<open>Rows naming any of the names, each topic once, in byte order.\<close>

definition named_step :: "string list \<Rightarrow> row \<Rightarrow> string list \<times> string list \<Rightarrow> string list \<times> string list" where
  "named_step names r acc =
     (let (pub, sub) = acc;
          pub' = (if list_ex (List.member names) (row_publishers r) then bs_insert (row_topic r) pub else pub);
          sub' = (if list_ex (List.member names) (row_subscribers r) then bs_insert (row_topic r) sub else sub)
      in (pub', sub'))"

definition named :: "contract \<Rightarrow> string list \<Rightarrow> grants" where
  "named c names =
     (let (pub, sub) = fold (named_step names) (c_rows c) ([], []) in \<lparr>publish = pub, subscribe = sub\<rparr>)"

definition RENAMED_ROLES :: "(string \<times> string) list" where
  "RENAMED_ROLES = [(''ccm'', ''connectivity''), (''dgm'', ''data''), (''match'', ''confirmation'')]"

definition role_now :: "string \<Rightarrow> string" where
  "role_now role =
     (case find (\<lambda>(old, new). old = role) RENAMED_ROLES of None \<Rightarrow> role | Some (_, new) \<Rightarrow> new)"

definition roles_now :: "string list \<Rightarrow> string list" where
  "roles_now roles = map role_now roles"

definition grants_for :: "contract \<Rightarrow> string list \<Rightarrow> grant_error + grants" where
  "grants_for c roles =
     (let roles' = roles_now roles in
      case find (\<lambda>role. \<not> is_role c role) roles' of
        Some stranger \<Rightarrow>
          if is_component c stranger then Inl (OwnComponent stranger)
          else Inl (NotARole stranger (c_roles c))
      | None \<Rightarrow> Inr (named c roles'))"

definition component_grants :: "contract \<Rightarrow> string \<Rightarrow> grants" where
  "component_grants c name = named c [name]"

definition roles_granting :: "contract \<Rightarrow> string list \<Rightarrow> string \<Rightarrow> string list" where
  "roles_granting c roles topic = filter (\<lambda>role. may_publish (named c [role]) topic) roles"

definition roles_hearing :: "contract \<Rightarrow> string list \<Rightarrow> string \<Rightarrow> string list" where
  "roles_hearing c roles topic = filter (\<lambda>role. may_subscribe (named c [role]) topic) roles"

subsection \<open>The roles a declaration serves\<close>

datatype served_error = NotLaunchedWith string "string list" | NamesNoRole "string list"

definition ROLES_FROM :: nat where "ROLES_FROM = 15"

definition push_once :: "string \<Rightarrow> string list \<Rightarrow> string list" where
  "push_once role roles = (if List.member roles role then roles else roles @ [role])"

definition served :: "string list \<Rightarrow> string list \<Rightarrow> nat \<Rightarrow> served_error + string list" where
  "served names launched built_at =
     (let names' = roles_now names in
      case find (\<lambda>role. \<not> List.member launched role) names' of
        Some stranger \<Rightarrow> Inl (NotLaunchedWith stranger launched)
      | None \<Rightarrow>
          if names' \<noteq> [] then Inr (fold push_once names' [])
          else if length launched > 1 \<and> built_at \<ge> ROLES_FROM then Inl (NamesNoRole launched)
          else Inr launched)"

subsection \<open>What the rows give\<close>

definition names_any :: "string list \<Rightarrow> string list \<Rightarrow> bool" where
  "names_any names who \<longleftrightarrow> (\<exists>n \<in> set who. n \<in> set names)"

lemma list_ex_member: "list_ex (List.member names) who \<longleftrightarrow> names_any names who"
  by (auto simp: list_ex_iff names_any_def)

lemma fold_named:
  "set (fst (fold (named_step names) rs (pub, sub))) =
      set pub \<union> {row_topic r |r. r \<in> set rs \<and> names_any names (row_publishers r)}"
  "set (snd (fold (named_step names) rs (pub, sub))) =
      set sub \<union> {row_topic r |r. r \<in> set rs \<and> names_any names (row_subscribers r)}"
  by (induction rs arbitrary: pub sub)
    (auto simp: named_step_def Let_def list_ex_member split: if_splits)

lemma set_named:
  "set (publish (named c names)) = {row_topic r |r. r \<in> set (c_rows c) \<and> names_any names (row_publishers r)}"
  "set (subscribe (named c names)) = {row_topic r |r. r \<in> set (c_rows c) \<and> names_any names (row_subscribers r)}"
  using fold_named [of names "c_rows c" "[]" "[]"] by (simp_all add: named_def Let_def split_beta)

lemma may_publish_named:
  "may_publish (named c names) t \<longleftrightarrow>
     (\<exists>r \<in> set (c_rows c). names_any names (row_publishers r) \<and> matches (row_topic r) t)"
  by (auto simp: may_publish_def list_ex_iff set_named)

lemma may_subscribe_named:
  "may_subscribe (named c names) p \<longleftrightarrow>
     (\<exists>r \<in> set (c_rows c). names_any names (row_subscribers r) \<and> covers (row_topic r) p)"
  by (auto simp: may_subscribe_def list_ex_iff set_named)

lemma names_any_one: "names_any names who \<longleftrightarrow> (\<exists>n \<in> set names. names_any [n] who)"
  by (auto simp: names_any_def)

lemma may_publish_union: "may_publish (named c names) t \<longleftrightarrow> (\<exists>n \<in> set names. may_publish (named c [n]) t)"
  unfolding may_publish_named using names_any_one by blast

lemma may_subscribe_union: "may_subscribe (named c names) p \<longleftrightarrow> (\<exists>n \<in> set names. may_subscribe (named c [n]) p)"
  unfolding may_subscribe_named using names_any_one by blast

lemma role_now_idem [simp]: "role_now (role_now r) = role_now r"
  by (simp add: role_now_def RENAMED_ROLES_def)

lemma roles_now_idem [simp]: "roles_now (roles_now rs) = roles_now rs"
  by (simp add: roles_now_def)

lemma grants_for_eq:
  "grants_for c roles =
     (if \<forall>r \<in> set (roles_now roles). is_role c r then Inr (named c (roles_now roles))
      else let s = hd (filter (\<lambda>r. \<not> is_role c r) (roles_now roles))
           in if is_component c s then Inl (OwnComponent s) else Inl (NotARole s (c_roles c)))"
proof (cases "find (\<lambda>role. \<not> is_role c role) (roles_now roles)")
  case None
  then have "\<forall>r \<in> set (roles_now roles). is_role c r" by (simp add: find_None_iff)
  with None show ?thesis by (simp add: grants_for_def Let_def)
next
  case (Some s)
  then have s: "s \<in> set (roles_now roles)" "\<not> is_role c s" by (auto simp: find_Some_iff)
  have "hd (filter (\<lambda>r. \<not> is_role c r) (roles_now roles)) = s"
    using Some by (induction "roles_now roles" arbitrary: roles) (auto split: if_splits simp: roles_now_def)
  with Some s show ?thesis by (auto simp: grants_for_def Let_def)
qed

lemma set_fold_push: "set (fold push_once rs acc) = set acc \<union> set rs"
  by (induction rs arbitrary: acc) (auto simp: push_once_def)

lemma distinct_fold_push: "distinct acc \<Longrightarrow> distinct (fold push_once rs acc)"
  by (induction rs arbitrary: acc) (auto simp: push_once_def)

lemma parse_example:
  "rbind (parse_contract (''t'' @ [CHR 0x0A] @ ''a.*'' @ [CHR 0x09] @ ''event'' @ [CHR 0x09] @ ''x'' @ [CHR 0x09] @ ''y, z'')
      (''n'' @ [CHR 0x0A] @ ''x'' @ [CHR 0x09] @ ''role'' @ [CHR 0x0A] @ ''y'' @ [CHR 0x09] @ ''role''))
    (\<lambda>c. grants_for c [''x'', ''y'']) = Inr \<lparr>publish = [''a.*''], subscribe = [''a.*'']\<rparr>"
  by code_simp

section \<open>Properties\<close>

text \<open>C37: The matcher's loop is the pattern grammar: \<open>*\<close> is one segment, \<open>**\<close> one or more and
  only at the end, any other segment itself, and nothing matches zero segments.\<close>

theorem matches_is_the_grammar:
  "matches pattern topic \<longleftrightarrow> seg_match (split_on (CHR ''.'') pattern) (split_on (CHR ''.'') topic)"
  by (rule matches_iff)

text \<open>A topic is publishable exactly when each of its segments is non-empty and free of
  wildcards; then it matches itself.\<close>

theorem publishable_segments:
  "(is_publishable t \<longleftrightarrow> (\<forall>s \<in> set (split_on (CHR ''.'') t). s \<noteq> [] \<and> CHR ''*'' \<notin> set s))
    \<and> (is_publishable t \<longrightarrow> matches t t)"
  using publishable_iff [of t] seg_match_refl_literal [of t] by (auto simp: is_publishable_def)

theorem publishable_segments_witness: "is_publishable ''a.b'' \<and> matches ''a.b'' ''a.b''"
  using publishable_segments [of "''a.b''"] by (simp add: is_publishable_def starts_with_def ends_with_def)

text \<open>C26: No subscription is widened past its grants: every topic an admitted pattern would
  deliver is matched by one of the plugin's own subscribe grants.\<close>

theorem subscription_never_widened:
  assumes "may_subscribe g pattern" and "matches pattern topic"
  shows "\<exists>granted \<in> set (subscribe g). matches granted topic"
  using assms by (auto simp: may_subscribe_admits dest: topic_cover.admitted_within)

theorem subscription_never_widened_witness:
  "\<exists>granted \<in> {''platform.street.**''}. matches granted ''platform.street.event.x''"
  using subscription_never_widened [of "\<lparr>publish = [], subscribe = [''platform.street.**'']\<rparr>"
      "''platform.street.event.*''" "''platform.street.event.x''"]
  by (simp add: may_subscribe_def covers_def strip_suffix_def ends_with_def starts_with_def matches_def Let_def)

text \<open>Narrowing is not always admitted, though the comment on \<open>may_subscribe\<close> says it is:
  a pattern that delivers only what its grant matches is refused where the grant does not
  end in \<open>**\<close>.\<close>

theorem narrowing_can_be_refused:
  "\<not> covers ''a.*.*'' ''a.b.*'' \<and> (\<forall>t. matches ''a.b.*'' t \<longrightarrow> matches ''a.*.*'' t)"
proof -
  have "matches ''a.*.*'' t" if "matches ''a.b.*'' t" for t
  proof -
    have "\<exists>x. split_on (CHR ''.'') t = [''a'', ''b'', x]"
      using that by (auto simp: matches_iff neq_Nil_conv elim!: seg_match.elims split: if_splits)
    then show ?thesis by (auto simp: matches_iff)
  qed
  moreover have "\<not> covers ''a.*.*'' ''a.b.*''"
    by (simp add: covers_def strip_suffix_def ends_with_def)
  ultimately show ?thesis by blast
qed

theorem narrowing_can_be_refused_witness:
  "\<not> covers ''a.*.*'' ''a.b.*'' \<and> matches ''a.*.*'' ''a.b.c''"
proof -
  have "matches ''a.b.*'' ''a.b.c''" by code_simp
  with narrowing_can_be_refused show ?thesis by blast
qed

text \<open>A plugin's grants are exactly the union of its roles' rows, each role read by its
  current name: a topic may be published (a pattern subscribed to) if and only if some
  row names one of the roles as publisher (subscriber) and matches (covers) it. A plugin
  naming anything that is not a role is refused, a component by its own reason.\<close>

theorem grants_are_the_roles_rows:
  "case grants_for c roles of
     Inr g \<Rightarrow> (\<forall>r \<in> set roles. is_role c (role_now r))
       \<and> (\<forall>t. may_publish g t \<longleftrightarrow> (\<exists>w \<in> set (c_rows c). \<exists>r \<in> set roles.
             role_now r \<in> set (row_publishers w) \<and> matches (row_topic w) t))
       \<and> (\<forall>p. may_subscribe g p \<longleftrightarrow> (\<exists>w \<in> set (c_rows c). \<exists>r \<in> set roles.
             role_now r \<in> set (row_subscribers w) \<and> covers (row_topic w) p))
   | Inl (OwnComponent s) \<Rightarrow> s \<in> role_now ` set roles \<and> \<not> is_role c s \<and> is_component c s
   | Inl (NotARole s rs) \<Rightarrow> s \<in> role_now ` set roles \<and> \<not> is_role c s \<and> \<not> is_component c s \<and> rs = c_roles c
   | Inl e \<Rightarrow> False"
proof (cases "\<forall>r \<in> set (roles_now roles). is_role c r")
  case True
  then show ?thesis
    by (auto simp: grants_for_eq may_publish_named may_subscribe_named names_any_def roles_now_def)
next
  case False
  define s where "s = hd (filter (\<lambda>r. \<not> is_role c r) (roles_now roles))"
  from False have "filter (\<lambda>r. \<not> is_role c r) (roles_now roles) \<noteq> []" by (simp add: filter_empty_conv)
  then have "s \<in> set (filter (\<lambda>r. \<not> is_role c r) (roles_now roles))" unfolding s_def by (rule hd_in_set)
  then have "s \<in> role_now ` set roles" "\<not> is_role c s" by (auto simp: roles_now_def)
  with False show ?thesis by (auto simp: grants_for_eq s_def [symmetric] Let_def)
qed

theorem grants_are_the_roles_rows_witness:
  "\<forall>t. may_publish \<lparr>publish = [''a.*''], subscribe = []\<rparr> t \<longleftrightarrow> matches ''a.*'' t"
proof -
  let ?c = "\<lparr>c_rows = [\<lparr>row_topic = ''a.*'', row_publishers = [''data''], row_subscribers = [''y'']\<rparr>],
      c_roles = [''data'', ''y''], c_components = []\<rparr>"
  have g: "grants_for ?c [''dgm''] = Inr \<lparr>publish = [''a.*''], subscribe = []\<rparr>" by code_simp
  have n: "role_now ''dgm'' = ''data''" by code_simp
  from grants_are_the_roles_rows [where c = ?c and roles = "[''dgm'']"] show ?thesis unfolding g by (simp add: n)
qed

text \<open>The roles a command is admitted by are consistent with the plugin's grants: for a
  plugin launched with current role names, some role holds a topic to publish exactly when
  the plugin's own grants may publish it, and the list keeps the plugin's order.\<close>

theorem granting_roles_agree:
  assumes "grants_for c roles = Inr g" and "roles_now roles = roles"
  shows "(roles_granting c roles t \<noteq> [] \<longleftrightarrow> may_publish g t)
    \<and> (roles_hearing c roles t \<noteq> [] \<longleftrightarrow> may_subscribe g t)
    \<and> subseq (roles_granting c roles t) roles"
proof -
  from assms have g: "g = named c roles" by (auto simp: grants_for_eq Let_def split: if_splits)
  show ?thesis unfolding g
    using may_publish_union [of c roles t] may_subscribe_union [of c roles t]
    by (auto simp: roles_granting_def roles_hearing_def filter_empty_conv)
qed

theorem granting_roles_agree_witness:
  "roles_granting \<lparr>c_rows = [\<lparr>row_topic = ''a.*'', row_publishers = [''x''], row_subscribers = [''y'']\<rparr>],
      c_roles = [''x'', ''y''], c_components = []\<rparr> [''x'', ''y''] ''a.b'' = [''x'']
    \<and> may_publish \<lparr>publish = [''a.*''], subscribe = [''a.*'']\<rparr> ''a.b''"
proof -
  let ?c = "\<lparr>c_rows = [\<lparr>row_topic = ''a.*'', row_publishers = [''x''], row_subscribers = [''y'']\<rparr>],
      c_roles = [''x'', ''y''], c_components = []\<rparr>"
  have g: "grants_for ?c [''x'', ''y''] = Inr \<lparr>publish = [''a.*''], subscribe = [''a.*'']\<rparr>" by code_simp
  have n: "roles_now [''x'', ''y''] = [''x'', ''y'']" by code_simp
  have r: "roles_granting ?c [''x'', ''y''] ''a.b'' = [''x'']" by code_simp
  from granting_roles_agree [OF g n, of "''a.b''"] r show ?thesis by simp
qed

text \<open>What a declaration serves is within what its plugin was launched with, each role
  once, by its current name; one naming no role serves everything the plugin holds, unless
  the plugin holds several and was built at contract 15 or later.\<close>

theorem served_within_launched:
  "case served names launched built_at of
     Inr rs \<Rightarrow> set rs \<subseteq> set launched \<and> (names = [] \<longrightarrow> rs = launched)
       \<and> (names \<noteq> [] \<longrightarrow> distinct rs \<and> set rs = role_now ` set names)
   | Inl (NotLaunchedWith s held) \<Rightarrow> s \<in> role_now ` set names \<and> s \<notin> set launched \<and> held = launched
   | Inl (NamesNoRole held) \<Rightarrow> names = [] \<and> 1 < length launched \<and> 15 \<le> built_at"
proof (cases "find (\<lambda>role. \<not> List.member launched role) (roles_now names)")
  case None
  then have "set (roles_now names) \<subseteq> set launched" by (auto simp: find_None_iff)
  with None show ?thesis
    by (auto simp: served_def roles_now_def set_fold_push distinct_fold_push ROLES_FROM_def)
next
  case (Some s)
  then have "s \<in> set (roles_now names)" "s \<notin> set launched" by (auto simp: find_Some_iff)
  with Some show ?thesis by (auto simp: served_def roles_now_def)
qed

theorem served_within_launched_witness:
  "served [''dgm'', ''data''] [''oms'', ''data''] 15 = Inr [''data''] \<and> set [''data''] \<subseteq> set [''oms'', ''data'']"
proof -
  have s: "served [''dgm'', ''data''] [''oms'', ''data''] 15 = Inr [''data'']" by code_simp
  from served_within_launched [where names = "[''dgm'', ''data'']" and launched = "[''oms'', ''data'']" and built_at = 15] show ?thesis
    unfolding s by simp
qed

end
