(* ===== verification/Access.thy ===== *)
theory Access
  imports BTree_Map Rust_Text "HOL-Library.Word"
begin

section \<open>Who may reach what\<close>

text \<open>
  \<open>crates/access/src/lib.rs\<close>: pure functions over the records a deployment admin
  authors. Records carry the fields these functions read. An access entry's level is the
  decoded enum, \<open>None\<close> where the integer on the wire names no level (the enum's numbers
  are the contract crate's, outside the repository). \<open>BTreeMap\<close> and \<open>BTreeSet\<close> are the
  ordered lists of \<open>BTree_Map\<close>.

  The locale \<open>held_view\<close> is the interface between the fold over permissions and what is
  read off its result: a view that turns the addition of two holdings into a union. Its
  lemmas follow the fold once; the interpretations give them for administration, the data
  level, the read accounts and the write accounts.
\<close>

subsection \<open>The records\<close>

datatype access_level = Unspecified | Read | Write | Admin

record account_record =
  account_id :: string
  account_state :: int

definition CLOSED :: int where "CLOSED = 2"

record user_group =
  user_group_id :: string
  ug_name :: string
  ug_directory_groups :: "string list"
  ug_logins :: "string list"

record account_group =
  account_group_id :: string
  ag_account_ids :: "string list"
  ag_built_in :: bool

record access_entry =
  e_plugin :: string
  e_role :: string
  e_level :: "access_level option"

record access_group =
  access_group_id :: string
  ag_entries :: "access_entry list"

record permission =
  p_user_group :: string
  p_account_group :: string
  p_access_group :: string

record sign_in =
  s_subject :: string
  s_display_name :: string
  s_directory_groups :: "string list"
  s_signed_in_at_ns :: int

record known_plugin =
  k_plugin :: string
  k_roles :: "string list"


record access_records =
  accounts :: "account_record list"
  user_groups :: "user_group list"
  account_groups :: "account_group list"
  access_groups :: "access_group list"
  permissions :: "permission list"
  people :: "sign_in list"
  known_plugins :: "known_plugin list"

definition DEPLOYMENT_ADMIN :: string where "DEPLOYMENT_ADMIN = ''deployment-admin''"

definition ALL_PLUGINS_ADMIN :: string where "ALL_PLUGINS_ADMIN = ''all-plugins-admin''"


definition is_built_in_access_group :: "string \<Rightarrow> bool" where
  "is_built_in_access_group g \<longleftrightarrow> g = DEPLOYMENT_ADMIN \<or> g = ALL_PLUGINS_ADMIN"

subsection \<open>What is held\<close>

record levels =
  l_read :: "string bset"
  l_write :: "string bset"

definition no_levels :: levels where "no_levels = \<lparr>l_read = [], l_write = []\<rparr>"

definition levels_add :: "levels \<Rightarrow> levels \<Rightarrow> levels" where
  "levels_add a b = \<lparr>l_read = bs_extend (l_read a) (l_read b), l_write = bs_extend (l_write a) (l_write b)\<rparr>"

definition levels_empty :: "levels \<Rightarrow> bool" where
  "levels_empty l \<longleftrightarrow> l_read l = [] \<and> l_write l = []"

record held =
  h_admin :: bool
  h_data :: "access_level option"
  h_accounts :: levels

definition no_held :: held where
  "no_held = \<lparr>h_admin = False, h_data = None, h_accounts = no_levels\<rparr>"

definition higher :: "access_level option \<Rightarrow> access_level option \<Rightarrow> access_level option" where
  "higher one other =
     (if one = Some Write \<or> other = Some Write then Some Write
      else if one = Some Read \<or> other = Some Read then Some Read
      else None)"

definition held_add :: "held \<Rightarrow> held \<Rightarrow> held" where
  "held_add a b =
     \<lparr>h_admin = (h_admin a \<or> h_admin b), h_data = higher (h_data a) (h_data b),
      h_accounts = levels_add (h_accounts a) (h_accounts b)\<rparr>"

definition held_any :: "held \<Rightarrow> bool" where
  "held_any h \<longleftrightarrow> h_admin h \<or> h_data h \<noteq> None"





record plugin_held = ph_roles :: "(string, held) btree"

type_synonym plugin_levels = "(string, plugin_held) btree"

definition no_plugin_held :: plugin_held where "no_plugin_held = \<lparr>ph_roles = []\<rparr>"

definition ph_add :: "string \<Rightarrow> held \<Rightarrow> plugin_held \<Rightarrow> plugin_held" where
  "ph_add role h ph = ph\<lparr>ph_roles := bt_entry role no_held (\<lambda>old. held_add old h) (ph_roles ph)\<rparr>"

definition ph_union :: "plugin_held \<Rightarrow> held" where
  "ph_union ph = fold (\<lambda>h u. held_add u h) (bt_values (ph_roles ph)) no_held"

definition ph_holds_any :: "plugin_held \<Rightarrow> bool" where
  "ph_holds_any ph \<longleftrightarrow> list_ex held_any (bt_values (ph_roles ph))"

definition ph_administers :: "plugin_held \<Rightarrow> string \<Rightarrow> bool" where
  "ph_administers ph role \<longleftrightarrow>
     (case bt_get (ph_roles ph) role of None \<Rightarrow> False | Some h \<Rightarrow> h_admin h)"

definition ph_administers_every :: "plugin_held \<Rightarrow> string list \<Rightarrow> bool" where
  "ph_administers_every ph roles \<longleftrightarrow>
     (if roles = [] then ph_administers ph [] else list_all (ph_administers ph) roles)"

definition ph_administers_any_of :: "plugin_held \<Rightarrow> string list \<Rightarrow> bool" where
  "ph_administers_any_of ph roles \<longleftrightarrow>
     (if roles = [] then list_ex h_admin (bt_values (ph_roles ph)) else list_ex (ph_administers ph) roles)"

subsection \<open>Sessions\<close>





subsection \<open>The fold over permissions\<close>

definition known_roles :: "access_records \<Rightarrow> string \<Rightarrow> string list option" where
  "known_roles records plugin =
     map_option k_roles (find (\<lambda>known. k_plugin known = plugin) (known_plugins records))"

definition entry_holds :: "access_records \<Rightarrow> string \<Rightarrow> string \<Rightarrow> bool" where
  "entry_holds records plugin role \<longleftrightarrow>
     (case known_roles records plugin of
        None \<Rightarrow> True
      | Some roles \<Rightarrow> if roles = [] then role = [] else role \<noteq> [] \<and> List.member roles role)"

definition accounts_of_group :: "access_records \<Rightarrow> string \<Rightarrow> account_record list" where
  "accounts_of_group records gid =
     (case find (\<lambda>grp. account_group_id grp = gid) (account_groups records) of
        None \<Rightarrow> []
      | Some grp \<Rightarrow>
          if ag_built_in grp then accounts records
          else List.map_filter (\<lambda>aid. find (\<lambda>account. account_id account = aid) (accounts records))
            (ag_account_ids grp))"

definition reach_account :: "access_level \<Rightarrow> account_record \<Rightarrow> levels \<Rightarrow> levels" where
  "reach_account level account l =
     (let l' = l\<lparr>l_read := bs_insert (account_id account) (l_read l)\<rparr>;
          writable = (level = Write \<and> account_state account \<noteq> CLOSED)
      in if writable then l'\<lparr>l_write := bs_insert (account_id account) (l_write l')\<rparr> else l')"

definition entry_held :: "account_record list \<Rightarrow> access_level option \<Rightarrow> held option" where
  "entry_held reached level =
     (case level of
        Some Admin \<Rightarrow> Some (no_held\<lparr>h_admin := True\<rparr>)
      | Some Read \<Rightarrow>
          Some (no_held\<lparr>h_data := Some Read, h_accounts := fold (reach_account Read) reached no_levels\<rparr>)
      | Some Write \<Rightarrow>
          Some (no_held\<lparr>h_data := Some Write, h_accounts := fold (reach_account Write) reached no_levels\<rparr>)
      | _ \<Rightarrow> None)"

definition fold_entry ::
  "access_records \<Rightarrow> account_record list \<Rightarrow> access_entry \<Rightarrow> plugin_levels \<Rightarrow> plugin_levels" where
  "fold_entry records reached entry into =
     (case entry_held reached (e_level entry) of
        None \<Rightarrow> into
      | Some h \<Rightarrow>
          if \<not> entry_holds records (e_plugin entry) (e_role entry) then into
          else bt_entry (e_plugin entry) no_plugin_held (ph_add (e_role entry) h) into)"

definition fold_permission :: "access_records \<Rightarrow> permission \<Rightarrow> plugin_levels \<Rightarrow> plugin_levels" where
  "fold_permission records p into =
     (case find (\<lambda>grp. access_group_id grp = p_access_group p) (access_groups records) of
        None \<Rightarrow> into
      | Some grp \<Rightarrow>
          fold (fold_entry records (accounts_of_group records (p_account_group p))) (ag_entries grp) into)"

record access =
  a_deployment_admin :: bool
  a_all_plugins_admin :: bool
  a_user_group_ids :: "string bset"
  a_plugins :: plugin_levels
  a_known_roles :: "(string, string list) btree"

definition access_step :: "access_records \<Rightarrow> permission \<Rightarrow> access \<Rightarrow> access" where
  "access_step records p a =
     (if p_access_group p = DEPLOYMENT_ADMIN then a\<lparr>a_deployment_admin := True\<rparr>
      else if p_access_group p = ALL_PLUGINS_ADMIN then a\<lparr>a_all_plugins_admin := True\<rparr>
      else a\<lparr>a_plugins := fold_permission records p (a_plugins a)\<rparr>)"

definition access_of_groups :: "access_records \<Rightarrow> string bset \<Rightarrow> access" where
  "access_of_groups records gids =
     fold (access_step records) (filter (\<lambda>p. List.member gids (p_user_group p)) (permissions records))
       \<lparr>a_deployment_admin = False, a_all_plugins_admin = False, a_user_group_ids = gids, a_plugins = [],
        a_known_roles = fold (\<lambda>known. bt_insert (k_plugin known) (k_roles known)) (known_plugins records) []\<rparr>"

definition user_groups_of :: "access_records \<Rightarrow> string \<Rightarrow> string list \<Rightarrow> user_group list" where
  "user_groups_of records subject dgs =
     filter (\<lambda>grp. list_ex (\<lambda>login. login = subject) (ug_logins grp)
         \<or> list_ex (List.member dgs) (ug_directory_groups grp)) (user_groups records)"

definition person_access :: "access_records \<Rightarrow> string \<Rightarrow> string list \<Rightarrow> access" where
  "person_access records subject dgs =
     access_of_groups records (bs_extend [] (map user_group_id (user_groups_of records subject dgs)))"

definition deployment_admin_held :: "access_records \<Rightarrow> bool" where
  "deployment_admin_held records \<longleftrightarrow>
     list_ex (\<lambda>grp. ug_logins grp \<noteq> []
         \<or> list_ex (\<lambda>person. list_ex (List.member (ug_directory_groups grp)) (s_directory_groups person))
             (people records))
       (List.map_filter (\<lambda>p. find (\<lambda>grp. user_group_id grp = p_user_group p) (user_groups records))
         (filter (\<lambda>p. p_access_group p = DEPLOYMENT_ADMIN) (permissions records)))"

subsection \<open>A person on a plugin\<close>

definition roles_of :: "(string, string list) btree \<Rightarrow> string \<Rightarrow> string list" where
  "roles_of known plugin =
     (case bt_get known plugin of Some roles \<Rightarrow> if roles \<noteq> [] then roles else [[]] | None \<Rightarrow> [[]])"

definition mark_admin :: "string \<Rightarrow> plugin_held \<Rightarrow> plugin_held" where
  "mark_admin role ph = ph\<lparr>ph_roles := bt_entry role no_held (h_admin_update (\<lambda>_. True)) (ph_roles ph)\<rparr>"

definition access_plugin :: "access \<Rightarrow> string \<Rightarrow> plugin_held" where
  "access_plugin a plugin =
     (let h = (case bt_get (a_plugins a) plugin of None \<Rightarrow> no_plugin_held | Some ph \<Rightarrow> ph)
      in if a_all_plugins_admin a then fold mark_admin (roles_of (a_known_roles a) plugin) h else h)"

definition access_held :: "access \<Rightarrow> string \<Rightarrow> held" where
  "access_held a plugin = ph_union (access_plugin a plugin)"

definition on_plugin :: "access \<Rightarrow> string \<Rightarrow> levels" where
  "on_plugin a plugin = h_accounts (access_held a plugin)"

definition administers :: "access \<Rightarrow> string \<Rightarrow> bool" where
  "administers a plugin \<longleftrightarrow> h_admin (access_held a plugin)"

definition administers_any :: "access \<Rightarrow> bool" where
  "administers_any a \<longleftrightarrow> a_all_plugins_admin a
     \<or> list_ex (\<lambda>ph. list_ex h_admin (bt_values (ph_roles ph))) (bt_values (a_plugins a))"

subsection \<open>A plugin's scope and its access table\<close>



definition accounts_in_groups :: "access_records \<Rightarrow> string list \<Rightarrow> string bset" where
  "accounts_in_groups records gids =
     bs_extend [] (map account_id (List.maps (accounts_of_group records) gids))"

definition account_groups_named :: "access_records \<Rightarrow> access \<Rightarrow> string bset" where
  "account_groups_named records a =
     bs_extend [] (map p_account_group
       (filter (\<lambda>p. p_account_group p \<noteq> [])
         (filter (\<lambda>p. \<not> is_built_in_access_group (p_access_group p))
           (filter (\<lambda>p. List.member (a_user_group_ids a) (p_user_group p)) (permissions records)))))"

record role_access =
  ra_role :: string
  ra_level :: access_level
  ra_read :: "32 word list"
  ra_write :: "32 word list"

text \<open>The positions are cast to 32 bits.\<close>

definition positions :: "string bset \<Rightarrow> string bset \<Rightarrow> 32 word list" where
  "positions within of_these =
     map (\<lambda>(i, account). word_of_nat i)
       (filter (\<lambda>(i, account). List.member of_these account) (enumerate 0 within))"

definition role_access_of :: "string \<Rightarrow> access_level \<Rightarrow> levels \<Rightarrow> levels \<Rightarrow> role_access" where
  "role_access_of role level reached whole =
     \<lparr>ra_role = role, ra_level = level,
      ra_read = positions (l_read whole) (l_read reached),
      ra_write = positions (l_read whole) (l_write reached)\<rparr>"

definition table_roles :: "plugin_held \<Rightarrow> levels \<Rightarrow> role_access list" where
  "table_roles ph whole =
     List.map_filter
       (\<lambda>(role, h). map_option (\<lambda>level. role_access_of role level (h_accounts h) whole) (h_data h))
       (filter (\<lambda>(role, h). role \<noteq> []) (ph_roles ph))"

record group_access =
  ga_user_group_id :: string
  ga_name :: string
  ga_read :: "string list"
  ga_write :: "string list"
  ga_roles :: "role_access list"

record person_row =
  pr_subject :: string
  pr_display_name :: string
  pr_user_group_ids :: "string list"
  pr_last_signed_in_at_ns :: int
  pr_read :: "string list"
  pr_write :: "string list"
  pr_roles :: "role_access list"

definition plugin_of :: "access \<Rightarrow> string \<Rightarrow> plugin_held" where
  "plugin_of a plugin = (case bt_get (a_plugins a) plugin of None \<Rightarrow> no_plugin_held | Some ph \<Rightarrow> ph)"

definition group_row :: "access_records \<Rightarrow> string \<Rightarrow> user_group \<Rightarrow> group_access option" where
  "group_row records plugin grp =
     (let ph = plugin_of (access_of_groups records [user_group_id grp]) plugin;
          l = h_accounts (ph_union ph)
      in if levels_empty l then None
         else Some \<lparr>ga_user_group_id = user_group_id grp, ga_name = ug_name grp, ga_read = l_read l,
           ga_write = l_write l, ga_roles = table_roles ph l\<rparr>)"

definition person_row_of :: "access_records \<Rightarrow> string \<Rightarrow> sign_in \<Rightarrow> person_row option" where
  "person_row_of records plugin person =
     (let a = person_access records (s_subject person) (s_directory_groups person);
          ph = plugin_of a plugin; l = h_accounts (ph_union ph)
      in if levels_empty l then None
         else Some \<lparr>pr_subject = s_subject person, pr_display_name = s_display_name person,
           pr_user_group_ids = a_user_group_ids a, pr_last_signed_in_at_ns = s_signed_in_at_ns person,
           pr_read = l_read l, pr_write = l_write l, pr_roles = table_roles ph l\<rparr>)"

definition plugin_access_table :: "access_records \<Rightarrow> string \<Rightarrow> group_access list \<times> person_row list" where
  "plugin_access_table records plugin =
     (List.map_filter (group_row records plugin) (user_groups records),
      List.map_filter (person_row_of records plugin) (people records))"

section \<open>Facts\<close>

lemma levels_add_sel [simp]:
  "set (l_read (levels_add a b)) = set (l_read a) \<union> set (l_read b)"
  "set (l_write (levels_add a b)) = set (l_write a) \<union> set (l_write b)"
  by (simp_all add: levels_add_def)

lemma held_add_sel [simp]:
  "h_admin (held_add a b) \<longleftrightarrow> h_admin a \<or> h_admin b"
  "h_data (held_add a b) = higher (h_data a) (h_data b)"
  "h_accounts (held_add a b) = levels_add (h_accounts a) (h_accounts b)"
  by (simp_all add: held_add_def)

lemma no_held_sel [simp]:
  "\<not> h_admin no_held" "h_data no_held = None" "h_accounts no_held = no_levels"
  by (simp_all add: no_held_def)

lemma no_levels_sel [simp]: "l_read no_levels = []" "l_write no_levels = []"
  by (simp_all add: no_levels_def)

lemma no_plugin_held_sel [simp]: "ph_roles no_plugin_held = []"
  by (simp add: no_plugin_held_def)

text \<open>What is held on one role of one plugin.\<close>

definition role_held :: "plugin_held \<Rightarrow> string \<Rightarrow> held" where
  "role_held ph role = (case bt_get (ph_roles ph) role of None \<Rightarrow> no_held | Some h \<Rightarrow> h)"

definition held_at :: "plugin_levels \<Rightarrow> string \<Rightarrow> string \<Rightarrow> held" where
  "held_at m plugin role =
     role_held (case bt_get m plugin of None \<Rightarrow> no_plugin_held | Some ph \<Rightarrow> ph) role"

lemma held_at_Nil [simp]: "held_at [] plugin role = no_held"
  by (simp add: held_at_def role_held_def)

text \<open>What one entry of one permission contributes, and where.\<close>

definition contributes :: "access_records \<Rightarrow> permission \<Rightarrow> access_entry \<Rightarrow> held \<Rightarrow> bool" where
  "contributes records p e h \<longleftrightarrow>
     (\<exists>g. find (\<lambda>grp. access_group_id grp = p_access_group p) (access_groups records) = Some g
       \<and> e \<in> set (ag_entries g))
     \<and> entry_held (accounts_of_group records (p_account_group p)) (e_level e) = Some h
     \<and> entry_holds records (e_plugin e) (e_role e)"

lemma role_held_ph_add:
  "role_held (ph_add r h ph) role = (if role = r then held_add (role_held ph r) h else role_held ph role)"
  by (simp add: role_held_def ph_add_def)

lemma held_at_fold_entry:
  "held_at (fold_entry records reached e m) plugin role =
     (case entry_held reached (e_level e) of
        Some h \<Rightarrow>
          if entry_holds records (e_plugin e) (e_role e) \<and> e_plugin e = plugin \<and> e_role e = role
          then held_add (held_at m plugin role) h else held_at m plugin role
      | None \<Rightarrow> held_at m plugin role)"
  by (auto simp: fold_entry_def held_at_def role_held_ph_add split: option.splits)

subsection \<open>Views of a holding\<close>

locale held_view =
  fixes v :: "held \<Rightarrow> 'a set"
  assumes v_add: "v (held_add a b) = v a \<union> v b"
    and v_none: "v no_held = {}"
begin

lemma v_fold_entry:
  "x \<in> v (held_at (fold_entry records reached e m) plugin role) \<longleftrightarrow>
     x \<in> v (held_at m plugin role) \<or>
     (\<exists>h. entry_held reached (e_level e) = Some h \<and> entry_holds records (e_plugin e) (e_role e)
        \<and> e_plugin e = plugin \<and> e_role e = role \<and> x \<in> v h)"
  by (auto simp: held_at_fold_entry v_add split: option.splits)

lemma v_fold_entries:
  "x \<in> v (held_at (fold (fold_entry records reached) es m) plugin role) \<longleftrightarrow>
     x \<in> v (held_at m plugin role) \<or>
     (\<exists>e \<in> set es. \<exists>h. entry_held reached (e_level e) = Some h
        \<and> entry_holds records (e_plugin e) (e_role e) \<and> e_plugin e = plugin \<and> e_role e = role \<and> x \<in> v h)"
  by (rule fold_grows) (rule v_fold_entry)

lemma v_fold_permission:
  "x \<in> v (held_at (fold_permission records p m) plugin role) \<longleftrightarrow>
     x \<in> v (held_at m plugin role) \<or>
     (\<exists>e h. contributes records p e h \<and> e_plugin e = plugin \<and> e_role e = role \<and> x \<in> v h)"
  by (cases "find (\<lambda>grp. access_group_id grp = p_access_group p) (access_groups records)")
    (auto simp: fold_permission_def contributes_def v_fold_entries)

lemma v_fold_permissions:
  "x \<in> v (held_at (fold (fold_permission records) ps m) plugin role) \<longleftrightarrow>
     x \<in> v (held_at m plugin role) \<or>
     (\<exists>p \<in> set ps. \<exists>e h. contributes records p e h \<and> e_plugin e = plugin \<and> e_role e = role \<and> x \<in> v h)"
  by (rule fold_grows) (rule v_fold_permission)

lemma v_fold_add: "v (fold (\<lambda>h u. held_add u h) hs u) = v u \<union> \<Union> (v ` set hs)"
  by (induction hs arbitrary: u) (auto simp: v_add)

lemma v_union: "bt_wf (ph_roles ph) \<Longrightarrow> v (ph_union ph) = (\<Union>role. v (role_held ph role))"
proof -
  assume wf: "bt_wf (ph_roles ph)"
  have "v (ph_union ph) = \<Union> (v ` set (bt_values (ph_roles ph)))"
    by (simp add: ph_union_def v_fold_add v_none)
  also have "\<dots> = (\<Union>role. v (role_held ph role))"
  proof
    show "\<Union> (v ` set (bt_values (ph_roles ph))) \<subseteq> (\<Union>role. v (role_held ph role))"
    proof clarsimp
      fix x role h
      assume "(role, h) \<in> set (ph_roles ph)" "x \<in> v h"
      then show "\<exists>r. x \<in> v (role_held ph r)"
        using bt_get_mem [OF wf, of role h] by (intro exI [of _ role]) (simp add: role_held_def)
    qed
    show "(\<Union>role. v (role_held ph role)) \<subseteq> \<Union> (v ` set (bt_values (ph_roles ph)))"
      using bt_get_Some_mem by (force simp: role_held_def v_none split: option.splits)
  qed
  finally show ?thesis .
qed

end

definition v_admin :: "held \<Rightarrow> unit set" where "v_admin h = (if h_admin h then {()} else {})"

definition v_data :: "held \<Rightarrow> unit set" where
  "v_data h = (if h_data h = Some Read \<or> h_data h = Some Write then {()} else {})"

definition v_write_level :: "held \<Rightarrow> unit set" where
  "v_write_level h = (if h_data h = Some Write then {()} else {})"

definition v_read :: "held \<Rightarrow> string set" where "v_read h = set (l_read (h_accounts h))"

definition v_write :: "held \<Rightarrow> string set" where "v_write h = set (l_write (h_accounts h))"

interpretation admin: held_view v_admin
  by unfold_locales (simp_all add: v_admin_def)

interpretation data: held_view v_data
  by unfold_locales (auto simp: v_data_def higher_def)

interpretation write_level: held_view v_write_level
  by unfold_locales (auto simp: v_write_level_def higher_def)

interpretation reads: held_view v_read
  by unfold_locales (simp_all add: v_read_def)

interpretation writes: held_view v_write
  by unfold_locales (simp_all add: v_write_def)

lemma reach_read_only: "l_write (fold (reach_account Read) reached l) = l_write l"
  by (induction reached arbitrary: l) (simp_all add: reach_account_def Let_def)

lemma set_reach_accounts:
  "set (l_read (fold (reach_account level) reached l)) = set (l_read l) \<union> account_id ` set reached"
  "set (l_write (fold (reach_account level) reached l)) =
     set (l_write l) \<union> {account_id a |a. a \<in> set reached \<and> level = Write \<and> account_state a \<noteq> CLOSED}"
  by (induction reached arbitrary: l) (auto simp: reach_account_def Let_def)

lemma view_iffs [simp]:
  "() \<in> v_admin h \<longleftrightarrow> h_admin h" "() \<in> v_data h \<longleftrightarrow> h_data h = Some Read \<or> h_data h = Some Write"
  "() \<in> v_write_level h \<longleftrightarrow> h_data h = Some Write"
  "a \<in> v_read h \<longleftrightarrow> a \<in> set (l_read (h_accounts h))" "a \<in> v_write h \<longleftrightarrow> a \<in> set (l_write (h_accounts h))"
  by (simp_all add: v_admin_def v_data_def v_write_level_def v_read_def v_write_def)

text \<open>What one entry's holding is, view by view.\<close>

lemma entry_views:
  assumes "entry_held reached level = Some h"
  shows "v_admin h = (if level = Some Admin then {()} else {})"
    and "v_data h = (if level = Some Read \<or> level = Some Write then {()} else {})"
    and "v_write_level h = (if level = Some Write then {()} else {})"
    and "v_read h = (if level = Some Read \<or> level = Some Write then account_id ` set reached else {})"
    and "v_write h = (if level = Some Write then {account_id a |a. a \<in> set reached \<and> account_state a \<noteq> CLOSED} else {})"
  using assms
  by (auto simp: entry_held_def v_admin_def v_data_def v_write_level_def v_read_def v_write_def
      set_reach_accounts reach_read_only split: option.splits access_level.splits)

lemma entry_held_level: "(\<exists>h. entry_held reached level = Some h) \<longleftrightarrow> level \<in> {Some Admin, Some Read, Some Write}"
  by (auto simp: entry_held_def split: option.splits access_level.splits)

subsection \<open>A person's access\<close>

lemma built_in_distinct [simp]: "DEPLOYMENT_ADMIN \<noteq> ALL_PLUGINS_ADMIN"
  by (simp add: DEPLOYMENT_ADMIN_def ALL_PLUGINS_ADMIN_def)

lemma access_step_frame [frame_simps]:
  "a_user_group_ids (access_step records p a) = a_user_group_ids a"
  "a_known_roles (access_step records p a) = a_known_roles a"
  by (simp_all add: access_step_def)

lemma access_fold_frame [frame_simps]:
  "a_user_group_ids (fold (access_step records) ps a) = a_user_group_ids a"
  "a_known_roles (fold (access_step records) ps a) = a_known_roles a"
  by (induction ps arbitrary: a) (simp_all add: frame_simps)

lemma access_fold_plugins:
  "a_plugins (fold (access_step records) ps a) =
     fold (fold_permission records) (filter (\<lambda>p. \<not> is_built_in_access_group (p_access_group p)) ps) (a_plugins a)"
  by (induction ps arbitrary: a) (auto simp: access_step_def is_built_in_access_group_def)

lemma access_fold_flags:
  "a_deployment_admin (fold (access_step records) ps a) \<longleftrightarrow>
     a_deployment_admin a \<or> (\<exists>p \<in> set ps. p_access_group p = DEPLOYMENT_ADMIN)"
  "a_all_plugins_admin (fold (access_step records) ps a) \<longleftrightarrow>
     a_all_plugins_admin a \<or> (\<exists>p \<in> set ps. p_access_group p = ALL_PLUGINS_ADMIN)"
proof -
  show "a_deployment_admin (fold (access_step records) ps a) \<longleftrightarrow>
      a_deployment_admin a \<or> (\<exists>p \<in> set ps. p_access_group p = DEPLOYMENT_ADMIN)"
    by (rule fold_grows) (auto simp: access_step_def)
  show "a_all_plugins_admin (fold (access_step records) ps a) \<longleftrightarrow>
      a_all_plugins_admin a \<or> (\<exists>p \<in> set ps. p_access_group p = ALL_PLUGINS_ADMIN)"
    by (rule fold_grows) (auto simp: access_step_def)
qed

text \<open>A permission of one of the user groups holds an entry at this level on this role of
  this plugin, and the records let the entry hold.\<close>

definition granted ::
  "access_records \<Rightarrow> string set \<Rightarrow> string \<Rightarrow> string \<Rightarrow> access_level \<Rightarrow> permission \<Rightarrow> bool" where
  "granted records gids plugin role level p \<longleftrightarrow>
     p \<in> set (permissions records) \<and> p_user_group p \<in> gids
     \<and> \<not> is_built_in_access_group (p_access_group p) \<and> entry_holds records plugin role
     \<and> (\<exists>g e. find (\<lambda>grp. access_group_id grp = p_access_group p) (access_groups records) = Some g
          \<and> e \<in> set (ag_entries g) \<and> e_plugin e = plugin \<and> e_role e = role \<and> e_level e = Some level)"

definition reached_by :: "access_records \<Rightarrow> permission \<Rightarrow> account_record set" where
  "reached_by records p = set (accounts_of_group records (p_account_group p))"

lemma contributes_level:
  "contributes records p e h \<longleftrightarrow>
     (\<exists>level g. e_level e = Some level \<and> find (\<lambda>grp. access_group_id grp = p_access_group p) (access_groups records) = Some g
       \<and> e \<in> set (ag_entries g) \<and> entry_held (accounts_of_group records (p_account_group p)) (Some level) = Some h
       \<and> entry_holds records (e_plugin e) (e_role e))"
proof (cases "e_level e")
  case None
  then show ?thesis by (simp add: contributes_def entry_held_def)
qed (auto simp: contributes_def)

text \<open>The fold over the permissions of a set of user groups.\<close>

definition folded :: "access_records \<Rightarrow> string set \<Rightarrow> plugin_levels" where
  "folded records gids =
     fold (fold_permission records)
       (filter (\<lambda>p. p_user_group p \<in> gids \<and> \<not> is_built_in_access_group (p_access_group p)) (permissions records)) []"

lemma access_of_groups_folded: "a_plugins (access_of_groups records gids) = folded records (set gids)"
  by (simp add: access_of_groups_def access_fold_plugins folded_def filter_filter conj_commute)

context held_view
begin

lemma v_folded:
  "x \<in> v (held_at (folded records gids) plugin role) \<longleftrightarrow>
     (\<exists>level p h. granted records gids plugin role level p
        \<and> entry_held (accounts_of_group records (p_account_group p)) (Some level) = Some h \<and> x \<in> v h)"
  unfolding folded_def granted_def
  by (auto simp: v_fold_permissions contributes_level v_none) blast

text \<open>Where what an entry shows in the view is known by its level.\<close>

lemma v_granted:
  assumes "\<And>level p h. entry_held (accounts_of_group records (p_account_group p)) (Some level) = Some h
      \<Longrightarrow> x \<in> v h \<longleftrightarrow> S level p"
    and "\<And>level p. S level p \<Longrightarrow> level \<noteq> Unspecified"
  shows "x \<in> v (held_at (folded records gids) plugin role) \<longleftrightarrow>
     (\<exists>level p. granted records gids plugin role level p \<and> S level p)"
proof -
  have "\<exists>h. entry_held reached (Some level) = Some h" if "level \<noteq> Unspecified" for level reached
    using that by (cases level) (auto simp: entry_held_def)
  with assms show ?thesis unfolding v_folded by blast
qed

end

lemma access_of_groups_frame [frame_simps]:
  "a_user_group_ids (access_of_groups records gids) = gids"
  "a_all_plugins_admin (access_of_groups records gids) \<longleftrightarrow>
     (\<exists>p \<in> set (permissions records). p_user_group p \<in> set gids \<and> p_access_group p = ALL_PLUGINS_ADMIN)"
  "a_deployment_admin (access_of_groups records gids) \<longleftrightarrow>
     (\<exists>p \<in> set (permissions records). p_user_group p \<in> set gids \<and> p_access_group p = DEPLOYMENT_ADMIN)"
  by (auto simp: access_of_groups_def access_fold_flags frame_simps)

text \<open>Role by role, what the fold holds is what the permissions grant.\<close>

lemma folded_role_held:
  fixes records gids plugin role
  defines "h \<equiv> held_at (folded records gids) plugin role"
    and "G \<equiv> granted records gids plugin role"
  shows "h_admin h \<longleftrightarrow> (\<exists>p. G Admin p)"
    and "h_data h = Some Write \<longleftrightarrow> (\<exists>p. G Write p)"
    and "h_data h = Some Read \<or> h_data h = Some Write \<longleftrightarrow> (\<exists>p. G Read p \<or> G Write p)"
    and "i \<in> set (l_read (h_accounts h)) \<longleftrightarrow> (\<exists>p. (G Read p \<or> G Write p) \<and> i \<in> account_id ` reached_by records p)"
    and "i \<in> set (l_write (h_accounts h)) \<longleftrightarrow>
      (\<exists>p. G Write p \<and> (\<exists>a \<in> reached_by records p. account_id a = i \<and> account_state a \<noteq> CLOSED))"
proof -
  have "() \<in> v_admin h \<longleftrightarrow> (\<exists>level p. G level p \<and> level = Admin)"
    unfolding h_def G_def by (rule admin.v_granted) (auto simp: entry_views(1) simp del: view_iffs)
  then show "h_admin h \<longleftrightarrow> (\<exists>p. G Admin p)" by simp
  have "() \<in> v_write_level h \<longleftrightarrow> (\<exists>level p. G level p \<and> level = Write)"
    unfolding h_def G_def by (rule write_level.v_granted) (auto simp: entry_views(3) simp del: view_iffs)
  then show "h_data h = Some Write \<longleftrightarrow> (\<exists>p. G Write p)" by simp
  have "() \<in> v_data h \<longleftrightarrow> (\<exists>level p. G level p \<and> (level = Read \<or> level = Write))"
    unfolding h_def G_def by (rule data.v_granted) (auto simp: entry_views(2) simp del: view_iffs)
  then show "h_data h = Some Read \<or> h_data h = Some Write \<longleftrightarrow> (\<exists>p. G Read p \<or> G Write p)" by auto
  have "i \<in> v_read h \<longleftrightarrow>
      (\<exists>level p. G level p \<and> (level = Read \<or> level = Write) \<and> i \<in> account_id ` reached_by records p)"
    unfolding h_def G_def
    by (rule reads.v_granted) (auto simp: entry_views(4) reached_by_def simp del: view_iffs)
  then show "i \<in> set (l_read (h_accounts h)) \<longleftrightarrow>
      (\<exists>p. (G Read p \<or> G Write p) \<and> i \<in> account_id ` reached_by records p)" by auto
  have "i \<in> v_write h \<longleftrightarrow> (\<exists>level p. G level p \<and> level = Write
      \<and> (\<exists>a \<in> reached_by records p. account_id a = i \<and> account_state a \<noteq> CLOSED))"
    unfolding h_def G_def
    by (rule writes.v_granted) (auto simp: entry_views(5) reached_by_def simp del: view_iffs)
  then show "i \<in> set (l_write (h_accounts h)) \<longleftrightarrow>
      (\<exists>p. G Write p \<and> (\<exists>a \<in> reached_by records p. account_id a = i \<and> account_state a \<noteq> CLOSED))" by auto
qed

subsection \<open>A person on a plugin, all plugins' administration included\<close>

lemma role_held_mark:
  "role_held (mark_admin r ph) role =
     (if role = r then (role_held ph role)\<lparr>h_admin := True\<rparr> else role_held ph role)"
  by (simp add: mark_admin_def role_held_def)

lemma role_held_marks:
  "role_held (fold mark_admin roles ph) role =
     (if role \<in> set roles then (role_held ph role)\<lparr>h_admin := True\<rparr> else role_held ph role)"
  by (induction roles arbitrary: ph) (auto simp: role_held_mark)

lemma role_held_plugin:
  "role_held (access_plugin a plugin) role =
     (if a_all_plugins_admin a \<and> role \<in> set (roles_of (a_known_roles a) plugin)
      then (held_at (a_plugins a) plugin role)\<lparr>h_admin := True\<rparr> else held_at (a_plugins a) plugin role)"
  by (simp add: access_plugin_def Let_def held_at_def role_held_marks)

text \<open>Maps stay ordered.\<close>

definition plugins_wf :: "plugin_levels \<Rightarrow> bool" where
  "plugins_wf m \<longleftrightarrow> bt_wf m \<and> (\<forall>k ph. bt_get m k = Some ph \<longrightarrow> bt_wf (ph_roles ph))"

lemma wf_ph_add: "bt_wf (ph_roles ph) \<Longrightarrow> bt_wf (ph_roles (ph_add r h ph))"
  by (simp add: ph_add_def)

lemma plugins_wf_fold_entry: "plugins_wf m \<Longrightarrow> plugins_wf (fold_entry records reached e m)"
  by (auto simp: plugins_wf_def fold_entry_def wf_ph_add split: option.splits)

lemma plugins_wf_fold_entries: "plugins_wf m \<Longrightarrow> plugins_wf (fold (fold_entry records reached) es m)"
  by (induction es arbitrary: m) (auto intro: plugins_wf_fold_entry)

lemma plugins_wf_fold_permission: "plugins_wf m \<Longrightarrow> plugins_wf (fold_permission records p m)"
  by (auto simp: fold_permission_def plugins_wf_fold_entries split: option.splits)

lemma plugins_wf_fold_permissions: "plugins_wf m \<Longrightarrow> plugins_wf (fold (fold_permission records) ps m)"
  by (induction ps arbitrary: m) (auto intro: plugins_wf_fold_permission)

lemma plugins_wf_access: "plugins_wf (a_plugins (access_of_groups records gids))"
  unfolding access_of_groups_folded folded_def
  by (rule plugins_wf_fold_permissions) (simp add: plugins_wf_def)



lemma gids_of_person:
  "a_user_group_ids (person_access records subject dgs) = bs_extend [] (map user_group_id (user_groups_of records subject dgs))"
  by (simp add: person_access_def frame_simps)

abbreviation gids_of :: "access_records \<Rightarrow> string \<Rightarrow> string list \<Rightarrow> string set" where
  "gids_of records subject dgs \<equiv> user_group_id ` set (user_groups_of records subject dgs)"

lemma person_role_held:
  fixes records subject dgs plugin role
  defines "a \<equiv> person_access records subject dgs"
  defines "h \<equiv> role_held (access_plugin a plugin) role"
    and "G \<equiv> granted records (gids_of records subject dgs) plugin role"
  shows "h_admin h \<longleftrightarrow> (\<exists>p. G Admin p) \<or>
      (role \<in> set (roles_of (a_known_roles a) plugin) \<and> (\<exists>p \<in> set (permissions records).
        p_user_group p \<in> gids_of records subject dgs \<and> p_access_group p = ALL_PLUGINS_ADMIN))"
    and "h_data h = Some Write \<longleftrightarrow> (\<exists>p. G Write p)"
    and "h_data h = Some Read \<or> h_data h = Some Write \<longleftrightarrow> (\<exists>p. G Read p \<or> G Write p)"
    and "i \<in> set (l_read (h_accounts h)) \<longleftrightarrow> (\<exists>p. (G Read p \<or> G Write p) \<and> i \<in> account_id ` reached_by records p)"
    and "i \<in> set (l_write (h_accounts h)) \<longleftrightarrow>
      (\<exists>p. G Write p \<and> (\<exists>r \<in> reached_by records p. account_id r = i \<and> account_state r \<noteq> CLOSED))"
  using folded_role_held [where records = records and plugin = plugin and role = role
      and gids = "gids_of records subject dgs"]
  by (auto simp: h_def a_def G_def person_access_def role_held_plugin frame_simps access_of_groups_folded)

subsection \<open>Sessions\<close>

text \<open>What a holding's accounts owe to its data level.\<close>

definition held_ok :: "held \<Rightarrow> bool" where
  "held_ok h \<longleftrightarrow> set (l_write (h_accounts h)) \<subseteq> set (l_read (h_accounts h))
     \<and> (h_data h = Some Read \<longrightarrow> l_write (h_accounts h) = [])
     \<and> (h_data h = None \<longrightarrow> h_accounts h = no_levels)
     \<and> h_data h \<in> {None, Some Read, Some Write}
     \<and> bs_wf (l_read (h_accounts h)) \<and> bs_wf (l_write (h_accounts h))"

lemma held_ok_none [simp]: "held_ok no_held"
  by (simp add: held_ok_def)

lemma no_levels_iff: "l = no_levels \<longleftrightarrow> l_read l = [] \<and> l_write l = []"
  by (auto simp: no_levels_def)

lemma bs_extend_Nil_iff: "bs_extend s ks = [] \<longleftrightarrow> s = [] \<and> ks = []"
  using set_bs_extend [of s ks] by (metis Un_empty set_empty)

lemma held_ok_add: "held_ok a \<Longrightarrow> held_ok b \<Longrightarrow> held_ok (held_add a b)"
  by (auto simp: held_ok_def higher_def levels_add_def no_levels_iff bs_extend_Nil_iff)

lemma reach_wf:
  "bs_wf (l_read l) \<Longrightarrow> bs_wf (l_read (fold (reach_account level) reached l))"
  "bs_wf (l_write l) \<Longrightarrow> bs_wf (l_write (fold (reach_account level) reached l))"
  by (induction reached arbitrary: l) (simp_all add: reach_account_def Let_def)

lemma held_ok_entry: "entry_held reached level = Some h \<Longrightarrow> held_ok h"
  by (auto simp: entry_held_def held_ok_def reach_wf reach_read_only set_reach_accounts
      split: option.splits access_level.splits)

definition ph_ok :: "plugin_held \<Rightarrow> bool" where
  "ph_ok ph \<longleftrightarrow> bt_wf (ph_roles ph) \<and> (\<forall>role. held_ok (role_held ph role))"

lemma ph_ok_mem: "ph_ok ph \<Longrightarrow> (role, h) \<in> set (ph_roles ph) \<Longrightarrow> held_ok h"
  by (metis bt_get_mem option.simps(5) ph_ok_def role_held_def)

lemma held_ok_fold: "\<forall>h \<in> set hs. held_ok h \<Longrightarrow> held_ok u \<Longrightarrow> held_ok (fold (\<lambda>h u. held_add u h) hs u)"
  by (induction hs arbitrary: u) (auto intro: held_ok_add)

lemma ph_ok_union: "ph_ok ph \<Longrightarrow> held_ok (ph_union ph)"
  unfolding ph_union_def by (rule held_ok_fold) (auto dest: ph_ok_mem)

lemma held_ok_at:
  assumes "\<forall>plugin role. held_ok (held_at m plugin role)"
  shows "\<forall>plugin role. held_ok (held_at (fold (fold_permission records) ps m) plugin role)"
proof -
  have entry: "\<forall>plugin role. held_ok (held_at (fold_entry records reached e n) plugin role)"
    if "\<forall>plugin role. held_ok (held_at n plugin role)" for n reached e
    using that by (auto simp: held_at_fold_entry held_ok_add held_ok_entry split: option.splits)
  have entries: "\<forall>plugin role. held_ok (held_at (fold (fold_entry records reached) es n) plugin role)"
    if "\<forall>plugin role. held_ok (held_at n plugin role)" for n reached es
    using that by (induction es arbitrary: n) (auto intro!: entry)
  have perm: "\<forall>plugin role. held_ok (held_at (fold_permission records p n) plugin role)"
    if "\<forall>plugin role. held_ok (held_at n plugin role)" for n p
    using entries [OF that] that by (auto simp: fold_permission_def split: option.splits)
  show ?thesis using assms by (induction ps arbitrary: m) (auto intro!: perm)
qed


lemma set_map_filter_iff: "y \<in> set (List.map_filter f xs) \<longleftrightarrow> (\<exists>x \<in> set xs. f x = Some y)"
  by (force simp: List.map_filter_def)

lemma union_accounts:
  assumes "bt_wf (ph_roles ph)"
  shows "set (l_read (h_accounts (ph_union ph))) = (\<Union>(role, h) \<in> set (ph_roles ph). set (l_read (h_accounts h)))"
    and "set (l_write (h_accounts (ph_union ph))) = (\<Union>(role, h) \<in> set (ph_roles ph). set (l_write (h_accounts h)))"
  using reads.v_fold_add [of "bt_values (ph_roles ph)" no_held] writes.v_fold_add [of "bt_values (ph_roles ph)" no_held]
  by (force simp: ph_union_def v_read_def v_write_def)+





subsection \<open>A plugin's scope\<close>








subsection \<open>Deployment admin\<close>

lemma find_unique:
  assumes "distinct (map f xs)" "x \<in> set xs"
  shows "find (\<lambda>y. f y = f x) xs = Some x"
  using assms by (induction xs) (auto simp: image_iff)

lemma deployment_admin_held_iff:
  assumes "distinct (map user_group_id (user_groups records))"
  shows "deployment_admin_held records \<longleftrightarrow>
    (\<exists>p \<in> set (permissions records). p_access_group p = DEPLOYMENT_ADMIN
      \<and> (\<exists>g \<in> set (user_groups records). user_group_id g = p_user_group p
          \<and> (ug_logins g \<noteq> [] \<or> (\<exists>person \<in> set (people records).
              \<exists>d \<in> set (s_directory_groups person). d \<in> set (ug_directory_groups g)))))"
proof -
  have found: "find (\<lambda>grp. user_group_id grp = p_user_group p) (user_groups records) = Some g \<longleftrightarrow>
      g \<in> set (user_groups records) \<and> user_group_id g = p_user_group p" for p g
    using find_unique [OF assms, of g] by (auto simp: find_Some_iff)
  show ?thesis
    unfolding deployment_admin_held_def list_ex_iff Bex_def set_map_filter_iff found by auto
qed

lemma person_deployment_admin:
  "a_deployment_admin (person_access records subject dgs) \<longleftrightarrow>
     (\<exists>p \<in> set (permissions records). p_access_group p = DEPLOYMENT_ADMIN
       \<and> (\<exists>g \<in> set (user_groups records). user_group_id g = p_user_group p
          \<and> (subject \<in> set (ug_logins g) \<or> (\<exists>d \<in> set dgs. d \<in> set (ug_directory_groups g)))))"
proof -
  have "x \<in> gids_of records subject dgs \<longleftrightarrow> (\<exists>g \<in> set (user_groups records). user_group_id g = x
      \<and> (subject \<in> set (ug_logins g) \<or> (\<exists>d \<in> set dgs. d \<in> set (ug_directory_groups g))))" for x
    by (auto simp: user_groups_of_def list_ex_iff)
  then show ?thesis by (auto simp: person_access_def frame_simps)
qed

subsection \<open>Positions\<close>

lemma positions_nth:
  assumes "length within < 2 ^ 32" "bs_wf within"
  shows "map (\<lambda>i. within ! unat i) (positions within of_these) = filter (\<lambda>a. a \<in> set of_these) within"
proof -
  have "map (\<lambda>i. within ! unat i) (positions within of_these) =
      map snd (filter (\<lambda>(i, a). a \<in> set of_these) (enumerate 0 within))"
    unfolding positions_def map_map
  proof (rule map_cong)
    fix e assume "e \<in> set (filter (\<lambda>(i, a). a \<in> set of_these) (enumerate 0 within))"
    then have e: "e \<in> set (enumerate 0 within)" by simp
    then have "fst e < length within" "within ! fst e = snd e" by (auto simp: in_set_enumerate_eq)
    with assms(1) show "((\<lambda>i. within ! unat i) \<circ> (\<lambda>(i, account). word_of_nat i :: 32 word)) e = snd e"
      by (simp add: split_beta unat_of_nat)
  next
    show "filter (\<lambda>(i, a). List.member of_these a) (enumerate 0 within) =
        filter (\<lambda>(i, a). a \<in> set of_these) (enumerate 0 within)"
      by (rule filter_cong) auto
  qed
  also have "\<dots> = filter (\<lambda>a. a \<in> set of_these) (map snd (enumerate 0 within))"
    by (simp only: filter_map) (simp add: o_def case_prod_unfold)
  finally show ?thesis by simp
qed

lemma positions_decode:
  assumes "length within < 2 ^ 32" "bs_wf within" "bs_wf of_these" "set of_these \<subseteq> set within"
  shows "map (\<lambda>i. within ! unat i) (positions within of_these) = of_these"
proof (rule bs_eqI)
  show "set (map (\<lambda>i. within ! unat i) (positions within of_these)) = set of_these"
    using assms(4) unfolding positions_nth [OF assms(1,2)] by auto
next
  show "bs_wf (map (\<lambda>i. within ! unat i) (positions within of_these))"
    unfolding positions_nth [OF assms(1,2)] by (rule bs_wf_filter) (rule assms(2))
qed (rule assms(3))

text \<open>A role's row in the table, read back.\<close>

lemma table_roles_decode:
  assumes "ph_ok ph" "r \<in> set (table_roles ph l)" "l = h_accounts (ph_union ph)" "length (l_read l) < 2 ^ 32"
  shows "ra_role r \<noteq> [] \<and> h_data (role_held ph (ra_role r)) = Some (ra_level r)
    \<and> map (\<lambda>i. l_read l ! unat i) (ra_read r) = l_read (h_accounts (role_held ph (ra_role r)))
    \<and> map (\<lambda>i. l_read l ! unat i) (ra_write r) = l_write (h_accounts (role_held ph (ra_role r)))"
proof -
  from assms(2) obtain role h level where m: "(role, h) \<in> set (ph_roles ph)" "role \<noteq> []" "h_data h = Some level"
    and r: "r = role_access_of role level (h_accounts h) l"
    by (auto simp: table_roles_def set_map_filter_iff)
  have wf: "bt_wf (ph_roles ph)" and ok: "held_ok h" "held_ok (ph_union ph)"
    using assms(1) m(1) ph_ok_mem ph_ok_union by (auto simp: ph_ok_def)
  have h: "role_held ph role = h" using bt_get_mem [OF wf, of role h] m(1) by (simp add: role_held_def)
  have sub: "set (l_read (h_accounts h)) \<subseteq> set (l_read l)" "set (l_write (h_accounts h)) \<subseteq> set (l_read l)"
    using union_accounts(1) [OF wf] m(1) ok(1) assms(3) by (auto simp: held_ok_def)
  have bs: "bs_wf (l_read l)" "bs_wf (l_read (h_accounts h))" "bs_wf (l_write (h_accounts h))"
    using ok assms(3) by (simp_all add: held_ok_def)
  show ?thesis
    using positions_decode [OF assms(4) bs(1) bs(2) sub(1)] positions_decode [OF assms(4) bs(1) bs(3) sub(2)] m h
    by (simp add: r role_access_of_def)
qed

lemma ph_ok_plugin_of: "ph_ok (plugin_of (access_of_groups records gids) plugin)"
proof -
  have "\<forall>plugin role. held_ok (held_at (a_plugins (access_of_groups records gids)) plugin role)"
    unfolding access_of_groups_folded folded_def by (rule held_ok_at) simp
  then show ?thesis using plugins_wf_access [of records gids]
    by (auto simp: ph_ok_def plugin_of_def held_at_def plugins_wf_def split: option.splits)
qed

section \<open>Properties\<close>

text \<open>C21: Access is combined permission by permission, never dimension by dimension: on each
  role of each plugin a person administers, reads and writes exactly what some single
  permission of one of their user groups grants by an entry at that level that holds, on
  the accounts of that same permission's account group; an account is written only through
  an entry at write and only while it is not closed. Administration also comes from the
  built-in group of all plugins, on the roles the records know.\<close>

theorem access_permission_by_permission:
  fixes records subject dgs plugin role
  defines "a \<equiv> person_access records subject dgs"
  defines "h \<equiv> role_held (access_plugin a plugin) role"
    and "G \<equiv> granted records (user_group_id ` set (user_groups_of records subject dgs)) plugin role"
  shows "(h_admin h \<longleftrightarrow> (\<exists>p. G Admin p) \<or>
      (role \<in> set (roles_of (a_known_roles a) plugin) \<and> (\<exists>p \<in> set (permissions records).
        p_user_group p \<in> user_group_id ` set (user_groups_of records subject dgs) \<and> p_access_group p = ALL_PLUGINS_ADMIN)))
    \<and> (h_data h = Some Write \<longleftrightarrow> (\<exists>p. G Write p))
    \<and> (h_data h = Some Read \<or> h_data h = Some Write \<longleftrightarrow> (\<exists>p. G Read p \<or> G Write p))
    \<and> (i \<in> set (l_read (h_accounts h)) \<longleftrightarrow> (\<exists>p. (G Read p \<or> G Write p) \<and> i \<in> account_id ` reached_by records p))
    \<and> (i \<in> set (l_write (h_accounts h)) \<longleftrightarrow>
      (\<exists>p. G Write p \<and> (\<exists>r \<in> reached_by records p. account_id r = i \<and> account_state r \<noteq> CLOSED)))"
  unfolding h_def a_def G_def by (intro conjI person_role_held)


text \<open>There are no deny rules: with more permissions a person administers, reads and
  writes at least what they did, role by role.\<close>

theorem access_only_adds_up:
  fixes records extra subject dgs plugin role
  defines "h \<equiv> role_held (access_plugin (person_access records subject dgs) plugin) role"
    and "h' \<equiv> role_held (access_plugin (person_access (records\<lparr>permissions := permissions records @ extra\<rparr>) subject dgs) plugin) role"
  shows "(h_admin h \<longrightarrow> h_admin h') \<and> (h_data h = Some Write \<longrightarrow> h_data h' = Some Write)
    \<and> set (l_read (h_accounts h)) \<subseteq> set (l_read (h_accounts h'))
    \<and> set (l_write (h_accounts h)) \<subseteq> set (l_write (h_accounts h'))"
proof -
  let ?r = "records\<lparr>permissions := permissions records @ extra\<rparr>"
  have g: "granted records gids plugin role level p \<Longrightarrow> granted ?r gids plugin role level p" for gids level p
    by (auto simp: granted_def entry_holds_def known_roles_def)
  have r: "reached_by ?r p = reached_by records p" for p
    by (simp add: reached_by_def accounts_of_group_def)
  have u: "user_groups_of ?r subject dgs = user_groups_of records subject dgs"
    by (simp add: user_groups_of_def)
  have k: "a_known_roles (person_access ?r subject dgs) = a_known_roles (person_access records subject dgs)"
    by (simp add: person_access_def access_of_groups_def frame_simps)
  show ?thesis unfolding h_def h'_def subset_iff person_role_held r u k
    by (auto dest: g)
qed


text \<open>Deployment admin is held exactly when somebody can hold it: \<open>deployment_admin_held\<close>
  answers yes if and only if some login, or some person by the directory groups of their
  latest sign-in, is evaluated to hold deployment admin.\<close>

theorem deployment_admin_is_somebodys:
  assumes "distinct (map user_group_id (user_groups records))"
  shows "deployment_admin_held records \<longleftrightarrow>
    (\<exists>login. a_deployment_admin (person_access records login []))
    \<or> (\<exists>person \<in> set (people records).
        a_deployment_admin (person_access records (s_subject person) (s_directory_groups person)))"
proof -
  have some: "ug_logins g \<noteq> [] \<longleftrightarrow> (\<exists>x. x \<in> set (ug_logins g))" for g
    by (cases "ug_logins g") auto
  show ?thesis
    unfolding deployment_admin_held_iff [OF assms] person_deployment_admin some list.set(1) bex_empty simp_thms
    by blast
qed

text \<open>The access table breaks the union down by role without loss: reading a role's
  positions in a user group's read accounts gives exactly the accounts the group reads and
  writes on that role, at the role's data level; a plugin holding no role has no such row.\<close>

theorem table_positions_name_the_accounts:
  assumes "row \<in> set (fst (plugin_access_table records plugin))" and "r \<in> set (ga_roles row)"
    and "length (ga_read row) < 2 ^ 32"
  defines "h \<equiv> role_held (plugin_of (access_of_groups records [ga_user_group_id row]) plugin) (ra_role r)"
  shows "ra_role r \<noteq> [] \<and> h_data h = Some (ra_level r)
    \<and> map (\<lambda>i. ga_read row ! unat i) (ra_read r) = l_read (h_accounts h)
    \<and> map (\<lambda>i. ga_read row ! unat i) (ra_write r) = l_write (h_accounts h)"
proof -
  from assms(1) obtain g where "g \<in> set (user_groups records)" "group_row records plugin g = Some row"
    by (auto simp: plugin_access_table_def set_map_filter_iff)
  then show ?thesis
    using table_roles_decode [OF ph_ok_plugin_of, of r records "[user_group_id g]" plugin
        "h_accounts (ph_union (plugin_of (access_of_groups records [user_group_id g]) plugin))"] assms(2,3)
    by (auto simp: group_row_def Let_def h_def split: if_splits)
qed

subsection \<open>Witnesses\<close>

text \<open>A desk that trades one account and only looks at another, closed, one.\<close>

definition sample :: access_records where
  "sample =
     \<lparr>accounts = [\<lparr>account_id = ''a1'', account_state = 1\<rparr>, \<lparr>account_id = ''a2'', account_state = 2\<rparr>],
      user_groups = [\<lparr>user_group_id = ''desk'', ug_name = ''Desk'', ug_directory_groups = [''traders''], ug_logins = [''ada'']\<rparr>],
      account_groups = [\<lparr>account_group_id = ''one'', ag_account_ids = [''a1'', ''a2''], ag_built_in = False\<rparr>],
      access_groups = [\<lparr>access_group_id = ''trade'',
        ag_entries = [\<lparr>e_plugin = ''oms-1'', e_role = ''oms'', e_level = Some Write\<rparr>]\<rparr>],
      permissions = [\<lparr>p_user_group = ''desk'', p_account_group = ''one'', p_access_group = ''trade''\<rparr>,
        \<lparr>p_user_group = ''desk'', p_account_group = [], p_access_group = DEPLOYMENT_ADMIN\<rparr>],
      people = [],
      known_plugins = [\<lparr>k_plugin = ''oms-1'', k_roles = [''oms'']\<rparr>]\<rparr>"

theorem access_permission_by_permission_witness:
  "''a2'' \<in> set (l_read (h_accounts (role_held (access_plugin (person_access sample ''ada'' []) ''oms-1'') ''oms'')))
    \<and> (\<exists>p. (granted sample {''desk''} ''oms-1'' ''oms'' Read p \<or> granted sample {''desk''} ''oms-1'' ''oms'' Write p)
      \<and> ''a2'' \<in> account_id ` reached_by sample p)"
proof -
  have m: "''a2'' \<in> set (l_read (h_accounts (role_held (access_plugin (person_access sample ''ada'' []) ''oms-1'') ''oms'')))"
    by code_simp
  have g: "user_group_id ` set (user_groups_of sample ''ada'' []) = {''desk''}"
    by (simp add: user_groups_of_def sample_def)
  from access_permission_by_permission [where records = sample and subject = "''ada''" and dgs = "[]"
      and plugin = "''oms-1''" and role = "''oms''" and i = "''a2''"] m
  show ?thesis unfolding g by blast
qed


theorem access_only_adds_up_witness:
  "h_admin (role_held (access_plugin (person_access (sample\<lparr>permissions := permissions sample
      @ [\<lparr>p_user_group = ''desk'', p_account_group = [], p_access_group = ALL_PLUGINS_ADMIN\<rparr>]\<rparr>) ''ada'' []) ''oms-1'') ''oms'')
    \<and> {''a1''} \<subseteq> set (l_write (h_accounts (role_held (access_plugin (person_access (sample\<lparr>permissions := permissions sample
      @ [\<lparr>p_user_group = ''desk'', p_account_group = [], p_access_group = ALL_PLUGINS_ADMIN\<rparr>]\<rparr>) ''ada'' []) ''oms-1'') ''oms'')))"
proof -
  have w: "l_write (h_accounts (role_held (access_plugin (person_access sample ''ada'' []) ''oms-1'') ''oms'')) = [''a1'']"
    by code_simp
  have a: "h_admin (role_held (access_plugin (person_access (sample\<lparr>permissions := permissions sample
      @ [\<lparr>p_user_group = ''desk'', p_account_group = [], p_access_group = ALL_PLUGINS_ADMIN\<rparr>]\<rparr>) ''ada'' []) ''oms-1'') ''oms'')"
    by code_simp
  from access_only_adds_up [where records = sample and subject = "''ada''" and dgs = "[]" and plugin = "''oms-1''"
      and role = "''oms''" and extra = "[\<lparr>p_user_group = ''desk'', p_account_group = [], p_access_group = ALL_PLUGINS_ADMIN\<rparr>]"]
  show ?thesis using a unfolding w by simp
qed


theorem deployment_admin_is_somebodys_witness:
  "deployment_admin_held sample \<and> ((\<exists>login. a_deployment_admin (person_access sample login []))
    \<or> (\<exists>person \<in> set (people sample). a_deployment_admin (person_access sample (s_subject person) (s_directory_groups person))))"
proof -
  have "distinct (map user_group_id (user_groups sample))" "deployment_admin_held sample" by code_simp+
  with deployment_admin_is_somebodys [of sample] show ?thesis by blast
qed

theorem table_positions_name_the_accounts_witness:
  "[''a1''] = l_write (h_accounts (role_held (plugin_of (access_of_groups sample [''desk'']) ''oms-1'') ''oms''))"
proof -
  let ?r = "\<lparr>ra_role = ''oms'', ra_level = Write, ra_read = [0, 1], ra_write = [0]\<rparr>"
  let ?row = "\<lparr>ga_user_group_id = ''desk'', ga_name = ''Desk'', ga_read = [''a1'', ''a2''], ga_write = [''a1''], ga_roles = [?r]\<rparr>"
  have t: "plugin_access_table sample ''oms-1'' = ([?row], [])" by code_simp
  have m: "?row \<in> set (fst (plugin_access_table sample ''oms-1''))" unfolding t by simp
  from table_positions_name_the_accounts [OF m, of ?r] show ?thesis by simp
qed

end
