(* ===== verification/Book_Store.thy ===== *)
theory Book_Store
  imports BTree_Map Change_Log "HOL-Library.Multiset"
begin

section \<open>The book's store: one command, one entry\<close>

text \<open>
  The command path of the book of record as \<open>MemoryStore\<close> keeps it
  (\<open>crates/bor/src/memory.rs\<close>: \<open>act\<close>, \<open>adopt\<close>, \<open>take_over\<close>, \<open>read_changes\<close>), the
  deciding again with bodies loaded (\<open>with_bodies\<close>) and the errors of a store
  (\<open>crates/bor/src/store.rs\<close>). The decision itself is an argument, as \<open>Decide\<close> is in the
  source; a book's projections are the type \<open>'r\<close>, an entry's body the type \<open>'b\<close>. A
  \<open>HashMap\<close>, whose order nothing reads, is a map. The words of a refusal are the list of
  what the sentence names. \<open>Panicked\<close> stands for the indexing \<open>state.replies[entry_id]\<close>
  failing; it is proved never to happen.
\<close>

subsection \<open>Errors\<close>

datatype refusal_reason =
    IdempotencyConflict | Incomplete | ActorRequired | ReasonRequired | OrderStateRefused | Claimed
  | AllocationUnbalanced | CheckBlocks | ApprovalRequired | ConnectivityNotAllowed | AgentLiveOrder
  | LotsUnbalanced | IdentifierInUse | LocalRecordNotAllowed | ReferenceUnavailable | NoOpeningBalance
  | OpeningBalanceRecorded | BeforeOpeningBalance | LaterEntriesStand | BreakStateRefused | QuantityExceedsOrder
  | ExecutionStateRefused | ExecutionsDiffer | BookingUnbalanced | AccountNotInstructed

datatype store_error =
    Unavailable "string list"
  | Fenced fenced
  | SchemaAhead "string list"
  | Refused refusal_reason "string list" "string list"
  | Invalid "string list"
  | OutOfScope string
  | UnreadableCursor string
  | Malformed "string list" "string list"
  | Denied "string list"
  | Repeated string
  | Unplace int "string list"
  | Recorded string
  | BodiesNeeded "string list"
  | Panicked

definition conflict :: "string \<Rightarrow> string \<Rightarrow> store_error" where
  "conflict key account = Refused IdempotencyConflict [account, key] []"

subsection \<open>Entries, books, decisions\<close>

record 'b journal_entry =
  en_entry_id :: string
  en_account_id :: string
  en_partition :: string
  en_first_sequence :: nat
  en_last_sequence :: nat
  en_message_id :: string
  en_idempotency_key :: string
  en_body :: 'b

record ('b, 'r) book =
  bk_account_id :: string
  bk_partition :: string
  bk_bodies :: "string \<rightharpoonup> 'b"
  bk_rest :: 'r

definition FIRST_PARTITION :: string where "FIRST_PARTITION = ''P0''"

definition CONTROL_PARTITION :: string where "CONTROL_PARTITION = ''control''"

definition CONTROL_ACCOUNT :: string where "CONTROL_ACCOUNT = ''~control''"

definition is_account :: "string \<Rightarrow> bool" where "is_account key \<longleftrightarrow> \<not> starts_with ''~'' key"

definition first_partition_of :: "string \<Rightarrow> string" where
  "first_partition_of key = (if key = CONTROL_ACCOUNT then CONTROL_PARTITION else FIRST_PARTITION)"

definition book_new :: "'r \<Rightarrow> string \<Rightarrow> string \<Rightarrow> ('b, 'r) book" where
  "book_new blank account part =
     \<lparr>bk_account_id = account, bk_partition = part, bk_bodies = Map.empty, bk_rest = blank\<rparr>"

definition hold_bodies :: "(string \<times> 'b) list \<Rightarrow> ('b, 'r) book \<Rightarrow> ('b, 'r) book" where
  "hold_bodies loaded bk = bk\<lparr>bk_bodies := fold (\<lambda>(i, body) m. m(i \<mapsto> body)) loaded (bk_bodies bk)\<rparr>"

definition release_bodies :: "('b, 'r) book \<Rightarrow> ('b, 'r) book" where
  "release_bodies bk = bk\<lparr>bk_bodies := Map.empty\<rparr>"

record ('b, 'r) decided =
  d_entry :: "'b journal_entry"
  d_book :: "('b, 'r) book"
  d_reply :: string

datatype ('b, 'r) acted = Duplicate string | Committed "('b, 'r) decided"

type_synonym ('b, 'r) decide = "('b, 'r) book \<Rightarrow> nat \<Rightarrow> store_error + ('b, 'r) decided"

subsection \<open>Deciding with bodies\<close>

definition BODY_ROUNDS :: nat where "BODY_ROUNDS = 16"

fun with_bodies_rounds ::
  "nat \<Rightarrow> (string list \<Rightarrow> store_error + (string \<times> 'b) list) \<Rightarrow> (('b, 'r) book \<Rightarrow> store_error + 'd)
    \<Rightarrow> ('b, 'r) book \<Rightarrow> store_error + 'd" where
  "with_bodies_rounds 0 load decide bk = Inl (Unavailable [bk_account_id bk])"
| "with_bodies_rounds (Suc n) load decide bk =
     (case decide bk of
        Inl (BodiesNeeded ids) \<Rightarrow>
          rbind (load ids) (\<lambda>loaded.
            if length loaded \<noteq> length ids then Inl (Unavailable [bk_account_id bk])
            else with_bodies_rounds n load decide (hold_bodies loaded bk))
      | other \<Rightarrow> other)"

definition with_bodies ::
  "(string list \<Rightarrow> store_error + (string \<times> 'b) list) \<Rightarrow> (('b, 'r) book \<Rightarrow> store_error + 'd)
    \<Rightarrow> ('b, 'r) book \<Rightarrow> store_error + 'd" where
  "with_bodies = with_bodies_rounds BODY_ROUNDS"

subsection \<open>The store\<close>

record ('b, 'r) store =
  st_heads :: "(string, nat) btree"
  st_journals :: "(string, 'b journal_entry list) btree"
  st_books :: "(string, ('b, 'r) book) btree"
  st_replies :: "string \<rightharpoonup> string"
  st_requests :: "string \<rightharpoonup> string"
  st_by_message :: "string \<rightharpoonup> string"
  st_by_key :: "string \<times> string \<rightharpoonup> string"
  st_epoch :: nat
  st_epochs :: "string \<rightharpoonup> nat"
  st_fence :: fence
  st_fenced_seen :: bool

definition store_new :: "('b, 'r) store" where
  "store_new =
     \<lparr>st_heads = bt_insert CONTROL_PARTITION 0 (bt_insert FIRST_PARTITION 0 []), st_journals = [], st_books = [],
      st_replies = Map.empty, st_requests = Map.empty, st_by_message = Map.empty, st_by_key = Map.empty,
      st_epoch = 1, st_epochs = Map.empty, st_fence = fence_new, st_fenced_seen = False\<rparr>"

definition load_bodies :: "'b journal_entry list \<Rightarrow> string list \<Rightarrow> (string \<times> 'b) list" where
  "load_bodies journal ids =
     map (\<lambda>e. (en_entry_id e, en_body e)) (filter (\<lambda>e. List.member ids (en_entry_id e)) journal)"

definition commit ::
  "string \<Rightarrow> string \<Rightarrow> nat \<Rightarrow> ('b, 'r) decided \<Rightarrow> ('b, 'r) store \<Rightarrow> ('b, 'r) store" where
  "commit account request epoch d st =
     (let e = d_entry d; i = en_entry_id e in
      st\<lparr>st_heads := bt_insert (en_partition e) (en_last_sequence e) (st_heads st),
         st_epochs := (st_epochs st)(i \<mapsto> epoch),
         st_replies := (st_replies st)(i \<mapsto> d_reply d),
         st_requests := (st_requests st)(i \<mapsto> request),
         st_by_message :=
           (if en_message_id e \<noteq> [] then (st_by_message st)(en_message_id e \<mapsto> i) else st_by_message st),
         st_by_key :=
           (if en_idempotency_key e \<noteq> []
            then (st_by_key st)((en_account_id e, en_idempotency_key e) \<mapsto> i) else st_by_key st),
         st_journals := bt_entry account [] (\<lambda>es. es @ [e]) (st_journals st),
         st_books := bt_insert account (release_bodies (d_book d)) (st_books st)\<rparr>)"

definition answer_first :: "('b, 'r) store \<Rightarrow> string \<Rightarrow> store_error + ('b, 'r) acted" where
  "answer_first st i = (case st_replies st i of Some r \<Rightarrow> Inr (Duplicate r) | None \<Rightarrow> Inl Panicked)"

text \<open>A command the store has not seen: decided under the account's lock.\<close>

definition act_new ::
  "'r \<Rightarrow> string \<Rightarrow> string \<Rightarrow> ('b, 'r) decide \<Rightarrow> ('b, 'r) store \<Rightarrow> (store_error + ('b, 'r) acted) \<times> ('b, 'r) store" where
  "act_new blank account request decide st =
     (let bk = (case bt_get (st_books st) account of
              Some b \<Rightarrow> b | None \<Rightarrow> book_new blank account (first_partition_of account));
          (epoch, f) = adopt_once (st_epoch st) (st_fence st);
          (admitted, seen) = admits (st_epoch st) f;
          st' = st\<lparr>st_fence := f, st_fenced_seen := st_fenced_seen st \<or> seen\<rparr>;
          head = (case bt_get (st_heads st) (bk_partition bk) of None \<Rightarrow> 0 | Some h \<Rightarrow> h);
          journal = (case bt_get (st_journals st) account of None \<Rightarrow> [] | Some es \<Rightarrow> es)
      in case admitted of
           Inl fd \<Rightarrow> (Inl (Fenced fd), st')
         | Inr _ \<Rightarrow>
             (case with_bodies (\<lambda>ids. Inr (load_bodies journal ids)) (\<lambda>b. decide b head) bk of
                Inl e \<Rightarrow> (Inl e, st')
              | Inr d \<Rightarrow> (Inr (Committed d), commit account request epoch d st')))"

definition act ::
  "'r \<Rightarrow> string \<Rightarrow> string \<Rightarrow> string \<Rightarrow> string \<Rightarrow> ('b, 'r) decide \<Rightarrow> ('b, 'r) store
    \<Rightarrow> (store_error + ('b, 'r) acted) \<times> ('b, 'r) store" where
  "act blank account message_id key request decide st =
     (case if message_id \<noteq> [] then st_by_message st message_id else None of
        Some i \<Rightarrow> (answer_first st i, st)
      | None \<Rightarrow>
          (case if key \<noteq> [] then st_by_key st (account, key) else None of
             Some i \<Rightarrow>
               (case st_requests st i of
                  None \<Rightarrow> (Inl Panicked, st)
                | Some r \<Rightarrow> if r \<noteq> request then (Inl (conflict key account), st) else (answer_first st i, st))
           | None \<Rightarrow> act_new blank account request decide st))"

definition store_adopt :: "('b, 'r) store \<Rightarrow> nat \<times> ('b, 'r) store" where
  "store_adopt st = (let (e, f) = adopt_once (st_epoch st) (st_fence st) in (e, st\<lparr>st_fence := f\<rparr>))"

definition take_over :: "('b, 'r) store \<Rightarrow> nat \<times> ('b, 'r) store" where
  "take_over st =
     (let e = st_epoch st + 1 in (e, st\<lparr>st_epoch := e, st_fence := adopt e (st_fence st)\<rparr>))"

text \<open>An entry as the change a follower reads; the length of its encoding is the protobuf
  library's, an argument.\<close>

definition to_change :: "('b journal_entry \<Rightarrow> nat \<Rightarrow> nat) \<Rightarrow> nat \<Rightarrow> 'b journal_entry \<Rightarrow> change" where
  "to_change len epoch e =
     \<lparr>ch_partition = en_partition e, ch_sequence = en_last_sequence e, ch_epoch = epoch,
      ch_encoded_len = len e epoch\<rparr>"

definition entry_change :: "('b journal_entry \<Rightarrow> nat \<Rightarrow> nat) \<Rightarrow> ('b, 'r) store \<Rightarrow> 'b journal_entry \<Rightarrow> change" where
  "entry_change len st e =
     to_change len (case st_epochs st (en_entry_id e) of None \<Rightarrow> 1 | Some n \<Rightarrow> n) e"

definition read_changes ::
  "('b journal_entry \<Rightarrow> nat \<Rightarrow> nat) \<Rightarrow> ('b, 'r) store \<Rightarrow> string \<Rightarrow> int \<Rightarrow> nat \<Rightarrow> read_error + changes_reply" where
  "read_changes len st part most after =
     (case bt_get (st_heads st) part of
        None \<Rightarrow> Inl (UnknownPartition part)
      | Some head \<Rightarrow>
          let entries = filter (\<lambda>e. en_partition e = part \<and> en_last_sequence e > after)
                (concat (bt_values (st_journals st)));
              sorted = sort_key en_last_sequence entries;
              p = fill_page (map (entry_change len st) sorted) (page_new most)
          in Inr \<lparr>rp_changes = pg_changes p, rp_head = head, rp_lowest_kept = (if head > 0 then 1 else 0),
               rp_epoch = st_epoch st, rp_after_sequence = 0\<rparr>)"

section \<open>Facts\<close>

subsection \<open>What is answered\<close>

text \<open>The four ways a command ends.\<close>

lemma commit_sel [simp]:
  "st_replies (commit account request epoch d st) = (st_replies st)(en_entry_id (d_entry d) \<mapsto> d_reply d)"
  "st_requests (commit account request epoch d st) = (st_requests st)(en_entry_id (d_entry d) \<mapsto> request)"
  "st_by_message (commit account request epoch d st) =
     (if en_message_id (d_entry d) \<noteq> [] then (st_by_message st)(en_message_id (d_entry d) \<mapsto> en_entry_id (d_entry d))
      else st_by_message st)"
  "st_by_key (commit account request epoch d st) =
     (if en_idempotency_key (d_entry d) \<noteq> []
      then (st_by_key st)((en_account_id (d_entry d), en_idempotency_key (d_entry d)) \<mapsto> en_entry_id (d_entry d))
      else st_by_key st)"
  "st_fence (commit account request epoch d st) = st_fence st"
  "st_epoch (commit account request epoch d st) = st_epoch st"
  by (simp_all add: commit_def Let_def)

lemma act_new_cases:
  assumes "act_new blank account request decide st = (res, st')"
  obtains (refused) e where "res = Inl e" "st' = st\<lparr>st_fence := st_fence st', st_fenced_seen := st_fenced_seen st'\<rparr>"
      "st_fence st' = snd (adopt_once (st_epoch st) (st_fence st))"
  | (committed) d bk head where "res = Inr (Committed d)" "f_epoch (st_fence st') = st_epoch st"
      "st_fence st' = snd (adopt_once (st_epoch st) (st_fence st))"
      "st' = commit account request (st_epoch st) d (st\<lparr>st_fence := st_fence st', st_fenced_seen := st_fenced_seen st'\<rparr>)"
      "bk = (case bt_get (st_books st) account of Some b \<Rightarrow> b | None \<Rightarrow> book_new blank account (first_partition_of account))"
      "head = (case bt_get (st_heads st) (bk_partition bk) of None \<Rightarrow> 0 | Some h \<Rightarrow> h)"
      "with_bodies (\<lambda>ids. Inr (load_bodies (case bt_get (st_journals st) account of None \<Rightarrow> [] | Some es \<Rightarrow> es) ids))
         (\<lambda>b. decide b head) bk = Inr d"
proof -
  define bk where "bk = (case bt_get (st_books st) account of Some b \<Rightarrow> b | None \<Rightarrow> book_new blank account (first_partition_of account))"
  define head where "head = (case bt_get (st_heads st) (bk_partition bk) of None \<Rightarrow> 0 | Some h \<Rightarrow> h)"
  define journal where "journal = (case bt_get (st_journals st) account of None \<Rightarrow> [] | Some es \<Rightarrow> es)"
  obtain e f where ef: "adopt_once (st_epoch st) (st_fence st) = (e, f)" by force
  obtain adm seen where ad: "admits (st_epoch st) f = (adm, seen)" by force
  define st1 where "st1 = st\<lparr>st_fence := f, st_fenced_seen := st_fenced_seen st \<or> seen\<rparr>"
  let ?w = "with_bodies (\<lambda>ids. Inr (load_bodies journal ids)) (\<lambda>b. decide b head) bk"
  have "act_new blank account request decide st = (case adm of Inl fd \<Rightarrow> (Inl (Fenced fd), st1)
       | Inr _ \<Rightarrow> (case ?w of Inl e \<Rightarrow> (Inl e, st1) | Inr d \<Rightarrow> (Inr (Committed d), commit account request e d st1)))"
    unfolding act_new_def bk_def [symmetric] Let_def ef ad prod.case head_def [symmetric] journal_def [symmetric]
      st1_def [symmetric] ..
  with assms have eq: "(case adm of Inl fd \<Rightarrow> (Inl (Fenced fd), st1)
       | Inr _ \<Rightarrow> (case ?w of Inl e \<Rightarrow> (Inl e, st1) | Inr d \<Rightarrow> (Inr (Committed d), commit account request e d st1))) = (res, st')"
    by simp
  show thesis
  proof (cases "\<exists>d. adm = Inr () \<and> ?w = Inr d")
    case True
    then obtain d where d: "adm = Inr ()" "?w = Inr d" by blast
    then have r: "res = Inr (Committed d)" "st' = commit account request e d st1" using eq by simp_all
    have e: "e = st_epoch st" "f_epoch f = st_epoch st"
      using ad ef d(1) by (auto simp: admits_def adopt_once_def Let_def split: if_splits)
    show thesis
    proof (rule committed [OF r(1)])
      show "f_epoch (st_fence st') = st_epoch st" "st_fence st' = snd (adopt_once (st_epoch st) (st_fence st))"
        using r(2) e ef by (simp_all add: st1_def)
      show "st' = commit account request (st_epoch st) d (st\<lparr>st_fence := st_fence st', st_fenced_seen := st_fenced_seen st'\<rparr>)"
        using r(2) e by (simp add: st1_def commit_def Let_def)
    qed (rule bk_def, rule head_def, use d(2) in \<open>simp add: journal_def\<close>)
  next
    case False
    then have "(\<exists>e. res = Inl e) \<and> st' = st1" using eq by (auto split: sum.splits)
    then show thesis using refused ef by (auto simp: st1_def)
  qed
qed

lemma act_cases:
  assumes "act blank account mid key request decide st = (res, st')"
  obtains (duplicate) i where "st' = st" "res = answer_first st i"
      "(mid \<noteq> [] \<and> st_by_message st mid = Some i) \<or> (key \<noteq> [] \<and> st_by_key st (account, key) = Some i)"
  | (conflict) i where "st' = st" "key \<noteq> []" "st_by_key st (account, key) = Some i"
      "(res = Inl (conflict key account) \<and> (\<exists>r. st_requests st i = Some r \<and> r \<noteq> request))
        \<or> (res = Inl Panicked \<and> st_requests st i = None)"
  | (new) "mid = [] \<or> st_by_message st mid = None" "key = [] \<or> st_by_key st (account, key) = None"
      "act_new blank account request decide st = (res, st')"
proof -
  consider (mid) i where "mid \<noteq> []" "st_by_message st mid = Some i"
    | (key) i where "mid = [] \<or> st_by_message st mid = None" "key \<noteq> []" "st_by_key st (account, key) = Some i"
    | (neither) "mid = [] \<or> st_by_message st mid = None" "key = [] \<or> st_by_key st (account, key) = None"
    by (cases "mid = []"; cases "st_by_message st mid"; cases "key = []"; cases "st_by_key st (account, key)") auto
  then show thesis
  proof cases
    case mid
    with assms duplicate show ?thesis by (auto simp: act_def)
  next
    case key
    then have "act blank account mid key request decide st = (case st_requests st i of
        None \<Rightarrow> (Inl Panicked, st)
      | Some r \<Rightarrow> if r \<noteq> request then (Inl (conflict key account), st) else (answer_first st i, st))"
      by (auto simp: act_def)
    with assms key duplicate conflict show ?thesis
      by (cases "st_requests st i") (auto split: if_splits)
  next
    case neither
    then have "act blank account mid key request decide st = act_new blank account request decide st"
      by (auto simp: act_def)
    with assms neither new show ?thesis by simp
  qed
qed

text \<open>What the store relies on of a decision: an entry of its own, naming the command, numbered
  past its partition's head.\<close>

definition decides_for ::
  "('b, 'r) store \<Rightarrow> string \<Rightarrow> string \<Rightarrow> string \<Rightarrow> ('b, 'r) decide \<Rightarrow> bool" where
  "decides_for st account mid key decide \<longleftrightarrow>
     (\<forall>bk head d. decide bk head = Inr d \<longrightarrow>
        st_replies st (en_entry_id (d_entry d)) = None
        \<and> en_message_id (d_entry d) = mid \<and> en_idempotency_key (d_entry d) = key
        \<and> en_account_id (d_entry d) = account
        \<and> en_partition (d_entry d) = bk_partition bk \<and> bk_partition (d_book d) = bk_partition bk
        \<and> head < en_last_sequence (d_entry d))
     \<and> (\<forall>bk head. decide bk head \<noteq> Inl Panicked)"

inductive store_step :: "'r \<Rightarrow> ('b, 'r) store \<Rightarrow> ('b, 'r) store \<Rightarrow> bool" for blank where
  acts: "decides_for st account mid key decide \<Longrightarrow> act blank account mid key request decide st = (res, st')
    \<Longrightarrow> store_step blank st st'"
| adopts: "store_step blank st (snd (store_adopt st))"
| takes_over: "store_step blank st (snd (take_over st))"

inductive_cases store_stepE: "store_step blank st st'"

abbreviation later :: "'r \<Rightarrow> ('b, 'r) store \<Rightarrow> ('b, 'r) store \<Rightarrow> bool" where
  "later blank \<equiv> (store_step blank)\<^sup>*\<^sup>*"

lemma with_bodies_rounds_decides:
  "with_bodies_rounds n load decide bk = Inr d \<Longrightarrow> \<exists>m. decide (bk\<lparr>bk_bodies := m\<rparr>) = Inr d"
proof (induction n arbitrary: bk)
  case (Suc n)
  show ?case
  proof (cases "decide bk")
    case (Inl e)
    with Suc.prems obtain ids loaded where "e = BodiesNeeded ids" "with_bodies_rounds n load decide (hold_bodies loaded bk) = Inr d"
      by (cases e) (auto simp: rbind_eq_Inr split: if_splits)
    with Suc.IH show ?thesis by (fastforce simp: hold_bodies_def)
  next
    case (Inr x)
    with Suc.prems show ?thesis by (intro exI [of _ "bk_bodies bk"]) simp
  qed
qed simp

lemma with_bodies_rounds_err:
  "with_bodies_rounds n (\<lambda>ids. Inr (load ids)) decide bk = Inl Panicked \<Longrightarrow> \<exists>b. decide b = Inl Panicked"
proof (induction n arbitrary: bk)
  case (Suc n)
  show ?case
  proof (cases "decide bk")
    case (Inl e)
    with Suc.prems Suc.IH show ?thesis by (cases e) (auto split: if_splits)
  qed (use Suc.prems in simp)
qed simp

lemma committed_entry:
  assumes "decides_for st account mid key decide" "with_bodies load (\<lambda>b. decide b head) bk = Inr d"
  shows "st_replies st (en_entry_id (d_entry d)) = None" "en_message_id (d_entry d) = mid"
    "en_idempotency_key (d_entry d) = key" "en_account_id (d_entry d) = account"
    "en_partition (d_entry d) = bk_partition bk" "bk_partition (d_book d) = bk_partition bk"
    "head < en_last_sequence (d_entry d)"
proof -
  obtain m where "decide (bk\<lparr>bk_bodies := m\<rparr>) head = Inr d"
    using with_bodies_rounds_decides [OF assms(2) [unfolded with_bodies_def]] by blast
  with assms(1) have *: "st_replies st (en_entry_id (d_entry d)) = None \<and> en_message_id (d_entry d) = mid
      \<and> en_idempotency_key (d_entry d) = key \<and> en_account_id (d_entry d) = account
      \<and> en_partition (d_entry d) = bk_partition (bk\<lparr>bk_bodies := m\<rparr>)
      \<and> bk_partition (d_book d) = bk_partition (bk\<lparr>bk_bodies := m\<rparr>) \<and> head < en_last_sequence (d_entry d)"
    unfolding decides_for_def by blast
  then show "st_replies st (en_entry_id (d_entry d)) = None" "en_message_id (d_entry d) = mid"
    "en_idempotency_key (d_entry d) = key" "en_account_id (d_entry d) = account"
    "en_partition (d_entry d) = bk_partition bk" "bk_partition (d_book d) = bk_partition bk"
    "head < en_last_sequence (d_entry d)" by simp_all
qed

subsection \<open>What stays\<close>

text \<open>An answer once kept is kept: the tables a duplicate is answered from.\<close>

definition keeps_answers :: "('b, 'r) store \<Rightarrow> ('b, 'r) store \<Rightarrow> bool" where
  "keeps_answers st st' \<longleftrightarrow> st_replies st \<subseteq>\<^sub>m st_replies st' \<and> st_requests st \<subseteq>\<^sub>m st_requests st'
     \<and> st_by_message st \<subseteq>\<^sub>m st_by_message st' \<and> st_by_key st \<subseteq>\<^sub>m st_by_key st'"

definition answers_kept :: "('b, 'r) store \<Rightarrow> bool" where
  "answers_kept st \<longleftrightarrow>
     (\<forall>i. i \<in> ran (st_by_message st) \<union> ran (st_by_key st) \<longrightarrow> i \<in> dom (st_replies st))
     \<and> dom (st_requests st) = dom (st_replies st)"

lemma keeps_answers_refl [simp]: "keeps_answers st st"
  by (simp add: keeps_answers_def)

lemma keeps_answers_trans: "keeps_answers a b \<Longrightarrow> keeps_answers b c \<Longrightarrow> keeps_answers a c"
  unfolding keeps_answers_def by (blast intro: map_le_trans)

lemma map_le_upd_fresh: "m x = None \<Longrightarrow> m \<subseteq>\<^sub>m m(x \<mapsto> y)"
  by (auto simp: map_le_def)

lemma commit_keeps_answers:
  assumes "answers_kept st" "st_replies st (en_entry_id (d_entry d)) = None"
    "en_message_id (d_entry d) = [] \<or> st_by_message st (en_message_id (d_entry d)) = None"
    "en_idempotency_key (d_entry d) = [] \<or> st_by_key st (en_account_id (d_entry d), en_idempotency_key (d_entry d)) = None"
  shows "keeps_answers st (commit account request epoch d (st\<lparr>st_fence := f, st_fenced_seen := b\<rparr>))"
    and "answers_kept (commit account request epoch d (st\<lparr>st_fence := f, st_fenced_seen := b\<rparr>))"
proof -
  have r: "st_requests st (en_entry_id (d_entry d)) = None"
    using assms(1,2) by (auto simp: answers_kept_def)
  show "keeps_answers st (commit account request epoch d (st\<lparr>st_fence := f, st_fenced_seen := b\<rparr>))"
    using assms(2-4) r by (auto simp: keeps_answers_def intro!: map_le_upd_fresh)
  show "answers_kept (commit account request epoch d (st\<lparr>st_fence := f, st_fenced_seen := b\<rparr>))"
    using assms(1) by (auto simp: answers_kept_def ran_def split: if_splits)
qed

lemma fence_keeps_answers:
  "keeps_answers st (st\<lparr>st_fence := f, st_fenced_seen := b\<rparr>)"
  "answers_kept (st\<lparr>st_fence := f, st_fenced_seen := b\<rparr>) = answers_kept st"
  by (simp_all add: keeps_answers_def answers_kept_def)

lemma act_keeps_answers:
  assumes "decides_for st account mid key decide" "act blank account mid key request decide st = (res, st')" "answers_kept st"
  shows "keeps_answers st st' \<and> answers_kept st'"
  using assms(2)
proof (cases rule: act_cases)
  case new
  from new(3) show ?thesis
  proof (cases rule: act_new_cases)
    case (committed d bk head)
    note entry = committed_entry [OF assms(1) committed(7)]
    show ?thesis
      using commit_keeps_answers [OF assms(3) entry(1), where account = account and request = request
            and epoch = "st_epoch st" and f = "st_fence st'" and b = "st_fenced_seen st'"]
        entry(2-4) new(1,2) committed(4) by simp
  next
    case (refused e)
    with fence_keeps_answers [where st = st and f = "st_fence st'" and b = "st_fenced_seen st'"] assms(3)
    show ?thesis by simp
  qed
qed (use assms(3) in simp_all)

lemma step_keeps_answers:
  assumes "store_step blank st st'" "answers_kept st"
  shows "keeps_answers st st' \<and> answers_kept st'"
  using assms(1)
proof (cases rule: store_step.cases)
  case (acts account mid key decide request res)
  from act_keeps_answers [OF acts(1,2) assms(2)] show ?thesis .
next
  case adopts
  with assms(2) show ?thesis by (simp add: store_adopt_def keeps_answers_def answers_kept_def split_beta Let_def)
next
  case takes_over
  with assms(2) show ?thesis by (simp add: take_over_def keeps_answers_def answers_kept_def Let_def)
qed

lemma later_keeps_answers:
  "later blank st st' \<Longrightarrow> answers_kept st \<Longrightarrow> keeps_answers st st' \<and> answers_kept st'"
proof (induction rule: rtranclp_induct)
  case (step st' st'')
  then have "keeps_answers st st'" "answers_kept st'" by simp_all
  with step_keeps_answers [OF step.hyps(2)] show ?case by (auto intro: keeps_answers_trans)
qed simp

lemma answers_kept_new: "answers_kept store_new"
  by (simp add: answers_kept_def store_new_def)

subsection \<open>The log\<close>

definition entries :: "('b, 'r) store \<Rightarrow> 'b journal_entry list" where
  "entries st = concat (bt_values (st_journals st))"

text \<open>Sequences of a partition are its entries' own, above zero and up to its head; an
  account's book stays in its partition.\<close>

definition log_ok :: "('b, 'r) store \<Rightarrow> bool" where
  "log_ok st \<longleftrightarrow> bt_wf (st_journals st)
     \<and> distinct (map (\<lambda>e. (en_partition e, en_last_sequence e)) (entries st))
     \<and> (\<forall>e \<in> set (entries st). 0 < en_last_sequence e
          \<and> (\<exists>h. bt_get (st_heads st) (en_partition e) = Some h \<and> en_last_sequence e \<le> h))"

lemma mset_entries_push:
  "bt_wf m \<Longrightarrow> mset (concat (bt_values (bt_entry k [] (\<lambda>es. es @ [e]) m))) = add_mset e (mset (concat (bt_values m)))"
proof (induction m)
  case (Cons x m)
  obtain a es where x: "x = (a, es)" by force
  with Cons.prems have wf: "bt_wf m" and lt: "\<forall>b \<in> fst ` set m. a < b" by (simp_all add: bt_wf_Cons)
  have absent: "bt_get m k = None" if "k < a"
    using lt that by (auto simp: bt_get_None_iff dest: less_trans)
  from Cons.IH [OF wf] show ?case
    by (auto simp: x bt_entry_def absent split: if_splits)
qed (simp add: bt_entry_def)

lemma log_ok_commit:
  assumes "log_ok st" "en_partition (d_entry d) = part"
    "(case bt_get (st_heads st) part of None \<Rightarrow> 0 | Some h \<Rightarrow> h) < en_last_sequence (d_entry d)"
  shows "log_ok (commit account request epoch d (st\<lparr>st_fence := f, st_fenced_seen := b\<rparr>))"
proof -
  let ?e = "d_entry d" and ?key = "\<lambda>e. (en_partition e, en_last_sequence e)"
  let ?st = "commit account request epoch d (st\<lparr>st_fence := f, st_fenced_seen := b\<rparr>)"
  have wf: "bt_wf (st_journals st)" using assms(1) by (simp add: log_ok_def)
  have m: "mset (entries ?st) = add_mset ?e (mset (entries st))"
    using mset_entries_push [OF wf] by (simp add: entries_def commit_def Let_def)
  have past: "e \<in> set (entries st) \<Longrightarrow> en_partition e = part \<Longrightarrow> en_last_sequence e < en_last_sequence ?e" for e
    using assms(1,3) by (fastforce simp: log_ok_def)
  have "distinct (map ?key (?e # entries st))"
    using assms(1,2) past by (fastforce simp: log_ok_def)
  then have "distinct (map ?key (entries ?st))"
    by (metis m mset.simps(2) mset_eq_imp_distinct_iff mset_map)
  moreover have "set (entries ?st) = insert ?e (set (entries st))"
    by (metis m set_mset_add_mset_insert set_mset_mset)
  moreover have "bt_wf (st_journals ?st)" using wf by (simp add: commit_def Let_def)
  ultimately show ?thesis
    using assms past by (fastforce simp: log_ok_def commit_def Let_def)
qed

lemma log_ok_fence: "log_ok (st\<lparr>st_fence := f, st_fenced_seen := b\<rparr>) = log_ok st"
  by (simp add: log_ok_def entries_def)

lemma log_ok_act:
  assumes "decides_for st account mid key decide" "act blank account mid key request decide st = (res, st')" "log_ok st"
  shows "log_ok st'"
  using assms(2)
proof (cases rule: act_cases)
  case new
  from new(3) show ?thesis
  proof (cases rule: act_new_cases)
    case (committed d bk head)
    note entry = committed_entry [OF assms(1) committed(7)]
    show ?thesis
      by (subst committed(4), rule log_ok_commit [OF assms(3) entry(5)]) (use entry(7) committed(6) in simp)
  next
    case (refused e)
    then show ?thesis using assms(3) log_ok_fence by metis
  qed
qed (use assms(3) in simp_all)

lemma log_ok_step: "store_step blank st st' \<Longrightarrow> log_ok st \<Longrightarrow> log_ok st'"
proof (induction rule: store_step.induct)
  case (acts st account mid key decide request res st')
  then show ?case using log_ok_act by metis
qed (simp_all add: log_ok_def entries_def store_adopt_def take_over_def split_beta Let_def)

lemma log_ok_later: "later blank st st' \<Longrightarrow> log_ok st \<Longrightarrow> log_ok st'"
  by (induction rule: rtranclp_induct) (auto intro: log_ok_step)

lemma log_ok_new: "log_ok store_new"
  by (simp add: log_ok_def store_new_def entries_def)

text \<open>What a partition's follower can read: its changes, in the order of their sequences.\<close>

type_synonym ('b, 'r) log_view = "('b journal_entry \<Rightarrow> nat \<Rightarrow> nat) \<times> ('b, 'r) store \<times> string \<times> int"

definition part_log :: "('b, 'r) log_view \<Rightarrow> change list" where
  "part_log s =
     (case s of (len, st, part, most) \<Rightarrow>
        map (entry_change len st) (sort_key en_last_sequence (filter (\<lambda>e. en_partition e = part) (entries st))))"

definition part_head :: "('b, 'r) log_view \<Rightarrow> nat" where
  "part_head s = (case s of (len, st, part, most) \<Rightarrow> (case bt_get (st_heads st) part of None \<Rightarrow> 0 | Some h \<Rightarrow> h))"

definition read_view :: "('b, 'r) log_view \<Rightarrow> nat \<Rightarrow> read_error + changes_reply" where
  "read_view s = (case s of (len, st, part, most) \<Rightarrow> read_changes len st part most)"

definition view_ok :: "('b, 'r) log_view \<Rightarrow> bool" where
  "view_ok s \<longleftrightarrow> (case s of (len, st, part, most) \<Rightarrow> log_ok st \<and> bt_get (st_heads st) part \<noteq> None)"

lemma entry_change_sequence [simp]: "ch_sequence (entry_change len st e) = en_last_sequence e"
  by (simp add: entry_change_def to_change_def)

lemma distinct_part:
  assumes "distinct (map (\<lambda>e. (en_partition e, en_last_sequence e)) es)"
  shows "distinct (map en_last_sequence (filter (\<lambda>e. en_partition e = part) es))"
  using assms by (auto simp: distinct_map inj_on_def)

lemma part_log_ascending:
  assumes "view_ok s"
  shows "ascending 0 (part_log s)"
proof -
  obtain len st part most where s: "s = (len, st, part, most)" by (metis prod_cases4)
  let ?es = "sort_key en_last_sequence (filter (\<lambda>e. en_partition e = part) (entries st))"
  have ok: "log_ok st" using assms by (simp add: s view_ok_def)
  have "distinct (map en_last_sequence (filter (\<lambda>e. en_partition e = part) (entries st)))"
    using ok by (intro distinct_part) (simp add: log_ok_def)
  then have "distinct (map en_last_sequence ?es)"
    by (metis mset_eq_imp_distinct_iff mset_map mset_sort)
  then have "sorted_wrt (<) (map en_last_sequence ?es)" by (simp add: strict_sorted_iff)
  then show ?thesis using ok
    by (auto simp: ascending_def part_log_def s sorted_wrt_map log_ok_def)
qed

lemma view_read:
  assumes "view_ok s"
  shows "\<exists>p rest. read_view s after = Inr p \<and> rp_head p = part_head s
    \<and> filter (\<lambda>c. after < ch_sequence c) (part_log s) = rp_changes p @ rest
    \<and> (rest \<noteq> [] \<longrightarrow> rp_changes p \<noteq> [])"
proof -
  obtain len st part most where s: "s = (len, st, part, most)" by (metis prod_cases4)
  obtain h where h: "bt_get (st_heads st) part = Some h" using assms by (auto simp: s view_ok_def)
  define cs where "cs = map (entry_change len st)
    (sort_key en_last_sequence (filter (\<lambda>e. en_partition e = part \<and> after < en_last_sequence e) (entries st)))"
  have log: "filter (\<lambda>c. after < ch_sequence c) (part_log s) = cs"
    by (simp add: cs_def part_log_def s filter_map o_def filter_sort filter_filter conj_commute)
  have "pg_changes (page_new most) = []" by (simp add: page_new_def)
  then have "\<exists>rest. cs = pg_changes (fill_page cs (page_new most)) @ rest"
    using fill_page_prefix [of cs "page_new most"] by auto
  then obtain taken rest where t: "pg_changes (fill_page cs (page_new most)) = taken" "cs = taken @ rest"
    by blast
  moreover have "rest \<noteq> [] \<longrightarrow> taken \<noteq> []" using fill_page_some [of cs most] t by auto
  moreover have "read_view s after = Inr \<lparr>rp_changes = taken, rp_head = h, rp_lowest_kept = (if h > 0 then 1 else 0),
      rp_epoch = st_epoch st, rp_after_sequence = 0\<rparr>"
    using t(1) by (simp add: read_view_def s read_changes_def h entries_def [symmetric] cs_def Let_def)
  ultimately show ?thesis using log h by (auto simp: part_head_def s)
qed

lemma view_head:
  assumes "view_ok s" "c \<in> set (part_log s)"
  shows "ch_sequence c \<le> part_head s"
proof -
  obtain len st part most where s: "s = (len, st, part, most)" by (metis prod_cases4)
  from assms obtain e where e: "e \<in> set (entries st)" "en_partition e = part" "ch_sequence c = en_last_sequence e"
    by (auto simp: s part_log_def)
  with assms(1) show ?thesis by (auto simp: s view_ok_def log_ok_def part_head_def)
qed

interpretation book_log: paged_log view_ok read_view part_log part_head
  by unfold_locales (rule part_log_ascending, assumption | rule view_head, assumption, assumption | rule view_read, assumption)+

subsection \<open>Several writers over one head row\<close>

text \<open>One record's head epoch and each writer's own fence: a writer commits by the same two
  calls \<open>act_new\<close> makes, and takes over as \<open>take_over\<close> does.\<close>

datatype writer_event = Commits string | IsRefused string | Takes string

record writers =
  w_head :: nat
  w_fence :: "string \<Rightarrow> fence"

inductive writer_step :: "writers \<Rightarrow> writer_event \<Rightarrow> writers \<Rightarrow> bool" where
  commits: "adopt_once (w_head s) (w_fence s w) = (e, f) \<Longrightarrow> admits (w_head s) f = (Inr (), b)
    \<Longrightarrow> writer_step s (Commits w) (s\<lparr>w_fence := (w_fence s)(w := f)\<rparr>)"
| refused: "adopt_once (w_head s) (w_fence s w) = (e, f) \<Longrightarrow> admits (w_head s) f = (Inl x, b)
    \<Longrightarrow> writer_step s (IsRefused w) (s\<lparr>w_fence := (w_fence s)(w := f)\<rparr>)"
| takes: "writer_step s (Takes w)
    (s\<lparr>w_head := w_head s + 1, w_fence := (w_fence s)(w := adopt (w_head s + 1) (w_fence s w))\<rparr>)"


inductive_cases writer_stepE: "writer_step s a t"





section \<open>Properties\<close>


text \<open>A committed command never finds its answer missing: from an empty store on, the
  indexing of the replies and of the requests never panics.\<close>

theorem answers_are_never_missing:
  assumes "later blank store_new st" and "decides_for st account mid key decide"
  shows "fst (act blank account mid key request decide st) \<noteq> Inl Panicked"
proof -
  have ok: "answers_kept st" using later_keeps_answers [OF assms(1) answers_kept_new] by simp
  obtain res st' where a: "act blank account mid key request decide st = (res, st')" by force
  then show ?thesis
  proof (cases rule: act_cases)
    case (duplicate i)
    with ok have "i \<in> dom (st_replies st)" by (auto simp: answers_kept_def ran_def)
    with a duplicate show ?thesis by (auto simp: answer_first_def)
  next
    case (conflict i)
    with ok have "i \<in> dom (st_requests st)" by (auto simp: answers_kept_def ran_def)
    with a conflict show ?thesis by (auto simp: conflict_def)
  next
    case new
    have "with_bodies (\<lambda>ids. Inr (load ids)) (\<lambda>b. decide b head) bk \<noteq> Inl Panicked" for load head bk
      using with_bodies_rounds_err [of BODY_ROUNDS load "\<lambda>b. decide b head" bk] assms(2)
      by (auto simp: decides_for_def with_bodies_def)
    with new(3) a show ?thesis
      by (auto simp: act_new_def Let_def split: prod.splits sum.splits)
  qed
qed


text \<open>C25: A follower catching up on the book's log applies every change it lacks once and in
  order, whatever the page size, in every state the store reaches: nothing kept after its
  position is skipped, and it stops at the last change.\<close>

theorem follower_catches_up_with_the_book:
  fixes len :: "'b journal_entry \<Rightarrow> nat \<Rightarrow> nat" and st :: "('b, 'r) store" and after :: nat
  assumes "later blank store_new st" and "bt_get (st_heads st) part \<noteq> None"
  defines "lacked \<equiv> filter (\<lambda>c. after < ch_sequence c)
    (map (entry_change len st) (sort_key en_last_sequence (filter (\<lambda>e. en_partition e = part) (entries st))))"
  shows "catch_up (read_changes len st part most) after [] =
    Some (Inr (if lacked = [] then after else ch_sequence (last lacked)), lacked)"
proof -
  have ok: "view_ok (len, st, part, most)"
    using log_ok_later [OF assms(1) log_ok_new] assms(2) by (simp add: view_ok_def)
  have "read_view (len, st, part, most) = read_changes len st part most" by (simp add: read_view_def)
  moreover have "book_log.lacks (len, st, part, most) after = lacked"
    by (simp add: book_log.lacks_def part_log_def lacked_def)
  ultimately show ?thesis using book_log.catch_up_complete [OF ok, of after "[]"] by (simp add: reach_def)
qed

subsection \<open>Witnesses\<close>

text \<open>A decision that appends one empty entry.\<close>

definition sample_decide :: "string \<Rightarrow> string \<Rightarrow> string \<Rightarrow> (unit, unit) decide" where
  "sample_decide account mid key = (\<lambda>bk head. Inr \<lparr>d_entry = \<lparr>en_entry_id = mid, en_account_id = account,
     en_partition = bk_partition bk, en_first_sequence = head + 1, en_last_sequence = head + 1, en_message_id = mid,
     en_idempotency_key = key, en_body = ()\<rparr>, d_book = bk, d_reply = ''done''\<rparr>)"

lemma sample_decides: "st_replies st mid = None \<Longrightarrow> decides_for st account mid key (sample_decide account mid key)"
  by (simp add: decides_for_def sample_decide_def)

definition sample_store :: "(unit, unit) store" where
  "sample_store = snd (act () ''a1'' ''m1'' ''k1'' ''buy'' (sample_decide ''a1'' ''m1'' ''k1'') store_new)"

lemma sample_act: "\<exists>d. act () ''a1'' ''m1'' ''k1'' ''buy'' (sample_decide ''a1'' ''m1'' ''k1'') store_new =
    (Inr (Committed d), sample_store) \<and> d_reply d = ''done''"
  by (simp add: sample_store_def act_def act_new_def store_new_def Let_def adopt_once_def admits_def fence_new_def
      with_bodies_def BODY_ROUNDS_def numeral_eq_Suc sample_decide_def)

lemma sample_later: "later () store_new sample_store"
proof -
  obtain d where "act () ''a1'' ''m1'' ''k1'' ''buy'' (sample_decide ''a1'' ''m1'' ''k1'') store_new = (Inr (Committed d), sample_store)"
    using sample_act by blast
  moreover have "decides_for store_new ''a1'' ''m1'' ''k1'' (sample_decide ''a1'' ''m1'' ''k1'')"
    by (rule sample_decides) (simp add: store_new_def)
  ultimately show ?thesis by (blast intro: store_step.acts)
qed


theorem answers_are_never_missing_witness:
  "fst (act () ''a1'' ''m2'' [] ''sell'' (sample_decide ''a1'' ''m2'' []) sample_store) \<noteq> Inl Panicked"
proof (rule answers_are_never_missing [OF sample_later])
  have "st_replies sample_store ''m2'' = None" by code_simp
  then show "decides_for sample_store ''a1'' ''m2'' [] (sample_decide ''a1'' ''m2'' [])" by (rule sample_decides)
qed


theorem follower_catches_up_with_the_book_witness:
  "catch_up (read_changes (\<lambda>e n. 1) sample_store ''P0'' 1) 0 [] =
     Some (Inr 1, [\<lparr>ch_partition = ''P0'', ch_sequence = 1, ch_epoch = 1, ch_encoded_len = 1\<rparr>])"
proof -
  have h: "bt_get (st_heads sample_store) ''P0'' \<noteq> None" by code_simp
  have l: "filter (\<lambda>c. 0 < ch_sequence c) (map (entry_change (\<lambda>e n. 1) sample_store)
      (sort_key en_last_sequence (filter (\<lambda>e. en_partition e = ''P0'') (entries sample_store)))) =
    [\<lparr>ch_partition = ''P0'', ch_sequence = 1, ch_epoch = 1, ch_encoded_len = 1\<rparr>]" by code_simp
  from follower_catches_up_with_the_book [OF sample_later h, where after = 0 and len = "\<lambda>e n. 1" and most = 1] show ?thesis unfolding l by simp
qed

end
