(* ===== verification/Lease.thy ===== *)
theory Lease
  imports Exact_Decimal
begin

section \<open>A writer's lease\<close>

text \<open>
  \<open>crates/runtime/src/lease.rs\<close> (\<open>Settings\<close>, \<open>Elector\<close>) and the loop that keeps a lease
  while writing, \<open>Member::keep\<close> of \<open>crates/runtime/src/member.rs\<close>. Instants and durations
  are nanoseconds, \<open>int\<close>; the deployment's time stamps are the text \<open>micro_time\<close> makes of
  them, an argument here since no election reads it.

  A look asks the Kubernetes API twice, to read and to write; other members' requests may
  come between, so it is two steps: \<open>look_read\<close>, which decides on what was read, and
  \<open>look_wrote\<close>, on what the write answered. \<open>look\<close> composes them over an API. What the
  election relies on of the API is the locale \<open>lease_api\<close>, interpreted on the one Lease
  kept in memory that the crate's tests stand for the API server.
\<close>

record settings =
  s_name :: string
  s_holder :: string
  s_renew :: int
  s_duration :: int

definition SECOND :: int where "SECOND = 10 ^ 9"

definition renew_deadline :: "settings \<Rightarrow> int" where
  "renew_deadline s = max (max 0 (s_duration s - s_renew s)) (s_renew s)"

definition look_every :: "settings \<Rightarrow> int" where
  "look_every s = max (s_renew s div 2) (250 * 10 ^ 6)"

datatype settings_error = NeedsNames | RenewOutOfRange int int

definition check_settings :: "settings \<Rightarrow> settings_error + unit" where
  "check_settings s =
     (if s_name s = [] \<or> s_holder s = [] then Inl NeedsNames
      else if s_renew s = 0 \<or> s_duration s \<le> s_renew s
      then Inl (RenewOutOfRange (s_renew s div SECOND) (s_duration s div SECOND))
      else Inr ())"

record lease_record =
  r_holder :: string
  r_duration_seconds :: int
  r_acquire_time :: string
  r_renew_time :: string
  r_transitions :: nat
  r_version :: string

datatype wrote = Done string | Conflict

datatype standing = Held | HeldBy string

record elector =
  e_observed :: "(lease_record \<times> int) option"
  e_renewed_at :: "int option"
  e_took_from :: "string option option"

definition elector_new :: elector where
  "elector_new = \<lparr>e_observed = None, e_renewed_at = None, e_took_from = None\<rparr>"

definition same_spec :: "lease_record \<Rightarrow> lease_record \<Rightarrow> bool" where
  "same_spec a b \<longleftrightarrow> r_version a = r_version b \<and> r_holder a = r_holder b \<and> r_renew_time a = r_renew_time b
     \<and> r_transitions a = r_transitions b \<and> r_duration_seconds a = r_duration_seconds b"

subsection \<open>A look\<close>

datatype plan = Stand standing | Create lease_record | Update lease_record lease_record

definition observe :: "lease_record \<Rightarrow> int \<Rightarrow> elector \<Rightarrow> elector" where
  "observe current now e =
     (if (case e_observed e of None \<Rightarrow> True | Some (seen, t) \<Rightarrow> \<not> same_spec seen current)
      then e\<lparr>e_observed := Some (current, now)\<rparr> else e)"

definition look_read :: "settings \<Rightarrow> int \<Rightarrow> string \<Rightarrow> lease_record option \<Rightarrow> elector \<Rightarrow> plan \<times> elector" where
  "look_read s now stamp found e =
     (let me = s_holder s in
      case found of
        None \<Rightarrow>
          (Create \<lparr>r_holder = me, r_duration_seconds = s_duration s div SECOND, r_acquire_time = stamp,
             r_renew_time = stamp, r_transitions = 0, r_version = []\<rparr>, e)
      | Some current \<Rightarrow>
          (let e' = observe current now e;
               seen_at = (case e_observed e' of None \<Rightarrow> now | Some (seen, t) \<Rightarrow> t);
               lapse = max (r_duration_seconds current) 1 * SECOND;
               mine = (r_holder current = me)
           in if r_holder current \<noteq> [] \<and> \<not> mine \<and> now - seen_at < lapse
              then (Stand (HeldBy (r_holder current)), e')
              else (Update \<lparr>r_holder = me, r_duration_seconds = s_duration s div SECOND,
                  r_acquire_time = (if mine then r_acquire_time current else stamp), r_renew_time = stamp,
                  r_transitions = (if mine then r_transitions current else r_transitions current + 1),
                  r_version = r_version current\<rparr> current, e')))"

definition wrote_as_holder :: "lease_record \<Rightarrow> string \<Rightarrow> int \<Rightarrow> elector \<Rightarrow> elector" where
  "wrote_as_holder r version now e =
     e\<lparr>e_observed := Some (r\<lparr>r_version := version\<rparr>, now), e_renewed_at := Some now\<rparr>"

definition look_wrote :: "settings \<Rightarrow> int \<Rightarrow> plan \<Rightarrow> wrote \<Rightarrow> elector \<Rightarrow> standing \<times> elector" where
  "look_wrote s now p answer e =
     (case p of
        Stand st \<Rightarrow> (st, e)
      | Create r \<Rightarrow>
          (case answer of
             Done version \<Rightarrow> (Held, (wrote_as_holder r version now e)\<lparr>e_took_from := Some None\<rparr>)
           | Conflict \<Rightarrow> (HeldBy [], e))
      | Update r current \<Rightarrow>
          (case answer of
             Done version \<Rightarrow>
               let e' = wrote_as_holder r version now e
               in (Held, if r_holder current \<noteq> s_holder s then e'\<lparr>e_took_from := Some (Some (r_holder current))\<rparr> else e')
           | Conflict \<Rightarrow> (HeldBy (r_holder current), e\<lparr>e_renewed_at := None\<rparr>)))"

text \<open>The API's calls may fail; a failure leaves the look there.\<close>

record 's api =
  api_get :: "'s \<Rightarrow> string + lease_record option"
  api_create :: "lease_record \<Rightarrow> 's \<Rightarrow> (string + wrote) \<times> 's"
  api_update :: "lease_record \<Rightarrow> 's \<Rightarrow> (string + wrote) \<times> 's"

definition look :: "'s api \<Rightarrow> settings \<Rightarrow> int \<Rightarrow> string \<Rightarrow> 's \<times> elector \<Rightarrow> (string + standing) \<times> 's \<times> elector" where
  "look a s now stamp st =
     (let (server, e) = st in
      case api_get a server of
        Inl failed \<Rightarrow> (Inl failed, server, e)
      | Inr found \<Rightarrow>
          (let (p, e') = look_read s now stamp found e in
           case p of
             Stand stands \<Rightarrow> (Inr stands, server, e')
           | Create r \<Rightarrow>
               (case api_create a r server of
                  (Inl failed, server') \<Rightarrow> (Inl failed, server', e')
                | (Inr answer, server') \<Rightarrow>
                    let (stands, e'') = look_wrote s now p answer e' in (Inr stands, server', e''))
           | Update r current \<Rightarrow>
               (case api_update a r server of
                  (Inl failed, server') \<Rightarrow> (Inl failed, server', e')
                | (Inr answer, server') \<Rightarrow>
                    let (stands, e'') = look_wrote s now p answer e' in (Inr stands, server', e''))))"

definition release :: "'s api \<Rightarrow> settings \<Rightarrow> string \<Rightarrow> 's \<times> elector \<Rightarrow> 's \<times> elector" where
  "release a s stamp st =
     (let (server, e) = st in
      case e_observed e of
        None \<Rightarrow> (server, e)
      | Some (seen, t) \<Rightarrow>
          if r_holder seen \<noteq> s_holder s \<or> e_renewed_at e = None then (server, e)
          else let r = seen\<lparr>r_holder := [], r_duration_seconds := 1, r_renew_time := stamp\<rparr>
               in (snd (api_update a r server), e\<lparr>e_renewed_at := None\<rparr>))"

subsection \<open>Keeping it\<close>

text \<open>One turn of the loop: whether a commit was seen fenced, how long the sleep and the look
  took, and what the look answered.\<close>

record keep_round =
  k_slept :: int
  k_fenced :: bool
  k_took :: int
  k_looked :: "string + standing"

datatype stepped_down = FencedSeen | AnotherHolds string | NotRenewed

text \<open>The reason, the moment, and the last renewal before it; nothing while it still runs.\<close>

fun keep_loop :: "settings \<Rightarrow> int \<Rightarrow> int \<Rightarrow> keep_round list \<Rightarrow> (stepped_down \<times> int \<times> int) option" where
  "keep_loop s last_renewed now [] = None"
| "keep_loop s last_renewed now (r # rs) =
     (let woke = now + k_slept r in
      if k_fenced r then Some (FencedSeen, woke, last_renewed)
      else
        let looked_at = woke + k_took r in
        case k_looked r of
          Inr (HeldBy h) \<Rightarrow> Some (AnotherHolds h, looked_at, last_renewed)
        | Inr Held \<Rightarrow>
            if looked_at - looked_at \<ge> renew_deadline s then Some (NotRenewed, looked_at, looked_at)
            else keep_loop s looked_at looked_at rs
        | Inl failed \<Rightarrow>
            if looked_at - last_renewed \<ge> renew_deadline s then Some (NotRenewed, looked_at, last_renewed)
            else keep_loop s last_renewed looked_at rs)"

section \<open>Facts\<close>

lemma same_spec_refl [simp]: "same_spec a a"
  by (simp add: same_spec_def)

lemma same_spec_sym: "same_spec a b \<Longrightarrow> same_spec b a"
  by (simp add: same_spec_def)

lemma same_spec_trans: "same_spec a b \<Longrightarrow> same_spec b c \<Longrightarrow> same_spec a c"
  by (simp add: same_spec_def)

lemma observe_observed:
  "\<exists>seen t. e_observed (observe current now e) = Some (seen, t) \<and> same_spec seen current"
  by (auto simp: observe_def split: option.splits)


text \<open>The one Lease kept in memory: versions count up from one, as text.\<close>

definition mem_create :: "lease_record \<Rightarrow> lease_record option \<Rightarrow> wrote \<times> lease_record option" where
  "mem_create r held =
     (case held of Some c \<Rightarrow> (Conflict, held) | None \<Rightarrow> (Done ''1'', Some (r\<lparr>r_version := ''1''\<rparr>)))"

definition mem_update :: "lease_record \<Rightarrow> lease_record option \<Rightarrow> wrote \<times> lease_record option" where
  "mem_update r held =
     (case held of
        None \<Rightarrow> (Conflict, held)
      | Some current \<Rightarrow>
          if r_version current \<noteq> r_version r then (Conflict, held)
          else let v = show_uint (read_uint (r_version current) + 1) in (Done v, Some (r\<lparr>r_version := v\<rparr>)))"


definition mem_api :: "lease_record option api" where
  "mem_api = \<lparr>api_get = Inr,
     api_create = (\<lambda>r held. let (answer, held') = mem_create r held in (Inr answer, held')),
     api_update = (\<lambda>r held. let (answer, held') = mem_update r held in (Inr answer, held'))\<rparr>"


subsection \<open>A member that waits\<close>

text \<open>The looks of a waiting member, oldest first: when each was, and the record it read.\<close>

fun observes :: "elector \<Rightarrow> (int \<times> lease_record) list \<Rightarrow> elector" where
  "observes e [] = e"
| "observes e ((now, current) # looks) = observes (observe current now e) looks"

lemma observes_snoc: "observes e (looks @ [(now, current)]) = observe current now (observes e looks)"
  by (induction e looks rule: observes.induct) auto

text \<open>What is observed is the record of an earlier look, unchanged in every look since.\<close>

lemma observed_since:
  assumes "e_observed e = None" "looks \<noteq> []"
  shows "\<exists>i < length looks. e_observed (observes e looks) = Some (snd (looks ! i), fst (looks ! i))
    \<and> (\<forall>j. i \<le> j \<and> j < length looks \<longrightarrow> same_spec (snd (looks ! i)) (snd (looks ! j)))"
  using assms(2)
proof (induction looks rule: rev_induct)
  case (snoc x looks)
  obtain now current where x: "x = (now, current)" by force
  show ?case
  proof (cases "looks = []")
    case True
    then show ?thesis using assms(1) by (simp add: x observe_def)
  next
    case False
    from snoc.IH [OF this] obtain i where i: "i < length looks"
      "e_observed (observes e looks) = Some (snd (looks ! i), fst (looks ! i))"
      "\<forall>j. i \<le> j \<and> j < length looks \<longrightarrow> same_spec (snd (looks ! i)) (snd (looks ! j))" by blast
    show ?thesis
    proof (cases "same_spec (snd (looks ! i)) current")
      case True
      have "same_spec (snd ((looks @ [x]) ! i)) (snd ((looks @ [x]) ! j))" if "i \<le> j" "j < length (looks @ [x])" for j
        using that i(1,3) True by (cases "j = length looks") (auto simp: nth_append x)
      with i True show ?thesis
        by (intro exI [of _ i]) (auto simp: x observes_snoc observe_def nth_append)
    next
      case False
      with i show ?thesis
        by (intro exI [of _ "length looks"]) (auto simp: x observes_snoc observe_def nth_append le_less_Suc_eq)
    qed
  qed
qed simp

lemma look_read_takes:
  assumes "look_read s now stamp (Some current) e = (Update r c, e')" "r_holder current \<noteq> []" "r_holder current \<noteq> s_holder s"
  shows "e' = observe current now e" "c = current" "r_version r = r_version current"
    "\<exists>seen t. e_observed e' = Some (seen, t) \<and> max (r_duration_seconds current) 1 * SECOND \<le> now - t"
  using assms observe_observed [of current now e]
  by (auto simp: look_read_def Let_def split: if_splits)

subsection \<open>A member that keeps its lease\<close>

lemma keep_loop_bound:
  assumes "keep_loop s prior now rounds = Some (reason, t, renewed)"
    and "\<forall>r \<in> set rounds. 0 \<le> k_slept r \<and> k_slept r \<le> S \<and> 0 \<le> k_took r \<and> k_took r \<le> L"
    and "now - prior < renew_deadline s" "0 < renew_deadline s" "prior \<le> now"
  shows "t - renewed < renew_deadline s + S + L \<and> renewed \<le> t \<and> (reason = NotRenewed \<longrightarrow> renew_deadline s \<le> t - renewed)"
  using assms
proof (induction s prior now rounds rule: keep_loop.induct)
  case (2 s prior now r rs)
  then show ?case
    by (auto simp: Let_def split: if_splits sum.splits standing.splits)
qed simp

lemma keep_loop_stops:
  assumes "\<forall>r \<in> set rounds. \<not> k_fenced r \<and> (\<exists>f. k_looked r = Inl f) \<and> 0 \<le> k_slept r \<and> 0 \<le> k_took r"
    and "rounds \<noteq> []" "renew_deadline s \<le> now + (\<Sum>r\<leftarrow>rounds. k_slept r + k_took r) - prior"
  shows "\<exists>t. keep_loop s prior now rounds = Some (NotRenewed, t, prior)"
  using assms
proof (induction s prior now rounds rule: keep_loop.induct)
  case (2 s prior now r rs)
  then obtain f where f: "k_looked r = Inl f" "\<not> k_fenced r" by auto
  show ?case
  proof (cases "now + k_slept r + k_took r - prior \<ge> renew_deadline s")
    case False
    then have "rs \<noteq> []" using 2(5) by (cases rs) auto
    with False f 2 show ?thesis by (auto simp: Let_def add.assoc)
  qed (use f in simp)
qed simp

section \<open>Properties\<close>


text \<open>A released lease on its forty-first version, and two members that take it at once.\<close>

definition released :: lease_record where
  "released = \<lparr>r_holder = [], r_duration_seconds = 1, r_acquire_time = ''t1'', r_renew_time = ''t5'',
     r_transitions = 11, r_version = ''41''\<rparr>"

definition member :: "string \<Rightarrow> settings" where
  "member h = \<lparr>s_name = ''book'', s_holder = h, s_renew = 2 * SECOND, s_duration = 6 * SECOND\<rparr>"

definition taking :: "string \<Rightarrow> lease_record" where
  "taking h = \<lparr>r_holder = h, r_duration_seconds = 6, r_acquire_time = ''t9'', r_renew_time = ''t9'',
     r_transitions = 12, r_version = ''41''\<rparr>"



text \<open>C31: Expiry is observed, never compared across clocks: a member that takes over a lease
  another holds has seen the same record, unchanged in each of its looks, since a look at
  least the lease's duration before by its own clock.\<close>

theorem takeover_only_of_a_lapsed_lease:
  assumes "e_observed e = None"
    and "look_read s now stamp (Some current) (observes e looks) = (Update r c, e')"
    and "r_holder current \<noteq> []" and "r_holder current \<noteq> s_holder s"
  shows "\<exists>i \<le> length looks. max (r_duration_seconds current) 1 * SECOND \<le> now - fst ((looks @ [(now, current)]) ! i)
    \<and> (\<forall>j. i \<le> j \<and> j < length looks \<longrightarrow> same_spec current (snd (looks ! j)))"
proof -
  let ?looks = "looks @ [(now, current)]"
  have e': "e' = observes e ?looks" using look_read_takes(1) [OF assms(2-4)] by (simp add: observes_snoc)
  obtain i where i: "i < length ?looks" "e_observed (observes e ?looks) = Some (snd (?looks ! i), fst (?looks ! i))"
    and same: "\<forall>j. i \<le> j \<and> j < length ?looks \<longrightarrow> same_spec (snd (?looks ! i)) (snd (?looks ! j))"
    using observed_since [OF assms(1), of ?looks] by auto
  have "max (r_duration_seconds current) 1 * SECOND \<le> now - fst (?looks ! i)"
    using look_read_takes(4) [OF assms(2-4)] i(2) e' by auto
  moreover have "same_spec current (snd (looks ! j))" if "i \<le> j" "j < length looks" for j
  proof -
    have "same_spec (snd (?looks ! i)) current" using same [rule_format, of "length looks"] i(1) by simp
    moreover have "same_spec (snd (?looks ! i)) (snd (looks ! j))"
      using same [rule_format, of j] that by (simp add: nth_append)
    ultimately show ?thesis using same_spec_sym same_spec_trans by blast
  qed
  ultimately show ?thesis using i(1) by (intro exI [of _ i]) auto
qed

text \<open>A lease the other member last wrote at four, read at four and at nine, and again at ten, when
  its six seconds are over.\<close>

definition lapsed :: lease_record where
  "lapsed = released\<lparr>r_holder := ''a'', r_duration_seconds := 6\<rparr>"

theorem takeover_only_of_a_lapsed_lease_witness:
  "\<exists>i \<le> 2. 6 * SECOND \<le> 10 * SECOND - fst ([(4 * SECOND, lapsed), (9 * SECOND, lapsed), (10 * SECOND, lapsed)] ! i)"
proof -
  have new: "e_observed elector_new = None" by (simp add: elector_new_def)
  have r: "look_read (member ''b'') (10 * SECOND) ''t9'' (Some lapsed)
      (observes elector_new [(4 * SECOND, lapsed), (9 * SECOND, lapsed)])
      = (Update (taking ''b'') lapsed, \<lparr>e_observed = Some (lapsed, 4 * SECOND), e_renewed_at = None, e_took_from = None\<rparr>)"
    by (simp add: look_read_def observe_def elector_new_def SECOND_def member_def taking_def released_def lapsed_def Let_def)
  have h: "r_holder lapsed \<noteq> []" "r_holder lapsed \<noteq> s_holder (member ''b'')" "max (r_duration_seconds lapsed) 1 = 6"
    by (simp_all add: lapsed_def member_def)
  show ?thesis
    using takeover_only_of_a_lapsed_lease [OF new r h(1,2)] h(3) by (auto simp: numeral_2_eq_2)
qed

text \<open>A planned stop hands over at once: once the holder has released its lease, the next look
  of any other member takes it, whatever that member observed before and however short a
  time ago, and knows that it took it released.\<close>

theorem a_released_lease_is_taken_at_once:
  assumes "e_observed e = Some (seen, t)" and "r_holder seen = s_holder s" and "e_renewed_at e \<noteq> None"
    and "release mem_api s stamp (Some seen, e) = (server, e')"
    and "s_holder s2 \<noteq> []"
  shows "e_renewed_at e' = None \<and> (\<exists>server' f'. look mem_api s2 now2 stamp2 (server, f) = (Inr Held, server', f')
    \<and> map_option r_holder server' = Some (s_holder s2) \<and> e_took_from f' = Some (Some []))"
proof -
  have r: "e' = e\<lparr>e_renewed_at := None\<rparr>" "\<exists>c. server = Some c \<and> r_holder c = []"
    using assms(1-4) by (auto simp: release_def mem_api_def mem_update_def Let_def)
  then obtain c where c: "server = Some c" "r_holder c = []" by blast
  show ?thesis
    using c assms(5) by (auto simp: r(1) look_def mem_api_def look_read_def look_wrote_def wrote_as_holder_def
      mem_update_def Let_def split: prod.splits)
qed

theorem a_released_lease_is_taken_at_once_witness:
  "let e = \<lparr>e_observed = Some (lapsed, 7), e_renewed_at = Some 7, e_took_from = None\<rparr>;
       server = fst (release mem_api (member ''a'') ''t8'' (Some lapsed, e))
   in \<exists>after. look mem_api (member ''b'') 8 ''t9'' (server, elector_new) = (Inr Held, after)"
proof -
  let ?e = "\<lparr>e_observed = Some (lapsed, 7), e_renewed_at = Some 7, e_took_from = None\<rparr>"
  have h: "e_observed ?e = Some (lapsed, 7)" "r_holder lapsed = s_holder (member ''a'')" "e_renewed_at ?e \<noteq> None"
    "s_holder (member ''b'') \<noteq> []"
    by (simp_all add: lapsed_def member_def)
  show ?thesis
    using a_released_lease_is_taken_at_once [OF h(1-3) surjective_pairing h(4), where stamp = "''t8''" and ?now2.0 = 8 and ?stamp2.0 = "''t9''" and f = elector_new]
    by (auto simp: Let_def)
qed

text \<open>C39: A holder that cannot renew stops: if every look fails, the loop steps down by the time
  the deadline has passed in whole turns, and whenever it steps down, the last renewal is
  less than the deadline and one turn ago.\<close>

theorem holder_stops_within_a_turn_of_its_deadline:
  assumes "\<forall>r \<in> set rounds. 0 \<le> k_slept r \<and> k_slept r \<le> S \<and> 0 \<le> k_took r \<and> k_took r \<le> L"
    and "check_settings s = Inr ()" and "0 \<le> s_renew s"
  shows "(\<forall>reason t renewed. keep_loop s start start rounds = Some (reason, t, renewed) \<longrightarrow>
      t - renewed < renew_deadline s + S + L)
    \<and> ((\<forall>r \<in> set rounds. \<not> k_fenced r \<and> (\<exists>f. k_looked r = Inl f)) \<and> rounds \<noteq> []
        \<and> renew_deadline s \<le> (\<Sum>r\<leftarrow>rounds. k_slept r + k_took r)
      \<longrightarrow> (\<exists>t. keep_loop s start start rounds = Some (NotRenewed, t, start)))"
proof -
  have d: "0 < renew_deadline s"
    using assms(2,3) by (auto simp: check_settings_def renew_deadline_def split: if_splits)
  show ?thesis
  proof (intro conjI allI impI)
    fix reason t renewed
    assume "keep_loop s start start rounds = Some (reason, t, renewed)"
    from keep_loop_bound [OF this assms(1)] d show "t - renewed < renew_deadline s + S + L" by simp
  next
    assume "(\<forall>r \<in> set rounds. \<not> k_fenced r \<and> (\<exists>f. k_looked r = Inl f)) \<and> rounds \<noteq> []
        \<and> renew_deadline s \<le> (\<Sum>r\<leftarrow>rounds. k_slept r + k_took r)"
    then show "\<exists>t. keep_loop s start start rounds = Some (NotRenewed, t, start)"
      using assms(1) by (intro keep_loop_stops) auto
  qed
qed

theorem holder_stops_within_a_turn_of_its_deadline_witness:
  "\<exists>t. keep_loop (member ''a'') 0 0 (replicate 3 \<lparr>k_slept = 2 * SECOND, k_fenced = False, k_took = 0, k_looked = Inl ''refused''\<rparr>)
     = Some (NotRenewed, t, 0)"
proof -
  let ?rs = "replicate 3 \<lparr>k_slept = 2 * SECOND, k_fenced = False, k_took = 0, k_looked = Inl ''refused''\<rparr>"
  have b: "\<forall>r \<in> set ?rs. 0 \<le> k_slept r \<and> k_slept r \<le> 2 * SECOND \<and> 0 \<le> k_took r \<and> k_took r \<le> 0"
    by (simp add: SECOND_def)
  have c: "check_settings (member ''a'') = Inr ()" "0 \<le> s_renew (member ''a'')"
    by (simp_all add: check_settings_def member_def SECOND_def)
  have "renew_deadline (member ''a'') \<le> (\<Sum>r\<leftarrow>?rs. k_slept r + k_took r)"
    by (simp add: renew_deadline_def member_def SECOND_def sum_list_replicate)
  then show ?thesis
    using holder_stops_within_a_turn_of_its_deadline [OF b c, where start = 0] by simp
qed

text \<open>The deadline does not keep a holder within its lease: with the chart's two and six
  seconds, two looks that each fail after a second and a half -- within the two seconds
  a request may take -- let the writer run seven seconds past its last renewal, a second
  after its lease lapsed, although the loop's words say it stops before it lapses.\<close>

theorem holder_can_outlive_its_lease:
  "\<exists>renew slow t. renew = 2 * SECOND \<and> slow < renew
    \<and> keep_loop \<lparr>s_name = ''lake'', s_holder = ''a'', s_renew = renew, s_duration = 6 * SECOND\<rparr> 0 0
        (replicate 2 \<lparr>k_slept = renew, k_fenced = False, k_took = slow, k_looked = Inl ''timed out''\<rparr>)
      = Some (NotRenewed, t, 0)
    \<and> t > 6 * SECOND"
  by (rule exI [of _ "2 * SECOND"], rule exI [of _ "3 * SECOND div 2"], rule exI [of _ "7 * SECOND"])
     (simp add: renew_deadline_def SECOND_def numeral_2_eq_2)

end
