(* ===== verification/Recency.thy ===== *)
theory Recency
  imports BTree_Map
begin

section \<open>Hot layers: the index of what was used when\<close>

text \<open>
  What the two hot layers modelled beside it (\<open>Books\<close> of \<open>crates/bor/src/writer.rs\<close>, \<open>Layer\<close> of
  \<open>crates/instrument/src/hot.rs\<close>) share: entries that cost bytes, a tick at each use, and
  the ordered index from ticks to keys that the least recently used is popped from.
  \<open>recent\<close> says such an index is right; the lemmas follow it through a removal, an entry,
  a touch and an eviction.

  The locale \<open>read_through\<close> is the contract of a layer with the record behind it: its reads
  answer what it holds, a fill holds at most what was filled in, and its lemmas show that
  reads and writes through it answer the record.
\<close>

definition recent :: "('k \<Rightarrow> (nat \<times> nat) option) \<Rightarrow> (nat, 'k) btree \<Rightarrow> nat \<Rightarrow> nat \<Rightarrow> bool" where
  "recent v used bytes tick \<longleftrightarrow> bt_wf used
     \<and> (\<forall>t k. bt_get used t = Some k \<longleftrightarrow> (\<exists>cost. v k = Some (cost, t)))
     \<and> (\<forall>k cost t. v k = Some (cost, t) \<longrightarrow> t \<le> tick)
     \<and> bytes = (\<Sum>k \<in> dom v. fst (the (v k)))"

lemma map_le_Some: "m \<subseteq>\<^sub>m n \<Longrightarrow> m a = Some b \<Longrightarrow> n a = Some b"
  by (force simp: map_le_def dom_def)

lemma recent_finite:
  assumes "recent v used bytes tick"
  shows "finite (dom v)"
proof (rule finite_subset)
  show "dom v \<subseteq> snd ` set used"
    using assms by (force simp: recent_def dest: bt_get_Some_mem)
qed simp

lemma recent_empty: "recent (\<lambda>_. None) [] 0 0"
  by (simp add: recent_def)

lemma sum_upd_None:
  assumes "finite (dom v)" "v k = Some (cost, t)"
  shows "(\<Sum>j \<in> dom v. fst (the (v j))) = cost + (\<Sum>j \<in> dom (v(k := None)). fst (the ((v(k := None)) j)))"
proof -
  have "(\<Sum>j \<in> dom v. fst (the (v j))) = fst (the (v k)) + (\<Sum>j \<in> dom v - {k}. fst (the (v j)))"
    using assms by (intro sum.remove) auto
  also have "(\<Sum>j \<in> dom v - {k}. fst (the (v j))) = (\<Sum>j \<in> dom (v(k := None)). fst (the ((v(k := None)) j)))"
    by (intro sum.cong) auto
  finally show ?thesis using assms(2) by simp
qed

lemma recent_drop:
  assumes "recent v used bytes tick" "v k = Some (cost, t)"
  shows "recent (v(k := None)) (bt_remove t used) (bytes - cost) tick" and "cost \<le> bytes"
proof -
  note s = sum_upd_None [OF recent_finite [OF assms(1)] assms(2)]
  from s assms(1) show "cost \<le> bytes" by (simp add: recent_def)
  have u: "bt_get used t = Some k" using assms unfolding recent_def by blast
  have "bt_get (bt_remove t used) t' = Some j \<longleftrightarrow> (\<exists>cost. (v(k := None)) j = Some (cost, t'))" for t' j
  proof (cases "t' = t")
    case True
    have "j = k" if "v j = Some (cost', t)" for cost'
      using assms(1) u that unfolding recent_def by (metis option.inject)
    then show ?thesis using True assms(1) by (auto simp: bt_get_remove recent_def)
  next
    case False
    then show ?thesis using assms by (auto simp: bt_get_remove recent_def)
  qed
  then show "recent (v(k := None)) (bt_remove t used) (bytes - cost) tick"
    using assms(1) s by (auto simp: recent_def)
qed

lemma recent_enter:
  assumes "recent v used bytes tick" "v k = None"
  shows "recent (v(k \<mapsto> (cost, Suc tick))) (bt_insert (Suc tick) k used) (bytes + cost) (Suc tick)"
proof -
  let ?w = "v(k \<mapsto> (cost, Suc tick))"
  have "(\<Sum>j \<in> dom ?w. fst (the (?w j))) = cost + (\<Sum>j \<in> dom (?w(k := None)). fst (the ((?w(k := None)) j)))"
  proof (rule sum_upd_None)
    show "finite (dom ?w)" unfolding dom_fun_upd using recent_finite [OF assms(1)] by simp
  qed simp
  moreover have "?w(k := None) = v" using assms(2) by auto
  ultimately have s: "(\<Sum>j \<in> dom ?w. fst (the (?w j))) = cost + (\<Sum>j \<in> dom v. fst (the (v j)))" by (simp only:)
  have later: "t \<noteq> Suc tick" if "v j = Some (cost', t)" for j cost' t
    using assms(1) that unfolding recent_def by fastforce
  have "bt_get (bt_insert (Suc tick) k used) t = Some j \<longleftrightarrow> (\<exists>cost'. ?w j = Some (cost', t))" for t j
    using assms later unfolding recent_def by (cases "t = Suc tick"; cases "j = k") auto
  then show ?thesis
    using assms(1) s by (auto simp: recent_def le_SucI)
qed

lemma recent_touch:
  assumes "recent v used bytes tick" "v k = Some (cost, t)"
  shows "recent (v(k \<mapsto> (cost, Suc tick))) (bt_insert (Suc tick) k (bt_remove t used)) bytes (Suc tick)"
  using recent_enter [OF recent_drop(1) [OF assms], of k cost] recent_drop(2) [OF assms] by simp

text \<open>The first key of the index is held, and was used before every other.\<close>

lemma recent_pop:
  assumes "recent v ((t, k) # used) bytes tick"
  obtains cost where "v k = Some (cost, t)" "recent (v(k := None)) used (bytes - cost) tick"
    and "cost \<le> bytes" and "\<And>j cost' t'. v j = Some (cost', t') \<Longrightarrow> j \<noteq> k \<Longrightarrow> t < t'"
proof -
  have k: "bt_get ((t, k) # used) t = Some k" by simp
  then obtain cost where v: "v k = Some (cost, t)" using assms unfolding recent_def by blast
  have r: "bt_remove t ((t, k) # used) = used" by simp
  have first: "t < t'" if "v j = Some (cost', t')" "j \<noteq> k" for j cost' t'
  proof -
    have "bt_get ((t, k) # used) t' = Some j"
      using assms that unfolding recent_def by blast
    then have "(t', j) \<in> set used" using bt_get_Some_mem [of "(t, k) # used" t' j] that(2) by auto
    moreover have "\<forall>x \<in> fst ` set used. t < x" using assms by (simp add: recent_def bt_wf_Cons)
    ultimately show ?thesis by force
  qed
  show thesis
    using that v recent_drop [OF assms v] first unfolding r by blast
qed

lemma recent_index_empty:
  assumes "recent v [] bytes tick"
  shows "v = (\<lambda>_. None)" "bytes = 0"
proof -
  have "v k = None" for k
    using assms unfolding recent_def by (cases "v k") auto
  then show "v = (\<lambda>_. None)" by auto
  then show "bytes = 0" using assms by (simp add: recent_def)
qed

subsection \<open>The contract with the record\<close>

locale read_through =
  fixes ok :: "'s \<Rightarrow> bool"
    and look :: "'s \<Rightarrow> 'k \<Rightarrow> 'v option"
    and get :: "'k \<Rightarrow> 's \<Rightarrow> 'v option \<times> 's"
    and fill :: "'k \<Rightarrow> 'v \<Rightarrow> 's \<Rightarrow> 's"
    and forget :: "'k \<Rightarrow> 's \<Rightarrow> 's"
    and fits :: "'k \<Rightarrow> 'v \<Rightarrow> bool"
  assumes get_looks: "ok s \<Longrightarrow> fst (get k s) = look s k \<and> ok (snd (get k s)) \<and> look (snd (get k s)) = look s"
    and fill_holds: "ok s \<Longrightarrow> look s k = None \<Longrightarrow> fits k v \<Longrightarrow>
        ok (fill k v s) \<and> look (fill k v s) \<subseteq>\<^sub>m (look s)(k \<mapsto> v)"
    and forget_holds: "ok s \<Longrightarrow> ok (forget k s) \<and> look (forget k s) \<subseteq>\<^sub>m (look s)(k := None)"
begin

definition coherent :: "('k \<Rightarrow> 'v) \<Rightarrow> 's \<Rightarrow> bool" where
  "coherent record s \<longleftrightarrow> ok s \<and> (\<forall>k v. look s k = Some v \<longrightarrow> v = record k)"

definition read :: "('k \<Rightarrow> 'v) \<Rightarrow> 'k \<Rightarrow> 's \<Rightarrow> 'v \<times> 's" where
  "read record k s =
     (case get k s of
        (Some v, s') \<Rightarrow> (v, s')
      | (None, s') \<Rightarrow> (record k, fill k (record k) s'))"

lemma coherent_get:
  assumes "coherent record s"
  shows "coherent record (snd (get k s))" "fst (get k s) = Some v \<Longrightarrow> v = record k"
  using assms get_looks [of s k] by (auto simp: coherent_def)

lemma coherent_fill:
  assumes "coherent record s" "look s k = None" "fits k (record k)"
  shows "coherent record (fill k (record k) s)"
proof -
  have f: "ok (fill k (record k) s)" "look (fill k (record k) s) \<subseteq>\<^sub>m (look s)(k \<mapsto> record k)"
    using assms fill_holds by (auto simp: coherent_def)
  have "v = record j" if "look (fill k (record k) s) j = Some v" for j v
    using map_le_Some [OF f(2) that] assms(1) by (auto simp: coherent_def split: if_splits)
  with f(1) show ?thesis by (simp add: coherent_def)
qed

lemma coherent_forget:
  assumes "coherent record s" "\<And>j. j \<noteq> k \<Longrightarrow> record' j = record j"
  shows "coherent record' (forget k s)"
proof -
  have f: "ok (forget k s)" "look (forget k s) \<subseteq>\<^sub>m (look s)(k := None)"
    using assms forget_holds by (auto simp: coherent_def)
  have "v = record' j" if "look (forget k s) j = Some v" for j v
    using map_le_Some [OF f(2) that] assms by (auto simp: coherent_def split: if_splits)
  with f(1) show ?thesis by (simp add: coherent_def)
qed

lemma coherent_less:
  assumes "coherent record s" "ok s'" "look s' \<subseteq>\<^sub>m look s"
  shows "coherent record s'"
  using assms map_le_Some by (fastforce simp: coherent_def)

lemma read_answers_the_record:
  assumes "coherent record s" "fits k (record k)"
  shows "fst (read record k s) = record k" "coherent record (snd (read record k s))"
proof -
  have l: "look (snd (get k s)) = look s" "fst (get k s) = look s k"
    using assms(1) get_looks by (auto simp: coherent_def)
  show "fst (read record k s) = record k"
    using coherent_get(2) [OF assms(1)] by (auto simp: read_def split: prod.splits option.splits)
  show "coherent record (snd (read record k s))"
    using coherent_get(1) [OF assms(1), of k] coherent_fill [of "record" "snd (get k s)" k] assms(2) l
    by (auto simp: read_def split: prod.splits option.splits)
qed

end

end
