(* ===== verification/Writer_Books.thy ===== *)
theory Writer_Books
  imports Recency Book_Store
begin

section \<open>The writer's books\<close>

text \<open>
  \<open>crates/bor/src/writer.rs\<close>: the store wrapped so that every commit is told on its
  partition's tail, and each account's book at its head is held in memory, bounded, the
  least recently used evicted first. What is read of a book here is how far into its
  journal it is and how many of each record it holds, the record \<open>book_content\<close> that the
  book of \<open>Book_Store\<close> carries as its contents (extensible: the rest of a book plays no
  part). Bytes and ticks are \<open>nat\<close>: \<open>recent\<close> shows that no subtraction underflows.
\<close>

record book_content =
  bc_entries :: "nat list"
  bc_positions :: nat
  bc_breaks :: nat
  bc_figures :: nat
  bc_lifecycle_events :: nat
  bc_orders :: nat
  bc_placements :: nat
  bc_executions :: nat
  bc_instructions :: nat

type_synonym ('b, 'z) hot_book = "('b, 'z book_content_scheme) book"

definition DEFAULT_BOOKS_BYTES :: nat where "DEFAULT_BOOKS_BYTES = 128 * 1024 * 1024"

definition book_reached :: "('b, 'z) hot_book \<Rightarrow> nat" where
  "book_reached bk = (if bc_entries (bk_rest bk) = [] then 0 else last (bc_entries (bk_rest bk)))"

definition book_cost :: "('b, 'z) hot_book \<Rightarrow> nat" where
  "book_cost bk =
     (let c = bk_rest bk in
      1024 + bc_positions c * 640 + length (bc_entries c) * 160 + bc_breaks c * 512 + bc_figures c * 512
      + bc_lifecycle_events c * 512
      + (bc_orders c + bc_placements c + bc_executions c + bc_instructions c) * 768)"

record ('b, 'z) books =
  bs_held :: "(string, ('b, 'z) hot_book \<times> nat \<times> nat) btree"
  bs_by_use :: "(nat, string) btree"
  bs_bytes :: nat
  bs_tick :: nat

definition books_new :: "('b, 'z) books" where
  "books_new = \<lparr>bs_held = [], bs_by_use = [], bs_bytes = 0, bs_tick = 0\<rparr>"

definition books_forget :: "string \<Rightarrow> ('b, 'z) books \<Rightarrow> ('b, 'z) books" where
  "books_forget account bs =
     (case bt_get (bs_held bs) account of
        None \<Rightarrow> bs
      | Some (bk, n, used) \<Rightarrow>
          bs\<lparr>bs_held := bt_remove account (bs_held bs), bs_bytes := bs_bytes bs - n,
             bs_by_use := bt_remove used (bs_by_use bs)\<rparr>)"

text \<open>The eviction loop: the first of the index popped while the bytes are over the bound.\<close>

fun books_trim :: "nat \<Rightarrow> (nat, string) btree \<Rightarrow> (string, ('b, 'z) hot_book \<times> nat \<times> nat) btree \<Rightarrow> nat
    \<Rightarrow> (nat, string) btree \<times> (string, ('b, 'z) hot_book \<times> nat \<times> nat) btree \<times> nat" where
  "books_trim bound [] kept bytes = ([], kept, bytes)"
| "books_trim bound ((t, oldest) # by_use) kept bytes =
     (if bytes \<le> bound then ((t, oldest) # by_use, kept, bytes)
      else case bt_get kept oldest of
        None \<Rightarrow> books_trim bound by_use kept bytes
      | Some (bk, n, used) \<Rightarrow> books_trim bound by_use (bt_remove oldest kept) (bytes - n))"

definition books_put :: "nat \<Rightarrow> ('b, 'z) hot_book \<Rightarrow> ('b, 'z) books \<Rightarrow> ('b, 'z) books" where
  "books_put bound given bs =
     (let bk = release_bodies given; account = bk_account_id bk in
      if (case bt_get (bs_held bs) account of None \<Rightarrow> False | Some (h, n, used) \<Rightarrow> book_reached h > book_reached bk)
      then bs
      else
        let bs' = books_forget account bs; n = book_cost bk; tick = bs_tick bs' + 1;
            (by_use, kept, bytes) = books_trim bound (bt_insert tick account (bs_by_use bs'))
              (bt_insert account (bk, n, tick) (bs_held bs')) (bs_bytes bs' + n)
        in \<lparr>bs_held = kept, bs_by_use = by_use, bs_bytes = bytes, bs_tick = tick\<rparr>)"

definition books_get :: "string \<Rightarrow> ('b, 'z) books \<Rightarrow> ('b, 'z) hot_book option \<times> ('b, 'z) books" where
  "books_get account bs =
     (case bt_get (bs_held bs) account of
        None \<Rightarrow> (None, bs)
      | Some (bk, n, used) \<Rightarrow>
          let tick = bs_tick bs + 1 in
          (Some bk, bs\<lparr>bs_by_use := bt_insert tick account (bt_remove used (bs_by_use bs)), bs_tick := tick,
             bs_held := bt_adjust account (\<lambda>(b, m, _). (b, m, tick)) (bs_held bs)\<rparr>))"

subsection \<open>The store with the books in front\<close>

record ('b, 'z) writer =
  wr_store :: "('b, 'z book_content_scheme) store"
  wr_books :: "('b, 'z) books"
  wr_bound :: nat

definition writer_bounded :: "('b, 'z book_content_scheme) store \<Rightarrow> nat \<Rightarrow> ('b, 'z) writer" where
  "writer_bounded st bound = \<lparr>wr_store = st, wr_books = books_new, wr_bound = bound\<rparr>"

text \<open>\<open>MemoryStore::book\<close>, the record the writer reads a book it does not hold from.\<close>

definition store_book :: "'r \<Rightarrow> string \<Rightarrow> ('b, 'r) store \<Rightarrow> ('b, 'r) book" where
  "store_book blank account st =
     (case bt_get (st_books st) account of
        Some b \<Rightarrow> b | None \<Rightarrow> book_new blank account (first_partition_of account))"

text \<open>A command: the store's answer, the state after, and the pages told on the tail.\<close>

definition writer_act ::
  "('b journal_entry \<Rightarrow> nat \<Rightarrow> nat) \<Rightarrow> bool \<Rightarrow> 'z book_content_scheme \<Rightarrow> string \<Rightarrow> string \<Rightarrow> string \<Rightarrow> string
    \<Rightarrow> ('b, 'z book_content_scheme) decide \<Rightarrow> ('b, 'z) writer
    \<Rightarrow> (store_error + ('b, 'z book_content_scheme) acted) \<times> ('b, 'z) writer \<times> changes_reply list" where
  "writer_act len followed blank account mid key request decide w =
     (let (answer, st) = act blank account mid key request decide (wr_store w) in
      case answer of
        Inr (Committed d) \<Rightarrow>
          (answer, w\<lparr>wr_store := st, wr_books := books_put (wr_bound w) (d_book d) (wr_books w)\<rparr>,
           publish followed (en_first_sequence (d_entry d) - 1) [to_change len (f_epoch (st_fence st)) (d_entry d)])
      | _ \<Rightarrow> (answer, w\<lparr>wr_store := st\<rparr>, []))"

definition writer_book :: "'z book_content_scheme \<Rightarrow> string \<Rightarrow> ('b, 'z) writer
    \<Rightarrow> ('b, 'z) hot_book \<times> ('b, 'z) writer" where
  "writer_book blank account w =
     (case books_get account (wr_books w) of
        (Some bk, bs) \<Rightarrow> (bk, w\<lparr>wr_books := bs\<rparr>)
      | (None, bs) \<Rightarrow>
          let bk = store_book blank account (wr_store w)
          in (bk, w\<lparr>wr_books := books_put (wr_bound w) bk bs\<rparr>))"

text \<open>A rebuild: the store's own, whatever it answers, and no book held.\<close>

definition writer_rebuild ::
  "(('b, 'z book_content_scheme) store \<Rightarrow> (store_error + nat) \<times> ('b, 'z book_content_scheme) store)
    \<Rightarrow> ('b, 'z) writer \<Rightarrow> (store_error + nat) \<times> ('b, 'z) writer" where
  "writer_rebuild inner w =
     (let (rebuilt, st) = inner (wr_store w) in (rebuilt, w\<lparr>wr_store := st, wr_books := books_new\<rparr>))"

section \<open>Facts\<close>

text \<open>What each book held costs and when it was used, and the layer's invariant.\<close>

definition held_view :: "(string, ('b, 'z) hot_book \<times> nat \<times> nat) btree \<Rightarrow> string \<Rightarrow> (nat \<times> nat) option" where
  "held_view kept k = map_option snd (bt_get kept k)"

definition books_ok :: "('b, 'z) books \<Rightarrow> bool" where
  "books_ok bs \<longleftrightarrow> bt_wf (bs_held bs) \<and> recent (held_view (bs_held bs)) (bs_by_use bs) (bs_bytes bs) (bs_tick bs)
     \<and> (\<forall>k bk n t. bt_get (bs_held bs) k = Some (bk, n, t) \<longrightarrow>
          n = book_cost bk \<and> bk_account_id bk = k \<and> bk_bodies bk = Map.empty)"

definition books_look :: "('b, 'z) books \<Rightarrow> string \<Rightarrow> ('b, 'z) hot_book option" where
  "books_look bs k = map_option fst (bt_get (bs_held bs) k)"

lemma held_view_remove: "bt_wf kept \<Longrightarrow> held_view (bt_remove k kept) = (held_view kept)(k := None)"
  by (auto simp: held_view_def bt_get_remove)

lemma held_view_insert: "bt_wf kept \<Longrightarrow> held_view (bt_insert k (bk, x) kept) = (held_view kept)(k \<mapsto> x)"
  by (auto simp: held_view_def)

lemma books_trim_evicts:
  assumes "bt_wf kept" "recent (held_view kept) by_use bytes tick"
    and "books_trim bound by_use kept bytes = (by_use', kept', bytes')"
  shows "bt_wf kept' \<and> recent (held_view kept') by_use' bytes' tick \<and> bytes' \<le> bound
    \<and> (\<forall>k. bt_get kept' k = bt_get kept k \<or> bt_get kept' k = None)
    \<and> (\<forall>k k' x y. held_view kept k = Some x \<and> held_view kept' k = None \<and> held_view kept' k' = Some y \<longrightarrow> snd x < snd y)"
  using assms
proof (induction bound by_use kept bytes rule: books_trim.induct)
  case (1 bound kept bytes)
  then show ?case using recent_index_empty(2) [OF 1(2)] by auto
next
  case (2 bound t oldest by_use kept bytes)
  obtain n where v: "held_view kept oldest = Some (n, t)"
    and r: "recent ((held_view kept)(oldest := None)) by_use (bytes - n) tick"
    and first: "\<And>j n' t'. held_view kept j = Some (n', t') \<Longrightarrow> j \<noteq> oldest \<Longrightarrow> t < t'"
    using recent_pop [OF 2(4)] by metis
  from v obtain bk where g: "bt_get kept oldest = Some (bk, n, t)" by (auto simp: held_view_def)
  show ?case
  proof (cases "bytes \<le> bound")
    case True
    then show ?thesis using 2 by auto
  next
    case False
    let ?kept = "bt_remove oldest kept"
    have r': "recent (held_view ?kept) by_use (bytes - n) tick"
      using r by (simp only: held_view_remove [OF 2(3)])
    have ih: "bt_wf kept' \<and> recent (held_view kept') by_use' bytes' tick \<and> bytes' \<le> bound
      \<and> (\<forall>k. bt_get kept' k = bt_get ?kept k \<or> bt_get kept' k = None)
      \<and> (\<forall>k k' x y. held_view ?kept k = Some x \<and> held_view kept' k = None \<and> held_view kept' k' = Some y \<longrightarrow> snd x < snd y)"
      using r' 2(3,5) False g by (intro 2(2) [OF False g refl refl]) simp_all
    have "snd x < snd y" if "held_view kept k = Some x" "held_view kept' k = None" "held_view kept' k' = Some y" for k k' x y
    proof (cases "k = oldest")
      case True
      have "held_view ?kept k' = Some y" using ih that(3) by (metis held_view_def option.map_disc_iff not_Some_eq)
      then have "held_view kept k' = Some y" "k' \<noteq> oldest"
        using 2(3) by (auto simp: held_view_remove split: if_splits)
      with first True that(1) v show ?thesis by (cases y) auto
    next
      case other: False
      then have "held_view ?kept k = Some x" using 2(3) that(1) by (simp add: held_view_remove)
      with ih that show ?thesis by blast
    qed
    moreover have "bt_get kept' k = bt_get kept k \<or> bt_get kept' k = None" for k
      using ih 2(3) by (metis bt_get_remove)
    ultimately show ?thesis using ih by blast
  qed
qed

lemma books_new_ok [simp]: "books_ok books_new" "books_look books_new k = None" "bs_bytes books_new = 0"
  by (simp_all add: books_ok_def books_new_def held_view_def [abs_def] recent_empty books_look_def)

lemma books_forget_ok:
  assumes "books_ok bs"
  shows "books_ok (books_forget account bs)" "books_look (books_forget account bs) = (books_look bs)(account := None)"
    "bs_tick (books_forget account bs) = bs_tick bs"
proof -
  show "books_look (books_forget account bs) = (books_look bs)(account := None)"
    using assms by (auto simp: books_forget_def books_look_def books_ok_def bt_get_remove fun_eq_iff split: option.splits)
  show "bs_tick (books_forget account bs) = bs_tick bs"
    by (simp add: books_forget_def split: option.splits)
  show "books_ok (books_forget account bs)"
  proof (cases "bt_get (bs_held bs) account")
    case (Some x)
    obtain bk n used where x: "x = (bk, n, used)" by (cases x)
    have "recent (held_view (bt_remove account (bs_held bs))) (bt_remove used (bs_by_use bs)) (bs_bytes bs - n) (bs_tick bs)"
      using recent_drop(1) [of "held_view (bs_held bs)" "bs_by_use bs" "bs_bytes bs" "bs_tick bs" account n used] assms Some
      by (simp add: held_view_remove books_ok_def x held_view_def)
    then show ?thesis
      using assms Some by (auto simp: books_forget_def books_ok_def bt_get_remove x split: if_splits)
  qed (use assms in \<open>simp add: books_forget_def\<close>)
qed

lemma books_get_ok:
  assumes "books_ok bs"
  shows "books_ok (snd (books_get account bs))" "fst (books_get account bs) = books_look bs account"
    "books_look (snd (books_get account bs)) = books_look bs" "bs_bytes (snd (books_get account bs)) = bs_bytes bs"
proof -
  show "fst (books_get account bs) = books_look bs account" "bs_bytes (snd (books_get account bs)) = bs_bytes bs"
    by (auto simp: books_get_def books_look_def Let_def split: option.splits)
  show "books_look (snd (books_get account bs)) = books_look bs"
    by (auto simp: books_get_def books_look_def Let_def fun_eq_iff split: option.splits)
  show "books_ok (snd (books_get account bs))"
  proof (cases "bt_get (bs_held bs) account")
    case (Some x)
    obtain bk n used where x: "x = (bk, n, used)" by (cases x)
    let ?held = "bt_adjust account (\<lambda>(b, m, _). (b, m, Suc (bs_tick bs))) (bs_held bs)"
    have "held_view ?held = (held_view (bs_held bs))(account \<mapsto> (n, Suc (bs_tick bs)))"
      using Some by (auto simp: held_view_def fun_eq_iff x)
    then have "recent (held_view ?held) (bt_insert (Suc (bs_tick bs)) account (bt_remove used (bs_by_use bs)))
        (bs_bytes bs) (Suc (bs_tick bs))"
      using recent_touch [of "held_view (bs_held bs)" "bs_by_use bs" "bs_bytes bs" "bs_tick bs" account n used] assms Some
      by (simp add: books_ok_def x held_view_def)
    then show ?thesis
      using assms Some by (auto simp: books_get_def books_ok_def Let_def x split: if_splits)
  qed (use assms in \<open>simp add: books_get_def\<close>)
qed

text \<open>What a put leaves: the book put, unless a later one is held, and nothing that was not held
  before; the bytes within the bound; what went was used before all that stays.\<close>

lemma books_put_ok:
  assumes "books_ok bs" and "bs_bytes bs \<le> bound"
  shows "books_ok (books_put bound bk bs) \<and> bs_bytes (books_put bound bk bs) \<le> bound"
    and "books_look (books_put bound bk bs) \<subseteq>\<^sub>m (books_look bs)(bk_account_id bk \<mapsto> release_bodies bk)
      \<or> books_put bound bk bs = bs \<and> (\<exists>h. books_look bs (bk_account_id bk) = Some h \<and> book_reached bk < book_reached h)"
proof -
  let ?bk = "release_bodies bk" and ?a = "bk_account_id bk"
  have bk: "bk_account_id ?bk = ?a" "book_reached ?bk = book_reached bk" "bk_bodies ?bk = Map.empty"
    by (simp_all add: release_bodies_def book_reached_def)
  define later where "later = (case bt_get (bs_held bs) ?a of None \<Rightarrow> False | Some (h, n, used) \<Rightarrow> book_reached h > book_reached bk)"
  have "books_ok (books_put bound bk bs) \<and> bs_bytes (books_put bound bk bs) \<le> bound
    \<and> (books_look (books_put bound bk bs) \<subseteq>\<^sub>m (books_look bs)(?a \<mapsto> ?bk)
      \<or> books_put bound bk bs = bs \<and> (\<exists>h. books_look bs ?a = Some h \<and> book_reached bk < book_reached h))"
  proof (cases later)
    case True
    then have "books_put bound bk bs = bs" "\<exists>h. books_look bs ?a = Some h \<and> book_reached bk < book_reached h"
      by (auto simp: books_put_def later_def books_look_def bk Let_def split: option.splits)
    with assms show ?thesis by simp
  next
    case False
    let ?bs = "books_forget ?a bs" and ?n = "book_cost ?bk"
    let ?held = "bt_insert ?a (?bk, ?n, Suc (bs_tick ?bs)) (bs_held ?bs)"
    obtain u h b where t: "books_trim bound (bt_insert (Suc (bs_tick ?bs)) ?a (bs_by_use ?bs)) ?held (bs_bytes ?bs + ?n) = (u, h, b)"
      by (metis prod_cases3)
    have put: "books_put bound bk bs = \<lparr>bs_held = h, bs_by_use = u, bs_bytes = b, bs_tick = Suc (bs_tick ?bs)\<rparr>"
      using False t unfolding books_put_def Let_def bk later_def by simp
    note f = books_forget_ok [OF assms(1), of ?a]
    have wf: "bt_wf (bs_held ?bs)" using f(1) by (simp add: books_ok_def)
    have "held_view (bs_held ?bs) ?a = None"
      using fun_cong [OF f(2), of ?a] by (simp add: held_view_def books_look_def)
    then have "recent (held_view ?held) (bt_insert (Suc (bs_tick ?bs)) ?a (bs_by_use ?bs)) (bs_bytes ?bs + ?n) (Suc (bs_tick ?bs))"
      using f(1) recent_enter [of "held_view (bs_held ?bs)" "bs_by_use ?bs" "bs_bytes ?bs" "bs_tick ?bs" ?a ?n]
      by (simp add: held_view_insert [OF wf] books_ok_def)
    from books_trim_evicts [OF _ this t] wf
    have e: "bt_wf h \<and> recent (held_view h) u b (Suc (bs_tick ?bs)) \<and> b \<le> bound
        \<and> (\<forall>k. bt_get h k = bt_get ?held k \<or> bt_get h k = None)" by simp
    have held: "bt_get ?held k = (if k = ?a then Some (?bk, ?n, Suc (bs_tick ?bs)) else bt_get (bs_held ?bs) k)" for k
      using wf by simp
    have each: "n = book_cost b' \<and> bk_account_id b' = k \<and> bk_bodies b' = Map.empty" if "bt_get h k = Some (b', n, t')" for k b' n t'
      using e that f(1) held bk unfolding books_ok_def by (metis fst_conv option.distinct(1) option.inject prod.inject)
    have "((books_look bs)(?a \<mapsto> ?bk)) k = Some x" if x: "books_look (books_put bound bk bs) k = Some x" for k x
    proof -
      have "bt_get h k \<noteq> None" using x by (auto simp: put books_look_def)
      then have "bt_get h k = bt_get ?held k" using e by metis
      with x have "map_option fst (bt_get ?held k) = Some x" by (simp add: put books_look_def)
      moreover have "books_look ?bs k = (if k = ?a then None else books_look bs k)" by (simp add: f(2))
      ultimately show ?thesis unfolding held by (cases "k = ?a") (simp_all add: books_look_def del: map_option_eq_Some)
    qed
    then have "books_look (books_put bound bk bs) \<subseteq>\<^sub>m (books_look bs)(?a \<mapsto> ?bk)"
      by (force simp: map_le_def)
    with e each show ?thesis by (auto simp: put books_ok_def)
  qed
  then show "books_ok (books_put bound bk bs) \<and> bs_bytes (books_put bound bk bs) \<le> bound"
    and "books_look (books_put bound bk bs) \<subseteq>\<^sub>m (books_look bs)(?a \<mapsto> ?bk)
      \<or> books_put bound bk bs = bs \<and> (\<exists>h. books_look bs ?a = Some h \<and> book_reached bk < book_reached h)" by blast+
qed

text \<open>And what a put drops is older than what it keeps.\<close>

lemma books_put_evicts:
  assumes "books_ok bs" "bs_bytes bs \<le> bound" "books_put bound bk bs \<noteq> bs"
    and "held_view (bs_held bs) k = Some (n, t)" "k \<noteq> bk_account_id bk"
    and "held_view (bs_held (books_put bound bk bs)) k = None"
    and "held_view (bs_held (books_put bound bk bs)) k' = Some (n', t')"
  shows "t < t'"
proof -
  let ?bk = "release_bodies bk" and ?a = "bk_account_id bk"
  have bk: "bk_account_id ?bk = ?a" by (simp add: release_bodies_def)
  let ?bs = "books_forget ?a bs" and ?n = "book_cost ?bk"
  let ?held = "bt_insert ?a (?bk, ?n, Suc (bs_tick ?bs)) (bs_held ?bs)"
  obtain u h b where e: "books_trim bound (bt_insert (Suc (bs_tick ?bs)) ?a (bs_by_use ?bs)) ?held (bs_bytes ?bs + ?n) = (u, h, b)"
    by (metis prod_cases3)
  have put: "books_put bound bk bs = \<lparr>bs_held = h, bs_by_use = u, bs_bytes = b, bs_tick = Suc (bs_tick ?bs)\<rparr>"
    using e assms(3) unfolding books_put_def Let_def bk by (simp split: if_splits)
  note f = books_forget_ok [OF assms(1), of ?a]
  have wf: "bt_wf (bs_held ?bs)" using f(1) by (simp add: books_ok_def)
  have "held_view (bs_held ?bs) ?a = None"
    using fun_cong [OF f(2), of ?a] by (simp add: held_view_def books_look_def)
  then have r: "recent (held_view ?held) (bt_insert (Suc (bs_tick ?bs)) ?a (bs_by_use ?bs)) (bs_bytes ?bs + ?n) (Suc (bs_tick ?bs))"
    using f(1) recent_enter [of "held_view (bs_held ?bs)" "bs_by_use ?bs" "bs_bytes ?bs" "bs_tick ?bs" ?a ?n]
    by (simp add: held_view_insert [OF wf] books_ok_def)
  have "held_view ?held k = Some (n, t)"
    using assms(1,4,5) by (auto simp: held_view_insert [OF wf] books_forget_def held_view_def books_ok_def bt_get_remove
        split: option.splits)
  then show ?thesis
    using books_trim_evicts [OF _ r e] wf assms(6,7) by (fastforce simp: put)
qed

lemma books_ok_bytes:
  assumes "books_ok bs"
  shows "bs_bytes bs = (\<Sum>k \<in> dom (books_look bs). book_cost (the (books_look bs k)))"
proof -
  have "dom (books_look bs) = dom (held_view (bs_held bs))"
    by (auto simp: books_look_def held_view_def dom_def)
  moreover have "book_cost (the (books_look bs k)) = fst (the (held_view (bs_held bs) k))"
    if "k \<in> dom (held_view (bs_held bs))" for k
    using that assms by (force simp: books_look_def held_view_def books_ok_def)
  ultimately show ?thesis using assms by (simp add: books_ok_def recent_def)
qed

interpretation books: read_through "\<lambda>bs. books_ok bs \<and> bs_bytes bs \<le> bound" books_look books_get
    "\<lambda>k bk. books_put bound bk" books_forget "\<lambda>k bk. bk_account_id bk = k \<and> bk_bodies bk = Map.empty"
  for bound :: nat
proof (unfold_locales, goal_cases)
  case (1 s k)
  then show ?case by (simp add: books_get_ok)
next
  case (2 s k v)
  then have "release_bodies v = v" by (simp add: release_bodies_def)
  with books_put_ok [of s bound v] 2 show ?case by auto
next
  case (3 s k)
  have "bs_bytes (books_forget k s) \<le> bs_bytes s"
    by (simp add: books_forget_def split: option.splits)
  with 3 books_forget_ok [of s k] show ?case by auto
qed

subsection \<open>A store with its books in front\<close>

text \<open>Books filed under their own accounts, and what the writer relies on of a decision: the
  book it makes is the account's, no less far into its journal.\<close>

definition store_filed :: "('b, 'r) store \<Rightarrow> bool" where
  "store_filed st \<longleftrightarrow>
     (\<forall>k b. bt_get (st_books st) k = Some b \<longrightarrow> bk_account_id b = k \<and> bk_bodies b = Map.empty)"

definition decides_on :: "('b, 'z book_content_scheme) decide \<Rightarrow> bool" where
  "decides_on decide \<longleftrightarrow> (\<forall>bk head d. decide bk head = Inr d \<longrightarrow>
     bk_account_id (d_book d) = bk_account_id bk \<and> book_reached bk \<le> book_reached (d_book d))"

lemma store_book_fits:
  "store_filed st \<Longrightarrow> bk_account_id (store_book blank k st) = k \<and> bk_bodies (store_book blank k st) = Map.empty"
  by (auto simp: store_filed_def store_book_def book_new_def split: option.splits)

lemma act_books:
  assumes "act blank account mid key request decide st = (answer, st')"
  shows "case answer of
      Inr (Committed d) \<Rightarrow> st_books st' = bt_insert account (release_bodies (d_book d)) (st_books st)
        \<and> (\<exists>m head. decide ((store_book blank account st)\<lparr>bk_bodies := m\<rparr>) head = Inr d)
    | _ \<Rightarrow> st_books st' = st_books st"
proof -
  have new: "case answer of
      Inr (Committed d) \<Rightarrow> st_books st' = bt_insert account (release_bodies (d_book d)) (st_books st)
        \<and> (\<exists>m head. decide ((store_book blank account st)\<lparr>bk_bodies := m\<rparr>) head = Inr d)
    | _ \<Rightarrow> st_books st' = st_books st"
    if "act_new blank account request decide st = (answer, st')"
    using that with_bodies_rounds_decides
    by (force simp: act_new_def store_book_def [symmetric] commit_def with_bodies_def Let_def
        split: prod.splits sum.splits)
  show ?thesis
    using assms new by (auto simp: act_def answer_first_def split: option.splits if_splits)
qed

lemma store_book_act:
  assumes "act blank account mid key request decide st = (Inr (Committed d), st')"
  shows "store_book blank account st' = release_bodies (d_book d)"
    and "k \<noteq> account \<Longrightarrow> store_book blank k st' = store_book blank k st"
  using act_books [OF assms] by (simp_all add: store_book_def)

inductive hot_step :: "'z book_content_scheme \<Rightarrow> ('b, 'z) writer \<Rightarrow> ('b, 'z) writer \<Rightarrow> bool" for blank where
  acts: "decides_on decide \<Longrightarrow> writer_act len followed blank account mid key request decide w = (answer, w', told)
    \<Longrightarrow> hot_step blank w w'"
| asks: "writer_book blank account w = (bk, w') \<Longrightarrow> hot_step blank w w'"
| rebuilds: "store_filed (snd (inner (wr_store w))) \<Longrightarrow> writer_rebuild inner w = (rebuilt, w') \<Longrightarrow> hot_step blank w w'"
| adopts: "hot_step blank w (w\<lparr>wr_store := snd (store_adopt (wr_store w))\<rparr>)"
| takes_over: "hot_step blank w (w\<lparr>wr_store := snd (take_over (wr_store w))\<rparr>)"

definition writer_ok :: "'z book_content_scheme \<Rightarrow> ('b, 'z) writer \<Rightarrow> bool" where
  "writer_ok blank w \<longleftrightarrow> store_filed (wr_store w)
     \<and> books.coherent (wr_bound w) (\<lambda>k. store_book blank k (wr_store w)) (wr_books w)"

lemma writer_book_read:
  "writer_book blank account w =
     (let (bk, bs) = books.read (wr_bound w) (\<lambda>k. store_book blank k (wr_store w)) account (wr_books w)
      in (bk, w\<lparr>wr_books := bs\<rparr>))"
  by (auto simp: writer_book_def books.read_def Let_def split: prod.splits option.splits)

lemma writer_book_ok:
  assumes "writer_ok blank w"
  shows "fst (writer_book blank account w) = store_book blank account (wr_store w)"
    and "writer_ok blank (snd (writer_book blank account w))"
    and "wr_store (snd (writer_book blank account w)) = wr_store w"
  using assms books.read_answers_the_record [of "wr_bound w" "\<lambda>k. store_book blank k (wr_store w)" "wr_books w" account]
    store_book_fits [of "wr_store w" blank account]
  by (auto simp: writer_book_read writer_ok_def Let_def split: prod.splits)

lemma writer_act_ok:
  assumes "writer_ok blank w" "decides_on decide"
    and "writer_act len followed blank account mid key request decide w = (answer, w', told)"
  shows "writer_ok blank w'"
proof -
  obtain st' where a: "act blank account mid key request decide (wr_store w) = (answer, st')"
    using assms(3) by (auto simp: writer_act_def split: prod.splits sum.splits acted.splits)
  note books = act_books [OF a]
  show ?thesis
  proof (cases "\<exists>d. answer = Inr (Committed d)")
    case False
    then have w': "w' = w\<lparr>wr_store := st'\<rparr>" "st_books st' = st_books (wr_store w)"
      using assms(3) a books by (auto simp: writer_act_def split: sum.splits acted.splits)
    then show ?thesis using assms(1) by (simp add: writer_ok_def store_filed_def store_book_def)
  next
    case True
    then obtain d where d: "answer = Inr (Committed d)" by blast
    have w': "w' = w\<lparr>wr_store := st', wr_books := books_put (wr_bound w) (d_book d) (wr_books w)\<rparr>"
      using assms(3) a d by (simp add: writer_act_def)
    let ?old = "store_book blank account (wr_store w)"
    obtain m head where "decide (?old\<lparr>bk_bodies := m\<rparr>) head = Inr d" using books d by auto
    then have r: "bk_account_id (d_book d) = account" "book_reached ?old \<le> book_reached (d_book d)"
      using assms(1,2) store_book_fits [of "wr_store w" blank account]
      by (force simp: decides_on_def writer_ok_def book_reached_def)+
    have filed: "store_filed st'"
      using books d assms(1) r(1) by (auto simp: store_filed_def writer_ok_def release_bodies_def)
    have c: "books_ok (wr_books w)" "bs_bytes (wr_books w) \<le> wr_bound w"
      "\<And>k v. books_look (wr_books w) k = Some v \<Longrightarrow> v = store_book blank k (wr_store w)"
      using assms(1) by (auto simp: writer_ok_def books.coherent_def)
    have "v = store_book blank k st'" if v: "books_look (wr_books w') k = Some v" for k v
    proof -
      have "\<not> (\<exists>h. books_look (wr_books w) account = Some h \<and> book_reached (d_book d) < book_reached h)"
        using c(3) r(2) by fastforce
      then have "books_look (wr_books w') \<subseteq>\<^sub>m (books_look (wr_books w))(account \<mapsto> release_bodies (d_book d))"
        using books_put_ok(2) [OF c(1,2), of "d_book d"] r(1) by (auto simp: w')
      from map_le_Some [OF this v] c(3) store_book_act(1) [OF a [unfolded d]] store_book_act(2) [OF a [unfolded d], of k]
      show ?thesis by (auto split: if_splits)
    qed
    then show ?thesis
      using filed books_put_ok(1) [OF c(1,2), of "d_book d"] by (simp add: writer_ok_def books.coherent_def w')
  qed
qed

lemma hot_steps_ok:
  assumes "(hot_step blank)\<^sup>*\<^sup>* w w'" "writer_ok blank w"
  shows "writer_ok blank w'"
  using assms
proof (induction rule: rtranclp_induct)
  case (step x y)
  have ok: "writer_ok blank x" by (rule step.IH [OF step.prems])
  show ?case using step.hyps(2)
  proof (cases rule: hot_step.cases)
    case (acts decide len followed account mid key request answer told)
    then show ?thesis using writer_act_ok [OF ok] by blast
  next
    case (asks account bk)
    then show ?thesis using writer_book_ok(2) [OF ok, of account] by simp
  next
    case (rebuilds inner rebuilt)
    then show ?thesis
      by (auto simp: writer_rebuild_def writer_ok_def books.coherent_def split: prod.splits)
  qed (use ok in \<open>simp_all add: writer_ok_def store_filed_def store_book_def store_adopt_def take_over_def Let_def split: prod.splits\<close>)
qed simp

section \<open>Properties\<close>

text \<open>C22: The books held in memory are the record's: after any sequence of commands, reads,
  rebuilds and take-overs through a writer over a store, whatever was evicted in between,
  the book it answers is the one the store would, and what it holds is within its bound,
  its counted bytes exactly the cost of the books held.\<close>

theorem writer_answers_the_stores_book:
  assumes "store_filed st" and "(hot_step blank)\<^sup>*\<^sup>* (writer_bounded st bound) w"
  shows "fst (writer_book blank account w) = store_book blank account (wr_store w)
    \<and> bs_bytes (wr_books w) \<le> wr_bound w
    \<and> bs_bytes (wr_books w) = (\<Sum>k \<in> dom (books_look (wr_books w)). book_cost (the (books_look (wr_books w) k)))"
proof -
  have "writer_ok blank (writer_bounded st bound)"
    using assms(1) by (simp add: writer_ok_def writer_bounded_def books.coherent_def)
  then have ok: "writer_ok blank w" by (rule hot_steps_ok [OF assms(2)])
  then have b: "books_ok (wr_books w)" "bs_bytes (wr_books w) \<le> wr_bound w"
    by (simp_all add: writer_ok_def books.coherent_def)
  show ?thesis using writer_book_ok(1) [OF ok] b(2) books_ok_bytes [OF b(1)] by blast
qed

text \<open>A writer is its store with a tail: a command through it is answered as the store answers
  it and leaves the store as the store leaves it; what is told on the tail is the change of
  the entry committed, once, after the commit, and nothing for a duplicate or a refusal.\<close>

theorem writer_tells_what_was_committed:
  assumes "act blank account mid key request decide (wr_store w) = (answer, st)"
    and "writer_act len True blank account mid key request decide w = (answer', w', told)"
  shows "answer' = answer \<and> wr_store w' = st \<and> wr_bound w' = wr_bound w
    \<and> concat (map rp_changes told) = (case answer of
        Inr (Committed d) \<Rightarrow> [to_change len (f_epoch (st_fence st)) (d_entry d)] | _ \<Rightarrow> [])"
  using assms by (auto simp: writer_act_def publish_def publish_parts_concat
      simp del: publish_parts.simps split: sum.splits acted.splits)

text \<open>A put evicts the least recently used: a book that a put drops was used before every
  book it keeps, and of the account itself it keeps the book put, its bodies let go, or none.\<close>

theorem a_put_evicts_the_least_recently_used:
  assumes "books_ok bs" and "bs_bytes bs \<le> bound"
    and "held_view (bs_held bs) k = Some (n, t)" and "k \<noteq> bk_account_id bk"
    and "held_view (bs_held (books_put bound bk bs)) k = None"
    and "held_view (bs_held (books_put bound bk bs)) k' = Some (n', t')"
  shows "t < t' \<and> books_look (books_put bound bk bs) (bk_account_id bk) \<in> {None, Some (release_bodies bk)}"
proof -
  have "books_put bound bk bs \<noteq> bs" using assms(3,5) by auto
  then show ?thesis
    using books_put_evicts [OF assms(1,2)] books_put_ok(2) [OF assms(1,2)] assms(3-6) map_le_Some by fastforce
qed

subsection \<open>Witnesses\<close>

definition blank_content :: book_content where
  "blank_content = \<lparr>bc_entries = [], bc_positions = 0, bc_breaks = 0, bc_figures = 0, bc_lifecycle_events = 0,
     bc_orders = 0, bc_placements = 0, bc_executions = 0, bc_instructions = 0\<rparr>"

definition small_book :: "string \<Rightarrow> nat list \<Rightarrow> (unit, unit) hot_book" where
  "small_book account es =
     \<lparr>bk_account_id = account, bk_partition = ''P0'', bk_bodies = Map.empty,
      bk_rest = blank_content\<lparr>bc_entries := es\<rparr>\<rparr>"

definition small_decide :: "(unit, book_content) decide" where
  "small_decide bk head =
     Inr \<lparr>d_entry = \<lparr>en_entry_id = ''e1'', en_account_id = bk_account_id bk, en_partition = bk_partition bk,
         en_first_sequence = head + 1, en_last_sequence = head + 1, en_message_id = ''m1'',
         en_idempotency_key = [], en_body = ()\<rparr>,
       d_book = bk\<lparr>bk_rest := (bk_rest bk)\<lparr>bc_entries := bc_entries (bk_rest bk) @ [head + book_reached bk + 1]\<rparr>\<rparr>,
       d_reply = ''done''\<rparr>"

lemma small_decides: "decides_on small_decide"
  by (auto simp: decides_on_def small_decide_def book_reached_def)

definition small_writer :: "(unit, unit) writer" where
  "small_writer = writer_bounded store_new 2000"

theorem writer_answers_the_stores_book_witness:
  "bc_entries (bk_rest (fst (writer_book blank_content ''a1''
     (fst (snd (writer_act (\<lambda>_ _. 1) True blank_content ''a1'' ''m1'' [] ''buy'' small_decide small_writer)))))) = [1]"
proof -
  let ?w = "fst (snd (writer_act (\<lambda>_ _. 1) True blank_content ''a1'' ''m1'' [] ''buy'' small_decide small_writer))"
  have "(hot_step blank_content)\<^sup>*\<^sup>* small_writer ?w"
    by (rule r_into_rtranclp, rule hot_step.acts [OF small_decides surjective_pairing [THEN trans]])
       (simp add: prod_eq_iff)
  moreover have "store_filed store_new" by (simp add: store_filed_def store_new_def)
  ultimately have "fst (writer_book blank_content ''a1'' ?w) = store_book blank_content ''a1'' (wr_store ?w)"
    using writer_answers_the_stores_book unfolding small_writer_def by blast
  moreover have "bc_entries (bk_rest (store_book blank_content ''a1'' (wr_store ?w))) = [1]" by code_simp
  ultimately show ?thesis by simp
qed

theorem writer_tells_what_was_committed_witness:
  "map ch_sequence (concat (map rp_changes (snd (snd
     (writer_act (\<lambda>_ _. 1) True blank_content ''a1'' ''m1'' [] ''buy'' small_decide small_writer))))) = [1]"
proof -
  let ?run = "writer_act (\<lambda>_ _. 1) True blank_content ''a1'' ''m1'' [] ''buy'' small_decide small_writer"
  obtain answer st where a: "act blank_content ''a1'' ''m1'' [] ''buy'' small_decide (wr_store small_writer) = (answer, st)"
    by force
  obtain answer' w' told where w: "?run = (answer', w', told)" by (metis prod_cases3)
  have "case answer of Inr (Committed d) \<Rightarrow> en_last_sequence (d_entry d) = 1 | _ \<Rightarrow> False"
  proof -
    have "case fst (act blank_content ''a1'' ''m1'' [] ''buy'' small_decide (wr_store small_writer)) of
        Inr (Committed d) \<Rightarrow> en_last_sequence (d_entry d) = 1 | _ \<Rightarrow> False" by code_simp
    then show ?thesis unfolding a by simp
  qed
  then obtain d where d: "answer = Inr (Committed d)" "en_last_sequence (d_entry d) = 1"
    by (auto split: sum.splits acted.splits)
  from writer_tells_what_was_committed [OF a w] d w show ?thesis by (simp add: to_change_def)
qed

theorem a_put_evicts_the_least_recently_used_witness:
  "\<exists>t'. 2 < t' \<and> map_option snd (held_view (bs_held (books_put 3000 (small_book ''a3'' [1])
      (snd (books_get ''a1'' (books_put 3000 (small_book ''a2'' [1]) (books_put 3000 (small_book ''a1'' [1]) books_new)))))) ''a1'') = Some t'"
proof -
  let ?two = "snd (books_get ''a1'' (books_put 3000 (small_book ''a2'' [1]) (books_put 3000 (small_book ''a1'' [1]) books_new)))"
  let ?b = "small_book ''a3'' [1]"
  have one: "books_ok (books_put 3000 (small_book ''a1'' [1]) books_new)
      \<and> bs_bytes (books_put 3000 (small_book ''a1'' [1]) books_new) \<le> 3000"
    using books_put_ok(1) [of books_new 3000] by simp
  from books_put_ok(1) [OF conjunct1 [OF one] conjunct2 [OF one], of "small_book ''a2'' [1]"]
  have ok: "books_ok ?two" "bs_bytes ?two \<le> 3000" by (simp_all only: books_get_ok)
  have v: "held_view (bs_held ?two) ''a2'' = Some (1184, 2)" "held_view (bs_held (books_put 3000 ?b ?two)) ''a2'' = None"
    "held_view (bs_held (books_put 3000 ?b ?two)) ''a1'' = Some (1184, 3)" by code_simp+
  have n: "''a2'' \<noteq> bk_account_id ?b" by code_simp
  show ?thesis
    using a_put_evicts_the_least_recently_used [OF ok v(1) n v(2,3)] v(3) by simp
qed

end
