(* ===== verification/Instrument_Hot.thy ===== *)
theory Instrument_Hot
  imports Recency
begin

section \<open>The instrument store's hot layer\<close>

text \<open>
  \<open>crates/instrument/src/hot.rs\<close>: \<open>Layer\<close> and \<open>HotStore\<close>. Records by identifier and what each
  identifier became share one index of use and one count of bytes. The store behind is the
  trait object \<open>inner\<close>: its state and its operations are arguments, as is the length of a
  record's encoding. A read through the layer holds the layer's lock twice, around its look
  and around its fill, and reads the record in between: \<open>by_id_look\<close> and \<open>by_id_fill\<close> are the
  two locked halves, so that what happens between them can be stated.
\<close>

definition DEFAULT_BYTES :: nat where "DEFAULT_BYTES = 32 * 1024 * 1024"

record 'i layer =
  ly_records :: "(string, 'i option \<times> nat \<times> nat) btree"
  ly_became :: "(string, string option \<times> nat) btree"
  ly_by_use :: "(nat, bool \<times> string) btree"
  ly_bytes :: nat
  ly_tick :: nat

definition layer_new :: "'i layer" where
  "layer_new = \<lparr>ly_records = [], ly_became = [], ly_by_use = [], ly_bytes = 0, ly_tick = 0\<rparr>"

definition touch :: "bool \<Rightarrow> string \<Rightarrow> 'i layer \<Rightarrow> nat \<times> 'i layer" where
  "touch is_record iid ly =
     (let tick = ly_tick ly + 1 in
      (tick, ly\<lparr>ly_tick := tick, ly_by_use := bt_insert tick (is_record, iid) (ly_by_use ly)\<rparr>))"

definition layer_forget :: "bool \<Rightarrow> string \<Rightarrow> 'i layer \<Rightarrow> 'i layer" where
  "layer_forget is_record iid ly =
     (if is_record then
        (case bt_get (ly_records ly) iid of
           None \<Rightarrow> ly
         | Some (held, n, used) \<Rightarrow>
             ly\<lparr>ly_records := bt_remove iid (ly_records ly), ly_bytes := ly_bytes ly - n,
                ly_by_use := bt_remove used (ly_by_use ly)\<rparr>)
      else
        (case bt_get (ly_became ly) iid of
           None \<Rightarrow> ly
         | Some (held, used) \<Rightarrow>
             ly\<lparr>ly_became := bt_remove iid (ly_became ly), ly_bytes := ly_bytes ly - (length iid + 96),
                ly_by_use := bt_remove used (ly_by_use ly)\<rparr>))"

function layer_trim :: "nat \<Rightarrow> 'i layer \<Rightarrow> 'i layer" where
  "layer_trim bound ly =
     (if ly_bytes ly \<le> bound then ly
      else case ly_by_use ly of
        [] \<Rightarrow> ly
      | (t, is_record, iid) # rest \<Rightarrow> layer_trim bound (layer_forget is_record iid (ly\<lparr>ly_by_use := rest\<rparr>)))"
  by auto

lemma length_bt_remove: "length (bt_remove k m) \<le> length m"
  by (induction k m rule: bt_remove.induct) auto

lemma length_layer_forget: "length (ly_by_use (layer_forget is_record iid ly)) \<le> length (ly_by_use ly)"
  by (simp add: layer_forget_def length_bt_remove split: option.splits)

termination layer_trim
proof (relation "measure (\<lambda>(bound, ly). length (ly_by_use ly))", goal_cases)
  case (2 bound ly x rest t y is_record iid)
  then show ?case
    using length_layer_forget [of is_record iid "ly\<lparr>ly_by_use := rest\<rparr>"] by simp
qed simp

declare layer_trim.simps [simp del]

subsection \<open>Reads\<close>

definition by_id_look :: "string \<Rightarrow> 'i layer \<Rightarrow> 'i option option \<times> 'i layer" where
  "by_id_look iid ly =
     (case bt_get (ly_records ly) iid of
        None \<Rightarrow> (None, ly)
      | Some (held, n, used) \<Rightarrow>
          let (tick, ly') = touch True iid (ly\<lparr>ly_by_use := bt_remove used (ly_by_use ly)\<rparr>)
          in (Some held, ly'\<lparr>ly_records := bt_adjust iid (\<lambda>(h, m, _). (h, m, tick)) (ly_records ly')\<rparr>))"

definition record_weight :: "('i \<Rightarrow> nat) \<Rightarrow> string \<Rightarrow> 'i option \<Rightarrow> nat" where
  "record_weight encoded_len iid read =
     (case read of None \<Rightarrow> 0 | Some r \<Rightarrow> encoded_len r * 2) + length iid + 160"

definition by_id_fill :: "('i \<Rightarrow> nat) \<Rightarrow> nat \<Rightarrow> string \<Rightarrow> 'i option \<Rightarrow> 'i layer \<Rightarrow> 'i layer" where
  "by_id_fill encoded_len bound iid read ly =
     (let n = record_weight encoded_len iid read;
          (tick, ly') = touch True iid (layer_forget True iid ly)
      in layer_trim bound (ly'\<lparr>ly_bytes := ly_bytes ly' + n, ly_records := bt_insert iid (read, n, tick) (ly_records ly')\<rparr>))"

definition by_id ::
  "('i \<Rightarrow> nat) \<Rightarrow> nat \<Rightarrow> (string \<Rightarrow> 'e + 'i option) \<Rightarrow> string \<Rightarrow> 'i layer \<Rightarrow> ('e + 'i option) \<times> 'i layer" where
  "by_id encoded_len bound inner iid ly =
     (case by_id_look iid ly of
        (Some held, ly') \<Rightarrow> (Inr held, ly')
      | (None, ly') \<Rightarrow>
          (case inner iid of
             Inl e \<Rightarrow> (Inl e, ly')
           | Inr read \<Rightarrow> (Inr read, by_id_fill encoded_len bound iid read ly')))"

definition became_look :: "string \<Rightarrow> 'i layer \<Rightarrow> string option option \<times> 'i layer" where
  "became_look iid ly =
     (case bt_get (ly_became ly) iid of
        None \<Rightarrow> (None, ly)
      | Some (held, used) \<Rightarrow>
          let (tick, ly') = touch False iid (ly\<lparr>ly_by_use := bt_remove used (ly_by_use ly)\<rparr>)
          in (Some held, ly'\<lparr>ly_became := bt_adjust iid (\<lambda>(h, _). (h, tick)) (ly_became ly')\<rparr>))"

definition became_fill :: "nat \<Rightarrow> string \<Rightarrow> string option \<Rightarrow> 'i layer \<Rightarrow> 'i layer" where
  "became_fill bound iid read ly =
     (let (tick, ly') = touch False iid (layer_forget False iid ly)
      in layer_trim bound (ly'\<lparr>ly_bytes := ly_bytes ly' + (length iid + 96),
           ly_became := bt_insert iid (read, tick) (ly_became ly')\<rparr>))"

definition replacement_of ::
  "nat \<Rightarrow> (string \<Rightarrow> 'e + string option) \<Rightarrow> string \<Rightarrow> 'i layer \<Rightarrow> ('e + string option) \<times> 'i layer" where
  "replacement_of bound inner iid ly =
     (case became_look iid ly of
        (Some held, ly') \<Rightarrow> (Inr held, ly')
      | (None, ly') \<Rightarrow>
          (case inner iid of
             Inl e \<Rightarrow> (Inl e, ly')
           | Inr read \<Rightarrow> (Inr read, became_fill bound iid read ly')))"

subsection \<open>Writes\<close>

definition evict :: "string \<Rightarrow> 'i layer \<Rightarrow> 'i layer" where
  "evict iid ly = layer_forget False iid (layer_forget True iid ly)"

definition hot_write :: "('s \<Rightarrow> 'r \<times> 's) \<Rightarrow> string \<Rightarrow> 's \<times> 'i layer \<Rightarrow> 'r \<times> 's \<times> 'i layer" where
  "hot_write inner iid st = (let (written, s) = inner (fst st) in (written, s, evict iid (snd st)))"

definition hot_mint ::
  "('i \<Rightarrow> string) \<Rightarrow> ('s \<Rightarrow> ('e + 'i \<times> 'q) \<times> 's) \<Rightarrow> string \<Rightarrow> 's \<times> 'i layer \<Rightarrow> ('e + 'i \<times> 'q) \<times> 's \<times> 'i layer" where
  "hot_mint id_of inner iid st =
     (let (minted, s) = inner (fst st); ly = evict iid (snd st)
      in (minted, s, case minted of Inr (held, stood) \<Rightarrow> evict (id_of held) ly | Inl e \<Rightarrow> ly))"

text \<open>Any other write -- a conflict, a replacement, a template, a venue, a calendar, a company --
  empties the layer.\<close>

definition hot_other :: "('s \<Rightarrow> 'r \<times> 's) \<Rightarrow> 's \<times> 'i layer \<Rightarrow> 'r \<times> 's \<times> 'i layer" where
  "hot_other inner st = (let (d, s) = inner (fst st) in (d, s, layer_new))"

section \<open>Facts\<close>

text \<open>The two maps as one view from what is held to its cost and its last use.\<close>

definition layer_view :: "'i layer \<Rightarrow> bool \<times> string \<Rightarrow> (nat \<times> nat) option" where
  "layer_view ly k =
     (if fst k then map_option snd (bt_get (ly_records ly) (snd k))
      else map_option (\<lambda>(held, used). (length (snd k) + 96, used)) (bt_get (ly_became ly) (snd k)))"

definition layer_ok :: "'i layer \<Rightarrow> bool" where
  "layer_ok ly \<longleftrightarrow> bt_wf (ly_records ly) \<and> bt_wf (ly_became ly)
     \<and> recent (layer_view ly) (ly_by_use ly) (ly_bytes ly) (ly_tick ly)"

definition records_look :: "'i layer \<Rightarrow> string \<Rightarrow> 'i option option" where
  "records_look ly iid = map_option fst (bt_get (ly_records ly) iid)"

definition became_held :: "'i layer \<Rightarrow> string \<Rightarrow> string option option" where
  "became_held ly iid = map_option fst (bt_get (ly_became ly) iid)"

lemma layer_view_by_use [simp]:
  "layer_view (ly\<lparr>ly_by_use := u\<rparr>) = layer_view ly" "layer_view (ly\<lparr>ly_tick := n\<rparr>) = layer_view ly"
  "layer_view (ly\<lparr>ly_bytes := n\<rparr>) = layer_view ly"
  by (simp_all add: layer_view_def fun_eq_iff)

lemma layer_view_new: "layer_view layer_new = (\<lambda>_. None)"
  by (simp add: layer_view_def layer_new_def fun_eq_iff)

lemma layer_new_ok [simp]: "layer_ok layer_new" "records_look layer_new = Map.empty" "became_held layer_new = Map.empty"
    "ly_bytes layer_new = 0"
  unfolding layer_ok_def layer_view_new
  by (simp_all add: layer_new_def records_look_def became_held_def recent_empty fun_eq_iff)

lemma forget_view:
  assumes "bt_wf (ly_records ly)" "bt_wf (ly_became ly)"
  shows "layer_view (layer_forget r iid ly) = (layer_view ly)((r, iid) := None)"
  using assms by (auto simp: layer_view_def layer_forget_def bt_get_remove fun_eq_iff split: option.splits)

lemma forget_looks:
  assumes "bt_wf (ly_records ly)" "bt_wf (ly_became ly)"
  shows "records_look (layer_forget r iid ly) = (if r then (records_look ly)(iid := None) else records_look ly)"
    and "became_held (layer_forget r iid ly) = (if r then became_held ly else (became_held ly)(iid := None))"
    and "bt_wf (ly_records (layer_forget r iid ly))" "bt_wf (ly_became (layer_forget r iid ly))"
    and "ly_tick (layer_forget r iid ly) = ly_tick ly" "ly_bytes (layer_forget r iid ly) \<le> ly_bytes ly"
  using assms by (auto simp: records_look_def became_held_def layer_forget_def bt_get_remove fun_eq_iff split: option.splits)

lemma forget_ok:
  assumes "layer_ok ly"
  shows "layer_ok (layer_forget r iid ly)"
proof (cases "layer_view ly (r, iid)")
  case None
  then have "layer_forget r iid ly = ly"
    by (auto simp: layer_view_def layer_forget_def split: option.splits if_splits)
  with assms show ?thesis by simp
next
  case (Some x)
  obtain n t where x: "x = (n, t)" by force
  have wf: "bt_wf (ly_records ly)" "bt_wf (ly_became ly)" using assms by (simp_all add: layer_ok_def)
  have "ly_by_use (layer_forget r iid ly) = bt_remove t (ly_by_use ly)" "ly_bytes (layer_forget r iid ly) = ly_bytes ly - n"
    using Some x by (auto simp: layer_view_def layer_forget_def split: option.splits if_splits)
  then show ?thesis
    using recent_drop(1) [of "layer_view ly" "ly_by_use ly" "ly_bytes ly" "ly_tick ly" "(r, iid)" n t] assms Some x
      forget_looks [OF wf] forget_view [OF wf] by (simp add: layer_ok_def)
qed

text \<open>The trim: within the bound, right, and nothing held that was not.\<close>

lemma pop_forget:
  assumes "layer_ok ly" "ly_by_use ly = (t, r, iid) # rest"
  shows "layer_forget r iid (ly\<lparr>ly_by_use := rest\<rparr>) = layer_forget r iid ly"
proof -
  have "layer_view ly (r, iid) \<noteq> None \<and> snd (the (layer_view ly (r, iid))) = t"
    using assms by (auto elim!: recent_pop simp: layer_ok_def)
  moreover have "bt_remove t rest = rest"
  proof (rule bt_remove_absent)
    have "\<forall>x \<in> fst ` set rest. t < x" using assms by (simp add: layer_ok_def recent_def bt_wf_Cons)
    then show "bt_get rest t = None" by (auto simp: bt_get_None_iff)
  qed
  ultimately show ?thesis
    using assms(2) by (auto simp: layer_forget_def layer_view_def split: option.splits if_splits)
qed

lemma trim_ok:
  assumes "layer_ok ly"
  shows "layer_ok (layer_trim bound ly) \<and> ly_bytes (layer_trim bound ly) \<le> bound
    \<and> records_look (layer_trim bound ly) \<subseteq>\<^sub>m records_look ly \<and> became_held (layer_trim bound ly) \<subseteq>\<^sub>m became_held ly"
  using assms
proof (induction bound ly rule: layer_trim.induct)
  case (1 bound ly)
  show ?case
  proof (cases "ly_bytes ly \<le> bound")
    case True
    with 1(2) show ?thesis by (simp add: layer_trim.simps [of bound ly])
  next
    case False
    have wf: "bt_wf (ly_records ly)" "bt_wf (ly_became ly)" using 1(2) by (simp_all add: layer_ok_def)
    show ?thesis
    proof (cases "ly_by_use ly")
      case Nil
      then have "ly_bytes ly = 0" using 1(2) recent_index_empty(2) by (auto simp: layer_ok_def)
      with False show ?thesis by simp
    next
      case (Cons x rest)
      obtain t r iid where x: "x = (t, r, iid)" by (cases x) auto
      note pop = pop_forget [OF 1(2) Cons [unfolded x]]
      have "layer_trim bound ly = layer_trim bound (layer_forget r iid ly)"
        using False Cons x by (simp add: layer_trim.simps [of bound ly] pop)
      moreover have "layer_ok (layer_forget r iid ly)" by (rule forget_ok [OF 1(2)])
      note ih = 1(1) [OF False Cons x [symmetric] refl, unfolded pop, OF this]
      have "records_look (layer_forget r iid ly) \<subseteq>\<^sub>m records_look ly" "became_held (layer_forget r iid ly) \<subseteq>\<^sub>m became_held ly"
        by (auto simp: forget_looks [OF wf] map_le_def)
      ultimately show ?thesis using ih map_le_trans by metis
    qed
  qed
qed

text \<open>Looks: what is held, touched.\<close>

lemma looks_ok:
  assumes "layer_ok ly"
  shows "fst (by_id_look iid ly) = records_look ly iid" "fst (became_look iid ly) = became_held ly iid"
    and "layer_ok (snd (by_id_look iid ly))" "layer_ok (snd (became_look iid ly))"
    and "records_look (snd (by_id_look iid ly)) = records_look ly" "became_held (snd (by_id_look iid ly)) = became_held ly"
    and "records_look (snd (became_look iid ly)) = records_look ly" "became_held (snd (became_look iid ly)) = became_held ly"
    and "ly_bytes (snd (by_id_look iid ly)) = ly_bytes ly" "ly_bytes (snd (became_look iid ly)) = ly_bytes ly"
proof -
  show "fst (by_id_look iid ly) = records_look ly iid" "fst (became_look iid ly) = became_held ly iid"
    "records_look (snd (by_id_look iid ly)) = records_look ly" "became_held (snd (by_id_look iid ly)) = became_held ly"
    "records_look (snd (became_look iid ly)) = records_look ly" "became_held (snd (became_look iid ly)) = became_held ly"
    "ly_bytes (snd (by_id_look iid ly)) = ly_bytes ly" "ly_bytes (snd (became_look iid ly)) = ly_bytes ly"
    by (auto simp: by_id_look_def became_look_def touch_def records_look_def became_held_def Let_def fun_eq_iff
        split: option.splits)
  have touched: "recent ((layer_view ly)(k \<mapsto> (n, Suc (ly_tick ly))))
      (bt_insert (Suc (ly_tick ly)) k (bt_remove t (ly_by_use ly))) (ly_bytes ly) (Suc (ly_tick ly))"
    if "layer_view ly k = Some (n, t)" for k n t
    using recent_touch [of "layer_view ly" "ly_by_use ly" "ly_bytes ly" "ly_tick ly" k n t] that assms
    by (simp add: layer_ok_def)
  show "layer_ok (snd (by_id_look iid ly))"
  proof (cases "bt_get (ly_records ly) iid")
    case (Some x)
    obtain h n t where x: "x = (h, n, t)" by (cases x)
    have "layer_view (snd (by_id_look iid ly)) = (layer_view ly)((True, iid) \<mapsto> (n, Suc (ly_tick ly)))"
      using Some by (auto simp: by_id_look_def touch_def layer_view_def Let_def fun_eq_iff x)
    then show ?thesis
      using touched [of "(True, iid)" n t] Some assms
      by (simp add: layer_ok_def layer_view_def x) (simp add: by_id_look_def touch_def Let_def x)
  qed (use assms in \<open>simp add: by_id_look_def\<close>)
  show "layer_ok (snd (became_look iid ly))"
  proof (cases "bt_get (ly_became ly) iid")
    case (Some x)
    obtain h t where x: "x = (h, t)" by (cases x)
    have "layer_view (snd (became_look iid ly)) = (layer_view ly)((False, iid) \<mapsto> (length iid + 96, Suc (ly_tick ly)))"
      using Some by (auto simp: became_look_def touch_def layer_view_def Let_def fun_eq_iff x)
    then show ?thesis
      using touched [of "(False, iid)" "length iid + 96" t] Some assms
      by (simp add: layer_ok_def layer_view_def x) (simp add: became_look_def touch_def Let_def x)
  qed (use assms in \<open>simp add: became_look_def\<close>)
qed

text \<open>Fills: at most what was filled in is held in addition.\<close>

lemma entered_ok:
  assumes "layer_ok ly" "layer_view ly k = None"
    and "layer_view ly' = (layer_view ly)(k \<mapsto> (n, Suc (ly_tick ly)))" "ly_by_use ly' = bt_insert (Suc (ly_tick ly)) k (ly_by_use ly)"
    and "ly_bytes ly' = ly_bytes ly + n" "ly_tick ly' = Suc (ly_tick ly)" "bt_wf (ly_records ly')" "bt_wf (ly_became ly')"
  shows "layer_ok ly'"
  using assms recent_enter [of "layer_view ly" "ly_by_use ly" "ly_bytes ly" "ly_tick ly" k n] by (simp add: layer_ok_def)

lemma by_id_fill_ok:
  assumes "layer_ok ly"
  shows "layer_ok (by_id_fill len bound iid read ly) \<and> ly_bytes (by_id_fill len bound iid read ly) \<le> bound
    \<and> records_look (by_id_fill len bound iid read ly) \<subseteq>\<^sub>m (records_look ly)(iid \<mapsto> read)
    \<and> became_held (by_id_fill len bound iid read ly) \<subseteq>\<^sub>m became_held ly"
proof -
  let ?f = "layer_forget True iid ly" and ?n = "record_weight len iid read"
  let ?e = "?f\<lparr>ly_tick := Suc (ly_tick ?f), ly_by_use := bt_insert (Suc (ly_tick ?f)) (True, iid) (ly_by_use ?f),
      ly_bytes := ly_bytes ?f + ?n, ly_records := bt_insert iid (read, ?n, Suc (ly_tick ?f)) (ly_records ?f)\<rparr>"
  have wf: "bt_wf (ly_records ly)" "bt_wf (ly_became ly)" using assms by (simp_all add: layer_ok_def)
  note f = forget_looks [OF wf, where r = True and iid = iid] forget_view [OF wf, of True iid]
  have fill: "by_id_fill len bound iid read ly = layer_trim bound ?e"
    by (simp add: by_id_fill_def touch_def Let_def)
  have "layer_ok ?e"
  proof (rule entered_ok [OF forget_ok [OF assms], of True iid "(True, iid)"])
    show "layer_view ?e = (layer_view ?f)((True, iid) \<mapsto> (?n, Suc (ly_tick ?f)))"
      by (auto simp: layer_view_def fun_eq_iff)
  qed (simp_all add: f)
  moreover have "records_look ?e = (records_look ly)(iid \<mapsto> read)" "became_held ?e = became_held ly"
    using f(1,2) by (auto simp: records_look_def became_held_def fun_eq_iff)
  ultimately show ?thesis unfolding fill using trim_ok [of ?e bound] by simp
qed

lemma became_fill_ok:
  assumes "layer_ok ly"
  shows "layer_ok (became_fill bound iid read ly) \<and> ly_bytes (became_fill bound iid read ly) \<le> bound
    \<and> became_held (became_fill bound iid read ly) \<subseteq>\<^sub>m (became_held ly)(iid \<mapsto> read)
    \<and> records_look (became_fill bound iid read ly) \<subseteq>\<^sub>m records_look ly"
proof -
  let ?f = "layer_forget False iid ly" and ?n = "length iid + 96"
  let ?e = "?f\<lparr>ly_tick := Suc (ly_tick ?f), ly_by_use := bt_insert (Suc (ly_tick ?f)) (False, iid) (ly_by_use ?f),
      ly_bytes := ly_bytes ?f + ?n, ly_became := bt_insert iid (read, Suc (ly_tick ?f)) (ly_became ?f)\<rparr>"
  have wf: "bt_wf (ly_records ly)" "bt_wf (ly_became ly)" using assms by (simp_all add: layer_ok_def)
  note f = forget_looks [OF wf, where r = False and iid = iid] forget_view [OF wf, of False iid]
  have fill: "became_fill bound iid read ly = layer_trim bound ?e"
    by (simp add: became_fill_def touch_def Let_def)
  have "layer_ok ?e"
  proof (rule entered_ok [OF forget_ok [OF assms], of False iid "(False, iid)"])
    show "layer_view ?e = (layer_view ?f)((False, iid) \<mapsto> (?n, Suc (ly_tick ?f)))"
      by (auto simp: layer_view_def fun_eq_iff)
  qed (simp_all add: f)
  moreover have "became_held ?e = (became_held ly)(iid \<mapsto> read)" "records_look ?e = records_look ly"
    using f(1,2) by (auto simp: records_look_def became_held_def fun_eq_iff)
  ultimately show ?thesis unfolding fill using trim_ok [of ?e bound] by simp
qed

interpretation records: read_through "\<lambda>ly. layer_ok ly \<and> ly_bytes ly \<le> bound" records_look by_id_look
    "\<lambda>iid v. by_id_fill len bound iid v" "layer_forget True" "\<lambda>_ _. True"
  for len :: "'i \<Rightarrow> nat" and bound :: nat
proof (unfold_locales, goal_cases)
  case (3 s k)
  then have "bt_wf (ly_records s)" "bt_wf (ly_became s)" by (simp_all add: layer_ok_def)
  from forget_looks [OF this, where r = True and iid = k] forget_ok [of s True k] 3 show ?case by simp
qed (simp_all add: looks_ok by_id_fill_ok)

interpretation became: read_through "\<lambda>ly. layer_ok ly \<and> ly_bytes ly \<le> bound" became_held became_look
    "\<lambda>iid v. became_fill bound iid v" "layer_forget False" "\<lambda>_ _. True"
  for bound :: nat
proof (unfold_locales, goal_cases)
  case (3 s k)
  then have "bt_wf (ly_records s)" "bt_wf (ly_became s)" by (simp_all add: layer_ok_def)
  from forget_looks [OF this, where r = False and iid = k] forget_ok [of s False k] 3 show ?case by simp
qed (simp_all add: looks_ok became_fill_ok)

subsection \<open>One operation after another\<close>

text \<open>The store behind: what its records and replacements are. A read of it answers them or
  fails; a write changes those of the identifiers it names alone.\<close>

definition answers :: "(string \<Rightarrow> 'e + 'v) \<Rightarrow> (string \<Rightarrow> 'v) \<Rightarrow> bool" where
  "answers inner held \<longleftrightarrow> (\<forall>i x. inner i = Inr x \<longrightarrow> x = held i)"

definition changes_only ::
  "('s \<Rightarrow> string \<Rightarrow> 'i option) \<Rightarrow> ('s \<Rightarrow> string \<Rightarrow> string option) \<Rightarrow> string set \<Rightarrow> 's \<Rightarrow> 's \<Rightarrow> bool" where
  "changes_only rec bec ids s s' \<longleftrightarrow> (\<forall>j. j \<notin> ids \<longrightarrow> rec s' j = rec s j \<and> bec s' j = bec s j)"

inductive instrument_step ::
  "('s \<Rightarrow> string \<Rightarrow> 'i option) \<Rightarrow> ('s \<Rightarrow> string \<Rightarrow> string option) \<Rightarrow> ('i \<Rightarrow> string) \<Rightarrow> ('i \<Rightarrow> nat) \<Rightarrow> nat
    \<Rightarrow> 's \<times> 'i layer \<Rightarrow> 's \<times> 'i layer \<Rightarrow> bool"
  for rec bec id_of len bound where
  reads: "answers inner (rec s) \<Longrightarrow> by_id len bound (inner :: string \<Rightarrow> string + 'i option) iid ly = (a, ly')
    \<Longrightarrow> instrument_step rec bec id_of len bound (s, ly) (s, ly')"
| follows: "answers inner (bec s) \<Longrightarrow> replacement_of bound (inner :: string \<Rightarrow> string + string option) iid ly = (a, ly')
    \<Longrightarrow> instrument_step rec bec id_of len bound (s, ly) (s, ly')"
| writes: "hot_write (inner :: 's \<Rightarrow> (string + unit) \<times> 's) iid (s, ly) = (w, s', ly') \<Longrightarrow> changes_only rec bec {iid} s s'
    \<Longrightarrow> instrument_step rec bec id_of len bound (s, ly) (s', ly')"
| mints: "hot_mint id_of (inner :: 's \<Rightarrow> (string + 'i \<times> bool) \<times> 's) iid (s, ly) = (m, s', ly')
    \<Longrightarrow> changes_only rec bec (insert iid (case m of Inl e \<Rightarrow> {} | Inr (held, stood) \<Rightarrow> {id_of held})) s s'
    \<Longrightarrow> instrument_step rec bec id_of len bound (s, ly) (s', ly')"
| others: "hot_other (inner :: 's \<Rightarrow> (string + unit) \<times> 's) (s, ly) = (d, s', ly')
    \<Longrightarrow> instrument_step rec bec id_of len bound (s, ly) (s', ly')"

definition layer_right :: "nat \<Rightarrow> (string \<Rightarrow> 'i option) \<Rightarrow> (string \<Rightarrow> string option) \<Rightarrow> 'i layer \<Rightarrow> bool" where
  "layer_right bound r b ly \<longleftrightarrow> records.coherent bound r ly \<and> became.coherent bound b ly"

lemma layer_right_ok: "layer_right bound r b ly \<Longrightarrow> layer_ok ly \<and> ly_bytes ly \<le> bound"
  by (simp add: layer_right_def records.coherent_def)

lemma by_id_right:
  assumes "layer_right bound r b ly" "answers inner r"
  shows "layer_right bound r b (snd (by_id len bound inner iid ly))"
    and "fst (by_id len bound inner iid ly) = Inr (r iid) \<or> (\<exists>e. inner iid = Inl e \<and> fst (by_id len bound inner iid ly) = Inl e)"
proof -
  let ?l = "snd (by_id_look iid ly)"
  have ok: "layer_ok ly" "ly_bytes ly \<le> bound" using layer_right_ok [OF assms(1)] by simp_all
  note l = looks_ok [OF ok(1)]
  have looked: "layer_right bound r b ?l"
    using assms(1) records.coherent_get(1) [of bound r ly iid] became.coherent_less [of bound b ly ?l] l ok by (simp add: layer_right_def)
  have filled: "layer_right bound r b (by_id_fill len bound iid (r iid) ?l)" if "records_look ly iid = None"
    using looked that l records.coherent_fill [of bound r ?l iid len]
      became.coherent_less [of bound b ?l "by_id_fill len bound iid (r iid) ?l"] by_id_fill_ok [OF l(3)]
    by (simp add: layer_right_def)
  show "layer_right bound r b (snd (by_id len bound inner iid ly))"
    using looked filled assms(2) l(1) [of iid, symmetric] by (auto simp: by_id_def answers_def split: prod.splits option.splits sum.splits)
  have "v = r iid" if "records_look ly iid = Some v" for v
    using assms(1) that by (simp add: layer_right_def records.coherent_def)
  then show "fst (by_id len bound inner iid ly) = Inr (r iid) \<or> (\<exists>e. inner iid = Inl e \<and> fst (by_id len bound inner iid ly) = Inl e)"
    using l(1) [of iid, symmetric] assms(2) by (auto simp: by_id_def answers_def split: prod.splits option.splits sum.splits)
qed

lemma replacement_of_right:
  assumes "layer_right bound r b ly" "answers inner b"
  shows "layer_right bound r b (snd (replacement_of bound inner iid ly))"
    and "fst (replacement_of bound inner iid ly) = Inr (b iid)
      \<or> (\<exists>e. inner iid = Inl e \<and> fst (replacement_of bound inner iid ly) = Inl e)"
proof -
  let ?l = "snd (became_look iid ly)"
  have ok: "layer_ok ly" "ly_bytes ly \<le> bound" using layer_right_ok [OF assms(1)] by simp_all
  note l = looks_ok [OF ok(1)]
  have looked: "layer_right bound r b ?l"
    using assms(1) became.coherent_get(1) [of bound b ly iid] records.coherent_less [of bound r ly ?l] l ok by (simp add: layer_right_def)
  have filled: "layer_right bound r b (became_fill bound iid (b iid) ?l)" if "became_held ly iid = None"
    using looked that l became.coherent_fill [of bound b ?l iid]
      records.coherent_less [of bound r ?l "became_fill bound iid (b iid) ?l"] became_fill_ok [OF l(4)]
    by (simp add: layer_right_def)
  show "layer_right bound r b (snd (replacement_of bound inner iid ly))"
    using looked filled assms(2) l(2) [of iid, symmetric] by (auto simp: replacement_of_def answers_def split: prod.splits option.splits sum.splits)
  have "v = b iid" if "became_held ly iid = Some v" for v
    using assms(1) that by (simp add: layer_right_def became.coherent_def)
  then show "fst (replacement_of bound inner iid ly) = Inr (b iid)
      \<or> (\<exists>e. inner iid = Inl e \<and> fst (replacement_of bound inner iid ly) = Inl e)"
    using l(2) [of iid, symmetric] assms(2) by (auto simp: replacement_of_def answers_def split: prod.splits option.splits sum.splits)
qed

lemma evict_right:
  assumes "layer_right bound r b ly" "\<And>j. j \<noteq> iid \<Longrightarrow> r' j = r j" "\<And>j. j \<noteq> iid \<Longrightarrow> b' j = b j"
  shows "layer_right bound r' b' (evict iid ly)"
proof -
  let ?f = "layer_forget True iid ly" and ?g = "layer_forget False iid (layer_forget True iid ly)"
  have ok: "layer_ok ly" "ly_bytes ly \<le> bound" using layer_right_ok [OF assms(1)] by simp_all
  have wf: "bt_wf (ly_records ly)" "bt_wf (ly_became ly)" using ok(1) by (simp_all add: layer_ok_def)
  note f = forget_looks [OF wf, where r = True and iid = iid] and f_ok = forget_ok [OF ok(1), of True iid]
  note g = forget_looks [OF f(3,4), where r = False and iid = iid] and g_ok = forget_ok [OF f_ok, of False iid]
  have "records.coherent bound r' ?f" using assms(1,2) records.coherent_forget [of bound r ly iid r'] by (simp add: layer_right_def)
  then have "records.coherent bound r' ?g" by (rule records.coherent_less) (use f g g_ok ok(2) in simp_all)
  moreover have "became.coherent bound b ?f"
    using assms(1) became.coherent_less [of bound b ly ?f] f f_ok ok(2) by (simp add: layer_right_def)
  then have "became.coherent bound b' ?g" using became.coherent_forget assms(3) by blast
  ultimately show ?thesis by (simp add: layer_right_def evict_def)
qed

lemma instrument_step_right:
  assumes "instrument_step rec bec id_of len bound st st'"
    and "layer_right bound (rec (fst st)) (bec (fst st)) (snd st)"
  shows "layer_right bound (rec (fst st')) (bec (fst st')) (snd st')"
  using assms
proof cases
  case (reads inner s iid ly a ly')
  then show ?thesis using by_id_right(1) [of bound "rec s" "bec s" ly inner len iid] assms(2) by simp
next
  case (follows inner s iid ly a ly')
  then show ?thesis using replacement_of_right(1) [of bound "rec s" "bec s" ly inner iid] assms(2) by simp
next
  case (writes inner iid s ly w s' ly')
  then have "ly' = evict iid ly" by (auto simp: hot_write_def split: prod.splits)
  then show ?thesis
    using writes assms(2) evict_right [of bound "rec s" "bec s" ly iid "rec s'" "bec s'"] by (simp add: changes_only_def)
next
  case (mints inner iid s ly m s' ly')
  show ?thesis
  proof (cases m)
    case (Inl err)
    then have "ly' = evict iid ly" using mints(3) by (auto simp: hot_mint_def Let_def split: prod.splits)
    then show ?thesis
      using mints Inl assms(2) evict_right [of bound "rec s" "bec s" ly iid "rec s'" "bec s'"] by (simp add: changes_only_def)
  next
    case (Inr x)
    obtain held stood where x: "x = (held, stood)" by force
    have ly': "ly' = evict (id_of held) (evict iid ly)" using mints(3) Inr x by (auto simp: hot_mint_def Let_def split: prod.splits)
    let ?r = "(rec s)(iid := rec s' iid)" and ?b = "(bec s)(iid := bec s' iid)"
    have "layer_right bound ?r ?b (evict iid ly)" using evict_right [of bound "rec s" "bec s"] mints(1) assms(2) by simp
    from evict_right [OF this, of "id_of held" "rec s'" "bec s'"] mints(2,4) Inr x ly'
    show ?thesis by (simp add: changes_only_def)
  qed
next
  case (others inner s ly d s' ly')
  then have "ly' = layer_new" by (auto simp: hot_other_def split: prod.splits)
  then show ?thesis using others by (simp add: layer_right_def records.coherent_def became.coherent_def)
qed

section \<open>Properties\<close>

text \<open>C28: The layer answers the record: after any sequence of whole operations -- reads of records
  and replacements, writes, mints, and the writes that empty it -- a read of an identifier
  answers the record the store behind has now, or fails as the store's own read fails; and
  the bytes counted stay within the bound.\<close>

theorem hot_reads_answer_the_record:
  assumes "(instrument_step rec bec id_of len bound)\<^sup>*\<^sup>* (s0, layer_new) (s, ly)"
    and "answers inner (rec s)" and "answers inner' (bec s)"
  shows "(fst (by_id len bound inner iid ly) = Inr (rec s iid)
        \<or> (\<exists>e. inner iid = Inl e \<and> fst (by_id len bound inner iid ly) = Inl e))
    \<and> (fst (replacement_of bound inner' iid ly) = Inr (bec s iid)
        \<or> (\<exists>e. inner' iid = Inl e \<and> fst (replacement_of bound inner' iid ly) = Inl e))
    \<and> ly_bytes ly \<le> bound"
proof -
  have "layer_right bound (rec (fst (s0, layer_new))) (bec (fst (s0, layer_new))) (snd (s0, layer_new))"
    by (simp add: layer_right_def records.coherent_def became.coherent_def)
  with assms(1) have "layer_right bound (rec (fst (s, ly))) (bec (fst (s, ly))) (snd (s, ly))"
    by (induction rule: rtranclp_induct) (auto dest: instrument_step_right)
  then have right: "layer_right bound (rec s) (bec s) ly" by simp
  show ?thesis
    using by_id_right(2) [OF right assms(2)] replacement_of_right(2) [OF right assms(3)] layer_right_ok [OF right] by blast
qed

text \<open>Operations that overlap can leave a record that is no longer the store's: a read looks,
  misses and reads the record; a write of the same record then commits and evicts it; the
  read's fill keeps what it read. Every later read is answered with the old record until
  something else evicts it, although the module's words say a held record is always the
  record's answer until a write evicts it.\<close>

theorem an_overlapping_read_leaves_a_stale_record:
  fixes old new :: 'i
  assumes "inner iid = Inr (Some new)" and "length iid \<le> 1000"
    and "hot_write (\<lambda>_. (Inr (), new)) iid (old, snd (by_id_look iid layer_new)) = (written, now, evicted)"
  shows "now = new
    \<and> fst (by_id (\<lambda>_. 100) DEFAULT_BYTES inner iid (by_id_fill (\<lambda>_. 100) DEFAULT_BYTES iid (Some old) evicted)) = Inr (Some old)"
proof -
  have "by_id_look iid (layer_new :: 'i layer) = (None, layer_new)" "evict iid (layer_new :: 'i layer) = layer_new"
    by (simp_all add: by_id_look_def evict_def layer_forget_def layer_new_def)
  then have "now = new" "evicted = layer_new" using assms(3) by (auto simp: hot_write_def)
  moreover have "fst (by_id_look iid (by_id_fill (\<lambda>_. 100) DEFAULT_BYTES iid (Some old) layer_new)) = Some (Some old)"
    using assms(2) by (simp add: by_id_look_def by_id_fill_def touch_def layer_forget_def layer_new_def record_weight_def
        DEFAULT_BYTES_def layer_trim.simps Let_def)
  ultimately show ?thesis by (auto simp: by_id_def split: prod.splits option.splits)
qed

subsection \<open>Witnesses\<close>

definition one_record :: "string \<Rightarrow> string \<Rightarrow> string option" where
  "one_record s i = (if i = ''LCL-1'' then Some s else None)"

definition none_became :: "string \<Rightarrow> string \<Rightarrow> string option" where "none_became s i = None"

definition read_of :: "string \<Rightarrow> string \<Rightarrow> string + string option" where "read_of s i = Inr (one_record s i)"

definition one_write :: "string \<Rightarrow> (string + unit) \<times> string" where "one_write s = (Inr (), ''v2'')"

theorem hot_reads_answer_the_record_witness:
  "fst (by_id (\<lambda>_. 8) 1000 (read_of ''v2'') ''LCL-1''
     (snd (snd (hot_write one_write ''LCL-1'' (''v1'', snd (by_id (\<lambda>_. 8) 1000 (read_of ''v1'') ''LCL-1'' layer_new))))))
   = Inr (Some ''v2'')"
proof -
  let ?one = "snd (by_id (\<lambda>_. 8) 1000 (read_of ''v1'') ''LCL-1'' layer_new)"
  let ?two = "snd (snd (hot_write one_write ''LCL-1'' (''v1'', ?one)))"
  let ?step = "instrument_step one_record none_became (\<lambda>s. s) (\<lambda>_. 8) 1000"
  have a: "answers (read_of s) (one_record s)" for s by (simp add: answers_def read_of_def)
  have "?step (''v1'', layer_new) (''v1'', ?one)"
    by (rule instrument_step.reads [OF a surjective_pairing])
  moreover have "?step (''v1'', ?one) (''v2'', ?two)"
    by (rule instrument_step.writes [of one_write]) (auto simp: hot_write_def one_write_def changes_only_def one_record_def none_became_def)
  ultimately have steps: "?step\<^sup>*\<^sup>* (''v1'', layer_new) (''v2'', ?two)" by (meson converse_rtranclp_into_rtranclp r_into_rtranclp)
  have b: "answers (\<lambda>i. Inr (none_became ''v2'' i) :: string + string option) (none_became ''v2'')"
    by (simp add: answers_def)
  have "read_of ''v2'' ''LCL-1'' = Inr (Some ''v2'')" "one_record ''v2'' ''LCL-1'' = Some ''v2''"
    by (simp_all add: read_of_def one_record_def)
  with conjunct1 [OF hot_reads_answer_the_record [OF steps a b, of "''LCL-1''"]] show ?thesis by simp
qed

theorem an_overlapping_read_leaves_a_stale_record_witness:
  "\<exists>kept. fst (by_id (\<lambda>_. 100) DEFAULT_BYTES (\<lambda>_. Inr (Some ''v2'') :: string + string option) ''LCL-1'' kept) = Inr (Some ''v1'')"
proof -
  let ?w = "hot_write (\<lambda>_. (Inr () :: string + unit, ''v2'')) ''LCL-1'' (''v1'', snd (by_id_look ''LCL-1'' (layer_new :: string layer)))"
  obtain written now evicted where w: "?w = (written, now, evicted)" by (metis prod_cases3)
  show ?thesis
    using an_overlapping_read_leaves_a_stale_record [OF _ _ w, of "\<lambda>_. Inr (Some ''v2'') :: string + string option"] by auto
qed

end
