(* ===== verification/Calendar_Date.thy ===== *)
theory Calendar_Date
  imports Exact_Decimal
begin

section \<open>Calendar dates\<close>

text \<open>
  \<open>crates/domain/src/date.rs\<close>: a day as year, month and day, counted in days since
  1970-01-01, read from and written as \<open>YYYY-MM-DD\<close>; and the same arithmetic as
  \<open>crates/runtime/src/lease.rs\<close> repeats it for its time stamps (\<open>civil\<close>, \<open>micro_time\<close>).
  The machine integers hold every value these functions make of a date, and of a count
  of days 719,468 or more below the largest \<open>i64\<close>, so all numbers are \<open>int\<close>; texts are the
  bytes of the string.
\<close>

record date =
  dt_year :: int
  dt_month :: int
  dt_day :: int

definition NS_PER_DAY :: int where "NS_PER_DAY = 86400 * 1000000000"

definition days_in :: "int \<Rightarrow> int \<Rightarrow> int" where
  "days_in y m =
     (if m \<in> {1, 3, 5, 7, 8, 10, 12} then 31
      else if m \<in> {4, 6, 9, 11} then 30
      else if 4 dvd y \<and> \<not> 100 dvd y \<or> 400 dvd y then 29
      else 28)"

definition from_ymd :: "int \<Rightarrow> int \<Rightarrow> int \<Rightarrow> date option" where
  "from_ymd y m d =
     (if 1 \<le> y \<and> y \<le> 9999 \<and> 1 \<le> m \<and> m \<le> 12 \<and> d \<ge> 1 \<and> d \<le> days_in y m
      then Some \<lparr>dt_year = y, dt_month = m, dt_day = d\<rparr> else None)"

definition date_less :: "date \<Rightarrow> date \<Rightarrow> bool" where
  "date_less a b \<longleftrightarrow> dt_year a < dt_year b
     \<or> dt_year a = dt_year b \<and> (dt_month a < dt_month b \<or> dt_month a = dt_month b \<and> dt_day a < dt_day b)"

subsection \<open>Texts\<close>

datatype invalid_date = InvalidDate string

definition digits_of :: "string \<Rightarrow> int option" where
  "digits_of part = (if list_all is_digit part then Some (read_uint part) else None)"

definition parse_date :: "string \<Rightarrow> invalid_date + date" where
  "parse_date t =
     (if length t \<noteq> 10 \<or> t ! 4 \<noteq> CHR ''-'' \<or> t ! 7 \<noteq> CHR ''-'' then Inl (InvalidDate t)
      else case (digits_of (take 4 t), digits_of (take 2 (drop 5 t)), digits_of (take 2 (drop 8 t))) of
        (Some y, Some m, Some d) \<Rightarrow>
          (case from_ymd y m d of None \<Rightarrow> Inl (InvalidDate t) | Some dt \<Rightarrow> Inr dt)
      | _ \<Rightarrow> Inl (InvalidDate t))"

definition show_date :: "date \<Rightarrow> string" where
  "show_date d = pad0 4 (show_uint (dt_year d)) @ ''-'' @ pad0 2 (show_uint (dt_month d)) @ ''-'' @ pad0 2 (show_uint (dt_day d))"

definition is_date :: "string \<Rightarrow> bool" where
  "is_date t \<longleftrightarrow> (case parse_date t of Inl _ \<Rightarrow> False | Inr _ \<Rightarrow> True)"

definition optional_date :: "string \<Rightarrow> string \<Rightarrow> string \<times> invalid_date + date option" where
  "optional_date field t =
     (if t = [] then Inr None
      else case parse_date t of Inl i \<Rightarrow> Inl (field, i) | Inr d \<Rightarrow> Inr (Some d))"

subsection \<open>Days\<close>

definition days_since_epoch :: "date \<Rightarrow> int" where
  "days_since_epoch dt =
     (let m = dt_month dt; d = dt_day dt;
          y = dt_year dt - (if m \<le> 2 then 1 else 0);
          era = y div 400; yoe = y mod 400; mp = (m + 9) mod 12;
          doy = (153 * mp + 2) div 5 + d - 1;
          doe = yoe * 365 + yoe div 4 - yoe div 100 + doy
      in era * 146097 + doe - 719468)"

text \<open>Civil-from-days, as both crates compute it.\<close>

definition civil :: "int \<Rightarrow> int \<times> int \<times> int" where
  "civil days =
     (let z = days + 719468; era = z div 146097; doe = z mod 146097;
          yoe = (doe - doe div 1460 + doe div 36524 - doe div 146096) div 365;
          doy = doe - (365 * yoe + yoe div 4 - yoe div 100);
          mp = (5 * doy + 2) div 153;
          d = doy - (153 * mp + 2) div 5 + 1;
          m = (if mp < 10 then mp + 3 else mp - 9)
      in (yoe + era * 400 + (if m \<le> 2 then 1 else 0), m, d))"

definition from_days :: "int \<Rightarrow> date option" where
  "from_days days =
     (let (y, m, d) = civil days in
      if 0 \<le> y \<and> y < 2 ^ 16 \<and> 0 \<le> m \<and> m < 2 ^ 8 \<and> 0 \<le> d \<and> d < 2 ^ 8 then from_ymd y m d else None)"

definition of_utc_instant :: "int \<Rightarrow> date" where
  "of_utc_instant ns =
     (case from_days (ns div NS_PER_DAY) of
        Some d \<Rightarrow> d | None \<Rightarrow> \<lparr>dt_year = 1970, dt_month = 1, dt_day = 1\<rparr>)"

definition next_date :: "date \<Rightarrow> date option" where
  "next_date d = from_days (days_since_epoch d + 1)"

text \<open>A Kubernetes time stamp of the deployment's clock.\<close>

definition micro_time :: "int \<Rightarrow> string" where
  "micro_time wall_ns =
     (let secs = wall_ns div 1000000000; micros = wall_ns mod 1000000000 div 1000;
          of_day = secs mod 86400; (y, m, d) = civil (secs div 86400)
      in pad0 4 (show_uint y) @ ''-'' @ pad0 2 (show_uint m) @ ''-'' @ pad0 2 (show_uint d) @ ''T''
         @ pad0 2 (show_uint (of_day div 3600)) @ '':'' @ pad0 2 (show_uint (of_day div 60 mod 60)) @ '':''
         @ pad0 2 (show_uint (of_day mod 60)) @ ''.'' @ pad0 6 (show_uint micros) @ ''Z'')"

section \<open>Facts\<close>

text \<open>A year counted from March, its place in its era of 400 years split into centuries, fours
  and years; the day of that year.\<close>

definition in_era :: "int \<Rightarrow> int \<Rightarrow> int \<Rightarrow> int \<Rightarrow> bool" where
  "in_era c b a doy \<longleftrightarrow> 0 \<le> c \<and> c \<le> 3 \<and> 0 \<le> b \<and> b \<le> 24 \<and> 0 \<le> a \<and> a \<le> 3 \<and> 0 \<le> doy
     \<and> doy \<le> (if a = 3 \<and> (b < 24 \<or> c = 3) then 365 else 364)"

lemma div_is: "k * n \<le> (x :: int) \<Longrightarrow> x < (k + 1) * n \<Longrightarrow> 0 < n \<Longrightarrow> x div n = k"
  using int_div_pos_eq [of x n k "x - n * k"] by (simp add: algebra_simps)

lemma era_year:
  assumes "in_era c b a doy"
  defines "yoe \<equiv> 100 * c + 4 * b + a"
  defines "doe \<equiv> 365 * yoe + yoe div 4 - yoe div 100 + doy"
  shows "doe = 36524 * c + 1461 * b + 365 * a + doy" "0 \<le> doe" "doe \<le> 146096" "0 \<le> yoe" "yoe \<le> 399"
    and "(doe - doe div 1460 + doe div 36524 - doe div 146096) div 365 = yoe"
proof -
  have c: "0 \<le> c" "c \<le> 3" "0 \<le> b" "b \<le> 24" "0 \<le> a" "a \<le> 3" "0 \<le> doy" "doy \<le> 365"
    using assms(1) by (auto simp: in_era_def split: if_splits)
  have "yoe div 4 = 25 * c + b" unfolding yoe_def using c by (intro div_is) auto
  moreover have "yoe div 100 = c" unfolding yoe_def using c by (intro div_is) auto
  ultimately show doe: "doe = 36524 * c + 1461 * b + 365 * a + doy" by (simp add: doe_def yoe_def)
  show "0 \<le> doe" "0 \<le> yoe" "yoe \<le> 399" using c by (simp_all add: doe yoe_def)
  have short: "1461 * b + 365 * a + doy \<le> (if c = 3 then 36524 else 36523)"
    using assms(1) c by (auto simp: in_era_def split: if_splits)
  then show "doe \<le> 146096" using c by (simp add: doe split: if_splits)
  define e where "e = (if 1460 \<le> 24 * c + b + 365 * a + doy then 1 else (0 :: int))"
  have "doe div 1460 = 25 * c + b + e"
    unfolding doe e_def using c by (intro div_is) auto
  moreover have "doe div 36524 - doe div 146096 = c"
  proof (cases "doe = 146096")
    case True
    with doe short c have "c = 3" by (auto split: if_splits)
    with True show ?thesis by simp
  next
    case False
    have "doe < (c + 1) * 36524" using doe short c False by (auto split: if_splits)
    then have "doe div 36524 = c" using c doe by (intro div_is) auto
    moreover have "doe div 146096 = 0" using False \<open>doe \<le> 146096\<close> c doe by (intro div_is) auto
    ultimately show ?thesis by simp
  qed
  ultimately have "doe - doe div 1460 + doe div 36524 - doe div 146096 = 365 * yoe + (doy - e)"
    by (simp add: doe yoe_def)
  moreover have "0 \<le> doy - e" "doy - e < 365"
    using assms(1) c by (auto simp: e_def in_era_def split: if_splits)
  ultimately show "(doe - doe div 1460 + doe div 36524 - doe div 146096) div 365 = yoe"
    by (intro div_is) auto
qed

text \<open>Every day of an era is in some year of it.\<close>

lemma era_has:
  assumes "0 \<le> doe" "doe \<le> (146096 :: int)"
  obtains c b a doy where "in_era c b a doy" "doe = 36524 * c + 1461 * b + 365 * a + doy"
proof -
  define c where "c = min 3 (doe div 36524)"
  define r where "r = doe - 36524 * c"
  have c: "0 \<le> c" "c \<le> 3" "0 \<le> r" "r \<le> (if c = 3 then 36524 else 36523)"
    using assms by (auto simp: c_def r_def min_def)
  define b where "b = r div 1461"
  define s where "s = r - 1461 * b"
  have b: "0 \<le> b" "b \<le> 24" "0 \<le> s" "s \<le> 1460" using c by (auto simp: b_def s_def split: if_splits)
  have last: "s \<le> 1459" if "b = 24" "c \<noteq> 3" using c that by (auto simp: s_def)
  define a where "a = min 3 (s div 365)"
  define doy where "doy = s - 365 * a"
  have "0 \<le> a" "a \<le> 3" "0 \<le> doy" "doy \<le> (if a = 3 then 365 else 364)" using b by (auto simp: a_def doy_def min_def)
  then have "in_era c b a doy" using c b last by (auto simp: in_era_def doy_def split: if_splits)
  moreover have "doe = 36524 * c + 1461 * b + 365 * a + doy" by (simp add: r_def s_def doy_def)
  ultimately show thesis by (rule that)
qed

text \<open>The months of a year from March: where each starts, and which a day is in.\<close>

definition month_start :: "int \<Rightarrow> int" where "month_start mp = (153 * mp + 2) div 5"

lemma mp_cases: "0 \<le> mp \<Longrightarrow> mp \<le> (11 :: int) \<Longrightarrow>
    mp = 0 \<or> mp = 1 \<or> mp = 2 \<or> mp = 3 \<or> mp = 4 \<or> mp = 5 \<or> mp = 6 \<or> mp = 7 \<or> mp = 8 \<or> mp = 9 \<or> mp = 10 \<or> mp = 11"
  by presburger

lemma month_of_day:
  assumes "0 \<le> mp" "mp \<le> 11" "month_start mp \<le> doy" "doy < (if mp = 11 then 366 else month_start (mp + 1))"
  shows "(5 * doy + 2) div 153 = mp"
  using mp_cases [OF assms(1,2)] assms(3,4) by (auto simp: month_start_def intro!: div_is)

lemma day_has_month:
  assumes "0 \<le> doy" "doy \<le> 365"
  shows "0 \<le> (5 * doy + 2) div 153" "(5 * doy + 2) div 153 \<le> 11" "month_start ((5 * doy + 2) div 153) \<le> doy"
    "doy < (if (5 * doy + 2) div 153 = 11 then 366 else month_start ((5 * doy + 2) div 153 + 1))"
proof -
  let ?mp = "(5 * doy + 2) div 153"
  show mp: "0 \<le> ?mp" "?mp \<le> 11" using assms by auto
  have "153 * ?mp \<le> 5 * doy + 2" "5 * doy + 2 < 153 * ?mp + 153" by presburger+
  then show "month_start ?mp \<le> doy" "doy < (if ?mp = 11 then 366 else month_start (?mp + 1))"
    using assms by (auto simp: month_start_def)
qed

text \<open>The month of the calendar a month from March is, and how long it is.\<close>

definition calendar_month :: "int \<Rightarrow> int" where "calendar_month mp = (if mp < 10 then mp + 3 else mp - 9)"

lemma calendar_month_inverse:
  assumes "1 \<le> m" "m \<le> 12"
  shows "0 \<le> (m + 9) mod 12" "(m + 9) mod 12 \<le> 11" "calendar_month ((m + 9) mod 12) = m"
    "10 \<le> (m + 9) mod 12 \<longleftrightarrow> m \<le> 2"
proof -
  have "m \<in> {1, 2, 3, 4, 5, 6, 7, 8, 9, 10, 11, 12}" using assms by (simp, presburger)
  then show "0 \<le> (m + 9) mod 12" "(m + 9) mod 12 \<le> 11" "calendar_month ((m + 9) mod 12) = m"
    "10 \<le> (m + 9) mod 12 \<longleftrightarrow> m \<le> 2"
    by (auto simp: calendar_month_def)
qed

lemma month_calendar_inverse:
  assumes "0 \<le> mp" "mp \<le> 11"
  shows "(calendar_month mp + 9) mod 12 = mp" "1 \<le> calendar_month mp" "calendar_month mp \<le> 12"
    "calendar_month mp \<le> 2 \<longleftrightarrow> 10 \<le> mp"
  using mp_cases [OF assms] by (elim disjE; simp add: calendar_month_def)+

definition leap :: "int \<Rightarrow> bool" where "leap y \<longleftrightarrow> 4 dvd y \<and> \<not> 100 dvd y \<or> 400 dvd y"

lemma days_in_month:
  assumes "0 \<le> mp" "mp \<le> 11"
  shows "days_in y (calendar_month mp) =
    (if mp = 11 then (if leap y then 366 else 365) else month_start (mp + 1)) - month_start mp"
  using mp_cases [OF assms] by (elim disjE; simp add: calendar_month_def month_start_def days_in_def leap_def)

lemma dvd_at_most: "0 < k \<Longrightarrow> k \<le> (n :: int) \<Longrightarrow> n dvd k \<longleftrightarrow> k = n"
  using zdvd_imp_le by fastforce

lemma leap_in_era:
  assumes "0 \<le> c" "c \<le> 3" "0 \<le> b" "b \<le> 24" "0 \<le> a" "a \<le> (3 :: int)"
  shows "leap (100 * c + 4 * b + a + era * 400 + 1) \<longleftrightarrow> a = 3 \<and> (b < 24 \<or> c = 3)"
proof -
  let ?y = "100 * c + 4 * b + a + era * 400 + 1"
  have y: "?y = 4 * (25 * c + b + 100 * era) + (a + 1)" "?y = 100 * (c + 4 * era) + (4 * b + a + 1)"
    "?y = 400 * era + (100 * c + 4 * b + a + 1)" by simp_all
  have "4 dvd ?y \<longleftrightarrow> 4 dvd (a + 1)" unfolding y(1) by (rule dvd_add_right_iff) simp
  then have four: "4 dvd ?y \<longleftrightarrow> a = 3" using dvd_at_most [of "a + 1" 4] assms by auto
  have "100 dvd ?y \<longleftrightarrow> 100 dvd (4 * b + a + 1)" unfolding y(2) by (rule dvd_add_right_iff) simp
  then have hundred: "100 dvd ?y \<longleftrightarrow> 4 * b + a + 1 = 100" using dvd_at_most [of "4 * b + a + 1" 100] assms by auto
  have "400 dvd ?y \<longleftrightarrow> 400 dvd (100 * c + 4 * b + a + 1)" unfolding y(3) by (rule dvd_add_right_iff) simp
  then have hundreds: "400 dvd ?y \<longleftrightarrow> 100 * c + 4 * b + a + 1 = 400"
    using dvd_at_most [of "100 * c + 4 * b + a + 1" 400] assms by auto
  show ?thesis unfolding leap_def four hundred hundreds using assms by linarith
qed

text \<open>Days counted from a place in an era, and back.\<close>

lemma era_split:
  assumes "0 \<le> doe" "doe \<le> (146096 :: int)"
  shows "(era * 146097 + doe) div 146097 = era" "(era * 146097 + doe) mod 146097 = doe"
  using assms by simp_all

lemma civil_in_era:
  assumes "in_era c b a doy"
  defines "mp \<equiv> (5 * doy + 2) div 153"
  shows "civil (era * 146097 + (36524 * c + 1461 * b + 365 * a + doy) - 719468) =
    (100 * c + 4 * b + a + era * 400 + (if 10 \<le> mp then 1 else 0), calendar_month mp, doy - month_start mp + 1)"
proof -
  define yoe where "yoe = 100 * c + 4 * b + a"
  define doe where "doe = 365 * yoe + yoe div 4 - yoe div 100 + doy"
  note e = era_year [OF assms(1), folded yoe_def, folded doe_def]
  have doy: "doe - (365 * yoe + yoe div 4 - yoe div 100) = doy" by (simp add: doe_def)
  have "0 \<le> doy" "doy \<le> 365" using assms(1) by (auto simp: in_era_def split: if_splits)
  note m = day_has_month [OF this, folded mp_def]
  have month: "(if mp < 10 then mp + 3 else mp - 9) \<le> 2 \<longleftrightarrow> 10 \<le> mp" using m by auto
  have "civil (era * 146097 + doe - 719468) =
      (yoe + era * 400 + (if 10 \<le> mp then 1 else 0), calendar_month mp, doy - month_start mp + 1)"
    unfolding civil_def Let_def diff_add_cancel era_split [OF e(2,3)] e(6) doy mp_def [symmetric] month
    by (simp add: month_start_def calendar_month_def)
  then show ?thesis unfolding e(1) [symmetric] yoe_def .
qed

lemma days_in_era:
  assumes "in_era c b a doy"
  defines "mp \<equiv> (5 * doy + 2) div 153"
  shows "days_since_epoch \<lparr>dt_year = 100 * c + 4 * b + a + era * 400 + (if 10 \<le> mp then 1 else 0),
      dt_month = calendar_month mp, dt_day = doy - month_start mp + 1\<rparr> =
    era * 146097 + (36524 * c + 1461 * b + 365 * a + doy) - 719468"
proof -
  define yoe where "yoe = 100 * c + 4 * b + a"
  define doe where "doe = 365 * yoe + yoe div 4 - yoe div 100 + doy"
  note e = era_year [OF assms(1), folded yoe_def, folded doe_def]
  have "0 \<le> doy" "doy \<le> 365" using assms(1) by (auto simp: in_era_def split: if_splits)
  note m = day_has_month [OF this, folded mp_def]
  note inv = month_calendar_inverse [OF m(1,2)]
  have y: "(yoe + era * 400) div 400 = era" "(yoe + era * 400) mod 400 = yoe" using e(4,5) by simp_all
  have same: "yoe + era * 400 + (if 10 \<le> mp then 1 else 0) - (if 10 \<le> mp then 1 else 0) = yoe + era * 400" by simp
  have "days_since_epoch \<lparr>dt_year = yoe + era * 400 + (if 10 \<le> mp then 1 else 0),
      dt_month = calendar_month mp, dt_day = doy - month_start mp + 1\<rparr> = era * 146097 + doe - 719468"
    unfolding days_since_epoch_def Let_def date.select_convs inv(1) inv(4) same y month_start_def [symmetric]
    by (simp add: doe_def)
  then show ?thesis unfolding e(1) [symmetric] yoe_def .
qed

subsection \<open>Days and dates are the same\<close>

definition a_day :: "int \<Rightarrow> int \<Rightarrow> int \<Rightarrow> bool" where
  "a_day y m d \<longleftrightarrow> 1 \<le> m \<and> m \<le> 12 \<and> 1 \<le> d \<and> d \<le> days_in y m"

lemma era_day:
  assumes "in_era c b a doy"
  defines "mp \<equiv> (5 * doy + 2) div 153"
  shows "a_day (100 * c + 4 * b + a + era * 400 + (if 10 \<le> mp then 1 else 0)) (calendar_month mp) (doy - month_start mp + 1)"
proof -
  have c: "0 \<le> c" "c \<le> 3" "0 \<le> b" "b \<le> 24" "0 \<le> a" "a \<le> 3" "0 \<le> doy" "doy \<le> 365"
    using assms(1) by (auto simp: in_era_def split: if_splits)
  note m = day_has_month [OF c(7,8), folded mp_def]
  show ?thesis
    using m month_calendar_inverse [OF m(1,2)] assms(1) leap_in_era [OF c(1-6), of era]
    by (auto simp: a_day_def days_in_month [OF m(1,2)] in_era_def split: if_splits)
qed

lemma day_in_era:
  assumes "a_day y m d"
  obtains era c b a doy where "in_era c b a doy" "m = calendar_month ((5 * doy + 2) div 153)"
    "y = 100 * c + 4 * b + a + era * 400 + (if 10 \<le> (5 * doy + 2) div 153 then 1 else 0)"
    "d = doy - month_start ((5 * doy + 2) div 153) + 1"
proof -
  define mp where "mp = (m + 9) mod 12"
  have m: "0 \<le> mp" "mp \<le> 11" "calendar_month mp = m" "10 \<le> mp \<longleftrightarrow> m \<le> 2"
    using calendar_month_inverse [of m] assms by (simp_all add: a_day_def mp_def)
  define y' where "y' = y - (if 10 \<le> mp then 1 else 0)"
  define era where "era = y' div 400"
  define c where "c = y' mod 400 div 100"
  define b where "b = y' mod 400 mod 100 div 4"
  define a where "a = y' mod 400 mod 100 mod 4"
  have y': "y' = 100 * c + 4 * b + a + era * 400" by (simp add: era_def c_def b_def a_def)
  have c: "0 \<le> c" "c \<le> 3" "0 \<le> b" "b \<le> 24" "0 \<le> a" "a \<le> 3"
    by (simp_all add: c_def b_def a_def)
  define doy where "doy = month_start mp + d - 1"
  have d: "month_start mp \<le> doy" "doy < (if mp = 11 then (if leap y then 366 else 365) else month_start (mp + 1))"
    using assms days_in_month [OF m(1,2), of y] m(3) by (auto simp: a_day_def doy_def)
  then have mp: "(5 * doy + 2) div 153 = mp" using m by (intro month_of_day) (auto split: if_splits)
  have starts: "0 \<le> month_start mp" "mp < 11 \<Longrightarrow> month_start (mp + 1) \<le> 337" using m by (auto simp: month_start_def)
  have "y = y' + 1" if "mp = 11" using that by (simp add: y'_def)
  then have "in_era c b a doy"
    using c d starts m(2) leap_in_era [OF c, of era] y' by (cases "mp = 11") (auto simp: in_era_def)
  moreover have "y = 100 * c + 4 * b + a + era * 400 + (if 10 \<le> mp then 1 else 0)" using y' by (simp add: y'_def)
  moreover have "d = doy - month_start mp + 1" by (simp add: doy_def)
  ultimately show thesis using that m(3) mp by metis
qed

lemma civil_of_days:
  assumes "a_day y m d"
  shows "civil (days_since_epoch \<lparr>dt_year = y, dt_month = m, dt_day = d\<rparr>) = (y, m, d)"
  using day_in_era [OF assms] civil_in_era days_in_era by metis

lemma days_of_civil:
  assumes "civil n = (y, m, d)"
  shows "a_day y m d" "days_since_epoch \<lparr>dt_year = y, dt_month = m, dt_day = d\<rparr> = n"
proof -
  define era where "era = (n + 719468) div 146097"
  define doe where "doe = (n + 719468) mod 146097"
  have doe: "0 \<le> doe" "doe \<le> 146096" "n = era * 146097 + doe - 719468" by (simp_all add: era_def doe_def)
  obtain c b a doy where e: "in_era c b a doy" "doe = 36524 * c + 1461 * b + 365 * a + doy"
    using era_has [OF doe(1,2)] by blast
  have n: "n = era * 146097 + (36524 * c + 1461 * b + 365 * a + doy) - 719468" using doe(3) e(2) by simp
  show "a_day y m d" "days_since_epoch \<lparr>dt_year = y, dt_month = m, dt_day = d\<rparr> = n"
    using assms civil_in_era [OF e(1), of era] days_in_era [OF e(1), of era] era_day [OF e(1), of era]
    by (auto simp flip: n)
qed

subsection \<open>Order\<close>

text \<open>The days before the first of March of a year, and how long that year is.\<close>

definition year_start :: "int \<Rightarrow> int" where
  "year_start y = 365 * y + y div 4 - y div 100 + y div 400"

lemma div_step:
  assumes "0 < n"
  shows "(y + 1) div n = y div n + (if n dvd y + 1 then 1 else (0 :: int))"
proof -
  define q r where "q = y div n" and "r = y mod n"
  have y: "y = q * n + r" "0 \<le> r" "r < n" using assms by (simp_all add: q_def r_def)
  have "n dvd y + 1 \<longleftrightarrow> n dvd r + 1"
    unfolding y(1) using dvd_add_right_iff [of n "q * n" "r + 1"] by (simp add: add.assoc)
  also have "\<dots> \<longleftrightarrow> r + 1 = n" using dvd_at_most [of "r + 1" n] y by auto
  finally have d: "n dvd y + 1 \<longleftrightarrow> r + 1 = n" .
  show ?thesis
  proof (cases "r + 1 = n")
    case True
    then have "(y + 1) div n = q + 1" using y by (intro div_is) (auto simp: algebra_simps)
    with d True show ?thesis by (simp add: q_def)
  next
    case False
    then have "(y + 1) div n = q" using y by (intro div_is) (auto simp: algebra_simps)
    with d False show ?thesis by (simp add: q_def)
  qed
qed

lemma year_start_step: "year_start (y + 1) = year_start y + (if leap (y + 1) then 366 else 365)"
proof -
  have "100 dvd y + 1" if "400 dvd y + 1" by (rule dvd_trans [OF _ that]) simp
  moreover have "4 dvd y + 1" if "100 dvd y + 1" by (rule dvd_trans [OF _ that]) simp
  ultimately show ?thesis by (auto simp: year_start_def div_step leap_def)
qed

lemma year_start_mono: "y \<le> z \<Longrightarrow> year_start y \<le> year_start z"
proof (induction z rule: int_ge_induct)
  case (step z)
  then show ?case using year_start_step [of z] by (auto split: if_splits)
qed simp

lemma days_from_year_start:
  assumes "1 \<le> m" "m \<le> 12"
  shows "days_since_epoch \<lparr>dt_year = y, dt_month = m, dt_day = d\<rparr> =
    year_start (y - (if m \<le> 2 then 1 else 0)) + month_start ((m + 9) mod 12) + d - 1 - 719468"
proof -
  define y' where "y' = y - (if m \<le> 2 then 1 else 0)"
  define era yoe where "era = y' div 400" and "yoe = y' mod 400"
  have y': "y' = 400 * era + yoe" by (simp add: era_def yoe_def)
  have "y' div 4 = 100 * era + yoe div 4" "y' div 100 = 4 * era + yoe div 100"
    using div_mult_self4 [of 4 "100 * era" yoe] div_mult_self4 [of 100 "4 * era" yoe] by (simp_all add: y')
  then have "year_start y' = era * 146097 + (yoe * 365 + yoe div 4 - yoe div 100)"
    unfolding year_start_def era_def [symmetric] using y' by linarith
  then show ?thesis
    unfolding days_since_epoch_def Let_def date.select_convs y'_def [symmetric] era_def [symmetric] yoe_def [symmetric] month_start_def
    by linarith
qed

lemma month_start_mono: "mp \<le> mp' \<Longrightarrow> month_start mp \<le> month_start mp'"
  unfolding month_start_def by (intro zdiv_mono1) simp_all

lemma later_day_later:
  assumes "a_day y m d" "a_day z n e" "y < z \<or> y = z \<and> (m < n \<or> m = n \<and> d < e)"
  shows "days_since_epoch \<lparr>dt_year = y, dt_month = m, dt_day = d\<rparr> < days_since_epoch \<lparr>dt_year = z, dt_month = n, dt_day = e\<rparr>"
proof -
  let ?y = "y - (if m \<le> 2 then 1 else 0)" and ?z = "z - (if n \<le> 2 then 1 else 0)"
  let ?mp = "(m + 9) mod 12" and ?np = "(n + 9) mod 12"
  have m: "1 \<le> m" "m \<le> 12" "1 \<le> d" and n: "1 \<le> n" "n \<le> 12" "1 \<le> e" using assms(1,2) by (auto simp: a_day_def)
  note mp = calendar_month_inverse [OF m(1,2)] and np = calendar_month_inverse [OF n(1,2)]
  have len: "month_start ?mp + d - 1 < (if ?mp = 11 then (if leap (?y + 1) then 366 else 365) else month_start (?mp + 1))"
    using assms(1) days_in_month [OF mp(1,2), of y] mp(3,4) by (auto simp: a_day_def)
  have start: "0 \<le> month_start ?mp" "0 \<le> month_start ?np" "?mp < 11 \<Longrightarrow> month_start (?mp + 1) \<le> 337"
    using mp np month_start_mono [of "?mp + 1" 11] month_start_mono [of 0] by (auto simp: month_start_def)
  have len': "month_start ?mp + d - 1 < (if leap (?y + 1) then 366 else 365)"
  proof (cases "?mp = 11")
    case False
    then have "?mp < 11" using mp(2) by simp
    with len start(3) False show ?thesis by simp
  qed (use len in simp)
  have months: "m + 9 - 12 * (if m \<le> 2 then 0 else 1) = ?mp" "n + 9 - 12 * (if n \<le> 2 then 0 else 1) = ?np"
    using m n by (auto simp: mod_pos_pos_trivial) presburger+
  consider "?y < ?z" | "?y = ?z" "?mp < ?np" | "?y = ?z" "?mp = ?np" "d < e"
    using assms(3) months m n by (cases "y < z - 1") (auto split: if_splits)
  then have "year_start ?y + month_start ?mp + d < year_start ?z + month_start ?np + e"
  proof cases
    case 1
    have "year_start (?y + 1) \<le> year_start ?z" using 1 by (intro year_start_mono) simp
    moreover note year_start_step [of ?y]
    ultimately show ?thesis using len' start(2) n(3) by linarith
  next
    case 2
    then have "month_start (?mp + 1) \<le> month_start ?np" by (intro month_start_mono) simp
    then show ?thesis using 2 len np n by (auto split: if_splits)
  qed simp
  then show ?thesis using days_from_year_start [OF m(1,2)] days_from_year_start [OF n(1,2)] by simp
qed

subsection \<open>Texts\<close>

lemma read_pad0: "read_uint (pad0 w s) = read_uint s"
  using read_drop_zeros [of "pad0 w s"] read_drop_zeros [of s] by (simp add: pad0_drop)

lemma pad0_shown:
  assumes "0 \<le> n" "n < 10 ^ Suc k"
  shows "length (pad0 (Suc k) (show_uint n)) = Suc k" "digits_of (pad0 (Suc k) (show_uint n)) = Some n"
  using length_show_uint [OF assms] show_uint_digits [OF assms(1)] read_show_uint [OF assms(1)]
  by (simp_all add: digits_of_def pad0_digits read_pad0) (simp add: pad0_def)

text \<open>Digits of a width state one number, and are how it is written at that width.\<close>

lemma read_uint_less: "list_all is_digit s \<Longrightarrow> read_uint s < 10 ^ length s"
proof (induction s)
  case (Cons c s)
  then have "digit_val c * 10 ^ length s \<le> 9 * 10 ^ length s"
    using digit_val_bounds [of c] by (intro mult_right_mono) auto
  moreover have "read_uint s < 10 ^ length s" using Cons by simp
  ultimately show ?case unfolding read_uint_Cons length_Cons power_Suc by linarith
qed simp

lemma digit_val_inj: "is_digit c \<Longrightarrow> is_digit d \<Longrightarrow> digit_val c = digit_val d \<Longrightarrow> c = d"
  by (simp add: digit_val_def of_char_eq_iff)

lemma read_uint_inj:
  "list_all is_digit s \<Longrightarrow> list_all is_digit t \<Longrightarrow> length s = length t \<Longrightarrow> read_uint s = read_uint t \<Longrightarrow> s = t"
proof (induction s arbitrary: t rule: rev_induct)
  case (snoc c s)
  then obtain d u where t: "t = u @ [d]" by (cases t rule: rev_cases) auto
  have c: "is_digit c" "is_digit d" "list_all is_digit s" "list_all is_digit u" using snoc.prems t by auto
  have e: "10 * read_uint s + digit_val c = 10 * read_uint u + digit_val d" using snoc.prems t by simp
  have "0 \<le> digit_val c" "digit_val c \<le> 9" "0 \<le> digit_val d" "digit_val d \<le> 9"
    using digit_val_bounds c by auto
  with e have "read_uint s = read_uint u" by presburger
  moreover from this e have "digit_val c = digit_val d" by simp
  ultimately show ?case using snoc.IH [of u] snoc.prems t c digit_val_inj by simp
qed simp

lemma digits_are_padded:
  assumes "digits_of s = Some n" "length s = Suc k"
  shows "pad0 (Suc k) (show_uint n) = s" "0 \<le> n" "n < 10 ^ Suc k"
proof -
  have d: "list_all is_digit s" "read_uint s = n" using assms(1) by (auto simp: digits_of_def split: if_splits)
  show n: "0 \<le> n" "n < 10 ^ Suc k" using read_uint_nonneg [OF d(1)] read_uint_less [OF d(1)] d(2) assms(2) by simp_all
  show "pad0 (Suc k) (show_uint n) = s"
    using pad0_shown [OF n] d assms(2) by (intro read_uint_inj) (auto simp: digits_of_def split: if_splits)
qed

lemma from_ymd_Some:
  "from_ymd y m d = Some dt \<longleftrightarrow> 1 \<le> y \<and> y \<le> 9999 \<and> a_day y m d \<and> dt = \<lparr>dt_year = y, dt_month = m, dt_day = d\<rparr>"
  by (auto simp: from_ymd_def a_day_def)

lemma a_day_small: "a_day y m d \<Longrightarrow> 1 \<le> m \<and> m < 100 \<and> 1 \<le> d \<and> d < 100"
  by (auto simp: a_day_def days_in_def split: if_splits)

lemma parts_parse:
  assumes "length y = 4" "length m = 2" "length d = 2"
    and "digits_of y = Some a" "digits_of m = Some b" "digits_of d = Some c"
  shows "parse_date (y @ ''-'' @ m @ ''-'' @ d) =
    (case from_ymd a b c of None \<Rightarrow> Inl (InvalidDate (y @ ''-'' @ m @ ''-'' @ d)) | Some dt \<Rightarrow> Inr dt)"
proof -
  define t where "t = y @ ''-'' @ m @ ''-'' @ d"
  have "length t = 10" "t ! 4 = CHR ''-''" "t ! 7 = CHR ''-''" "take 4 t = y" "take 2 (drop 5 t) = m" "take 2 (drop 8 t) = d"
    using assms(1-3) by (simp_all add: nth_append t_def)
  then show ?thesis using assms(3-6) unfolding parse_date_def t_def [symmetric] by simp
qed

lemma shown_parses:
  assumes "1 \<le> dt_year dt" "dt_year dt \<le> 9999" "a_day (dt_year dt) (dt_month dt) (dt_day dt)"
  shows "parse_date (show_date dt) = Inr dt"
proof -
  note small = a_day_small [OF assms(3)]
  have "from_ymd (dt_year dt) (dt_month dt) (dt_day dt) = Some dt" using assms by (simp add: from_ymd_Some)
  moreover note parts_parse [of "pad0 4 (show_uint (dt_year dt))" "pad0 2 (show_uint (dt_month dt))" "pad0 2 (show_uint (dt_day dt))"]
  ultimately show ?thesis
    using pad0_shown [of "dt_year dt" 3] pad0_shown [of "dt_month dt" 1] pad0_shown [of "dt_day dt" 1] small assms(1,2)
    by (simp add: show_date_def numeral_2_eq_2)
qed

lemma split_ten:
  assumes "length t = 10" "t ! 4 = c" "t ! 7 = c"
  shows "t = take 4 t @ [c] @ take 2 (drop 5 t) @ [c] @ take 2 (drop 8 t)"
proof -
  have "t = take 4 t @ drop 4 t" by simp
  also have "drop 4 t = c # drop 5 t" using assms Cons_nth_drop_Suc [of 4 t] by simp
  also have "drop 5 t = take 2 (drop 5 t) @ drop 7 t" using append_take_drop_id [of 2 "drop 5 t"] by simp
  also have "drop 7 t = c # drop 8 t" using assms Cons_nth_drop_Suc [of 7 t] by simp
  also have "drop 8 t = take 2 (drop 8 t)" using assms(1) by simp
  finally show ?thesis by simp
qed

lemma parsed_shows:
  assumes "parse_date t = Inr dt"
  shows "show_date dt = t" "1 \<le> dt_year dt" "dt_year dt \<le> 9999" "a_day (dt_year dt) (dt_month dt) (dt_day dt)"
proof -
  have t: "length t = 10" "t ! 4 = CHR ''-''" "t ! 7 = CHR ''-''"
    using assms by (auto simp: parse_date_def split: if_splits)
  then obtain y m d where p: "digits_of (take 4 t) = Some y" "digits_of (take 2 (drop 5 t)) = Some m"
      "digits_of (take 2 (drop 8 t)) = Some d" "from_ymd y m d = Some dt"
    using assms by (auto simp: parse_date_def split: option.splits)
  then have dt: "1 \<le> y" "y \<le> 9999" "a_day y m d" "dt = \<lparr>dt_year = y, dt_month = m, dt_day = d\<rparr>"
    by (auto simp: from_ymd_Some)
  then show "1 \<le> dt_year dt" "dt_year dt \<le> 9999" "a_day (dt_year dt) (dt_month dt) (dt_day dt)" by simp_all
  show "show_date dt = t"
    using digits_are_padded(1) [OF p(1), of 3] digits_are_padded(1) [OF p(2), of 1] digits_are_padded(1) [OF p(3), of 1] t(1)
      split_ten [OF t] by (simp add: show_date_def dt(4) numeral_2_eq_2)
qed

subsection \<open>The years 1 to 9999\<close>

lemma counted_back:
  assumes "from_ymd y m d = Some dt"
  shows "from_days (days_since_epoch dt) = Some dt"
proof -
  have e: "a_day y m d" "dt = \<lparr>dt_year = y, dt_month = m, dt_day = d\<rparr>" "1 \<le> y" "y \<le> 9999"
    using assms by (auto simp: from_ymd_Some)
  then show ?thesis
    using civil_of_days [OF e(1)] a_day_small [OF e(1)] assms by (simp add: from_days_def)
qed

lemma counted:
  assumes "from_days n = Some dt"
  obtains y m d where "a_day y m d" "dt = \<lparr>dt_year = y, dt_month = m, dt_day = d\<rparr>" "days_since_epoch dt = n"
proof -
  obtain y m d where c: "civil n = (y, m, d)" by (cases "civil n") auto
  with assms have "from_ymd y m d = Some dt" by (auto simp: from_days_def split: if_splits)
  then show thesis using that days_of_civil [OF c] by (auto simp: from_ymd_Some)
qed

lemma dates_end:
  "days_since_epoch \<lparr>dt_year = 1, dt_month = 1, dt_day = 1\<rparr> = - 719162" "a_day 1 1 1"
  "days_since_epoch \<lparr>dt_year = 9999, dt_month = 12, dt_day = 31\<rparr> = 2932896" "a_day 9999 12 31"
  "days_since_epoch \<lparr>dt_year = 0, dt_month = 12, dt_day = 31\<rparr> = - 719163" "a_day 0 12 31"
  "days_since_epoch \<lparr>dt_year = 10000, dt_month = 1, dt_day = 1\<rparr> = 2932897" "a_day 10000 1 1"
  by (simp_all add: days_since_epoch_def a_day_def days_in_def)

lemma dates_range: "from_days n \<noteq> None \<longleftrightarrow> - 719162 \<le> n \<and> n \<le> 2932896"
proof -
  obtain y m d where c: "civil n = (y, m, d)" by (cases "civil n") auto
  note s = days_of_civil [OF c] and small = a_day_small [OF days_of_civil(1) [OF c]]
  have "from_days n \<noteq> None \<longleftrightarrow> 1 \<le> y \<and> y \<le> 9999"
    using c s(1) small from_ymd_Some [of y m d] by (auto simp: from_days_def)
  also have "\<dots> \<longleftrightarrow> - 719162 \<le> n \<and> n \<le> 2932896"
  proof
    assume "1 \<le> y \<and> y \<le> 9999"
    with later_day_later [of 0 12 31 y m d] later_day_later [of y m d 10000 1 1] s dates_end
    show "- 719162 \<le> n \<and> n \<le> 2932896" by simp
  next
    assume "- 719162 \<le> n \<and> n \<le> 2932896"
    with later_day_later [of y m d 1 1 1] later_day_later [of 9999 12 31 y m d] s dates_end
    show "1 \<le> y \<and> y \<le> 9999" by (cases "1 \<le> y"; cases "y \<le> 9999") simp_all
  qed
  finally show ?thesis .
qed

lemma dates_order:
  assumes "from_days n = Some a" "from_days k = Some b"
  shows "date_less a b \<longleftrightarrow> n < k"
proof -
  obtain y m d where a: "a_day y m d" "a = \<lparr>dt_year = y, dt_month = m, dt_day = d\<rparr>" "days_since_epoch a = n"
    using counted [OF assms(1)] by blast
  obtain y' m' d' where b: "a_day y' m' d'" "b = \<lparr>dt_year = y', dt_month = m', dt_day = d'\<rparr>" "days_since_epoch b = k"
    using counted [OF assms(2)] by blast
  have "n < k" if "date_less a b"
    using later_day_later [OF a(1) b(1)] that a(2,3) b(2,3) by (auto simp: date_less_def)
  moreover have "k < n" if "date_less b a"
    using later_day_later [OF b(1) a(1)] that a(2,3) b(2,3) by (auto simp: date_less_def)
  moreover have "date_less a b \<or> a = b \<or> date_less b a" using a(2) b(2) by (auto simp: date_less_def)
  moreover have "\<not> date_less a a" by (simp add: date_less_def)
  ultimately show ?thesis using a(3) b(3) by fastforce
qed

section \<open>Properties\<close>

text \<open>Days and dates are the same: a date counted in days and read back is the same date, the
  date of any count of days counts to it, a count is a date exactly within the years 1 to
  9999, and dates order as their counts do.\<close>

theorem days_count_dates:
  "(from_ymd y m d = Some dt \<longrightarrow> from_days (days_since_epoch dt) = Some dt)
    \<and> (from_days n = Some dt' \<longrightarrow> days_since_epoch dt' = n)
    \<and> (from_days n \<noteq> None \<longleftrightarrow> - 719162 \<le> n \<and> n \<le> 2932896)
    \<and> (from_days n = Some dt' \<and> from_days k = Some dt'' \<longrightarrow> (date_less dt' dt'' \<longleftrightarrow> n < k))"
proof (intro conjI impI)
  show "from_days (days_since_epoch dt) = Some dt" if "from_ymd y m d = Some dt" by (rule counted_back [OF that])
  show "days_since_epoch dt' = n" if "from_days n = Some dt'" using counted [OF that] by blast
  show "from_days n \<noteq> None \<longleftrightarrow> - 719162 \<le> n \<and> n \<le> 2932896" by (rule dates_range)
  show "date_less dt' dt'' \<longleftrightarrow> n < k" if "from_days n = Some dt' \<and> from_days k = Some dt''"
    using dates_order that by blast
qed

theorem days_count_dates_witness:
  "from_days (days_since_epoch \<lparr>dt_year = 2024, dt_month = 2, dt_day = 29\<rparr>) = Some \<lparr>dt_year = 2024, dt_month = 2, dt_day = 29\<rparr>"
proof -
  have "from_ymd 2024 2 29 = Some \<lparr>dt_year = 2024, dt_month = 2, dt_day = 29\<rparr>" by (simp add: from_ymd_def days_in_def)
  then show ?thesis using days_count_dates [of 2024 2 29] by blast
qed

text \<open>A date reads back as written, and what is read is what is written: a real day's text
  parses to it, and a text is accepted only where it is exactly the text of the day it
  states -- no other width, sign or separator, and no day that does not exist.\<close>

theorem dates_read_back_as_written:
  "(from_ymd y m d = Some dt \<longrightarrow> parse_date (show_date dt) = Inr dt)
    \<and> (parse_date t = Inr dt' \<longrightarrow> show_date dt' = t \<and> from_ymd (dt_year dt') (dt_month dt') (dt_day dt') = Some dt')"
  using shown_parses parsed_shows by (force simp: from_ymd_Some)

theorem dates_read_back_as_written_witness:
  "show_date \<lparr>dt_year = 2026, dt_month = 10, dt_day = 9\<rparr> = ''2026-10-09''"
proof -
  have "parse_date ''2026-10-09'' = Inr \<lparr>dt_year = 2026, dt_month = 10, dt_day = 9\<rparr>" by code_simp
  then show ?thesis using dates_read_back_as_written by blast
qed

end
