(* ===== verification/Order_Records.thy ===== *)
theory Order_Records
  imports Exact_Decimal
begin

section \<open>The order path's messages\<close>

text \<open>
  The contract's messages the order path of a book keeps (\<open>crates/domain/src/v1.rs\<close>): orders,
  placements, executions, charges, locates, bookings, alerts, with every field each has, and
  the enumerations its states, conditions and events are numbered by. A decimal is the wire's
  (\<open>Exact_Decimal\<close>); a machine integer nothing is computed from is an \<open>int\<close> or, unsigned, a
  \<open>nat\<close>. \<open>Default\<close> is the message with every field unset.
\<close>

subsection \<open>Enumerations\<close>

text \<open>The contract's enumerations, each with its number on the wire; a field holds the number
  (an \<open>i32\<close>), and \<open>try_from\<close> reads it back.\<close>

definition enum_of :: "('e \<Rightarrow> int) \<Rightarrow> 'e list \<Rightarrow> int \<Rightarrow> 'e option" where
  "enum_of no every n = find (\<lambda>e. no e = n) every"

datatype order_state = OUnspecified | OProposed | ORefused | OReleased | OWorking | OFilled
    | OCancelled | OExpired

primrec order_state_no :: "order_state \<Rightarrow> int" where
  "order_state_no OUnspecified = 0"
| "order_state_no OProposed = 1"
| "order_state_no ORefused = 2"
| "order_state_no OReleased = 3"
| "order_state_no OWorking = 4"
| "order_state_no OFilled = 5"
| "order_state_no OCancelled = 6"
| "order_state_no OExpired = 7"

definition order_state_of :: "int \<Rightarrow> order_state option" where
  "order_state_of = enum_of order_state_no
     [OUnspecified, OProposed, ORefused, OReleased, OWorking, OFilled,
      OCancelled, OExpired]"

datatype placement_state = PUnspecified | PQueued | PSent | PWorking | PDoneForDay | PFilled
    | PCancelled | PExpired | PRejected

primrec placement_state_no :: "placement_state \<Rightarrow> int" where
  "placement_state_no PUnspecified = 0"
| "placement_state_no PQueued = 1"
| "placement_state_no PSent = 2"
| "placement_state_no PWorking = 3"
| "placement_state_no PDoneForDay = 4"
| "placement_state_no PFilled = 5"
| "placement_state_no PCancelled = 6"
| "placement_state_no PExpired = 7"
| "placement_state_no PRejected = 8"

datatype order_condition = CUnspecified | CChangeRequested | CApprovalRequired | CAwaitingCheck
    | CClaimed | CHeld | CPaused | COutcomeUnknown | CDoesNotTieOut | CLateFact

primrec order_condition_no :: "order_condition \<Rightarrow> int" where
  "order_condition_no CUnspecified = 0"
| "order_condition_no CChangeRequested = 1"
| "order_condition_no CApprovalRequired = 2"
| "order_condition_no CAwaitingCheck = 3"
| "order_condition_no CClaimed = 4"
| "order_condition_no CHeld = 5"
| "order_condition_no CPaused = 6"
| "order_condition_no COutcomeUnknown = 7"
| "order_condition_no CDoesNotTieOut = 8"
| "order_condition_no CLateFact = 9"

definition order_condition_of :: "int \<Rightarrow> order_condition option" where
  "order_condition_of = enum_of order_condition_no
     [CUnspecified, CChangeRequested, CApprovalRequired, CAwaitingCheck, CClaimed, CHeld,
      CPaused, COutcomeUnknown, CDoesNotTieOut, CLateFact]"

datatype placement_condition = PCUnspecified | PCChangeRequested | PCOutcomeUnknown
    | PCSuspended | PCAwaitingTrigger | PCSentOnStaleReference

primrec placement_condition_no :: "placement_condition \<Rightarrow> int" where
  "placement_condition_no PCUnspecified = 0"
| "placement_condition_no PCChangeRequested = 1"
| "placement_condition_no PCOutcomeUnknown = 2"
| "placement_condition_no PCSuspended = 3"
| "placement_condition_no PCAwaitingTrigger = 4"
| "placement_condition_no PCSentOnStaleReference = 5"

definition placement_condition_of :: "int \<Rightarrow> placement_condition option" where
  "placement_condition_of = enum_of placement_condition_no
     [PCUnspecified, PCChangeRequested, PCOutcomeUnknown, PCSuspended, PCAwaitingTrigger, PCSentOnStaleReference]"

datatype execution_state = XUnspecified | XUnmatched | XMatched | XDontKnow

primrec execution_state_no :: "execution_state \<Rightarrow> int" where
  "execution_state_no XUnspecified = 0"
| "execution_state_no XUnmatched = 1"
| "execution_state_no XMatched = 2"
| "execution_state_no XDontKnow = 3"

datatype execution_kind = KUnspecified | KVenueReported | KManual | KFromInventory | KDoneAway
    | KFromChildOrders | KInternalCross | KInferred

primrec execution_kind_no :: "execution_kind \<Rightarrow> int" where
  "execution_kind_no KUnspecified = 0"
| "execution_kind_no KVenueReported = 1"
| "execution_kind_no KManual = 2"
| "execution_kind_no KFromInventory = 3"
| "execution_kind_no KDoneAway = 4"
| "execution_kind_no KFromChildOrders = 5"
| "execution_kind_no KInternalCross = 6"
| "execution_kind_no KInferred = 7"

datatype finality_level = FUnspecified | FAwaitingAcceptance | FMatched | FIncluded | FFinal
    | FFailed

primrec finality_level_no :: "finality_level \<Rightarrow> int" where
  "finality_level_no FUnspecified = 0"
| "finality_level_no FAwaitingAcceptance = 1"
| "finality_level_no FMatched = 2"
| "finality_level_no FIncluded = 3"
| "finality_level_no FFinal = 4"
| "finality_level_no FFailed = 5"

definition finality_level_of :: "int \<Rightarrow> finality_level option" where
  "finality_level_of = enum_of finality_level_no
     [FUnspecified, FAwaitingAcceptance, FMatched, FIncluded, FFinal, FFailed]"

datatype placement_event = VUnspecified | VSent | VAcknowledged | VReplaced | VDoneForDay
    | VRestated | VSuspended | VTriggered | VCancelled | VExpired | VRejected | VOutcomeUnknown
    | VOutcomeResolved

primrec placement_event_no :: "placement_event \<Rightarrow> int" where
  "placement_event_no VUnspecified = 0"
| "placement_event_no VSent = 1"
| "placement_event_no VAcknowledged = 2"
| "placement_event_no VReplaced = 3"
| "placement_event_no VDoneForDay = 4"
| "placement_event_no VRestated = 5"
| "placement_event_no VSuspended = 6"
| "placement_event_no VTriggered = 7"
| "placement_event_no VCancelled = 8"
| "placement_event_no VExpired = 9"
| "placement_event_no VRejected = 10"
| "placement_event_no VOutcomeUnknown = 11"
| "placement_event_no VOutcomeResolved = 12"

definition placement_event_of :: "int \<Rightarrow> placement_event option" where
  "placement_event_of = enum_of placement_event_no
     [VUnspecified, VSent, VAcknowledged, VReplaced, VDoneForDay, VRestated,
      VSuspended, VTriggered, VCancelled, VExpired, VRejected, VOutcomeUnknown,
      VOutcomeResolved]"

datatype change_outcome = RUnspecified | RPending | RApplied | RRejected

primrec change_outcome_no :: "change_outcome \<Rightarrow> int" where
  "change_outcome_no RUnspecified = 0"
| "change_outcome_no RPending = 1"
| "change_outcome_no RApplied = 2"
| "change_outcome_no RRejected = 3"

datatype order_change_kind = OKUnspecified | OKCancel | OKAmend | OKRecall | OKWithdraw
    | OKQuantity

primrec order_change_kind_no :: "order_change_kind \<Rightarrow> int" where
  "order_change_kind_no OKUnspecified = 0"
| "order_change_kind_no OKCancel = 1"
| "order_change_kind_no OKAmend = 2"
| "order_change_kind_no OKRecall = 3"
| "order_change_kind_no OKWithdraw = 4"
| "order_change_kind_no OKQuantity = 5"

definition order_change_kind_of :: "int \<Rightarrow> order_change_kind option" where
  "order_change_kind_of = enum_of order_change_kind_no
     [OKUnspecified, OKCancel, OKAmend, OKRecall, OKWithdraw, OKQuantity]"

datatype placement_change_kind = PKUnspecified | PKCancel | PKReplace

primrec placement_change_kind_no :: "placement_change_kind \<Rightarrow> int" where
  "placement_change_kind_no PKUnspecified = 0"
| "placement_change_kind_no PKCancel = 1"
| "placement_change_kind_no PKReplace = 2"

definition placement_change_kind_of :: "int \<Rightarrow> placement_change_kind option" where
  "placement_change_kind_of = enum_of placement_change_kind_no
     [PKUnspecified, PKCancel, PKReplace]"

datatype order_link_kind = LUnspecified | LSplit | LNet

primrec order_link_kind_no :: "order_link_kind \<Rightarrow> int" where
  "order_link_kind_no LUnspecified = 0"
| "order_link_kind_no LSplit = 1"
| "order_link_kind_no LNet = 2"

datatype order_origin = GUnspecified | GTelephoned | GAcceptedExecution

primrec order_origin_no :: "order_origin \<Rightarrow> int" where
  "order_origin_no GUnspecified = 0"
| "order_origin_no GTelephoned = 2"
| "order_origin_no GAcceptedExecution = 3"

datatype order_type = TUnspecified | TMarket | TLimit | TStop | TStopLimit | TRequestForQuote

primrec order_type_no :: "order_type \<Rightarrow> int" where
  "order_type_no TUnspecified = 0"
| "order_type_no TMarket = 1"
| "order_type_no TLimit = 2"
| "order_type_no TStop = 3"
| "order_type_no TStopLimit = 4"
| "order_type_no TRequestForQuote = 5"

datatype time_in_force = IUnspecified | IDay | IGoodTillCancelled | IGoodTillDate
    | IGoodTillTime | IImmediateOrCancel | IFillOrKill | IAtTheOpen | IAtTheClose

primrec time_in_force_no :: "time_in_force \<Rightarrow> int" where
  "time_in_force_no IUnspecified = 0"
| "time_in_force_no IDay = 1"
| "time_in_force_no IGoodTillCancelled = 2"
| "time_in_force_no IGoodTillDate = 3"
| "time_in_force_no IGoodTillTime = 4"
| "time_in_force_no IImmediateOrCancel = 5"
| "time_in_force_no IFillOrKill = 6"
| "time_in_force_no IAtTheOpen = 7"
| "time_in_force_no IAtTheClose = 8"

definition time_in_force_of :: "int \<Rightarrow> time_in_force option" where
  "time_in_force_of = enum_of time_in_force_no
     [IUnspecified, IDay, IGoodTillCancelled, IGoodTillDate, IGoodTillTime, IImmediateOrCancel,
      IFillOrKill, IAtTheOpen, IAtTheClose]"

datatype quote_outcome = QUnspecified | QOpen | QPicked | QAccepted | QExpired | QWithdrawn
    | QNotPicked

primrec quote_outcome_no :: "quote_outcome \<Rightarrow> int" where
  "quote_outcome_no QUnspecified = 0"
| "quote_outcome_no QOpen = 1"
| "quote_outcome_no QPicked = 2"
| "quote_outcome_no QAccepted = 3"
| "quote_outcome_no QExpired = 4"
| "quote_outcome_no QWithdrawn = 5"
| "quote_outcome_no QNotPicked = 6"

definition quote_outcome_of :: "int \<Rightarrow> quote_outcome option" where
  "quote_outcome_of = enum_of quote_outcome_no
     [QUnspecified, QOpen, QPicked, QAccepted, QExpired, QWithdrawn,
      QNotPicked]"

datatype booking_state = BUnspecified | BBooked | BHeld | BHandedOff | BClosed | BCancelled

primrec booking_state_no :: "booking_state \<Rightarrow> int" where
  "booking_state_no BUnspecified = 0"
| "booking_state_no BBooked = 1"
| "booking_state_no BHeld = 2"
| "booking_state_no BHandedOff = 3"
| "booking_state_no BClosed = 4"
| "booking_state_no BCancelled = 5"

datatype alert_kind = AKUnspecified | AKErrorAccountBooking | AKBookingHeld | AKCompliance

primrec alert_kind_no :: "alert_kind \<Rightarrow> int" where
  "alert_kind_no AKUnspecified = 0"
| "alert_kind_no AKErrorAccountBooking = 1"
| "alert_kind_no AKBookingHeld = 2"
| "alert_kind_no AKCompliance = 3"

definition alert_kind_of :: "int \<Rightarrow> alert_kind option" where
  "alert_kind_of = enum_of alert_kind_no
     [AKUnspecified, AKErrorAccountBooking, AKBookingHeld, AKCompliance]"

datatype alert_state = AUnspecified | ARaised | AAcknowledged | ACleared

primrec alert_state_no :: "alert_state \<Rightarrow> int" where
  "alert_state_no AUnspecified = 0"
| "alert_state_no ARaised = 1"
| "alert_state_no AAcknowledged = 2"
| "alert_state_no ACleared = 3"

datatype locate_use_kind = UUnspecified | UReserve | UGiveBack | UConsume

primrec locate_use_kind_no :: "locate_use_kind \<Rightarrow> int" where
  "locate_use_kind_no UUnspecified = 0"
| "locate_use_kind_no UReserve = 1"
| "locate_use_kind_no UGiveBack = 2"
| "locate_use_kind_no UConsume = 3"

definition locate_use_kind_of :: "int \<Rightarrow> locate_use_kind option" where
  "locate_use_kind_of = enum_of locate_use_kind_no
     [UUnspecified, UReserve, UGiveBack, UConsume]"

datatype tie_out = EUnspecified | EOverfill | ERestatement

primrec tie_out_no :: "tie_out \<Rightarrow> int" where
  "tie_out_no EUnspecified = 0"
| "tie_out_no EOverfill = 1"
| "tie_out_no ERestatement = 2"

datatype verdict = CVUnspecified | CVPass | CVWarn | CVBlock | CVRefuse

primrec verdict_no :: "verdict \<Rightarrow> int" where
  "verdict_no CVUnspecified = 0"
| "verdict_no CVPass = 1"
| "verdict_no CVWarn = 2"
| "verdict_no CVBlock = 3"
| "verdict_no CVRefuse = 4"

definition verdict_of :: "int \<Rightarrow> verdict option" where
  "verdict_of = enum_of verdict_no
     [CVUnspecified, CVPass, CVWarn, CVBlock, CVRefuse]"

datatype side = SDUnspecified | SDBuy | SDSell | SDSellShort | SDSellShortExempt

primrec side_no :: "side \<Rightarrow> int" where
  "side_no SDUnspecified = 0"
| "side_no SDBuy = 1"
| "side_no SDSell = 2"
| "side_no SDSellShort = 3"
| "side_no SDSellShortExempt = 4"

definition side_of :: "int \<Rightarrow> side option" where
  "side_of = enum_of side_no
     [SDUnspecified, SDBuy, SDSell, SDSellShort, SDSellShortExempt]"

subsection \<open>Messages\<close>

text \<open>A message none of whose fields the order path reads is held as its encoding.\<close>

type_synonym encoded = string

record money =
  mo_amount :: "decimal option"
  mo_currency_code :: string
  mo_instrument_id :: string

definition money_default :: money where
  "money_default =
     \<lparr>mo_amount = None, mo_currency_code = [], mo_instrument_id = []\<rparr>"

record fee =
  fe_kind :: int
  fe_amount :: "money option"
  fe_capitalised :: bool

record journal_ref =
  jr_partition :: string
  jr_sequence :: nat
  jr_previous_sequence :: nat

record person_actor =
  pa_subject :: string
  pa_delegation_id :: string
  pa_client_name :: string
  pa_prepared_call_id :: string

record system_actor =
  sya_instance_id :: string

record service_actor =
  sva_subject :: string
  sva_owner_subject :: string
  sva_algorithm_id :: string

record venue_actor =
  va_instance_id :: string
  va_venue_id :: string

datatype actor_kind = ByPerson person_actor | BySystem system_actor | ByService service_actor | ByVenue venue_actor

record actor =
  at_kind :: "actor_kind option"

datatype claim_user = ClaimPerson person_actor | ClaimService service_actor

record claimant =
  cl_instance_id :: string
  cl_user :: "claim_user option"

record stale_reference =
  sr_dataset :: string
  sr_age_ns :: int
  sr_ceiling_ns :: int

definition stale_reference_default :: stale_reference where
  "stale_reference_default =
     \<lparr>sr_dataset = [], sr_age_ns = 0, sr_ceiling_ns = 0\<rparr>"

record allocation_line =
  aln_account_id :: string
  aln_quantity :: "decimal option"
  aln_weight :: "decimal option"
  aln_sleeve :: string

record allocation_instruction =
  ai_lines :: "allocation_line list"

record person_roles =
  pr_entered_by :: "actor option"
  pr_executed_by :: "actor option"
  pr_decided_by :: "actor option"

definition person_roles_default :: person_roles where
  "person_roles_default =
     \<lparr>pr_entered_by = None, pr_executed_by = None, pr_decided_by = None\<rparr>"

record reference_version =
  rv_instrument_id :: string
  rv_version :: int

record instruction_target =
  itg_all_accounts :: bool
  itg_account_id :: string
  itg_instance_id :: string
  itg_subject :: string
  itg_service_account_id :: string
  itg_user_group_id :: string

record entry_meta =
  em_entry_id :: string
  em_kind :: string
  em_actor :: "actor option"
  em_event_time_ns :: int
  em_received_at_ns :: int
  em_effective_date :: string
  em_control_sequence :: nat
  em_reference_versions :: "reference_version list"
  em_reason :: string
  em_break_ids :: "string list"
  em_idempotency_key :: string

record finality =
  fi_level :: int
  fi_at_ns :: int

record order_link =
  ol_kind :: int
  ol_parent_order_id :: string

definition order_link_default :: order_link where
  "order_link_default =
     \<lparr>ol_kind = 0, ol_parent_order_id = []\<rparr>"

record order_standing =
  oc_condition :: int
  oc_reason :: string
  oc_actor :: "actor option"
  oc_claimant :: "claimant option"
  oc_tie_out_reason :: int
  oc_hold_cause :: int
  oc_stale_reference :: "stale_reference option"

definition order_standing_default :: order_standing where
  "order_standing_default =
     \<lparr>oc_condition = 0, oc_reason = [], oc_actor = None, oc_claimant = None,
      oc_tie_out_reason = 0, oc_hold_cause = 0, oc_stale_reference = None\<rparr>"

record order_quantities =
  oq_ordered :: "decimal option"
  oq_reported_filled :: "decimal option"
  oq_final_filled :: "decimal option"
  oq_awaiting_acceptance :: "decimal option"
  oq_committed :: "decimal option"
  oq_idle :: "decimal option"
  oq_leaves :: "decimal option"

record order_status =
  os_state :: int
  os_conditions :: "order_standing list"
  os_quantities :: "order_quantities option"

record check_verdict =
  ck_verdict :: int
  ck_order_version :: nat
  ck_placement_id :: string
  ck_rule :: string
  ck_note :: string
  ck_instance_id :: string
  ck_recorded_by :: "actor option"

record order_change =
  och_kind :: int
  och_quantity :: "decimal option"
  och_limit_price :: "money option"
  och_time_in_force :: int
  och_allocation_instruction :: "allocation_instruction option"
  och_execution_instructions :: "int list"

definition order_change_default :: order_change where
  "order_change_default =
     \<lparr>och_kind = 0, och_quantity = None, och_limit_price = None, och_time_in_force = 0,
      och_allocation_instruction = None, och_execution_instructions = []\<rparr>"

record placement_change =
  pch_kind :: int
  pch_quantity :: "decimal option"
  pch_limit_price :: "money option"
  pch_time_in_force :: int

definition placement_change_default :: placement_change where
  "placement_change_default =
     \<lparr>pch_kind = 0, pch_quantity = None, pch_limit_price = None, pch_time_in_force = 0\<rparr>"

datatype change = OfOrder order_change | OfPlacement placement_change

record change_request =
  cr_change_request_id :: string
  cr_order_id :: string
  cr_placement_id :: string
  cr_reason :: string
  cr_entry :: "entry_meta option"
  cr_outcome :: int
  cr_change :: "change option"

definition change_request_default :: change_request where
  "change_request_default =
     \<lparr>cr_change_request_id = [], cr_order_id = [], cr_placement_id = [], cr_reason = [],
      cr_entry = None, cr_outcome = 0, cr_change = None\<rparr>"

record placement_quote =
  pq_quote_id :: string
  pq_dealer_id :: string
  pq_dealer_quote_id :: string
  pq_side :: int
  pq_price :: "money option"
  pq_quantity :: "decimal option"
  pq_received_at_ns :: int
  pq_valid_until_ns :: int
  pq_outcome :: int
  pq_raw_record :: "encoded option"

record placement_standing =
  pc_condition :: int
  pc_reason :: string
  pc_actor :: "actor option"
  pc_unknown_reason :: int
  pc_status_as_reported :: "encoded option"
  pc_stale_reference :: "stale_reference option"

definition placement_standing_default :: placement_standing where
  "placement_standing_default =
     \<lparr>pc_condition = 0, pc_reason = [], pc_actor = None, pc_unknown_reason = 0,
      pc_status_as_reported = None, pc_stale_reference = None\<rparr>"

record placement_status =
  ps_state :: int
  ps_conditions :: "placement_standing list"

record placement =
  pl_placement_id :: string
  pl_order_id :: string
  pl_account_id :: string
  pl_ems_instance_id :: string
  pl_connectivity_instance_id :: string
  pl_venue_account_code :: string
  pl_quantity :: "decimal option"
  pl_limit_price :: "money option"
  pl_time_in_force :: int
  pl_strategy :: "encoded option"
  pl_destination :: string
  pl_route_type :: int
  pl_routed_at_ns :: int
  pl_routed_precision :: int
  pl_handling_instructions :: "string list"
  pl_rfq_id :: string
  pl_axe_id :: string
  pl_venue_order_id :: string
  pl_status :: "placement_status option"
  pl_person_roles :: "person_roles option"
  pl_checks :: "check_verdict list"
  pl_rejection_reason :: int
  pl_rejection_as_reported :: "encoded option"
  pl_last_change :: "journal_ref option"
  pl_venue_order_ids :: "string list"
  pl_change_requests :: "change_request list"
  pl_placement_type :: int
  pl_counterparty_contact :: string
  pl_agreed_at_ns :: int
  pl_agreed_precision :: int
  pl_quotes :: "placement_quote list"
  pl_picked_quote_id :: string

definition placement_default :: placement where
  "placement_default =
     \<lparr>pl_placement_id = [], pl_order_id = [], pl_account_id = [], pl_ems_instance_id = [],
      pl_connectivity_instance_id = [], pl_venue_account_code = [], pl_quantity = None,
      pl_limit_price = None, pl_time_in_force = 0, pl_strategy = None, pl_destination = [],
      pl_route_type = 0, pl_routed_at_ns = 0, pl_routed_precision = 0,
      pl_handling_instructions = [], pl_rfq_id = [], pl_axe_id = [], pl_venue_order_id = [],
      pl_status = None, pl_person_roles = None, pl_checks = [], pl_rejection_reason = 0,
      pl_rejection_as_reported = None, pl_last_change = None, pl_venue_order_ids = [],
      pl_change_requests = [], pl_placement_type = 0, pl_counterparty_contact = [],
      pl_agreed_at_ns = 0, pl_agreed_precision = 0, pl_quotes = [], pl_picked_quote_id = []\<rparr>"

record placement_report =
  rp_placement_id :: string
  rp_event :: int
  rp_venue_order_id :: string
  rp_routed_at_ns :: int
  rp_routed_precision :: int
  rp_rejection_reason :: int
  rp_rejection_as_reported :: "encoded option"
  rp_unknown_reason :: int
  rp_status_as_reported :: "encoded option"
  rp_restatement_reason :: int
  rp_quantity :: "decimal option"
  rp_limit_price :: "money option"
  rp_raw_record :: "encoded option"

definition placement_report_default :: placement_report where
  "placement_report_default =
     \<lparr>rp_placement_id = [], rp_event = 0, rp_venue_order_id = [], rp_routed_at_ns = 0,
      rp_routed_precision = 0, rp_rejection_reason = 0, rp_rejection_as_reported = None,
      rp_unknown_reason = 0, rp_status_as_reported = None, rp_restatement_reason = 0,
      rp_quantity = None, rp_limit_price = None, rp_raw_record = None\<rparr>"

record give_up =
  gu_answer :: int
  gu_prime_reference :: string
  gu_reason :: string
  gu_entry :: "entry_meta option"

record execution =
  xe_execution_id :: string
  xe_order_id :: string
  xe_placement_id :: string
  xe_account_id :: string
  xe_instrument_id :: string
  xe_sleeve :: string
  xe_side :: int
  xe_quantity :: "decimal option"
  xe_price :: "money option"
  xe_trade_time_ns :: int
  xe_trade_date :: string
  xe_venue_execution_id :: string
  xe_kind :: int
  xe_source :: int
  xe_finality :: "finality option"
  xe_fees :: "fee list"
  xe_settlement_date :: string
  xe_computed_settlement_date :: string
  xe_settlement_date_basis :: "encoded option"
  xe_supersedes :: string
  xe_venue_id :: string
  xe_uti :: string
  xe_prior_uti :: string
  xe_upi :: string
  xe_given_up_to :: string
  xe_trade_chain_reference :: string
  xe_settlement_counterparty :: string
  xe_person_roles :: "person_roles option"
  xe_raw_record :: "encoded option"
  xe_last_change :: "journal_ref option"
  xe_effective_date :: string
  xe_counterparty :: "encoded option"
  xe_liquidity_indicator :: int
  xe_uti_generated_by :: string
  xe_state :: int
  xe_venue_order_id :: string
  xe_dk_reason :: int
  xe_dk_text :: string
  xe_venue_client_order_id :: string
  xe_give_up_answers :: "give_up list"
  xe_cross_rate_source :: int
  xe_multi_leg_reporting_type :: int
  xe_package_execution_id :: string
  xe_price_basis :: int
  xe_yield :: "encoded option"
  xe_trade_time_precision :: int
  xe_factor_used :: "decimal option"
  xe_settlement_date_unknown :: bool
  xe_contra_party_type :: int
  xe_parties :: "encoded list"
  xe_capacity :: int
  xe_no_remuneration :: bool
  xe_affiliate_back_to_back :: bool
  xe_special_price :: bool
  xe_weighted_average_price :: bool
  xe_primary_market :: bool
  xe_list_offering_price_takedown :: bool
  xe_traded_flat :: bool
  xe_stipulated :: bool
  xe_portfolio_trade :: bool
  xe_special_price_reason :: string
  xe_treasury_trade_modifier :: int
  xe_factor_taken :: "decimal option"
  xe_factor_month_awaited :: string

definition execution_default :: execution where
  "execution_default =
     \<lparr>xe_execution_id = [], xe_order_id = [], xe_placement_id = [], xe_account_id = [],
      xe_instrument_id = [], xe_sleeve = [], xe_side = 0, xe_quantity = None, xe_price = None,
      xe_trade_time_ns = 0, xe_trade_date = [], xe_venue_execution_id = [], xe_kind = 0,
      xe_source = 0, xe_finality = None, xe_fees = [], xe_settlement_date = [],
      xe_computed_settlement_date = [], xe_settlement_date_basis = None, xe_supersedes = [],
      xe_venue_id = [], xe_uti = [], xe_prior_uti = [], xe_upi = [], xe_given_up_to = [],
      xe_trade_chain_reference = [], xe_settlement_counterparty = [], xe_person_roles = None,
      xe_raw_record = None, xe_last_change = None, xe_effective_date = [], xe_counterparty = None,
      xe_liquidity_indicator = 0, xe_uti_generated_by = [], xe_state = 0, xe_venue_order_id = [],
      xe_dk_reason = 0, xe_dk_text = [], xe_venue_client_order_id = [], xe_give_up_answers = [],
      xe_cross_rate_source = 0, xe_multi_leg_reporting_type = 0, xe_package_execution_id = [],
      xe_price_basis = 0, xe_yield = None, xe_trade_time_precision = 0, xe_factor_used = None,
      xe_settlement_date_unknown = False, xe_contra_party_type = 0, xe_parties = [],
      xe_capacity = 0, xe_no_remuneration = False, xe_affiliate_back_to_back = False,
      xe_special_price = False, xe_weighted_average_price = False, xe_primary_market = False,
      xe_list_offering_price_takedown = False, xe_traded_flat = False, xe_stipulated = False,
      xe_portfolio_trade = False, xe_special_price_reason = [], xe_treasury_trade_modifier = 0,
      xe_factor_taken = None, xe_factor_month_awaited = []\<rparr>"

record charge =
  ch_charge_id :: string
  ch_placement_id :: string
  ch_order_id :: string
  ch_account_id :: string
  ch_fee :: "fee option"
  ch_trade_date :: string
  ch_settlement_date :: string
  ch_raw_record :: "encoded option"

definition charge_default :: charge where
  "charge_default =
     \<lparr>ch_charge_id = [], ch_placement_id = [], ch_order_id = [], ch_account_id = [],
      ch_fee = None, ch_trade_date = [], ch_settlement_date = [], ch_raw_record = None\<rparr>"

record execution_report =
  rx_placement_id :: string
  rx_order_id :: string
  rx_account_id :: string
  rx_venue_account_code :: string
  rx_venue_execution_id :: string
  rx_kind :: int
  rx_source :: int
  rx_quantity :: "decimal option"
  rx_price :: "money option"
  rx_trade_time_ns :: int
  rx_trade_date :: string
  rx_finality :: "finality option"
  rx_settlement_date :: string
  rx_computed_settlement_date :: string
  rx_settlement_date_basis :: "encoded option"
  rx_fees :: "fee list"
  rx_supersedes :: string
  rx_venue_id :: string
  rx_uti :: string
  rx_prior_uti :: string
  rx_upi :: string
  rx_given_up_to :: string
  rx_trade_chain_reference :: string
  rx_settlement_counterparty :: string
  rx_raw_record :: "encoded option"
  rx_idempotency_key :: string
  rx_effective_date :: string
  rx_counterparty :: "encoded option"
  rx_liquidity_indicator :: int
  rx_uti_generated_by :: string
  rx_instrument_id :: string
  rx_side :: int
  rx_venue_order_id :: string
  rx_venue_client_order_id :: string
  rx_cross_rate_source :: int
  rx_multi_leg_reporting_type :: int
  rx_package_execution_id :: string
  rx_price_basis :: int
  rx_yield :: "encoded option"
  rx_trade_time_precision :: int
  rx_factor_used :: "decimal option"
  rx_settlement_date_unknown :: bool
  rx_contra_party_type :: int
  rx_parties :: "encoded list"
  rx_capacity :: int
  rx_no_remuneration :: bool
  rx_affiliate_back_to_back :: bool
  rx_special_price :: bool
  rx_weighted_average_price :: bool
  rx_primary_market :: bool
  rx_list_offering_price_takedown :: bool
  rx_traded_flat :: bool
  rx_stipulated :: bool
  rx_portfolio_trade :: bool
  rx_special_price_reason :: string
  rx_treasury_trade_modifier :: int

datatype placed_fact = FactExecution execution_report | FactPlacement placement_report | FactCharge encoded
  | FactLocate encoded | FactValueDateRoll encoded | FactGiveUp encoded

record unplaced_fact =
  uf_unplaced_id :: string
  uf_account_id :: string
  uf_fact_kind :: string
  uf_reason :: int
  uf_raw_record :: "encoded option"
  uf_venue_account_code :: string
  uf_placed_by :: "journal_ref option"
  uf_last_change :: "journal_ref option"
  uf_fact :: "placed_fact option"

record locate_answer =
  la_quantity_approved :: "decimal option"
  la_rate :: "decimal option"
  la_expires_at_ns :: int
  la_locate_id :: string

definition locate_answer_default :: locate_answer where
  "locate_answer_default =
     \<lparr>la_quantity_approved = None, la_rate = None, la_expires_at_ns = 0, la_locate_id = []\<rparr>"

record locate_use =
  lu_kind :: int
  lu_quantity :: "decimal option"
  lu_order_id :: string

definition locate_use_default :: locate_use where
  "locate_use_default =
     \<lparr>lu_kind = 0, lu_quantity = None, lu_order_id = []\<rparr>"

record locate =
  lo_locate_record_id :: string
  lo_account_id :: string
  lo_instrument_id :: string
  lo_quantity_requested :: "decimal option"
  lo_answer :: "locate_answer option"
  lo_locate_id :: string
  lo_remaining :: "decimal option"
  lo_uses :: "locate_use list"
  lo_raw_record :: "encoded option"
  lo_last_change :: "journal_ref option"

definition locate_default :: locate where
  "locate_default =
     \<lparr>lo_locate_record_id = [], lo_account_id = [], lo_instrument_id = [],
      lo_quantity_requested = None, lo_answer = None, lo_locate_id = [], lo_remaining = None,
      lo_uses = [], lo_raw_record = None, lo_last_change = None\<rparr>"

record trading_instruction =
  ti_target :: "instruction_target option"
  ti_value :: int
  ti_setter_level :: int
  ti_covers :: "string list"
  ti_reason :: string
  ti_entry :: "entry_meta option"
  ti_last_change :: "journal_ref option"

record allocation =
  al_allocation_id :: string
  al_account_id :: string
  al_sleeve :: string
  al_quantity :: "decimal option"
  al_average_price :: "money option"
  al_gross_amount :: "money option"
  al_fees :: "fee list"
  al_net_amount :: "money option"
  al_intended_settlement_date :: string
  al_average_priced :: bool
  al_relieve_lot_ids :: "string list"
  al_reason :: string
  al_error_cause :: int
  al_error_text :: string
  al_give_up_answers :: "give_up list"
  al_accrued_interest :: "money option"
  al_markup :: "money option"
  al_prevailing_market_price :: "money option"
  al_prevailing_market_price_basis :: int
  al_prevailing_market_price_reference :: "encoded option"
  al_capacity :: int
  al_execution_time_ns :: int
  al_execution_time_precision :: int
  al_no_remuneration :: bool

definition allocation_default :: allocation where
  "allocation_default =
     \<lparr>al_allocation_id = [], al_account_id = [], al_sleeve = [], al_quantity = None,
      al_average_price = None, al_gross_amount = None, al_fees = [], al_net_amount = None,
      al_intended_settlement_date = [], al_average_priced = False, al_relieve_lot_ids = [],
      al_reason = [], al_error_cause = 0, al_error_text = [], al_give_up_answers = [],
      al_accrued_interest = None, al_markup = None, al_prevailing_market_price = None,
      al_prevailing_market_price_basis = 0, al_prevailing_market_price_reference = None,
      al_capacity = 0, al_execution_time_ns = 0, al_execution_time_precision = 0,
      al_no_remuneration = False\<rparr>"

record booking =
  bo_booking_id :: string
  bo_order_id :: string
  bo_account_id :: string
  bo_execution_ids :: "string list"
  bo_allocations :: "allocation list"
  bo_state :: int
  bo_held_reason :: string
  bo_last_change :: "journal_ref option"

definition booking_default :: booking where
  "booking_default =
     \<lparr>bo_booking_id = [], bo_order_id = [], bo_account_id = [], bo_execution_ids = [],
      bo_allocations = [], bo_state = 0, bo_held_reason = [], bo_last_change = None\<rparr>"

record sleeve_cross =
  sc_sleeve_cross_id :: string
  sc_account_id :: string
  sc_instrument_id :: string
  sc_giving_sleeve :: string
  sc_receiving_sleeve :: string
  sc_quantity :: "decimal option"
  sc_cross_price :: "money option"
  sc_price_source :: string
  sc_order_ids :: "string list"
  sc_reason :: string

definition sleeve_cross_default :: sleeve_cross where
  "sleeve_cross_default =
     \<lparr>sc_sleeve_cross_id = [], sc_account_id = [], sc_instrument_id = [],
      sc_giving_sleeve = [], sc_receiving_sleeve = [], sc_quantity = None, sc_cross_price = None,
      sc_price_source = [], sc_order_ids = [], sc_reason = []\<rparr>"

record alert_subject =
  as_order_id :: string
  as_booking_id :: string
  as_allocation_id :: string
  as_position :: "encoded option"

record alert_record =
  ar_alert_id :: string
  ar_account_id :: string
  ar_kind :: int
  ar_state :: int
  ar_reason :: string
  ar_subject :: "alert_subject option"
  ar_due_by :: int
  ar_last_change :: "journal_ref option"

definition alert_record_default :: alert_record where
  "alert_record_default =
     \<lparr>ar_alert_id = [], ar_account_id = [], ar_kind = 0, ar_state = 0, ar_reason = [],
      ar_subject = None, ar_due_by = 0, ar_last_change = None\<rparr>"

record order_leg =
  lg_instrument_id :: string
  lg_side :: int
  lg_ratio :: "decimal option"
  lg_position_effect :: int

record order_terms =
  or_order_id :: string
  or_account_id :: string
  or_instrument_id :: string
  or_sleeve :: string
  or_side :: int
  or_locate_id :: string
  or_quantity :: "decimal option"
  or_cash_quantity :: "money option"
  or_order_type :: int
  or_limit_price :: "money option"
  or_stop_price :: "money option"
  or_dealt_currency :: string
  or_quote_currency :: string
  or_legs :: "order_leg list"
  or_allocation_instruction :: "allocation_instruction option"
  or_time_in_force :: int
  or_expire_date :: string
  or_expire_time_ns :: int
  or_execution_instructions :: "int list"
  or_lot_relief_method :: int
  or_relieve_lot_ids :: "string list"
  or_capacity :: int
  or_direction :: int
  or_parties :: "encoded list"
  or_person_roles :: "person_roles option"
  or_customer_id :: string
  or_firm_designated_id :: string
  or_handling_instructions :: "string list"
  or_received_at_ns :: int
  or_received_precision :: int
  or_quote_at_receipt :: "encoded option"
  or_represents_order_ids :: "string list"
  or_axe_source :: string
  or_axe_counterparty_id :: string
  or_link :: "order_link option"
  or_origin :: int
  or_venue_order_id :: string
  or_status :: "order_status option"
  or_checks :: "check_verdict list"
  or_change_requests :: "change_request list"
  or_placements :: "placement list"
  or_executions :: "execution list"
  or_charges :: "charge list"
  or_last_change :: "journal_ref option"
  or_block_member_order_ids :: "string list"
  or_sleeve_cross_ids :: "string list"
  or_net_member_order_ids :: "string list"
  or_value_date :: string
  or_position_effect :: int
  or_price_basis :: int
  or_limit_yield :: "encoded option"
  or_limit_spread_bps :: "decimal option"
  or_benchmark_instrument_id :: string

definition order_terms_default :: order_terms where
  "order_terms_default =
     \<lparr>or_order_id = [], or_account_id = [], or_instrument_id = [], or_sleeve = [],
      or_side = 0, or_locate_id = [], or_quantity = None, or_cash_quantity = None,
      or_order_type = 0, or_limit_price = None, or_stop_price = None, or_dealt_currency = [],
      or_quote_currency = [], or_legs = [], or_allocation_instruction = None, or_time_in_force = 0,
      or_expire_date = [], or_expire_time_ns = 0, or_execution_instructions = [],
      or_lot_relief_method = 0, or_relieve_lot_ids = [], or_capacity = 0, or_direction = 0,
      or_parties = [], or_person_roles = None, or_customer_id = [], or_firm_designated_id = [],
      or_handling_instructions = [], or_received_at_ns = 0, or_received_precision = 0,
      or_quote_at_receipt = None, or_represents_order_ids = [], or_axe_source = [],
      or_axe_counterparty_id = [], or_link = None, or_origin = 0, or_venue_order_id = [],
      or_status = None, or_checks = [], or_change_requests = [], or_placements = [],
      or_executions = [], or_charges = [], or_last_change = None, or_block_member_order_ids = [],
      or_sleeve_cross_ids = [], or_net_member_order_ids = [], or_value_date = [],
      or_position_effect = 0, or_price_basis = 0, or_limit_yield = None,
      or_limit_spread_bps = None, or_benchmark_instrument_id = []\<rparr>"

end
