(* ===== verification/Order_Ledger.thy ===== *)
theory Order_Ledger
  imports Order_Records BTree_Map Rust_Text "HOL-Library.Product_Lexorder"
begin

section \<open>The order path's ledger: what an entry's acts do to it\<close>

text \<open>
  \<open>crates/bor/src/orders.rs\<close>, its first half: the records one account's book holds of the
  order path, the acts an entry is made of (\<open>Act\<close>), and \<open>Ledger::apply\<close>, one definition per
  arm, with \<open>Ledger::reported\<close>, what a venue's report does to a placement. Nothing here
  refuses: an act naming a record the ledger does not hold changes nothing. A \<open>BTreeMap\<close> is
  an ascending association list (\<open>BTree_Map\<close>); \<open>get_mut\<close> is an adjustment.
\<close>

subsection \<open>What the ledger holds\<close>

record factor_row =
  fr_month :: string
  fr_version :: nat
  fr_payment_date :: string
  fr_awaited :: string

definition factor_row_default :: factor_row where
  "factor_row_default = \<lparr>fr_month = [], fr_version = 0, fr_payment_date = [], fr_awaited = []\<rparr>"

definition factor_row_is_empty :: "factor_row \<Rightarrow> bool" where
  "factor_row_is_empty row \<longleftrightarrow> row = factor_row_default"

record order_held =
  h_order :: order_terms
  h_released :: bool
  h_release_requested :: bool
  h_ended :: "order_state option"
  h_ending :: "order_state option"
  h_conditions :: "(int, order_standing) btree"
  h_checks :: "check_verdict list"
  h_overridden_version :: "nat option"
  h_change_requests :: "string list"
  h_placements :: "string list"
  h_executions :: "string list"
  h_charges :: "string list"
  h_children :: "string list"
  h_version :: nat
  h_last_change :: "journal_ref option"
  h_opened_by :: string
  h_opened_at_ns :: int

definition order_held_default :: order_held where
  "order_held_default =
     \<lparr>h_order = order_terms_default, h_released = False, h_release_requested = False, h_ended = None,
      h_ending = None, h_conditions = [], h_checks = [], h_overridden_version = None, h_change_requests = [],
      h_placements = [], h_executions = [], h_charges = [], h_children = [], h_version = 0,
      h_last_change = None, h_opened_by = [], h_opened_at_ns = 0\<rparr>"

record placement_held =
  pd_placement :: placement
  pd_state :: placement_state
  pd_conditions :: "(int, placement_standing) btree"
  pd_checks :: "check_verdict list"
  pd_change_requests :: "string list"
  pd_executions :: "string list"
  pd_charges :: "string list"
  pd_last_change :: "journal_ref option"

record execution_held =
  xd_execution :: execution
  xd_entry_id :: string
  xd_sender :: string
  xd_superseded_by :: "string option"
  xd_venue_account_code :: string
  xd_venue_client_order_id :: string
  xd_accepted_lines :: "(string \<times> nat \<times> nat) option"
  xd_factor_taken :: string
  xd_factor_row :: factor_row

record locate_held =
  ld_locate :: locate
  ld_uses :: "locate_use list"

record booking_held =
  bd_booking :: booking
  bd_state :: booking_state
  bd_held_reason :: string
  bd_lines :: "string \<times> nat \<times> nat"
  bd_version :: nat
  bd_held_alert :: string
  bd_booked_at :: nat

record received_held =
  rd_booking_id :: string
  rd_from_account :: string
  rd_allocation :: allocation
  rd_member_order_id :: string
  rd_lines :: "string \<times> nat \<times> nat"
  rd_withdrawn :: bool

record ledger =
  l_orders :: "(string, order_held) btree"
  l_placements :: "(string, placement_held) btree"
  l_executions :: "(string, execution_held) btree"
  l_charges :: "(string, charge) btree"
  l_changes :: "(string, change_request) btree"
  l_unplaced :: "(string, unplaced_fact) btree"
  l_locates :: "(string, locate_held) btree"
  l_instructions :: "(string, trading_instruction) btree"
  l_venue_facts :: "(string, string) btree"
  l_unplaced_executions :: "(string, string) btree"
  l_order_entries :: "(string, string list) btree"
  l_bookings :: "(string, booking_held) btree"
  l_received :: "(string \<times> string, received_held) btree"
  l_sleeve_crosses :: "(string, sleeve_cross) btree"
  l_alerts :: "(string, alert_record) btree"
  l_local_record_orders :: "bool option"
  l_agent_orders_demo_only :: "bool option"
  l_fixed_income_backfill :: "(int \<times> bool) option"

definition ledger_new :: ledger where
  "ledger_new =
     \<lparr>l_orders = [], l_placements = [], l_executions = [], l_charges = [], l_changes = [], l_unplaced = [],
      l_locates = [], l_instructions = [], l_venue_facts = [], l_unplaced_executions = [],
      l_order_entries = [], l_bookings = [], l_received = [], l_sleeve_crosses = [], l_alerts = [],
      l_local_record_orders = None, l_agent_orders_demo_only = None, l_fixed_income_backfill = None\<rparr>"

subsection \<open>The acts\<close>

datatype (plugins only: code) act =
    Opened order_terms bool
  | Terms order_terms
  | Released string
  | ReleaseRequested string
  | Recalled string
  | Ended string int
  | Ending string int
  | Condition string int bool order_standing
  | Overridden string
  | Checked string check_verdict
  | ChangeOpened change_request
  | ChangeOutcome string int
  | PlacementOpened placement
  | PlacementQuoted string placement_quote
  | QuotePicked string string
  | NetLinked string string string
  | PlacementRefused string
  | AcceptRefused "string list"
  | PlacementReported placement_report
  | Executed execution string string string string factor_row
  | FactorRevised string string factor_row "string list"
  | CapacityBackfilled string int
  | NotRecordedBackfilled string "string list"
  | FixedIncomeBackfill int bool
  | Accepted "string list" string string "nat list" string
  | DontKnow "string list" int string
  | ValueDateRolled encoded string
  | Charged charge
  | Unplaced unplaced_fact string
  | Placed string
  | LocateOpened locate
  | LocateAnswered string locate_answer
  | LocateUsed string locate_use
  | Instructed string trading_instruction
  | BookingOpened booking "nat \<times> nat"
  | BookingHeld string string
  | BookingHandedOff string
  | BookingClosed string
  | BookingCancelled string string
  | BookingReplaced string "allocation list" string string "nat \<times> nat"
  | BookingMoved string string
  | AllocationReceived string string allocation string "nat \<times> nat" string string
  | AllocationWithdrawn string string
  | GiveUpRecorded string string string give_up
  | SleeveCrossed sleeve_cross
  | AlertRaised alert_record
  | AlertAcknowledged string string
  | AlertCleared string
  | LocalRecordOrdersSet bool
  | AgentOrdersDemoOnlySet bool

subsection \<open>Records found and changed\<close>

text \<open>\<open>if let Some(held) = self.orders.get_mut(id)\<close>, for each of the ledger's maps.\<close>

definition on_order :: "string \<Rightarrow> (order_held \<Rightarrow> order_held) \<Rightarrow> ledger \<Rightarrow> ledger" where
  "on_order i f l = l\<lparr>l_orders := bt_adjust i f (l_orders l)\<rparr>"

definition on_placement :: "string \<Rightarrow> (placement_held \<Rightarrow> placement_held) \<Rightarrow> ledger \<Rightarrow> ledger" where
  "on_placement i f l = l\<lparr>l_placements := bt_adjust i f (l_placements l)\<rparr>"

definition on_execution :: "string \<Rightarrow> (execution_held \<Rightarrow> execution_held) \<Rightarrow> ledger \<Rightarrow> ledger" where
  "on_execution i f l = l\<lparr>l_executions := bt_adjust i f (l_executions l)\<rparr>"

definition on_change :: "string \<Rightarrow> (change_request \<Rightarrow> change_request) \<Rightarrow> ledger \<Rightarrow> ledger" where
  "on_change i f l = l\<lparr>l_changes := bt_adjust i f (l_changes l)\<rparr>"

definition on_locate :: "string \<Rightarrow> (locate_held \<Rightarrow> locate_held) \<Rightarrow> ledger \<Rightarrow> ledger" where
  "on_locate i f l = l\<lparr>l_locates := bt_adjust i f (l_locates l)\<rparr>"

definition on_booking :: "string \<Rightarrow> (booking_held \<Rightarrow> booking_held) \<Rightarrow> ledger \<Rightarrow> ledger" where
  "on_booking i f l = l\<lparr>l_bookings := bt_adjust i f (l_bookings l)\<rparr>"

definition on_alert :: "string \<Rightarrow> (alert_record \<Rightarrow> alert_record) \<Rightarrow> ledger \<Rightarrow> ledger" where
  "on_alert i f l = l\<lparr>l_alerts := bt_adjust i f (l_alerts l)\<rparr>"

text \<open>\<open>if !list.contains(&id) { list.push(id) }\<close>\<close>

definition push_new :: "string list \<Rightarrow> string \<Rightarrow> string list" where
  "push_new xs i = (if List.member xs i then xs else xs @ [i])"

text \<open>\<open>iter_mut().find(p)\<close> and a change of what it found.\<close>

fun on_first :: "('a \<Rightarrow> bool) \<Rightarrow> ('a \<Rightarrow> 'a) \<Rightarrow> 'a list \<Rightarrow> 'a list" where
  "on_first p f [] = []"
| "on_first p f (x # xs) = (if p x then f x # xs else x # on_first p f xs)"

definition key_of :: "string list \<Rightarrow> string" where
  "key_of ps = join_with [CHR 0x1F] ps"

definition finality_of :: "execution \<Rightarrow> finality_level" where
  "finality_of x =
     (case Option.bind (xe_finality x) (\<lambda>f. finality_level_of (fi_level f)) of
        None \<Rightarrow> FUnspecified | Some level \<Rightarrow> level)"

primrec finality_name :: "finality_level \<Rightarrow> string" where
  "finality_name FUnspecified = ''FINALITY_LEVEL_UNSPECIFIED''"
| "finality_name FAwaitingAcceptance = ''FINALITY_LEVEL_AWAITING_ACCEPTANCE''"
| "finality_name FMatched = ''FINALITY_LEVEL_MATCHED''"
| "finality_name FIncluded = ''FINALITY_LEVEL_INCLUDED''"
| "finality_name FFinal = ''FINALITY_LEVEL_FINAL''"
| "finality_name FFailed = ''FINALITY_LEVEL_FAILED''"

definition recorded_order_key :: "string \<Rightarrow> string" where
  "recorded_order_key venue_order_id = key_of [''order'', venue_order_id]"

definition venue_key :: "string \<Rightarrow> execution \<Rightarrow> string" where
  "venue_key sender x =
     key_of [sender, xe_venue_execution_id x, finality_name (finality_of x), xe_supersedes x]"

text \<open>\<open>parse().ok()\<close> of a factor's text, onto the wire.\<close>

definition parsed_wire :: "string \<Rightarrow> decimal option" where
  "parsed_wire text = (case from_str text of Inl _ \<Rightarrow> None | Inr x \<Rightarrow> Some (to_wire x))"

definition taken_onto :: "string \<Rightarrow> factor_row \<Rightarrow> execution \<Rightarrow> execution" where
  "taken_onto taken row x =
     x\<lparr>xe_factor_taken := parsed_wire taken, xe_factor_month_awaited := fr_awaited row\<rparr>"

definition factor_of :: "execution \<Rightarrow> string \<Rightarrow> decimal option" where
  "factor_of x taken = (case xe_factor_used x of Some f \<Rightarrow> Some f | None \<Rightarrow> parsed_wire taken)"

definition version_of :: "(string, nat) btree \<Rightarrow> string \<Rightarrow> nat \<Rightarrow> nat" where
  "version_of versions i old = (case bt_get versions i of None \<Rightarrow> old | Some v \<Rightarrow> v)"

subsection \<open>Orders\<close>

definition apply_opened :: "order_terms \<Rightarrow> bool \<Rightarrow> (string, nat) btree \<Rightarrow> ledger \<Rightarrow> ledger" where
  "apply_opened t released versions l =
     (let i = or_order_id t;
          l1 = (case or_link t of
                  None \<Rightarrow> l
                | Some link \<Rightarrow>
                    on_order (ol_parent_order_id link) (\<lambda>p. p\<lparr>h_children := push_new (h_children p) i\<rparr>) l);
          l2 = (if or_origin t \<noteq> order_origin_no GUnspecified \<and> or_venue_order_id t \<noteq> []
                then l1\<lparr>l_venue_facts := bt_insert (recorded_order_key (or_venue_order_id t)) i (l_venue_facts l1)\<rparr>
                else l1)
      in l2\<lparr>l_orders := bt_entry i order_held_default
              (\<lambda>h. h\<lparr>h_order := t, h_released := released, h_version := version_of versions i (h_version h)\<rparr>)
              (l_orders l2)\<rparr>)"

definition apply_terms :: "order_terms \<Rightarrow> (string, nat) btree \<Rightarrow> ledger \<Rightarrow> ledger" where
  "apply_terms t versions =
     on_order (or_order_id t)
       (\<lambda>h. h\<lparr>h_order := t, h_version := version_of versions (or_order_id t) (h_version h)\<rparr>)"

definition apply_released :: "string \<Rightarrow> ledger \<Rightarrow> ledger" where
  "apply_released i =
     on_order i (\<lambda>h. h\<lparr>h_released := True, h_release_requested := False,
                       h_conditions := bt_remove (order_condition_no CAwaitingCheck) (h_conditions h)\<rparr>)"

definition apply_release_requested :: "string \<Rightarrow> ledger \<Rightarrow> ledger" where
  "apply_release_requested i = on_order i (\<lambda>h. h\<lparr>h_release_requested := True\<rparr>)"

definition apply_recalled :: "string \<Rightarrow> ledger \<Rightarrow> ledger" where
  "apply_recalled i = on_order i (\<lambda>h. h\<lparr>h_released := False, h_release_requested := False\<rparr>)"

definition apply_ended :: "string \<Rightarrow> int \<Rightarrow> ledger \<Rightarrow> ledger" where
  "apply_ended i state =
     on_order i (\<lambda>h. h\<lparr>h_ended := order_state_of state, h_ending := None, h_release_requested := False,
                       h_conditions := fold (\<lambda>c. bt_remove (order_condition_no c))
                         [CApprovalRequired, CAwaitingCheck, CClaimed, CHeld, CPaused] (h_conditions h)\<rparr>)"

definition apply_ending :: "string \<Rightarrow> int \<Rightarrow> ledger \<Rightarrow> ledger" where
  "apply_ending i state = on_order i (\<lambda>h. h\<lparr>h_ending := order_state_of state\<rparr>)"

definition apply_condition :: "string \<Rightarrow> int \<Rightarrow> bool \<Rightarrow> order_standing \<Rightarrow> ledger \<Rightarrow> ledger" where
  "apply_condition i condition on standing =
     on_order i (\<lambda>h. h\<lparr>h_conditions := (if on then bt_insert condition standing (h_conditions h)
                                       else bt_remove condition (h_conditions h))\<rparr>)"

definition apply_overridden :: "string \<Rightarrow> ledger \<Rightarrow> ledger" where
  "apply_overridden i = on_order i (\<lambda>h. h\<lparr>h_overridden_version := Some (h_version h)\<rparr>)"

definition apply_checked :: "string \<Rightarrow> check_verdict \<Rightarrow> ledger \<Rightarrow> ledger" where
  "apply_checked i verdict =
     (if ck_placement_id verdict = [] then on_order i (\<lambda>h. h\<lparr>h_checks := h_checks h @ [verdict]\<rparr>)
      else on_placement (ck_placement_id verdict) (\<lambda>p. p\<lparr>pd_checks := pd_checks p @ [verdict]\<rparr>))"

definition apply_change_opened :: "change_request \<Rightarrow> ledger \<Rightarrow> ledger" where
  "apply_change_opened r l =
     (let i = cr_change_request_id r; l1 = l\<lparr>l_changes := bt_insert i r (l_changes l)\<rparr> in
      if cr_placement_id r = []
      then on_order (cr_order_id r) (\<lambda>h. h\<lparr>h_change_requests := h_change_requests h @ [i]\<rparr>) l1
      else on_placement (cr_placement_id r) (\<lambda>p. p\<lparr>pd_change_requests := pd_change_requests p @ [i]\<rparr>) l1)"

definition apply_change_outcome :: "string \<Rightarrow> int \<Rightarrow> ledger \<Rightarrow> ledger" where
  "apply_change_outcome i outcome = on_change i (\<lambda>r. r\<lparr>cr_outcome := outcome\<rparr>)"

definition apply_net_linked :: "string \<Rightarrow> string \<Rightarrow> ledger \<Rightarrow> ledger" where
  "apply_net_linked i net =
     on_order i (\<lambda>h. h\<lparr>h_order := (h_order h)
       \<lparr>or_link := Some \<lparr>ol_kind = order_link_kind_no LNet, ol_parent_order_id = net\<rparr>\<rparr>\<rparr>)"

definition apply_instructed :: "string \<Rightarrow> trading_instruction \<Rightarrow> ledger \<Rightarrow> ledger" where
  "apply_instructed key instruction l = l\<lparr>l_instructions := bt_insert key instruction (l_instructions l)\<rparr>"

subsection \<open>Placements\<close>

definition apply_placement_opened :: "placement \<Rightarrow> ledger \<Rightarrow> ledger" where
  "apply_placement_opened p l =
     (let i = pl_placement_id p;
          standing = (case pl_status p of None \<Rightarrow> [] | Some s \<Rightarrow> ps_conditions s);
          stale = filter (\<lambda>c. pc_condition c = placement_condition_no PCSentOnStaleReference) standing;
          l1 = on_order (pl_order_id p) (\<lambda>h. h\<lparr>h_placements := push_new (h_placements h) i\<rparr>) l
      in l1\<lparr>l_placements := bt_insert i
              \<lparr>pd_placement = p\<lparr>pl_status := None\<rparr>, pd_state = PQueued,
               pd_conditions = fold (\<lambda>c. bt_insert (pc_condition c) c) stale [],
               pd_checks = [], pd_change_requests = [], pd_executions = [], pd_charges = [],
               pd_last_change = None\<rparr> (l_placements l1)\<rparr>)"

definition apply_placement_quoted :: "string \<Rightarrow> placement_quote \<Rightarrow> ledger \<Rightarrow> ledger" where
  "apply_placement_quoted i quote =
     on_placement i (\<lambda>p.
       let kept = pl_quotes (pd_placement p);
           same = (\<lambda>q. pq_quote_id q = pq_quote_id quote);
           quotes = (if list_ex same kept then on_first same (\<lambda>_. quote) kept else kept @ [quote]);
           picked = pl_picked_quote_id (pd_placement p);
           gone = quote_outcome_of (pq_outcome quote) \<in> {Some QExpired, Some QWithdrawn}
       in p\<lparr>pd_placement := (pd_placement p)
             \<lparr>pl_quotes := quotes,
              pl_picked_quote_id := (if picked = pq_quote_id quote \<and> gone then [] else picked)\<rparr>\<rparr>)"

definition apply_quote_picked :: "string \<Rightarrow> string \<Rightarrow> ledger \<Rightarrow> ledger" where
  "apply_quote_picked i quote =
     on_placement i (\<lambda>p. p\<lparr>pd_placement := (pd_placement p)
       \<lparr>pl_quotes := on_first (\<lambda>q. pq_quote_id q = quote)
          (\<lambda>q. q\<lparr>pq_outcome := quote_outcome_no QPicked\<rparr>) (pl_quotes (pd_placement p)),
        pl_picked_quote_id := quote\<rparr>\<rparr>)"

subsection \<open>What the venue did with a placement\<close>

definition placement_state_live :: "placement_state \<Rightarrow> bool" where
  "placement_state_live s \<longleftrightarrow> s \<in> {PQueued, PSent, PWorking, PDoneForDay}"

definition change_pending :: "ledger \<Rightarrow> string \<Rightarrow> bool" where
  "change_pending l i \<longleftrightarrow>
     (case bt_get (l_changes l) i of
        None \<Rightarrow> False | Some r \<Rightarrow> cr_outcome r = change_outcome_no RPending)"

definition placement_change_of :: "ledger \<Rightarrow> string \<Rightarrow> int" where
  "placement_change_of l i =
     (case bt_get (l_changes l) i of
        Some r \<Rightarrow> (case cr_change r of Some (OfPlacement c) \<Rightarrow> pch_kind c | _ \<Rightarrow> 0)
      | None \<Rightarrow> 0)"

definition held_for_trigger :: "ledger \<Rightarrow> placement_held \<Rightarrow> bool" where
  "held_for_trigger l p \<longleftrightarrow>
     (case bt_get (l_orders l) (pl_order_id (pd_placement p)) of
        None \<Rightarrow> False
      | Some h \<Rightarrow> or_order_type (h_order h) = order_type_no TStop
               \<or> or_order_type (h_order h) = order_type_no TStopLimit)"

definition report_details :: "placement_report \<Rightarrow> placement_held \<Rightarrow> placement_held" where
  "report_details rp p =
     (let pl = pd_placement p;
          pl1 = (if rp_venue_order_id rp = [] then pl
                 else pl\<lparr>pl_venue_order_id := rp_venue_order_id rp,
                         pl_venue_order_ids := push_new (pl_venue_order_ids pl) (rp_venue_order_id rp)\<rparr>);
          pl2 = (if rp_routed_at_ns rp = 0 then pl1
                 else pl1\<lparr>pl_routed_at_ns := rp_routed_at_ns rp, pl_routed_precision := rp_routed_precision rp\<rparr>)
      in p\<lparr>pd_placement := pl2\<rparr>)"

definition report_standing :: "placement_report \<Rightarrow> placement_condition \<Rightarrow> string \<Rightarrow> placement_standing" where
  "report_standing rp kind reason =
     placement_standing_default
       \<lparr>pc_condition := placement_condition_no kind, pc_reason := reason,
        pc_unknown_reason := rp_unknown_reason rp, pc_status_as_reported := rp_status_as_reported rp\<rparr>"

definition set_standing ::
  "placement_report \<Rightarrow> placement_condition \<Rightarrow> string \<Rightarrow> placement_held \<Rightarrow> placement_held" where
  "set_standing rp kind reason p =
     p\<lparr>pd_conditions := bt_insert (placement_condition_no kind) (report_standing rp kind reason) (pd_conditions p)\<rparr>"

definition clear_standing :: "placement_condition \<Rightarrow> placement_held \<Rightarrow> placement_held" where
  "clear_standing kind p = p\<lparr>pd_conditions := bt_remove (placement_condition_no kind) (pd_conditions p)\<rparr>"

definition report_terms :: "placement_report \<Rightarrow> placement_held \<Rightarrow> placement_held" where
  "report_terms rp p =
     (let pl = pd_placement p;
          pl1 = (if rp_quantity rp = None then pl else pl\<lparr>pl_quantity := rp_quantity rp\<rparr>);
          pl2 = (if rp_limit_price rp = None then pl1 else pl1\<lparr>pl_limit_price := rp_limit_price rp\<rparr>)
      in p\<lparr>pd_placement := pl2\<rparr>)"

text \<open>One arm per event: the placement afterwards, and the outcome of each change request it
  decides. \<open>trigger\<close> is whether its order waits at the venue for a trigger, \<open>kind_of\<close> the kind of
  a change request, \<open>pending\<close> the placement's own still pending, in the order they came.\<close>

primrec on_event ::
  "placement_event \<Rightarrow> placement_report \<Rightarrow> bool \<Rightarrow> (string \<Rightarrow> int) \<Rightarrow> string list \<Rightarrow> placement_held
    \<Rightarrow> placement_held \<times> (string \<times> change_outcome) list" where
  "on_event VSent rp trigger kind_of pending p =
     (if pd_state p = PQueued then p\<lparr>pd_state := PSent\<rparr> else p, [])"
| "on_event VAcknowledged rp trigger kind_of pending p =
     (if pd_state p = PQueued \<or> pd_state p = PSent
      then let p1 = p\<lparr>pd_state := PWorking\<rparr>
           in if trigger then set_standing rp PCAwaitingTrigger ''held at the venue until it triggers'' p1 else p1
      else p, [])"
| "on_event VReplaced rp trigger kind_of pending p =
     (report_terms rp p,
      map (\<lambda>i. (i, RApplied)) (filter (\<lambda>i. kind_of i = placement_change_kind_no PKReplace) pending))"
| "on_event VDoneForDay rp trigger kind_of pending p =
     (if placement_state_live (pd_state p) then p\<lparr>pd_state := PDoneForDay\<rparr> else p, [])"
| "on_event VRestated rp trigger kind_of pending p =
     (let p1 = report_terms rp p
      in if pd_state p1 = PDoneForDay then p1\<lparr>pd_state := PWorking\<rparr> else p1, [])"
| "on_event VSuspended rp trigger kind_of pending p =
     (set_standing rp PCSuspended ''suspended by the venue'' p, [])"
| "on_event VTriggered rp trigger kind_of pending p =
     (clear_standing PCSuspended (clear_standing PCAwaitingTrigger p), [])"
| "on_event VCancelled rp trigger kind_of pending p =
     (clear_standing PCOutcomeUnknown
        (if placement_state_live (pd_state p) then p\<lparr>pd_state := PCancelled\<rparr> else p),
      map (\<lambda>i. (i, if kind_of i = placement_change_kind_no PKCancel then RApplied else RRejected)) pending)"
| "on_event VExpired rp trigger kind_of pending p =
     (clear_standing PCOutcomeUnknown
        (if placement_state_live (pd_state p) then p\<lparr>pd_state := PExpired\<rparr> else p),
      map (\<lambda>i. (i, RRejected)) pending)"
| "on_event VRejected rp trigger kind_of pending p =
     (if (pd_state p = PWorking \<or> pd_state p = PDoneForDay) \<and> pending \<noteq> []
      then (p, [(last pending, RRejected)])
      else let p1 = (if placement_state_live (pd_state p) then p\<lparr>pd_state := PRejected\<rparr> else p)
           in (p1\<lparr>pd_placement := (pd_placement p1)\<lparr>pl_rejection_reason := rp_rejection_reason rp,
                                                    pl_rejection_as_reported := rp_rejection_as_reported rp\<rparr>\<rparr>,
               map (\<lambda>i. (i, RRejected)) pending))"
| "on_event VOutcomeUnknown rp trigger kind_of pending p =
     (set_standing rp PCOutcomeUnknown ''outcome unknown'' p, [])"
| "on_event VOutcomeResolved rp trigger kind_of pending p = (clear_standing PCOutcomeUnknown p, [])"
| "on_event VUnspecified rp trigger kind_of pending p = (p, [])"

text \<open>The change requests an event decided, each given its outcome.\<close>

definition decide_changes :: "(string \<times> change_outcome) list \<Rightarrow> ledger \<Rightarrow> ledger" where
  "decide_changes outcomes =
     fold (\<lambda>(i, outcome). on_change i (\<lambda>r. r\<lparr>cr_outcome := change_outcome_no outcome\<rparr>)) outcomes"

definition report_event :: "placement_report \<Rightarrow> placement_event" where
  "report_event rp = (case placement_event_of (rp_event rp) of None \<Rightarrow> VUnspecified | Some e \<Rightarrow> e)"

definition apply_reported :: "placement_report \<Rightarrow> ledger \<Rightarrow> ledger" where
  "apply_reported rp l =
     (case bt_get (l_placements l) (rp_placement_id rp) of
        None \<Rightarrow> l
      | Some p \<Rightarrow>
          (let pending = filter (change_pending l) (pd_change_requests p);
               (p1, outcomes) = on_event (report_event rp) rp (held_for_trigger l p) (placement_change_of l)
                                  pending (report_details rp p)
           in decide_changes outcomes (on_placement (rp_placement_id rp) (\<lambda>_. p1) l)))"

subsection \<open>Executions and charges\<close>

definition apply_executed ::
  "execution \<Rightarrow> string \<Rightarrow> string \<Rightarrow> string \<Rightarrow> string \<Rightarrow> factor_row \<Rightarrow> string \<Rightarrow> ledger \<Rightarrow> ledger" where
  "apply_executed x sender account_code client_order taken row entry l =
     (let i = xe_execution_id x;
          l1 = (if xe_supersedes x = [] then l
                else on_execution (xe_supersedes x) (\<lambda>e. e\<lparr>xd_superseded_by := Some i\<rparr>) l);
          l2 = on_placement (xe_placement_id x) (\<lambda>p. p\<lparr>pd_executions := push_new (pd_executions p) i\<rparr>) l1;
          l3 = on_order (xe_order_id x) (\<lambda>h. h\<lparr>h_executions := push_new (h_executions h) i\<rparr>) l2;
          l4 = (if xe_venue_execution_id x = [] then l3
                else l3\<lparr>l_venue_facts := bt_insert (venue_key sender x) i (l_venue_facts l3)\<rparr>);
          x1 = x\<lparr>xe_venue_client_order_id :=
                   (if xe_venue_client_order_id x = [] then client_order else xe_venue_client_order_id x),
                 xe_state := execution_state_no
                   (if xe_order_id x = [] \<and> xe_placement_id x = [] then XUnmatched else XMatched)\<rparr>
      in l4\<lparr>l_executions := bt_insert i
              \<lparr>xd_execution = taken_onto taken row x1, xd_entry_id = entry, xd_sender = sender,
               xd_superseded_by = None, xd_venue_account_code = account_code,
               xd_venue_client_order_id = client_order, xd_accepted_lines = None,
               xd_factor_taken = taken, xd_factor_row = row\<rparr> (l_executions l4)\<rparr>)"

definition apply_factor_revised :: "string \<Rightarrow> string \<Rightarrow> factor_row \<Rightarrow> ledger \<Rightarrow> ledger" where
  "apply_factor_revised i taken row =
     on_execution i (\<lambda>e. e\<lparr>xd_factor_taken := taken, xd_factor_row := row,
                           xd_execution := taken_onto taken row (xd_execution e)\<rparr>)"

fun accept_each ::
  "string \<Rightarrow> string \<Rightarrow> string \<Rightarrow> string \<Rightarrow> nat \<Rightarrow> string list \<Rightarrow> nat list \<Rightarrow> ledger \<Rightarrow> ledger" where
  "accept_each entry oid pid sleeve start [] counts l = l"
| "accept_each entry oid pid sleeve start (i # ids) counts l =
     (let n = (case counts of [] \<Rightarrow> 0 | c # _ \<Rightarrow> c);
          l1 = on_execution i
                 (\<lambda>e. e\<lparr>xd_execution := (xd_execution e)
                          \<lparr>xe_order_id := oid, xe_placement_id := pid, xe_sleeve := sleeve,
                           xe_state := execution_state_no XMatched\<rparr>,
                        xd_accepted_lines := Some (entry, start, n)\<rparr>) l;
          l2 = on_placement pid (\<lambda>p. p\<lparr>pd_executions := push_new (pd_executions p) i\<rparr>) l1;
          l3 = on_order oid (\<lambda>h. h\<lparr>h_executions := push_new (h_executions h) i\<rparr>) l2
      in accept_each entry oid pid sleeve (start + n) ids (tl counts) l3)"

definition apply_accepted ::
  "string list \<Rightarrow> string \<Rightarrow> string \<Rightarrow> nat list \<Rightarrow> string \<Rightarrow> ledger \<Rightarrow> ledger" where
  "apply_accepted ids oid pid counts entry l =
     (let sleeve = (case bt_get (l_orders l) oid of None \<Rightarrow> [] | Some h \<Rightarrow> or_sleeve (h_order h))
      in accept_each entry oid pid sleeve 0 ids counts l)"

definition apply_dont_know :: "string list \<Rightarrow> int \<Rightarrow> string \<Rightarrow> ledger \<Rightarrow> ledger" where
  "apply_dont_know ids reason words =
     fold (\<lambda>i. on_execution i (\<lambda>e. e\<lparr>xd_execution := (xd_execution e)
             \<lparr>xe_state := execution_state_no XDontKnow, xe_dk_reason := reason, xe_dk_text := words\<rparr>\<rparr>)) ids"

definition apply_charged :: "charge \<Rightarrow> ledger \<Rightarrow> ledger" where
  "apply_charged c l =
     (let i = ch_charge_id c;
          l1 = on_placement (ch_placement_id c) (\<lambda>p. p\<lparr>pd_charges := pd_charges p @ [i]\<rparr>) l;
          l2 = on_order (ch_order_id c) (\<lambda>h. h\<lparr>h_charges := h_charges h @ [i]\<rparr>) l1
      in l2\<lparr>l_charges := bt_insert i c (l_charges l2)\<rparr>)"

definition apply_unplaced :: "unplaced_fact \<Rightarrow> string \<Rightarrow> ledger \<Rightarrow> ledger" where
  "apply_unplaced f sender l =
     (let l1 = (case uf_fact f of
                  Some (FactExecution x) \<Rightarrow>
                    (if rx_venue_execution_id x = [] then l
                     else l\<lparr>l_unplaced_executions := bt_insert (key_of [sender, rx_venue_execution_id x])
                              (uf_unplaced_id f) (l_unplaced_executions l)\<rparr>)
                | _ \<Rightarrow> l)
      in l1\<lparr>l_unplaced := bt_insert (uf_unplaced_id f) f (l_unplaced l1)\<rparr>)"

definition apply_capacity_backfilled :: "string \<Rightarrow> int \<Rightarrow> ledger \<Rightarrow> ledger" where
  "apply_capacity_backfilled i capacity =
     on_execution i (\<lambda>e. e\<lparr>xd_execution := (xd_execution e)\<lparr>xe_capacity := capacity\<rparr>\<rparr>)"

subsection \<open>Locates\<close>

definition apply_locate_opened :: "locate \<Rightarrow> ledger \<Rightarrow> ledger" where
  "apply_locate_opened k l =
     l\<lparr>l_locates := bt_insert (lo_locate_record_id k) \<lparr>ld_locate = k, ld_uses = []\<rparr> (l_locates l)\<rparr>"

definition apply_locate_answered :: "string \<Rightarrow> locate_answer \<Rightarrow> ledger \<Rightarrow> ledger" where
  "apply_locate_answered i answer =
     on_locate i (\<lambda>k. k\<lparr>ld_locate := (ld_locate k)\<lparr>lo_answer := Some answer, lo_locate_id := la_locate_id answer\<rparr>\<rparr>)"

definition apply_locate_used :: "string \<Rightarrow> locate_use \<Rightarrow> ledger \<Rightarrow> ledger" where
  "apply_locate_used i used = on_locate i (\<lambda>k. k\<lparr>ld_uses := ld_uses k @ [used]\<rparr>)"

subsection \<open>Bookings, allocations, alerts\<close>

definition apply_booking_opened :: "booking \<Rightarrow> nat \<times> nat \<Rightarrow> string \<Rightarrow> ledger \<Rightarrow> ledger" where
  "apply_booking_opened b lines entry l =
     l\<lparr>l_bookings := bt_insert (bo_booking_id b)
         \<lparr>bd_booking = b, bd_state = BBooked, bd_held_reason = [], bd_lines = (entry, fst lines, snd lines),
          bd_version = 1, bd_held_alert = [], bd_booked_at = 0\<rparr> (l_bookings l)\<rparr>"

definition apply_booking_held :: "string \<Rightarrow> string \<Rightarrow> ledger \<Rightarrow> ledger" where
  "apply_booking_held i reason =
     on_booking i (\<lambda>b. b\<lparr>bd_state := (if bd_state b = BBooked then BHeld else bd_state b),
                         bd_held_reason := reason\<rparr>)"

definition apply_booking_handed_off :: "string \<Rightarrow> ledger \<Rightarrow> ledger" where
  "apply_booking_handed_off i = on_booking i (\<lambda>b. b\<lparr>bd_state := BHandedOff, bd_held_reason := []\<rparr>)"

definition apply_booking_closed :: "string \<Rightarrow> ledger \<Rightarrow> ledger" where
  "apply_booking_closed i = on_booking i (\<lambda>b. b\<lparr>bd_state := BClosed, bd_held_reason := []\<rparr>)"

definition apply_booking_cancelled :: "string \<Rightarrow> ledger \<Rightarrow> ledger" where
  "apply_booking_cancelled i = on_booking i (\<lambda>b. b\<lparr>bd_state := BCancelled, bd_held_reason := []\<rparr>)"

definition apply_booking_replaced ::
  "string \<Rightarrow> allocation list \<Rightarrow> nat \<times> nat \<Rightarrow> string \<Rightarrow> ledger \<Rightarrow> ledger" where
  "apply_booking_replaced i als lines entry =
     on_booking i (\<lambda>b. b\<lparr>bd_booking := (bd_booking b)\<lparr>bo_allocations := als\<rparr>,
                         bd_lines := (entry, fst lines, snd lines), bd_version := bd_version b + 1\<rparr>)"

definition apply_allocation_received ::
  "string \<Rightarrow> string \<Rightarrow> allocation \<Rightarrow> string \<Rightarrow> nat \<times> nat \<Rightarrow> string \<Rightarrow> ledger \<Rightarrow> ledger" where
  "apply_allocation_received b account a member_order lines entry l =
     l\<lparr>l_received := bt_insert (b, al_allocation_id a)
         \<lparr>rd_booking_id = b, rd_from_account = account, rd_allocation = a, rd_member_order_id = member_order,
          rd_lines = (entry, fst lines, snd lines), rd_withdrawn = False\<rparr> (l_received l)\<rparr>"

definition apply_allocation_withdrawn :: "string \<Rightarrow> string \<Rightarrow> ledger \<Rightarrow> ledger" where
  "apply_allocation_withdrawn b a l =
     l\<lparr>l_received := bt_adjust (b, a) (\<lambda>r. r\<lparr>rd_withdrawn := True\<rparr>) (l_received l)\<rparr>"

definition apply_give_up :: "string \<Rightarrow> string \<Rightarrow> string \<Rightarrow> give_up \<Rightarrow> ledger \<Rightarrow> ledger" where
  "apply_give_up x b a answer l =
     on_booking b (\<lambda>h. h\<lparr>bd_booking := (bd_booking h)
         \<lparr>bo_allocations := on_first (\<lambda>c. al_allocation_id c = a)
            (\<lambda>c. c\<lparr>al_give_up_answers := al_give_up_answers c @ [answer]\<rparr>) (bo_allocations (bd_booking h))\<rparr>\<rparr>)
       (on_execution x (\<lambda>e. e\<lparr>xd_execution := (xd_execution e)
          \<lparr>xe_give_up_answers := xe_give_up_answers (xd_execution e) @ [answer]\<rparr>\<rparr>) l)"

definition apply_sleeve_crossed :: "sleeve_cross \<Rightarrow> ledger \<Rightarrow> ledger" where
  "apply_sleeve_crossed c l =
     (let i = sc_sleeve_cross_id c; l1 = l\<lparr>l_sleeve_crosses := bt_insert i c (l_sleeve_crosses l)\<rparr>
      in fold (\<lambda>oid. on_order oid (\<lambda>h. h\<lparr>h_order := (h_order h)
                \<lparr>or_sleeve_cross_ids := push_new (or_sleeve_cross_ids (h_order h)) i\<rparr>\<rparr>)) (sc_order_ids c) l1)"

definition apply_alert_raised :: "alert_record \<Rightarrow> ledger \<Rightarrow> ledger" where
  "apply_alert_raised a l =
     (let l1 = l\<lparr>l_alerts := bt_insert (ar_alert_id a) a (l_alerts l)\<rparr>
      in if alert_kind_of (ar_kind a) = Some AKBookingHeld
         then (case ar_subject a of
                 None \<Rightarrow> l1
               | Some s \<Rightarrow> on_booking (as_booking_id s) (\<lambda>b. b\<lparr>bd_held_alert := ar_alert_id a\<rparr>) l1)
         else l1)"

definition apply_alert_acknowledged :: "string \<Rightarrow> ledger \<Rightarrow> ledger" where
  "apply_alert_acknowledged i =
     on_alert i (\<lambda>a. if alert_kind_of (ar_kind a) \<noteq> Some AKBookingHeld \<and> ar_state a = alert_state_no ARaised
                     then a\<lparr>ar_state := alert_state_no AAcknowledged\<rparr> else a)"

definition apply_alert_cleared :: "string \<Rightarrow> ledger \<Rightarrow> ledger" where
  "apply_alert_cleared i l =
     (let l1 = on_alert i (\<lambda>a. a\<lparr>ar_state := alert_state_no ACleared\<rparr>) l
      in l1\<lparr>l_bookings := map (\<lambda>(k, b). (k, if bd_held_alert b = i then b\<lparr>bd_held_alert := []\<rparr> else b))
              (l_bookings l1)\<rparr>)"

subsection \<open>An act applied\<close>

primrec apply_act :: "act \<Rightarrow> string \<Rightarrow> (string, nat) btree \<Rightarrow> ledger \<Rightarrow> ledger" where
  "apply_act (Opened t released) entry versions l = apply_opened t released versions l"
| "apply_act (Terms t) entry versions l = apply_terms t versions l"
| "apply_act (Released i) entry versions l = apply_released i l"
| "apply_act (ReleaseRequested i) entry versions l = apply_release_requested i l"
| "apply_act (Recalled i) entry versions l = apply_recalled i l"
| "apply_act (Ended i state) entry versions l = apply_ended i state l"
| "apply_act (Ending i state) entry versions l = apply_ending i state l"
| "apply_act (Condition i condition on standing) entry versions l = apply_condition i condition on standing l"
| "apply_act (Overridden i) entry versions l = apply_overridden i l"
| "apply_act (Checked i verdict) entry versions l = apply_checked i verdict l"
| "apply_act (ChangeOpened r) entry versions l = apply_change_opened r l"
| "apply_act (ChangeOutcome i outcome) entry versions l = apply_change_outcome i outcome l"
| "apply_act (PlacementOpened p) entry versions l = apply_placement_opened p l"
| "apply_act (PlacementQuoted i quote) entry versions l = apply_placement_quoted i quote l"
| "apply_act (QuotePicked i quote) entry versions l = apply_quote_picked i quote l"
| "apply_act (NetLinked i net account) entry versions l = apply_net_linked i net l"
| "apply_act (PlacementRefused i) entry versions l = l"
| "apply_act (AcceptRefused ids) entry versions l = l"
| "apply_act (PlacementReported rp) entry versions l = apply_reported rp l"
| "apply_act (Executed x sender code client taken row) entry versions l =
     apply_executed x sender code client taken row entry l"
| "apply_act (FactorRevised i taken row lots) entry versions l = apply_factor_revised i taken row l"
| "apply_act (CapacityBackfilled i capacity) entry versions l = apply_capacity_backfilled i capacity l"
| "apply_act (NotRecordedBackfilled b als) entry versions l = l"
| "apply_act (FixedIncomeBackfill cutoff finished) entry versions l =
     l\<lparr>l_fixed_income_backfill := Some (cutoff, finished)\<rparr>"
| "apply_act (Accepted ids oid pid counts note) entry versions l = apply_accepted ids oid pid counts entry l"
| "apply_act (DontKnow ids reason words) entry versions l = apply_dont_know ids reason words l"
| "apply_act (ValueDateRolled roll sender) entry versions l = l"
| "apply_act (Charged c) entry versions l = apply_charged c l"
| "apply_act (Unplaced f sender) entry versions l = apply_unplaced f sender l"
| "apply_act (Placed i) entry versions l = l"
| "apply_act (LocateOpened k) entry versions l = apply_locate_opened k l"
| "apply_act (LocateAnswered i answer) entry versions l = apply_locate_answered i answer l"
| "apply_act (LocateUsed i used) entry versions l = apply_locate_used i used l"
| "apply_act (Instructed key instruction) entry versions l = apply_instructed key instruction l"
| "apply_act (BookingOpened b lines) entry versions l = apply_booking_opened b lines entry l"
| "apply_act (BookingHeld b reason) entry versions l = apply_booking_held b reason l"
| "apply_act (BookingHandedOff b) entry versions l = apply_booking_handed_off b l"
| "apply_act (BookingClosed b) entry versions l = apply_booking_closed b l"
| "apply_act (BookingCancelled b reason) entry versions l = apply_booking_cancelled b l"
| "apply_act (BookingReplaced b als effective reason lines) entry versions l =
     apply_booking_replaced b als lines entry l"
| "apply_act (BookingMoved b reason) entry versions l = l"
| "apply_act (AllocationReceived b account a member_order lines factor month) entry versions l =
     apply_allocation_received b account a member_order lines entry l"
| "apply_act (AllocationWithdrawn b a) entry versions l = apply_allocation_withdrawn b a l"
| "apply_act (GiveUpRecorded x b a answer) entry versions l = apply_give_up x b a answer l"
| "apply_act (SleeveCrossed c) entry versions l = apply_sleeve_crossed c l"
| "apply_act (AlertRaised a) entry versions l = apply_alert_raised a l"
| "apply_act (AlertAcknowledged i reason) entry versions l = apply_alert_acknowledged i l"
| "apply_act (AlertCleared i) entry versions l = apply_alert_cleared i l"
| "apply_act (LocalRecordOrdersSet allows) entry versions l = l\<lparr>l_local_record_orders := Some allows\<rparr>"
| "apply_act (AgentOrdersDemoOnlySet on) entry versions l = l\<lparr>l_agent_orders_demo_only := Some on\<rparr>"

definition apply_acts :: "act list \<Rightarrow> string \<Rightarrow> (string, nat) btree \<Rightarrow> ledger \<Rightarrow> ledger" where
  "apply_acts acts entry versions = fold (\<lambda>a. apply_act a entry versions) acts"

section \<open>Facts\<close>

lemmas on_defs = on_order_def on_placement_def on_execution_def on_change_def on_locate_def on_booking_def
  on_alert_def

lemmas apply_defs = apply_opened_def apply_terms_def apply_released_def apply_release_requested_def
  apply_recalled_def apply_ended_def apply_ending_def apply_condition_def apply_overridden_def apply_checked_def
  apply_change_opened_def apply_change_outcome_def apply_net_linked_def apply_instructed_def
  apply_placement_opened_def apply_placement_quoted_def apply_quote_picked_def
  apply_executed_def apply_factor_revised_def apply_accepted_def apply_charged_def
  apply_unplaced_def apply_capacity_backfilled_def apply_locate_opened_def apply_locate_answered_def
  apply_locate_used_def apply_booking_opened_def apply_booking_held_def apply_booking_handed_off_def
  apply_booking_closed_def apply_booking_cancelled_def apply_booking_replaced_def
  apply_allocation_received_def apply_allocation_withdrawn_def apply_give_up_def
  apply_alert_raised_def apply_alert_acknowledged_def

text \<open>What changing a record leaves alone.\<close>

lemma on_order_other [simp]:
  "l_placements (on_order i f l) = l_placements l" "l_executions (on_order i f l) = l_executions l"
  "l_charges (on_order i f l) = l_charges l" "l_changes (on_order i f l) = l_changes l"
  "l_unplaced (on_order i f l) = l_unplaced l" "l_locates (on_order i f l) = l_locates l"
  "l_instructions (on_order i f l) = l_instructions l" "l_bookings (on_order i f l) = l_bookings l"
  "l_received (on_order i f l) = l_received l" "l_sleeve_crosses (on_order i f l) = l_sleeve_crosses l"
  "l_alerts (on_order i f l) = l_alerts l" "l_orders (on_order i f l) = bt_adjust i f (l_orders l)"
  "l_venue_facts (on_order i f l) = l_venue_facts l"
  by (simp_all add: on_order_def)

lemma on_placement_other [simp]:
  "l_orders (on_placement i f l) = l_orders l" "l_executions (on_placement i f l) = l_executions l"
  "l_charges (on_placement i f l) = l_charges l" "l_changes (on_placement i f l) = l_changes l"
  "l_unplaced (on_placement i f l) = l_unplaced l" "l_locates (on_placement i f l) = l_locates l"
  "l_instructions (on_placement i f l) = l_instructions l" "l_bookings (on_placement i f l) = l_bookings l"
  "l_received (on_placement i f l) = l_received l" "l_sleeve_crosses (on_placement i f l) = l_sleeve_crosses l"
  "l_alerts (on_placement i f l) = l_alerts l" "l_venue_facts (on_placement i f l) = l_venue_facts l"
  "l_placements (on_placement i f l) = bt_adjust i f (l_placements l)"
  by (simp_all add: on_placement_def)

lemma on_execution_other [simp]:
  "l_orders (on_execution i f l) = l_orders l" "l_placements (on_execution i f l) = l_placements l"
  "l_charges (on_execution i f l) = l_charges l" "l_changes (on_execution i f l) = l_changes l"
  "l_unplaced (on_execution i f l) = l_unplaced l" "l_locates (on_execution i f l) = l_locates l"
  "l_instructions (on_execution i f l) = l_instructions l" "l_bookings (on_execution i f l) = l_bookings l"
  "l_received (on_execution i f l) = l_received l" "l_sleeve_crosses (on_execution i f l) = l_sleeve_crosses l"
  "l_alerts (on_execution i f l) = l_alerts l" "l_venue_facts (on_execution i f l) = l_venue_facts l"
  "l_executions (on_execution i f l) = bt_adjust i f (l_executions l)"
  by (simp_all add: on_execution_def)

lemma on_change_other [simp]:
  "l_orders (on_change i f l) = l_orders l" "l_placements (on_change i f l) = l_placements l"
  "l_executions (on_change i f l) = l_executions l" "l_charges (on_change i f l) = l_charges l"
  "l_unplaced (on_change i f l) = l_unplaced l" "l_locates (on_change i f l) = l_locates l"
  "l_instructions (on_change i f l) = l_instructions l" "l_bookings (on_change i f l) = l_bookings l"
  "l_received (on_change i f l) = l_received l" "l_sleeve_crosses (on_change i f l) = l_sleeve_crosses l"
  "l_alerts (on_change i f l) = l_alerts l" "l_changes (on_change i f l) = bt_adjust i f (l_changes l)"
  by (simp_all add: on_change_def)

lemma on_booking_other [simp]:
  "l_orders (on_booking i f l) = l_orders l" "l_placements (on_booking i f l) = l_placements l"
  "l_executions (on_booking i f l) = l_executions l" "l_charges (on_booking i f l) = l_charges l"
  "l_changes (on_booking i f l) = l_changes l" "l_unplaced (on_booking i f l) = l_unplaced l"
  "l_locates (on_booking i f l) = l_locates l" "l_instructions (on_booking i f l) = l_instructions l"
  "l_received (on_booking i f l) = l_received l" "l_sleeve_crosses (on_booking i f l) = l_sleeve_crosses l"
  "l_alerts (on_booking i f l) = l_alerts l" "l_bookings (on_booking i f l) = bt_adjust i f (l_bookings l)"
  by (simp_all add: on_booking_def)

lemma on_locate_other [simp]:
  "l_orders (on_locate i f l) = l_orders l" "l_placements (on_locate i f l) = l_placements l"
  "l_executions (on_locate i f l) = l_executions l" "l_charges (on_locate i f l) = l_charges l"
  "l_changes (on_locate i f l) = l_changes l" "l_unplaced (on_locate i f l) = l_unplaced l"
  "l_instructions (on_locate i f l) = l_instructions l" "l_bookings (on_locate i f l) = l_bookings l"
  "l_received (on_locate i f l) = l_received l" "l_sleeve_crosses (on_locate i f l) = l_sleeve_crosses l"
  "l_alerts (on_locate i f l) = l_alerts l" "l_locates (on_locate i f l) = bt_adjust i f (l_locates l)"
  by (simp_all add: on_locate_def)

lemma on_alert_other [simp]:
  "l_orders (on_alert i f l) = l_orders l" "l_placements (on_alert i f l) = l_placements l"
  "l_executions (on_alert i f l) = l_executions l" "l_charges (on_alert i f l) = l_charges l"
  "l_changes (on_alert i f l) = l_changes l" "l_unplaced (on_alert i f l) = l_unplaced l"
  "l_locates (on_alert i f l) = l_locates l" "l_instructions (on_alert i f l) = l_instructions l"
  "l_received (on_alert i f l) = l_received l" "l_sleeve_crosses (on_alert i f l) = l_sleeve_crosses l"
  "l_bookings (on_alert i f l) = l_bookings l" "l_alerts (on_alert i f l) = bt_adjust i f (l_alerts l)"
  by (simp_all add: on_alert_def)

text \<open>A loop over records one map holds leaves the others alone.\<close>

lemma fold_leaves: "(\<And>x s. g (f x s) = g s) \<Longrightarrow> g (fold f xs s) = g s"
  by (induction xs arbitrary: s) simp_all

lemma decide_changes_other [simp]:
  "l_orders (decide_changes os l) = l_orders l" "l_placements (decide_changes os l) = l_placements l"
  "l_executions (decide_changes os l) = l_executions l" "l_charges (decide_changes os l) = l_charges l"
  "l_unplaced (decide_changes os l) = l_unplaced l" "l_locates (decide_changes os l) = l_locates l"
  "l_instructions (decide_changes os l) = l_instructions l" "l_bookings (decide_changes os l) = l_bookings l"
  "l_received (decide_changes os l) = l_received l"
  "l_sleeve_crosses (decide_changes os l) = l_sleeve_crosses l" "l_alerts (decide_changes os l) = l_alerts l"
  unfolding decide_changes_def by (rule fold_leaves; simp split: prod.splits)+

lemma accept_each_other [simp]:
  "l_charges (accept_each e oid pid sl n ids cs l) = l_charges l"
  "l_changes (accept_each e oid pid sl n ids cs l) = l_changes l"
  "l_unplaced (accept_each e oid pid sl n ids cs l) = l_unplaced l"
  "l_locates (accept_each e oid pid sl n ids cs l) = l_locates l"
  "l_instructions (accept_each e oid pid sl n ids cs l) = l_instructions l"
  "l_bookings (accept_each e oid pid sl n ids cs l) = l_bookings l"
  "l_received (accept_each e oid pid sl n ids cs l) = l_received l"
  "l_sleeve_crosses (accept_each e oid pid sl n ids cs l) = l_sleeve_crosses l"
  "l_alerts (accept_each e oid pid sl n ids cs l) = l_alerts l"
  by (induction e oid pid sl n ids cs l rule: accept_each.induct) (simp_all add: Let_def)

lemma dont_know_other [simp]:
  "l_orders (apply_dont_know ids r w l) = l_orders l" "l_placements (apply_dont_know ids r w l) = l_placements l"
  "l_charges (apply_dont_know ids r w l) = l_charges l" "l_changes (apply_dont_know ids r w l) = l_changes l"
  "l_unplaced (apply_dont_know ids r w l) = l_unplaced l" "l_locates (apply_dont_know ids r w l) = l_locates l"
  "l_instructions (apply_dont_know ids r w l) = l_instructions l"
  "l_bookings (apply_dont_know ids r w l) = l_bookings l" "l_received (apply_dont_know ids r w l) = l_received l"
  "l_sleeve_crosses (apply_dont_know ids r w l) = l_sleeve_crosses l"
  "l_alerts (apply_dont_know ids r w l) = l_alerts l"
  unfolding apply_dont_know_def by (rule fold_leaves; simp)+

lemma sleeve_crossed_other [simp]:
  "l_placements (apply_sleeve_crossed c l) = l_placements l" "l_executions (apply_sleeve_crossed c l) = l_executions l"
  "l_charges (apply_sleeve_crossed c l) = l_charges l" "l_changes (apply_sleeve_crossed c l) = l_changes l"
  "l_unplaced (apply_sleeve_crossed c l) = l_unplaced l" "l_locates (apply_sleeve_crossed c l) = l_locates l"
  "l_instructions (apply_sleeve_crossed c l) = l_instructions l"
  "l_bookings (apply_sleeve_crossed c l) = l_bookings l" "l_received (apply_sleeve_crossed c l) = l_received l"
  "l_alerts (apply_sleeve_crossed c l) = l_alerts l"
  "l_sleeve_crosses (apply_sleeve_crossed c l) = bt_insert (sc_sleeve_cross_id c) c (l_sleeve_crosses l)"
  unfolding apply_sleeve_crossed_def Let_def by (subst fold_leaves [where g = l_placements]
      fold_leaves [where g = l_executions] fold_leaves [where g = l_charges] fold_leaves [where g = l_changes]
      fold_leaves [where g = l_unplaced] fold_leaves [where g = l_locates] fold_leaves [where g = l_instructions]
      fold_leaves [where g = l_bookings] fold_leaves [where g = l_received] fold_leaves [where g = l_alerts]
      fold_leaves [where g = l_sleeve_crosses]; simp)+

lemma reported_other [simp]:
  "l_orders (apply_reported rp l) = l_orders l" "l_executions (apply_reported rp l) = l_executions l"
  "l_charges (apply_reported rp l) = l_charges l" "l_unplaced (apply_reported rp l) = l_unplaced l"
  "l_locates (apply_reported rp l) = l_locates l" "l_instructions (apply_reported rp l) = l_instructions l"
  "l_bookings (apply_reported rp l) = l_bookings l" "l_received (apply_reported rp l) = l_received l"
  "l_sleeve_crosses (apply_reported rp l) = l_sleeve_crosses l" "l_alerts (apply_reported rp l) = l_alerts l"
  by (simp_all add: apply_reported_def split: option.splits prod.splits)

lemma alert_cleared_other [simp]:
  "l_orders (apply_alert_cleared i l) = l_orders l" "l_placements (apply_alert_cleared i l) = l_placements l"
  "l_executions (apply_alert_cleared i l) = l_executions l" "l_changes (apply_alert_cleared i l) = l_changes l"
  "l_unplaced (apply_alert_cleared i l) = l_unplaced l" "l_locates (apply_alert_cleared i l) = l_locates l"
  "l_instructions (apply_alert_cleared i l) = l_instructions l"
  "l_received (apply_alert_cleared i l) = l_received l" "l_charges (apply_alert_cleared i l) = l_charges l"
  "l_sleeve_crosses (apply_alert_cleared i l) = l_sleeve_crosses l"
  by (simp_all add: apply_alert_cleared_def Let_def)

end
