(* ===== verification/Order_Moves.thy ===== *)
theory Order_Moves
  imports Order_Ledger
begin

section \<open>The states a placement moves through\<close>

text \<open>
  The state machine a venue's reports drive (\<open>Ledger::reported\<close> of
  \<open>crates/bor/src/orders.rs\<close>), as a step relation beside the code, and the proof that every
  act follows it: nothing but a report moves a placement's state, an ended placement is
  never revived, and a refused change leaves a working placement working.
\<close>

inductive placement_moves :: "placement_event \<Rightarrow> placement_state \<Rightarrow> placement_state \<Rightarrow> bool" where
  sent: "placement_moves VSent PQueued PSent"
| acknowledged: "s \<in> {PQueued, PSent} \<Longrightarrow> placement_moves VAcknowledged s PWorking"
| stopped: "placement_state_live s \<Longrightarrow> placement_moves VDoneForDay s PDoneForDay"
| restated: "placement_moves VRestated PDoneForDay PWorking"
| cancelled: "placement_state_live s \<Longrightarrow> placement_moves VCancelled s PCancelled"
| expired: "placement_state_live s \<Longrightarrow> placement_moves VExpired s PExpired"
| rejected: "placement_state_live s \<Longrightarrow> placement_moves VRejected s PRejected"
| stayed: "placement_moves e s s"

code_pred placement_moves .

inductive_cases placement_movesE: "placement_moves e s t"

inductive_simps ended_moves:
  "placement_moves e PCancelled t" "placement_moves e PExpired t" "placement_moves e PRejected t"

definition placement_ended :: "placement_state \<Rightarrow> bool" where
  "placement_ended s \<longleftrightarrow> s \<in> {PCancelled, PExpired, PRejected}"

lemma ended_stays: "placement_moves e s t \<Longrightarrow> placement_ended s \<Longrightarrow> t = s"
  by (auto simp: placement_ended_def ended_moves placement_state_live_def)

text \<open>States an act can leave a placement in: none is filled, which the fold derives.\<close>

lemma moves_within:
  "placement_moves e s t \<Longrightarrow> s \<noteq> PFilled \<and> s \<noteq> PUnspecified \<Longrightarrow> t \<noteq> PFilled \<and> t \<noteq> PUnspecified"
  by (erule placement_movesE) auto

subsection \<open>Reports\<close>

lemma report_details_state [simp]:
  "pd_state (report_details rp p) = pd_state p" "pd_conditions (report_details rp p) = pd_conditions p"
  "pd_change_requests (report_details rp p) = pd_change_requests p"
  "pl_order_id (pd_placement (report_details rp p)) = pl_order_id (pd_placement p)"
  "pl_placement_id (pd_placement (report_details rp p)) = pl_placement_id (pd_placement p)"
  by (simp_all add: report_details_def Let_def)

lemma report_terms_state [simp]:
  "pd_state (report_terms rp p) = pd_state p" "pd_conditions (report_terms rp p) = pd_conditions p"
  "pl_placement_id (pd_placement (report_terms rp p)) = pl_placement_id (pd_placement p)"
  by (simp_all add: report_terms_def Let_def)

lemma standing_state [simp]:
  "pd_state (set_standing rp k r p) = pd_state p" "pd_state (clear_standing k p) = pd_state p"
  "pd_placement (set_standing rp k r p) = pd_placement p" "pd_placement (clear_standing k p) = pd_placement p"
  by (simp_all add: set_standing_def clear_standing_def)

lemma on_event_moves: "placement_moves e (pd_state p) (pd_state (fst (on_event e rp trigger kind_of pending p)))"
  by (cases e) (auto simp: Let_def intro: placement_moves.intros)

lemma on_event_id [simp]:
  "pl_placement_id (pd_placement (fst (on_event e rp trigger kind_of pending p))) = pl_placement_id (pd_placement p)"
  by (cases e) (simp_all add: Let_def)

text \<open>What a report does to the placement it names.\<close>

definition reported_placement :: "placement_report \<Rightarrow> ledger \<Rightarrow> placement_held \<Rightarrow> placement_held" where
  "reported_placement rp l p =
     fst (on_event (report_event rp) rp (held_for_trigger l p) (placement_change_of l)
            (filter (change_pending l) (pd_change_requests p)) (report_details rp p))"

lemma placements_reported:
  "bt_get (l_placements (apply_reported rp l)) i =
     (if i = rp_placement_id rp then map_option (reported_placement rp l) (bt_get (l_placements l) i)
      else bt_get (l_placements l) i)"
  by (auto simp: apply_reported_def reported_placement_def Let_def split: option.splits prod.splits)

lemma reported_placement_moves:
  "placement_moves (report_event rp) (pd_state p) (pd_state (reported_placement rp l p))"
  using on_event_moves [of "report_event rp" "report_details rp p"] by (simp add: reported_placement_def)

subsection \<open>Acts\<close>

text \<open>The event an act reports of a placement, where it reports one.\<close>

definition event_of :: "act \<Rightarrow> string \<Rightarrow> placement_event" where
  "event_of a i = (case a of PlacementReported rp \<Rightarrow> if rp_placement_id rp = i then report_event rp else VUnspecified
                          | _ \<Rightarrow> VUnspecified)"

definition opens_placement :: "string \<Rightarrow> act \<Rightarrow> bool" where
  "opens_placement i a \<longleftrightarrow> (case a of PlacementOpened p \<Rightarrow> pl_placement_id p = i | _ \<Rightarrow> False)"

lemma accept_each_placements:
  "bt_get (l_placements (accept_each e oid pid sl n ids cs l)) i =
     (if i = pid then map_option (\<lambda>p. p\<lparr>pd_executions := foldl push_new (pd_executions p) ids\<rparr>) (bt_get (l_placements l) i)
      else bt_get (l_placements l) i)"
  by (induction e oid pid sl n ids cs l rule: accept_each.induct) (auto simp: Let_def option.map_comp o_def option.map_ident)

lemma accept_each_orders:
  "bt_get (l_orders (accept_each e oid pid sl n ids cs l)) i =
     (if i = oid then map_option (\<lambda>h. h\<lparr>h_executions := foldl push_new (h_executions h) ids\<rparr>) (bt_get (l_orders l) i)
      else bt_get (l_orders l) i)"
  by (induction e oid pid sl n ids cs l rule: accept_each.induct) (auto simp: Let_def option.map_comp o_def option.map_ident)

text \<open>An act that neither opens the placement nor reports of one leaves its state.\<close>

lemma act_keeps_state:
  assumes "\<not> opens_placement i a" "\<nexists>rp. a = PlacementReported rp"
  shows "map_option pd_state (bt_get (l_placements (apply_act a entry vs l)) i) =
           map_option pd_state (bt_get (l_placements l) i)"
  using assms
  by (cases a) (simp_all add: apply_defs accept_each_placements Let_def opens_placement_def option.map_comp o_def
      split: option.split placed_fact.split)

lemma act_moves:
  assumes "bt_get (l_placements l) i = Some p" "\<not> opens_placement i a"
  shows "\<exists>q. bt_get (l_placements (apply_act a entry vs l)) i = Some q
           \<and> placement_moves (event_of a i) (pd_state p) (pd_state q)"
proof (cases "\<exists>rp. a = PlacementReported rp")
  case True
  with assms show ?thesis by (auto simp: placements_reported reported_placement_moves event_of_def stayed)
next
  case False
  with act_keeps_state [of i a entry vs l] assms
  obtain q where "bt_get (l_placements (apply_act a entry vs l)) i = Some q" "pd_state q = pd_state p" by auto
  then show ?thesis by (auto intro: stayed)
qed

subsection \<open>Runs of acts\<close>

text \<open>A placement's states over a run of acts, each step with the event it is reported.\<close>

inductive placement_run :: "placement_state \<Rightarrow> placement_event list \<Rightarrow> placement_state \<Rightarrow> bool" where
  nothing: "placement_run s [] s"
| event: "placement_moves e s t \<Longrightarrow> placement_run t es u \<Longrightarrow> placement_run s (e # es) u"

inductive_cases placement_runE: "placement_run s (e # es) u"

lemma run_ended: "placement_run s es t \<Longrightarrow> placement_ended s \<Longrightarrow> t = s"
  by (induction rule: placement_run.induct) (auto dest: ended_stays)

lemma run_within:
  "placement_run s es t \<Longrightarrow> s \<noteq> PFilled \<and> s \<noteq> PUnspecified \<Longrightarrow> t \<noteq> PFilled \<and> t \<noteq> PUnspecified"
  by (induction rule: placement_run.induct) (auto dest: moves_within)

lemma acts_run:
  assumes "bt_get (l_placements l) i = Some p" "list_all (\<lambda>a. \<not> opens_placement i a) acts"
  shows "\<exists>q. bt_get (l_placements (apply_acts acts entry vs l)) i = Some q
           \<and> placement_run (pd_state p) (map (\<lambda>a. event_of a i) acts) (pd_state q)"
  using assms
proof (induction acts arbitrary: l p)
  case (Cons a acts)
  then obtain r where r: "bt_get (l_placements (apply_act a entry vs l)) i = Some r"
    "placement_moves (event_of a i) (pd_state p) (pd_state r)" using act_moves [of l i p a entry vs] by auto
  with Cons.IH [OF r(1)] Cons.prems show ?case by (auto simp: apply_acts_def intro: event)
qed (auto simp: apply_acts_def intro: placement_run.nothing)

subsection \<open>Change requests\<close>

lemma changes_decided:
  "bt_get (l_changes (decide_changes outcomes l)) c =
     map_option (\<lambda>r. fold (\<lambda>(i, out) r. if i = c then r\<lparr>cr_outcome := change_outcome_no out\<rparr> else r) outcomes r)
       (bt_get (l_changes l) c)"
  by (induction outcomes arbitrary: l)
    (auto simp: decide_changes_def option.map_comp o_def option.map_id0 split: option.splits)

lemma outcomes_set:
  "cr_outcome (fold (\<lambda>(i, out) r. if i = c then r\<lparr>cr_outcome := change_outcome_no out\<rparr> else r) outcomes r) =
     (case filter (\<lambda>o'. fst o' = c) outcomes of [] \<Rightarrow> cr_outcome r | os \<Rightarrow> change_outcome_no (snd (last os)))"
  by (induction outcomes arbitrary: r) (auto split: list.splits)

lemma no_longer_pending:
  assumes "\<forall>o' \<in> set outcomes. snd o' \<noteq> RPending"
    and "change_pending (decide_changes outcomes l) c"
  shows "change_pending l c \<and> c \<notin> fst ` set outcomes"
proof -
  from assms(2) obtain r where r: "bt_get (l_changes l) c = Some r"
    and p: "cr_outcome (fold (\<lambda>(i, out) r. if i = c then r\<lparr>cr_outcome := change_outcome_no out\<rparr> else r) outcomes r)
              = change_outcome_no RPending"
    by (auto simp: change_pending_def changes_decided split: option.splits)
  show ?thesis
  proof (cases "filter (\<lambda>o'. fst o' = c) outcomes")
    case Nil
    with p r show ?thesis by (auto simp: outcomes_set change_pending_def filter_empty_conv)
  next
    case (Cons x xs)
    then have "last (filter (\<lambda>o'. fst o' = c) outcomes) \<in> set outcomes"
      by (metis filter_is_subset last_in_set list.discI subsetD)
    with assms(1) have "snd (last (x # xs)) \<noteq> RPending" by (metis Cons)
    with p Cons show ?thesis by (cases "snd (last (x # xs))") (auto simp: outcomes_set)
  qed
qed

lemma change_pending_other [simp]: "change_pending (on_placement i f l) c = change_pending l c"
  by (simp add: change_pending_def)


text \<open>A report found: the placement it names, and the change requests it decides.\<close>

lemma reported_found:
  assumes "bt_get (l_placements l) (rp_placement_id rp) = Some p"
  shows "apply_reported rp l =
           decide_changes (snd (on_event (report_event rp) rp (held_for_trigger l p) (placement_change_of l)
                                  (filter (change_pending l) (pd_change_requests p)) (report_details rp p)))
             (on_placement (rp_placement_id rp) (\<lambda>_. reported_placement rp l p) l)"
  using assms by (simp add: apply_reported_def reported_placement_def Let_def split: prod.splits)

lemma on_event_requests [simp]:
  "pd_change_requests (fst (on_event e rp trigger kind_of pending p)) = pd_change_requests p"
  by (cases e) (simp_all add: Let_def set_standing_def clear_standing_def report_terms_def)

lemma reported_requests [simp]: "pd_change_requests (reported_placement rp l p) = pd_change_requests p"
  by (simp add: reported_placement_def)

text \<open>The events that end a placement decide every change request pending on it.\<close>

lemma ending_event_decides:
  assumes "e \<in> {VCancelled, VExpired} \<or> e = VRejected \<and> pd_state p \<notin> {PWorking, PDoneForDay}"
  shows "fst ` set (snd (on_event e rp trigger kind_of pending p)) = set pending"
    "\<forall>o' \<in> set (snd (on_event e rp trigger kind_of pending p)). snd o' \<noteq> RPending"
  using assms by (auto simp: Let_def image_image split: if_splits)

lemma ending_event_ends:
  assumes "e \<in> {VCancelled, VExpired} \<or> e = VRejected \<and> pd_state p \<notin> {PWorking, PDoneForDay}"
    and "placement_state_live (pd_state p)"
  shows "placement_ended (pd_state (fst (on_event e rp trigger kind_of pending p)))"
  using assms by (auto simp: Let_def placement_ended_def)

section \<open>Properties\<close>

text \<open>C7: Whatever acts an entry holds, a placement's state only moves as the venue's reports
  allow: its states over a run of acts are a run of the step relation, under the events the acts
  report of it; so one that was cancelled, expired or rejected is never revived, and no act
  stores the filled state, which the fold alone derives.\<close>

theorem acts_follow_the_placement_states:
  assumes "bt_get (l_placements l) i = Some p" "list_all (\<lambda>a. \<not> opens_placement i a) acts"
  shows "\<exists>q. bt_get (l_placements (apply_acts acts entry vs l)) i = Some q
           \<and> placement_run (pd_state p) (map (\<lambda>a. event_of a i) acts) (pd_state q)
           \<and> (placement_ended (pd_state p) \<longrightarrow> pd_state q = pd_state p)
           \<and> (pd_state p \<notin> {PFilled, PUnspecified} \<longrightarrow> pd_state q \<notin> {PFilled, PUnspecified})"
  using acts_run [OF assms, of entry vs] by (auto dest: run_ended run_within)

definition sample_report :: "placement_event \<Rightarrow> placement_report" where
  "sample_report e = placement_report_default\<lparr>rp_placement_id := ''P1'', rp_event := placement_event_no e\<rparr>"

definition sample_change :: "string \<Rightarrow> change_request" where
  "sample_change i = change_request_default
     \<lparr>cr_change_request_id := i, cr_placement_id := ''P1'', cr_outcome := change_outcome_no RPending\<rparr>"

definition sample_opening :: "act list" where
  "sample_opening =
     [Opened (order_terms_default\<lparr>or_order_id := ''O1'', or_order_type := order_type_no TStop\<rparr>) True,
      PlacementOpened (placement_default\<lparr>pl_placement_id := ''P1'', pl_order_id := ''O1''\<rparr>)]"

definition sample_working :: ledger where
  "sample_working = apply_acts (sample_opening @
     [PlacementReported (sample_report VAcknowledged), ChangeOpened (sample_change ''C1''),
      ChangeOpened (sample_change ''C2'')]) ''E1'' [] ledger_new"

lemma sample_working_held:
  "map_option (\<lambda>p. (pd_state p, pd_change_requests p)) (bt_get (l_placements sample_working) ''P1'') =
     Some (PWorking, [''C1'', ''C2''])"
  "filter (change_pending sample_working) [''C1'', ''C2''] = [''C1'', ''C2'']"
  by code_simp+

theorem acts_follow_the_placement_states_witness:
  "\<exists>q. bt_get (l_placements (apply_acts [PlacementReported (sample_report VCancelled),
            PlacementReported (sample_report VAcknowledged)] ''E2'' [] sample_working)) ''P1'' = Some q
     \<and> placement_run PWorking [VCancelled, VAcknowledged] (pd_state q)"
proof -
  from sample_working_held(1) obtain p where
    p: "bt_get (l_placements sample_working) ''P1'' = Some p" "pd_state p = PWorking" by auto
  have "list_all (\<lambda>a. \<not> opens_placement ''P1'' a)
          [PlacementReported (sample_report VCancelled), PlacementReported (sample_report VAcknowledged)]"
    by code_simp
  from acts_follow_the_placement_states [OF p(1) this, of "''E2''" "[]"] p(2) show ?thesis
    by (auto simp: event_of_def sample_report_def report_event_def placement_event_of_def enum_of_def
        placement_report_default_def)
qed

text \<open>A venue's rejection of a working placement with changes pending on it refuses the
  latest of them and nothing else: the placement works on in its state with its terms, no other
  change request is touched, and no order is.\<close>

theorem a_refused_change_leaves_the_placement:
  assumes "bt_get (l_placements l) (rp_placement_id rp) = Some p"
    and "report_event rp = VRejected" "pd_state p \<in> {PWorking, PDoneForDay}"
    and "filter (change_pending l) (pd_change_requests p) = pending" "pending \<noteq> []"
  shows "bt_get (l_placements (apply_reported rp l)) (rp_placement_id rp) = Some (report_details rp p)
    \<and> bt_get (l_changes (apply_reported rp l)) c =
        (if c = last pending then map_option (\<lambda>r. r\<lparr>cr_outcome := change_outcome_no RRejected\<rparr>) (bt_get (l_changes l) c)
         else bt_get (l_changes l) c)
    \<and> l_orders (apply_reported rp l) = l_orders l"
  using assms by (auto simp: reported_found reported_placement_def changes_decided Let_def option.map_ident)

theorem a_refused_change_leaves_the_placement_witness:
  "map_option cr_outcome (bt_get (l_changes (apply_reported (sample_report VRejected) sample_working)) ''C2'') =
     Some (change_outcome_no RRejected)"
proof -
  from sample_working_held(1) obtain p where
    p: "bt_get (l_placements sample_working) (rp_placement_id (sample_report VRejected)) = Some p"
      "pd_state p = PWorking" "pd_change_requests p = [''C1'', ''C2'']"
    by (auto simp: sample_report_def placement_report_default_def)
  have e: "report_event (sample_report VRejected) = VRejected" by code_simp
  have "bt_get (l_changes sample_working) ''C2'' \<noteq> None" by code_simp
  moreover from a_refused_change_leaves_the_placement [OF p(1) e, of _ "''C2''"]
  have "bt_get (l_changes (apply_reported (sample_report VRejected) sample_working)) ''C2'' =
      map_option (\<lambda>r. r\<lparr>cr_outcome := change_outcome_no RRejected\<rparr>) (bt_get (l_changes sample_working) ''C2'')"
    using p(2) sample_working_held(2) by (simp add: p(3))
  ultimately show ?thesis by auto
qed

text \<open>C23: When the venue ends a placement -- cancels it, lets it expire, or rejects it before
  it works -- every change request pending on it is decided in the same report, and a live
  placement is ended: no request is left waiting on a placement that is gone.\<close>

theorem a_venue_end_decides_every_change:
  assumes "bt_get (l_placements l) (rp_placement_id rp) = Some p"
    and "report_event rp \<in> {VCancelled, VExpired}
         \<or> report_event rp = VRejected \<and> pd_state p \<notin> {PWorking, PDoneForDay}"
  shows "filter (change_pending (apply_reported rp l)) (pd_change_requests p) = []
    \<and> (placement_state_live (pd_state p) \<longrightarrow>
         (\<exists>q. bt_get (l_placements (apply_reported rp l)) (rp_placement_id rp) = Some q
            \<and> placement_ended (pd_state q) \<and> pd_change_requests q = pd_change_requests p))"
proof -
  let ?out = "snd (on_event (report_event rp) rp (held_for_trigger l p) (placement_change_of l)
                     (filter (change_pending l) (pd_change_requests p)) (report_details rp p))"
  have ev: "report_event rp \<in> {VCancelled, VExpired}
      \<or> report_event rp = VRejected \<and> pd_state (report_details rp p) \<notin> {PWorking, PDoneForDay}"
    using assms(2) by simp
  note decides = ending_event_decides [OF ev, of rp "held_for_trigger l p" "placement_change_of l"
      "filter (change_pending l) (pd_change_requests p)"]
  have "\<not> change_pending (apply_reported rp l) c" if "c \<in> set (pd_change_requests p)" for c
    using no_longer_pending [OF decides(2), of "on_placement (rp_placement_id rp) (\<lambda>_. reported_placement rp l p) l" c]
      that decides(1) by (auto simp: reported_found [OF assms(1)])
  moreover have "placement_ended (pd_state (reported_placement rp l p))" if "placement_state_live (pd_state p)"
    using ending_event_ends [OF ev] that by (simp add: reported_placement_def)
  ultimately show ?thesis using assms(1) by (auto simp: filter_empty_conv placements_reported)
qed

theorem a_venue_end_decides_every_change_witness:
  "filter (change_pending (apply_reported (sample_report VCancelled) sample_working)) [''C1'', ''C2''] = []"
proof -
  from sample_working_held(1) obtain p where
    p: "bt_get (l_placements sample_working) (rp_placement_id (sample_report VCancelled)) = Some p"
      "pd_change_requests p = [''C1'', ''C2'']"
    by (auto simp: sample_report_def placement_report_default_def)
  have "report_event (sample_report VCancelled) = VCancelled" by code_simp
  with a_venue_end_decides_every_change [OF p(1)] p(2) show ?thesis by simp
qed

end
