(* ===== verification/Order_Shape.thy ===== *)
theory Order_Shape
  imports Order_Moves
begin

section \<open>The ledger's shape\<close>

text \<open>
  What holds of every ledger a book's entries make (\<open>crates/bor/src/orders.rs\<close>): maps in
  order, each record under its own identifier, no identifier twice in an order's lists, an
  order's placements held, and the split orders a forest -- a child opened after its parent.
  Each act keeps it, as long as no order is opened twice, which the book's fresh identifiers
  give.
\<close>

subsection \<open>All of a map's records\<close>

definition bt_all :: "('k::linorder \<Rightarrow> 'v \<Rightarrow> bool) \<Rightarrow> ('k, 'v) btree \<Rightarrow> bool" where
  "bt_all P m \<longleftrightarrow> (\<forall>k v. bt_get m k = Some v \<longrightarrow> P k v)"

lemma bt_allD: "bt_all P m \<Longrightarrow> bt_get m k = Some v \<Longrightarrow> P k v"
  by (simp add: bt_all_def)

lemma bt_all_Nil [simp]: "bt_all P []"
  by (simp add: bt_all_def)

lemma bt_all_mono: "bt_all P m \<Longrightarrow> (\<And>k v. P k v \<Longrightarrow> Q k v) \<Longrightarrow> bt_all Q m"
  by (simp add: bt_all_def)

lemma bt_all_insert: "bt_all P m \<Longrightarrow> P k v \<Longrightarrow> bt_all P (bt_insert k v m)"
  by (simp add: bt_all_def)

lemma bt_all_adjust: "bt_all P m \<Longrightarrow> (\<And>v. P k v \<Longrightarrow> P k (f v)) \<Longrightarrow> bt_all P (bt_adjust k f m)"
  by (auto simp: bt_all_def)

lemma bt_all_entry:
  "bt_all P m \<Longrightarrow> (\<And>v. P k v \<Longrightarrow> P k (f v)) \<Longrightarrow> (bt_get m k = None \<Longrightarrow> P k (f d)) \<Longrightarrow> bt_all P (bt_entry k d f m)"
  by (auto simp: bt_all_def split: option.splits)

lemmas bt_all_intros = bt_all_insert bt_all_adjust bt_all_entry

lemma bt_has_adjust [simp]: "bt_has (bt_adjust k f m) j = bt_has m j"
  by (auto simp: bt_has_def)

lemma bt_has_insert [simp]: "bt_has (bt_insert k v m) j \<longleftrightarrow> j = k \<or> bt_has m j"
  by (simp add: bt_has_def)

lemma bt_has_entry [simp]: "bt_has (bt_entry k d f m) j \<longleftrightarrow> j = k \<or> bt_has m j"
  by (simp add: bt_has_def)

lemma bt_length_adjust [simp]: "length (bt_adjust k f m) = length m"
  by (induction k f m rule: bt_adjust.induct) auto

lemma bt_length_insert: "\<not> bt_has m k \<Longrightarrow> length (bt_insert k v m) = Suc (length m)"
  by (induction k v m rule: bt_insert.induct) (auto simp: bt_has_def split: if_splits)

lemma fold_keeps: "(\<And>x s. P s \<Longrightarrow> P (f x s)) \<Longrightarrow> P s \<Longrightarrow> P (fold f xs s)"
  by (induction xs arbitrary: s) auto

lemma distinct_push_new [simp]: "distinct (push_new xs i) = distinct xs"
  by (auto simp: push_new_def)

lemma set_push_new [simp]: "set (push_new xs i) = insert i (set xs)"
  by (auto simp: push_new_def)

lemma distinct_push_all [simp]: "distinct (foldl push_new xs is) = distinct xs"
  by (induction "is" arbitrary: xs) auto

subsection \<open>Each record by itself\<close>

definition order_ok :: "string \<Rightarrow> order_held \<Rightarrow> bool" where
  "order_ok i h \<longleftrightarrow> or_order_id (h_order h) = i \<and> distinct (h_placements h) \<and> distinct (h_executions h)
     \<and> distinct (h_children h) \<and> bt_wf (h_conditions h)"

definition placement_ok :: "string \<Rightarrow> placement_held \<Rightarrow> bool" where
  "placement_ok i p \<longleftrightarrow> pl_placement_id (pd_placement p) = i \<and> pl_status (pd_placement p) = None
     \<and> distinct (pd_executions p) \<and> bt_wf (pd_conditions p) \<and> pd_state p \<notin> {PFilled, PUnspecified}"

definition execution_ok :: "string \<Rightarrow> execution_held \<Rightarrow> bool" where
  "execution_ok i x \<longleftrightarrow> xe_execution_id (xd_execution x) = i"

definition booking_ok :: "string \<Rightarrow> booking_held \<Rightarrow> bool" where
  "booking_ok i b \<longleftrightarrow> bo_booking_id (bd_booking b) = i \<and> bd_state b \<noteq> BUnspecified"

definition records_ok :: "ledger \<Rightarrow> bool" where
  "records_ok l \<longleftrightarrow> bt_all order_ok (l_orders l) \<and> bt_all placement_ok (l_placements l)
     \<and> bt_all execution_ok (l_executions l) \<and> bt_all booking_ok (l_bookings l)"

definition maps_ok :: "ledger \<Rightarrow> bool" where
  "maps_ok l \<longleftrightarrow> bt_wf (l_orders l) \<and> bt_wf (l_placements l) \<and> bt_wf (l_executions l) \<and> bt_wf (l_charges l)
     \<and> bt_wf (l_changes l) \<and> bt_wf (l_unplaced l) \<and> bt_wf (l_locates l) \<and> bt_wf (l_instructions l)
     \<and> bt_wf (l_bookings l) \<and> bt_wf (l_received l) \<and> bt_wf (l_sleeve_crosses l) \<and> bt_wf (l_alerts l)"

lemma accept_each_maps:
  "bt_wf (l_orders (accept_each e oid pid sl n ids cs l)) = bt_wf (l_orders l)"
  "bt_wf (l_placements (accept_each e oid pid sl n ids cs l)) = bt_wf (l_placements l)"
  "bt_wf (l_executions (accept_each e oid pid sl n ids cs l)) = bt_wf (l_executions l)"
  by (induction e oid pid sl n ids cs l rule: accept_each.induct) (auto simp: Let_def)

lemma dont_know_maps: "bt_wf (l_executions (apply_dont_know ids r w l)) = bt_wf (l_executions l)"
  unfolding apply_dont_know_def by (rule fold_leaves) simp

lemma sleeve_crossed_maps: "bt_wf (l_orders (apply_sleeve_crossed c l)) = bt_wf (l_orders l)"
  unfolding apply_sleeve_crossed_def Let_def by (subst fold_leaves [where g = "\<lambda>l. bt_wf (l_orders l)"]) simp_all

lemma reported_maps:
  "bt_wf (l_placements (apply_reported rp l)) = bt_wf (l_placements l)"
  "bt_wf (l_changes (apply_reported rp l)) = bt_wf (l_changes l)"
proof -
  have "bt_wf (l_changes (decide_changes outcomes k)) = bt_wf (l_changes k)" for outcomes k
    unfolding decide_changes_def by (rule fold_leaves) (simp split: prod.splits)
  then show "bt_wf (l_placements (apply_reported rp l)) = bt_wf (l_placements l)"
    "bt_wf (l_changes (apply_reported rp l)) = bt_wf (l_changes l)"
    by (simp_all add: apply_reported_def split: option.splits prod.splits)
qed

lemma alert_cleared_maps:
  "bt_wf (l_bookings (apply_alert_cleared i l)) = bt_wf (l_bookings l)"
  "bt_wf (l_alerts (apply_alert_cleared i l)) = bt_wf (l_alerts l)"
  by (simp_all add: apply_alert_cleared_def Let_def bt_wf_def o_def case_prod_unfold)

lemma act_maps: "maps_ok l \<Longrightarrow> maps_ok (apply_act a entry vs l)"
  by (cases a) (simp_all add: maps_ok_def apply_defs accept_each_maps dont_know_maps sleeve_crossed_maps
      reported_maps alert_cleared_maps Let_def split: option.split placed_fact.split)

lemma accept_each_records: "records_ok l \<Longrightarrow> records_ok (accept_each e oid pid sl n ids cs l)"
proof (induction e oid pid sl n ids cs l rule: accept_each.induct)
  case (2 entry oid pid sleeve start i ids counts l)
  show ?case unfolding accept_each.simps Let_def
    by (rule 2(1) [OF refl refl refl refl])
      (use 2(2) in \<open>auto simp: records_ok_def order_ok_def placement_ok_def execution_ok_def intro!: bt_all_intros\<close>)
qed simp

lemma dont_know_records: "records_ok l \<Longrightarrow> records_ok (apply_dont_know ids r w l)"
  unfolding apply_dont_know_def by (rule fold_keeps) (auto simp: records_ok_def execution_ok_def intro!: bt_all_intros)

lemma sleeve_crossed_records: "records_ok l \<Longrightarrow> records_ok (apply_sleeve_crossed c l)"
  unfolding apply_sleeve_crossed_def Let_def
  by (rule fold_keeps [where P = records_ok]) (auto simp: records_ok_def order_ok_def intro!: bt_all_intros)

lemma on_event_placement_ok:
  assumes "placement_ok i p"
  shows "placement_ok i (fst (on_event e rp trigger kind_of pending p))"
proof -
  have "pd_state (fst (on_event e rp trigger kind_of pending p)) \<notin> {PFilled, PUnspecified}"
    using moves_within [OF on_event_moves] assms by (auto simp: placement_ok_def)
  moreover have "distinct (pd_executions (fst (on_event e rp trigger kind_of pending p)))
      \<and> bt_wf (pd_conditions (fst (on_event e rp trigger kind_of pending p)))
      \<and> pl_status (pd_placement (fst (on_event e rp trigger kind_of pending p))) = None"
    using assms by (cases e) (simp_all add: placement_ok_def Let_def set_standing_def clear_standing_def report_terms_def)
  ultimately show ?thesis using assms by (simp add: placement_ok_def)
qed

lemma reported_records: "records_ok l \<Longrightarrow> records_ok (apply_reported rp l)"
proof -
  assume ok: "records_ok l"
  have "placement_ok i (reported_placement rp l p)" if "placement_ok i p" for i p
    unfolding reported_placement_def
    by (rule on_event_placement_ok) (use that in \<open>simp add: placement_ok_def report_details_def Let_def\<close>)
  then have "bt_all placement_ok (l_placements (apply_reported rp l))"
    using ok by (auto simp: bt_all_def placements_reported records_ok_def)
  with ok show ?thesis by (simp add: records_ok_def)
qed

lemma bt_get_map_values: "bt_get (map (\<lambda>(k, b). (k, f b)) m) j = map_option f (bt_get m j)"
  by (induction m j rule: bt_get.induct) auto

lemma alert_cleared_records: "records_ok l \<Longrightarrow> records_ok (apply_alert_cleared i l)"
  by (auto simp: records_ok_def apply_alert_cleared_def Let_def bt_all_def booking_ok_def bt_get_map_values)

lemma remove_conditions_wf: "bt_wf m \<Longrightarrow> bt_wf (fold (\<lambda>c. bt_remove (order_condition_no c)) cs m)"
  by (rule fold_keeps) auto

lemma stale_conditions_wf: "bt_wf (fold (\<lambda>c. bt_insert (pc_condition c) c) cs [])"
  by (rule fold_keeps) auto

lemma placement_opened_records: "records_ok l \<Longrightarrow> records_ok (apply_placement_opened p l)"
  by (auto simp: apply_placement_opened_def Let_def records_ok_def order_ok_def placement_ok_def stale_conditions_wf
      intro!: bt_all_intros)

lemma executed_records: "records_ok l \<Longrightarrow> records_ok (apply_executed x s code client taken row e l)"
  by (auto simp: apply_executed_def Let_def records_ok_def order_ok_def placement_ok_def execution_ok_def taken_onto_def
      intro!: bt_all_intros)

lemma opened_records: "records_ok l \<Longrightarrow> records_ok (apply_opened t r vs l)"
  by (auto simp: apply_opened_def Let_def records_ok_def order_ok_def order_held_default_def split: option.splits
      intro!: bt_all_intros)

lemma act_records:
  assumes "records_ok l"
  shows "records_ok (apply_act a entry vs l)"
proof (cases a)
  case (Accepted ids oid pid counts words)
  with assms show ?thesis by (simp add: apply_accepted_def accept_each_records)
next
  case (Executed x s code client taken row)
  with assms show ?thesis by (simp add: executed_records)
next
  case (Opened t r)
  with assms show ?thesis by (simp add: opened_records)
next
  case (PlacementOpened p)
  with assms show ?thesis by (simp add: placement_opened_records)
next
  case (Ended i state)
  with assms show ?thesis
    by (auto simp: apply_ended_def records_ok_def order_ok_def intro!: bt_all_intros bt_wf_remove)
next
  case (PlacementReported rp)
  with assms show ?thesis by (simp add: reported_records)
next
  case (DontKnow ids r w)
  with assms show ?thesis by (simp add: dont_know_records)
next
  case (SleeveCrossed c)
  with assms show ?thesis by (simp add: sleeve_crossed_records)
next
  case (AlertCleared i)
  with assms show ?thesis by (simp add: alert_cleared_records)
qed (use assms in \<open>auto simp: apply_defs records_ok_def order_ok_def placement_ok_def execution_ok_def booking_ok_def
      taken_onto_def Let_def intro!: bt_all_intros split: option.split placed_fact.split\<close>)


subsection \<open>Split orders are a forest\<close>

text \<open>Each order ranked, a child above its parent, below the number of orders held: as the order
  they were opened in is.\<close>

definition ranked :: "ledger \<Rightarrow> (string \<Rightarrow> nat) \<Rightarrow> bool" where
  "ranked l r \<longleftrightarrow>
     bt_all (\<lambda>i h. r i < length (l_orders l) \<and> (\<forall>c \<in> set (h_children h). bt_has (l_orders l) c \<and> r i < r c)) (l_orders l)"

definition forest :: "ledger \<Rightarrow> bool" where
  "forest l \<longleftrightarrow> (\<exists>r. ranked l r)"

lemma sleeve_crossed_keeps:
  "map_option h_children (bt_get (l_orders (apply_sleeve_crossed c l)) i) = map_option h_children (bt_get (l_orders l) i)"
  "map_option h_placements (bt_get (l_orders (apply_sleeve_crossed c l)) i) = map_option h_placements (bt_get (l_orders l) i)"
  "length (l_orders (apply_sleeve_crossed c l)) = length (l_orders l)"
  unfolding apply_sleeve_crossed_def Let_def
  by (subst fold_leaves [where g = "\<lambda>l. map_option h_children (bt_get (l_orders l) i)"]
      fold_leaves [where g = "\<lambda>l. map_option h_placements (bt_get (l_orders l) i)"]
      fold_leaves [where g = "\<lambda>l. length (l_orders l)"];
      simp add: option.map_comp o_def)+

lemma accept_each_length [simp]: "length (l_orders (accept_each e oid pid sl n ids cs l)) = length (l_orders l)"
  by (induction e oid pid sl n ids cs l rule: accept_each.induct) (simp_all add: Let_def)

definition opens :: "act \<Rightarrow> string option" where
  "opens a = (case a of Opened t _ \<Rightarrow> Some (or_order_id t) | _ \<Rightarrow> None)"

lemma act_keeps_children:
  assumes "opens a = None"
  shows "map_option h_children (bt_get (l_orders (apply_act a entry vs l)) i) = map_option h_children (bt_get (l_orders l) i)"
    "length (l_orders (apply_act a entry vs l)) = length (l_orders l)"
  using assms
  by (cases a; simp add: opens_def apply_defs accept_each_orders sleeve_crossed_keeps Let_def option.map_comp o_def
      split: option.split placed_fact.split)+

lemma act_keeps_placements:
  assumes "\<And>t r. a \<noteq> Opened t r" "\<And>p. a \<noteq> PlacementOpened p"
  shows "map_option h_placements (bt_get (l_orders (apply_act a entry vs l)) i) = map_option h_placements (bt_get (l_orders l) i)"
  using assms
  by (cases a) (auto simp: apply_defs accept_each_orders sleeve_crossed_keeps Let_def option.map_comp o_def
      split: option.split placed_fact.split)

lemma act_has_order:
  "opens a = None \<Longrightarrow> bt_has (l_orders (apply_act a entry vs l)) i = bt_has (l_orders l) i"
  using act_keeps_children(1) [of a entry vs l i] by (metis bt_has_def option.map_disc_iff)

lemma act_has_placement: "bt_has (l_placements l) i \<Longrightarrow> bt_has (l_placements (apply_act a entry vs l)) i"
proof (cases "opens_placement i a")
  case True
  then show ?thesis by (cases a) (auto simp: opens_placement_def apply_placement_opened_def Let_def)
next
  case False
  assume "bt_has (l_placements l) i"
  with act_moves [of l i _ a entry vs] False show ?thesis by (auto simp: bt_has_def)
qed

lemma map_option_eqD: "map_option f x = map_option f y \<Longrightarrow> x = Some v \<Longrightarrow> \<exists>w. y = Some w \<and> f w = f v"
  by (cases y) auto

lemma act_ranked:
  assumes "ranked l r" "opens a = None"
  shows "ranked (apply_act a entry vs l) r"
  unfolding ranked_def bt_all_def
proof (intro allI impI)
  fix i h
  assume "bt_get (l_orders (apply_act a entry vs l)) i = Some h"
  from map_option_eqD [OF act_keeps_children(1) [OF assms(2)] this]
  obtain k where "bt_get (l_orders l) i = Some k" "h_children k = h_children h" by auto
  with assms show "r i < length (l_orders (apply_act a entry vs l))
      \<and> (\<forall>c \<in> set (h_children h). bt_has (l_orders (apply_act a entry vs l)) c \<and> r i < r c)"
    by (auto simp: ranked_def bt_all_def act_has_order act_keeps_children(2))
qed

text \<open>An order opened for the first time goes above all the others.\<close>

lemma opened_ranked:
  assumes "ranked l r" "\<not> bt_has (l_orders l) (or_order_id t)"
  shows "ranked (apply_opened t released vs l) (r(or_order_id t := length (l_orders l)))"
proof -
  let ?n = "length (l_orders l)"
  define m where "m = (case or_link t of None \<Rightarrow> l_orders l | Some link \<Rightarrow>
    bt_adjust (ol_parent_order_id link) (\<lambda>p. p\<lparr>h_children := push_new (h_children p) (or_order_id t)\<rparr>) (l_orders l))"
  have orders: "l_orders (apply_opened t released vs l) = bt_entry (or_order_id t) order_held_default
      (\<lambda>h. h\<lparr>h_order := t, h_released := released, h_version := version_of vs (or_order_id t) (h_version h)\<rparr>) m"
    by (simp add: apply_opened_def m_def Let_def split: option.split)
  have has: "bt_has m i = bt_has (l_orders l) i" for i by (simp add: m_def split: option.split)
  have len: "length (l_orders (apply_opened t released vs l)) = Suc ?n"
    using assms(2) by (simp add: orders bt_entry_def bt_length_insert has) (simp add: m_def split: option.split)
  have old: "r i < ?n \<and> (\<forall>c \<in> set (h_children h). c = or_order_id t \<or> bt_has (l_orders l) c \<and> r i < r c) \<and> i \<noteq> or_order_id t"
    if "bt_get m i = Some h" for i h
    using assms that by (auto simp: m_def ranked_def bt_all_def bt_has_def split: option.splits if_splits)
  have new: "bt_get m (or_order_id t) = None" using assms(2) has [of "or_order_id t"] by (auto simp: bt_has_def)
  show ?thesis
    unfolding ranked_def orders [symmetric] len bt_all_def
  proof (intro allI impI conjI ballI)
    fix i h
    assume h: "bt_get (l_orders (apply_opened t released vs l)) i = Some h"
    show "(r(or_order_id t := ?n)) i < Suc ?n"
    proof (cases "i = or_order_id t")
      case False
      with h old [of i h] show ?thesis by (simp add: orders)
    qed simp
    fix c
    assume c: "c \<in> set (h_children h)"
    show "bt_has (l_orders (apply_opened t released vs l)) c"
      using h c old [of i h] by (auto simp: orders has new order_held_default_def split: if_splits)
    show "(r(or_order_id t := ?n)) i < (r(or_order_id t := ?n)) c"
      using h c old [of i h] assms(2) by (auto simp: orders new order_held_default_def bt_has_def split: if_splits)
  qed
qed


subsection \<open>Placements held\<close>

definition placements_held :: "ledger \<Rightarrow> bool" where
  "placements_held l \<longleftrightarrow> bt_all (\<lambda>i h. \<forall>p \<in> set (h_placements h). bt_has (l_placements l) p) (l_orders l)"

lemma act_placements_held:
  assumes "placements_held l"
  shows "placements_held (apply_act a entry vs l)"
proof (cases "\<exists>t r. a = Opened t r \<or> (\<exists>p. a = PlacementOpened p)")
  case True
  with assms show ?thesis
    by (auto simp: placements_held_def bt_all_def apply_opened_def apply_placement_opened_def Let_def
        order_held_default_def split: option.splits if_splits)
next
  case False
  show ?thesis
    unfolding placements_held_def bt_all_def
  proof (intro allI impI ballI)
    fix i h p
    assume h: "bt_get (l_orders (apply_act a entry vs l)) i = Some h" and p: "p \<in> set (h_placements h)"
    have "map_option h_placements (bt_get (l_orders (apply_act a entry vs l)) i) = map_option h_placements (bt_get (l_orders l) i)"
      by (rule act_keeps_placements) (use False in auto)
    from map_option_eqD [OF this h] p assms have "bt_has (l_placements l) p"
      by (auto simp: placements_held_def bt_all_def)
    then show "bt_has (l_placements (apply_act a entry vs l)) p" by (rule act_has_placement)
  qed
qed

subsection \<open>All of it\<close>

definition ledger_ok :: "ledger \<Rightarrow> bool" where
  "ledger_ok l \<longleftrightarrow> maps_ok l \<and> records_ok l \<and> placements_held l \<and> forest l"

text \<open>No order is opened that is held, nor twice.\<close>

fun opens_fresh :: "string list \<Rightarrow> act list \<Rightarrow> bool" where
  "opens_fresh known [] = True"
| "opens_fresh known (a # acts) =
     (case opens a of
        None \<Rightarrow> opens_fresh known acts
      | Some i \<Rightarrow> \<not> List.member known i \<and> opens_fresh (i # known) acts)"

lemma new_ledger_ok [simp]: "ledger_ok ledger_new"
  by (simp add: ledger_ok_def maps_ok_def records_ok_def placements_held_def forest_def ranked_def ledger_new_def)

lemma opens_SomeD: "opens a = Some i \<Longrightarrow> \<exists>t r. a = Opened t r \<and> or_order_id t = i"
  by (auto simp: opens_def split: act.splits)

lemma opened_has [simp]:
  "bt_has (l_orders (apply_opened t r vs l)) i \<longleftrightarrow> i = or_order_id t \<or> bt_has (l_orders l) i"
  by (auto simp: apply_opened_def Let_def split: option.split)

lemma act_ledger_ok:
  assumes "ledger_ok l" "\<And>i. opens a = Some i \<Longrightarrow> \<not> bt_has (l_orders l) i"
  shows "ledger_ok (apply_act a entry vs l)"
proof -
  from assms(1) obtain r where r: "ranked l r" by (auto simp: ledger_ok_def forest_def)
  have "forest (apply_act a entry vs l)"
  proof (cases "opens a")
    case None
    with act_ranked [OF r] show ?thesis by (auto simp: forest_def)
  next
    case (Some i)
    with opens_SomeD obtain t rel where a: "a = Opened t rel" "or_order_id t = i" by blast
    with assms(2) Some opened_ranked [OF r, of t rel vs] show ?thesis by (auto simp: forest_def)
  qed
  with assms(1) show ?thesis by (simp add: ledger_ok_def act_maps act_records act_placements_held)
qed

lemma acts_ledger_ok:
  assumes "ledger_ok l" "opens_fresh known acts" "\<And>i. bt_has (l_orders l) i \<Longrightarrow> i \<in> set known"
  shows "ledger_ok (apply_acts acts entry vs l)"
  using assms
proof (induction acts arbitrary: l known)
  case (Cons a acts)
  show ?case
  proof (cases "opens a")
    case None
    then have "ledger_ok (apply_act a entry vs l)" by (intro act_ledger_ok [OF Cons.prems(1)]) simp
    with Cons.IH [of "apply_act a entry vs l" known] Cons.prems \<open>opens a = None\<close> show ?thesis
      by (simp add: apply_acts_def act_has_order)
  next
    case (Some i)
    with opens_SomeD obtain t rel where a: "a = Opened t rel" "or_order_id t = i" by blast
    have fresh: "\<not> bt_has (l_orders l) i" using Cons.prems Some by auto
    have "ledger_ok (apply_act a entry vs l)" using Some fresh by (intro act_ledger_ok [OF Cons.prems(1)]) simp
    then show ?thesis using Cons.IH [of "apply_act a entry vs l" "i # known"] Cons.prems Some a
      by (auto simp: apply_acts_def)
  qed
qed (simp add: apply_acts_def)

section \<open>Properties\<close>

text \<open>C10: The shape of the ledger is an invariant: from the empty ledger on, acts that open no
  order twice leave every map in order, every record under its own identifier with no identifier
  twice in its lists, every order's placements held, every stored placement state a reported one,
  and the split orders a forest.\<close>

theorem acts_keep_the_ledger_well_formed:
  assumes "ledger_ok l" "opens_fresh (bt_keys (l_orders l)) acts"
  shows "ledger_ok (apply_acts acts entry vs l)"
  using assms by (rule acts_ledger_ok) (auto simp: bt_has_iff)

theorem acts_keep_the_ledger_well_formed_witness: "ledger_ok sample_working"
  unfolding sample_working_def by (rule acts_keep_the_ledger_well_formed) (simp, code_simp)

end
