(* ===== verification/Order_Fold.thy ===== *)
theory Order_Fold
  imports Order_Shape Book_Store
begin

section \<open>An order's status, folded from the ledger\<close>

text \<open>
  \<open>crates/bor/src/orders.rs\<close>, its second half: what an order has filled and committed, its
  state, conditions and quantities, a placement's, a locate's and a booking's record -- nothing
  of which is stored. The sums are \<open>crates/bor/src/numbers.rs\<close> over \<open>Exact_Decimal\<close>; an error
  is the store's (\<open>Book_Store\<close>), its words the list of what the sentence names.

  The folds over child orders recurse down the split links. They are bounded here by one more
  than the number of orders held; running out of it, as an index that is not there, is
  \<open>Panicked\<close>. On a forest, which every book's ledger is (\<open>Order_Shape\<close>), the bound is never
  reached and a larger one answers the same.
\<close>

subsection \<open>Numbers\<close>

definition required :: "string \<Rightarrow> decimal option \<Rightarrow> store_error + exact" where
  "required field wire =
     (case wire of None \<Rightarrow> Inl (Invalid [field])
      | Some d \<Rightarrow> (case from_wire d of Inl _ \<Rightarrow> Inl (Invalid [field]) | Inr x \<Rightarrow> Inr x))"

definition num_add :: "string \<Rightarrow> exact \<Rightarrow> exact \<Rightarrow> store_error + exact" where
  "num_add field a b = (case checked_add a b of Inl _ \<Rightarrow> Inl (Invalid [field]) | Inr x \<Rightarrow> Inr x)"

definition num_sub :: "string \<Rightarrow> exact \<Rightarrow> exact \<Rightarrow> store_error + exact" where
  "num_sub field a b = num_add field a (negated b)"

definition num_multiply :: "string \<Rightarrow> exact \<Rightarrow> exact \<Rightarrow> store_error + exact" where
  "num_multiply field a b = (case ex_multiply a b of Inl _ \<Rightarrow> Inl (Invalid [field]) | Inr x \<Rightarrow> Inr x)"

definition wire_or_zero :: "decimal option \<Rightarrow> exact" where
  "wire_or_zero wire =
     (case wire of None \<Rightarrow> ex_zero | Some d \<Rightarrow> (case from_wire d of Inl _ \<Rightarrow> ex_zero | Inr x \<Rightarrow> x))"

definition zero_floor :: "exact \<Rightarrow> exact" where
  "zero_floor x = (if is_negative x then ex_zero else x)"

definition ex_ge :: "exact \<Rightarrow> exact \<Rightarrow> bool" where "ex_ge a b \<longleftrightarrow> ex_cmp a b \<noteq> Less"

subsection \<open>Executions\<close>

definition x_reported :: "execution \<Rightarrow> bool" where
  "x_reported x \<longleftrightarrow> finality_of x \<in> {FMatched, FIncluded, FFinal, FUnspecified}"

definition moves_position :: "execution \<Rightarrow> bool" where "moves_position x = x_reported x"

definition x_final :: "execution \<Rightarrow> bool" where "x_final x \<longleftrightarrow> finality_of x \<in> {FFinal, FUnspecified}"

definition x_factor :: "execution_held \<Rightarrow> decimal option" where
  "x_factor e = factor_of (xd_execution e) (xd_factor_taken e)"

definition is_bust :: "execution_held \<Rightarrow> bool" where
  "is_bust e \<longleftrightarrow> xe_supersedes (xd_execution e) \<noteq> []
     \<and> (case xe_quantity (xd_execution e) of
          None \<Rightarrow> True
        | Some d \<Rightarrow> (case from_wire d of Inl _ \<Rightarrow> True | Inr q \<Rightarrow> is_zero q))"

definition x_waiting :: "execution_held \<Rightarrow> bool" where
  "x_waiting e \<longleftrightarrow> xe_state (xd_execution e) = execution_state_no XUnmatched
     \<and> xd_superseded_by e = None \<and> \<not> is_bust e"

definition ordered :: "order_held \<Rightarrow> exact" where
  "ordered h =
     (case or_quantity (h_order h) of
        Some d \<Rightarrow> wire_or_zero (Some d)
      | None \<Rightarrow> wire_or_zero (Option.bind (or_cash_quantity (h_order h)) mo_amount))"

definition counted :: "order_held option \<Rightarrow> execution \<Rightarrow> store_error + exact" where
  "counted h x =
     rbind (required ''execution.quantity'' (xe_quantity x)) (\<lambda>q.
       if (case h of None \<Rightarrow> False | Some h \<Rightarrow> or_quantity (h_order h) = None)
       then num_multiply ''execution's amount'' q (wire_or_zero (Option.bind (xe_price x) mo_amount))
       else Inr q)"

subsection \<open>Filled\<close>

type_synonym fills = "exact \<times> exact \<times> exact"

text \<open>One of an order's own executions counted: nothing of one superseded or of an internal cross.\<close>

definition own_step :: "ledger \<Rightarrow> order_held \<Rightarrow> string \<Rightarrow> fills \<Rightarrow> store_error + fills" where
  "own_step l h i s =
     (case bt_get (l_executions l) i of
        None \<Rightarrow> Inr s
      | Some e \<Rightarrow>
          (let x = xd_execution e; (r, f, a) = s in
           if xd_superseded_by e \<noteq> None then Inr s
           else if xe_kind x = execution_kind_no KInternalCross then Inr s
           else rbind (counted (Some h) x) (\<lambda>q.
             rbind (if x_reported x then num_add ''reported_filled'' r q else Inr r) (\<lambda>r1.
             rbind (if x_final x then num_add ''final_filled'' f q else Inr f) (\<lambda>f1.
             rbind (if finality_of x = FAwaitingAcceptance then num_add ''awaiting_acceptance'' a q else Inr a) (\<lambda>a1.
               Inr (r1, f1, a1)))))))"

definition add_fills :: "fills \<Rightarrow> fills \<Rightarrow> store_error + fills" where
  "add_fills s t =
     (let (r, f, a) = s; (r', f', a') = t in
      rbind (num_add ''reported_filled'' r r') (\<lambda>r1.
      rbind (num_add ''final_filled'' f f') (\<lambda>f1.
      rbind (num_add ''awaiting_acceptance'' a a') (\<lambda>a1. Inr (r1, f1, a1)))))"

text \<open>What allocations received here and sleeve crosses fill of an order, minting no execution.\<close>

definition also_filled :: "ledger \<Rightarrow> string \<Rightarrow> store_error + exact" where
  "also_filled l i =
     rbind (rfold (\<lambda>r t. if rd_member_order_id r = i \<and> \<not> rd_withdrawn r
                        then rbind (required ''allocation.quantity'' (al_quantity (rd_allocation r)))
                               (\<lambda>q. num_add ''allocated'' t q)
                        else Inr t) (bt_values (l_received l)) ex_zero) (\<lambda>t.
       rfold (\<lambda>c t. if List.member (sc_order_ids c) i
                    then rbind (required ''sleeve_cross.quantity'' (sc_quantity c))
                           (\<lambda>q. num_add ''crossed'' t q)
                    else Inr t) (bt_values (l_sleeve_crosses l)) t)"

primrec filled_in :: "nat \<Rightarrow> ledger \<Rightarrow> string \<Rightarrow> store_error + fills" where
  "filled_in 0 l i = Inl Panicked"
| "filled_in (Suc n) l i =
     (case bt_get (l_orders l) i of
        None \<Rightarrow> Inr (ex_zero, ex_zero, ex_zero)
      | Some h \<Rightarrow>
          rbind (rfold (own_step l h) (h_executions h) (ex_zero, ex_zero, ex_zero)) (\<lambda>s.
          rbind (rfold (\<lambda>c s. rbind (filled_in n l c) (add_fills s)) (h_children h) s) (\<lambda>(r, f, a).
          rbind (also_filled l i) (\<lambda>also.
          rbind (num_add ''reported_filled'' r also) (\<lambda>r1.
          rbind (num_add ''final_filled'' f also) (\<lambda>f1. Inr (r1, f1, a)))))))"

definition depth :: "ledger \<Rightarrow> nat" where "depth l = Suc (length (l_orders l))"

definition filled :: "ledger \<Rightarrow> string \<Rightarrow> store_error + fills" where
  "filled l = filled_in (depth l) l"

definition error_booked :: "ledger \<Rightarrow> string \<Rightarrow> store_error + exact" where
  "error_booked l i =
     rfold (\<lambda>b t. if bo_order_id (bd_booking b) \<noteq> i \<or> bd_state b = BCancelled then Inr t
                  else rfold (\<lambda>al t. if al_error_cause al = 0 then Inr t
                                     else rbind (required ''allocation.quantity'' (al_quantity al))
                                            (\<lambda>q. num_add ''error booked'' t q))
                         (bo_allocations (bd_booking b)) t)
       (bt_values (l_bookings l)) ex_zero"

subsection \<open>Placements\<close>

definition placement_filled :: "ledger \<Rightarrow> string \<Rightarrow> store_error + exact" where
  "placement_filled l i =
     (case bt_get (l_placements l) i of
        None \<Rightarrow> Inr ex_zero
      | Some p \<Rightarrow>
          rfold (\<lambda>xi t. case bt_get (l_executions l) xi of
                          None \<Rightarrow> Inr t
                        | Some e \<Rightarrow>
                            if xd_superseded_by e = None \<and> x_reported (xd_execution e)
                            then rbind (counted (bt_get (l_orders l) (pl_order_id (pd_placement p))) (xd_execution e))
                                   (\<lambda>q. num_add ''placement filled'' t q)
                            else Inr t)
            (pd_executions p) ex_zero)"

definition placement_state_at :: "ledger \<Rightarrow> string \<Rightarrow> store_error + placement_state" where
  "placement_state_at l i =
     (case bt_get (l_placements l) i of
        None \<Rightarrow> Inr PUnspecified
      | Some p \<Rightarrow>
          if placement_state_live (pd_state p)
          then let q = wire_or_zero (pl_quantity (pd_placement p)) in
               rbind (placement_filled l i) (\<lambda>f.
                 Inr (if \<not> is_zero q \<and> ex_ge f q then PFilled else pd_state p))
          else Inr (pd_state p))"

definition placement_live :: "ledger \<Rightarrow> string \<Rightarrow> store_error + bool" where
  "placement_live l i =
     (case bt_get (l_placements l) i of
        None \<Rightarrow> Inr False
      | Some p \<Rightarrow>
          rbind (placement_state_at l i) (\<lambda>s.
            Inr (placement_state_live s
                 \<or> bt_has (pd_conditions p) (placement_condition_no PCOutcomeUnknown) \<and> s \<noteq> PFilled)))"

definition placement_open :: "ledger \<Rightarrow> string \<Rightarrow> store_error + exact" where
  "placement_open l i =
     rbind (placement_live l i) (\<lambda>live.
       if \<not> live then Inr ex_zero
       else (case bt_get (l_placements l) i of
               None \<Rightarrow> Inl Panicked
             | Some p \<Rightarrow>
                 rbind (placement_filled l i) (\<lambda>f.
                   rbind (num_sub ''placement open'' (wire_or_zero (pl_quantity (pd_placement p))) f)
                     (\<lambda>open. Inr (zero_floor open)))))"

subsection \<open>Committed, and the state\<close>

text \<open>The state, given what is committed, which only a released order with nothing filled asks.\<close>

definition state_with :: "ledger \<Rightarrow> string \<Rightarrow> store_error + exact \<Rightarrow> store_error + order_state" where
  "state_with l i com =
     (case bt_get (l_orders l) i of
        None \<Rightarrow> Inr OUnspecified
      | Some h \<Rightarrow>
          (case h_ended h of
             Some ended \<Rightarrow> Inr ended
           | None \<Rightarrow>
               rbind (filled l i) (\<lambda>(r, _, _).
                 if \<not> is_zero (ordered h) \<and> ex_ge r (ordered h) then Inr OFilled
                 else if h_released h
                 then (if \<not> is_zero r then Inr OWorking
                       else rbind com (\<lambda>c. Inr (if \<not> is_zero c then OWorking else OReleased)))
                 else Inr OProposed)))"

definition live_state :: "order_state \<Rightarrow> bool" where
  "live_state s \<longleftrightarrow> s \<notin> {ORefused, OCancelled, OExpired, OFilled, OUnspecified}"

primrec committed_in :: "nat \<Rightarrow> ledger \<Rightarrow> string \<Rightarrow> store_error + exact" where
  "committed_in 0 l i = Inl Panicked"
| "committed_in (Suc n) l i =
     (case bt_get (l_orders l) i of
        None \<Rightarrow> Inr ex_zero
      | Some h \<Rightarrow>
          rbind (rfold (\<lambda>p t. rbind (placement_open l p) (num_add ''committed'' t)) (h_placements h) ex_zero) (\<lambda>t.
            rfold (\<lambda>c t.
                rbind (state_with l c (committed_in n l c)) (\<lambda>s.
                  if \<not> live_state s then Inr t
                  else case bt_get (l_orders l) c of
                         None \<Rightarrow> Inl Panicked
                       | Some k \<Rightarrow>
                           rbind (filled l c) (\<lambda>(r, _, _).
                           rbind (num_sub ''committed'' (ordered k) r) (\<lambda>open.
                             num_add ''committed'' t (zero_floor open)))))
              (h_children h) t))"

definition committed :: "ledger \<Rightarrow> string \<Rightarrow> store_error + exact" where
  "committed l = committed_in (depth l) l"

definition order_state_at :: "ledger \<Rightarrow> string \<Rightarrow> store_error + order_state" where
  "order_state_at l i = state_with l i (committed l i)"

definition order_live :: "ledger \<Rightarrow> string \<Rightarrow> store_error + bool" where
  "order_live l i = rbind (order_state_at l i) (\<lambda>s. Inr (live_state s))"

definition live_parts :: "ledger \<Rightarrow> string \<Rightarrow> store_error + (string list \<times> string list)" where
  "live_parts l i =
     (case bt_get (l_orders l) i of
        None \<Rightarrow> Inr ([], [])
      | Some h \<Rightarrow>
          rbind (rfold (\<lambda>p ps. rbind (placement_live l p) (\<lambda>live. Inr (if live then ps @ [p] else ps)))
                   (h_placements h) []) (\<lambda>ps.
          rbind (rfold (\<lambda>c cs. rbind (order_live l c) (\<lambda>live. Inr (if live then cs @ [c] else cs)))
                   (h_children h) []) (\<lambda>cs. Inr (ps, cs))))"


section \<open>Facts\<close>

text \<open>What never panics, so never runs out of the bound.\<close>

definition no_panic :: "store_error + 'a \<Rightarrow> bool" where "no_panic m \<longleftrightarrow> m \<noteq> Inl Panicked"

named_theorems no_panics

lemma no_panic_simps [simp]: "no_panic (Inr a)" "no_panic (Inl e) \<longleftrightarrow> e \<noteq> Panicked"
  by (simp_all add: no_panic_def)

lemma no_panic_rbind [no_panics]: "no_panic m \<Longrightarrow> (\<And>a. m = Inr a \<Longrightarrow> no_panic (f a)) \<Longrightarrow> no_panic (rbind m f)"
  by (cases m) auto

lemma no_panic_rfold [no_panics]: "(\<And>x s. x \<in> set xs \<Longrightarrow> no_panic (f x s)) \<Longrightarrow> no_panic (rfold f xs s)"
  by (induction xs arbitrary: s) (auto intro!: no_panic_rbind)

lemma num_no_panic [simp]:
  "no_panic (num_add field a b)" "no_panic (num_sub field a b)" "no_panic (num_multiply field a b)"
  "no_panic (required field w)"
  by (simp_all add: num_add_def num_sub_def num_multiply_def required_def split: option.split sum.split)

lemma counted_no_panic [simp]: "no_panic (counted h x)"
  by (auto simp: counted_def intro!: no_panics)

lemma own_step_no_panic [simp]: "no_panic (own_step l h i s)"
  by (auto simp: own_step_def Let_def intro!: no_panics split: option.split prod.split)

lemma add_fills_no_panic [simp]: "no_panic (add_fills s t)"
  by (auto simp: add_fills_def intro!: no_panics split: prod.split)

lemma also_filled_no_panic [simp]: "no_panic (also_filled l i)"
  by (auto simp: also_filled_def intro!: no_panics)

lemma placement_filled_no_panic [simp]: "no_panic (placement_filled l i)"
  by (auto simp: placement_filled_def intro!: no_panics split: option.split)

lemma placement_state_no_panic [simp]: "no_panic (placement_state_at l i)"
  by (auto simp: placement_state_at_def Let_def intro!: no_panics split: option.split)

lemma placement_live_no_panic [simp]: "no_panic (placement_live l i)"
  by (auto simp: placement_live_def intro!: no_panics split: option.split)

lemma placement_open_no_panic [simp]: "no_panic (placement_open l i)"
proof -
  have "placement_live l i = Inr False" if "bt_get (l_placements l) i = None" using that by (simp add: placement_live_def)
  then show ?thesis by (auto simp: placement_open_def intro!: no_panics split: option.split)
qed

subsection \<open>The bound is enough\<close>

lemma ranked_child:
  assumes "ranked l r" "bt_get (l_orders l) i = Some h" "c \<in> set (h_children h)"
  shows "r i < r c" "r c < length (l_orders l)" "bt_has (l_orders l) c"
proof -
  show "r i < r c" and c: "bt_has (l_orders l) c" using assms by (auto simp: ranked_def bt_all_def)
  then obtain k where "bt_get (l_orders l) c = Some k" by (auto simp: bt_has_def)
  with assms(1) show "r c < length (l_orders l)" by (auto simp: ranked_def bt_all_def)
qed

lemma filled_in_enough:
  assumes "ranked l r"
  shows "0 < k \<Longrightarrow> k \<le> n \<Longrightarrow> k \<le> m \<Longrightarrow> (bt_has (l_orders l) i \<Longrightarrow> length (l_orders l) - r i \<le> k) \<Longrightarrow>
           filled_in n l i = filled_in m l i \<and> no_panic (filled_in n l i)"
proof (induction k arbitrary: n m i)
  case (Suc k)
  obtain n' m' where nm: "n = Suc n'" "m = Suc m'" using Suc.prems by (cases n; cases m) auto
  show ?case
  proof (cases "bt_get (l_orders l) i")
    case (Some h)
    have child: "filled_in n' l c = filled_in m' l c \<and> no_panic (filled_in n' l c)" if "c \<in> set (h_children h)" for c
      using ranked_child [OF assms Some that] Suc.prems Some by (intro Suc.IH) (auto simp: nm bt_has_def)
    then have "no_panic (filled_in m' l c)" if "c \<in> set (h_children h)" for c using that by metis
    note child = child this
    have "rfold (\<lambda>c s. rbind (filled_in n' l c) (add_fills s)) (h_children h) s =
        rfold (\<lambda>c s. rbind (filled_in m' l c) (add_fills s)) (h_children h) s" for s
      by (rule rfold_cong) (use child in auto)
    then show ?thesis using child by (auto simp: nm Some intro!: no_panics split: prod.split)
  qed (simp add: nm)
qed simp

lemma filled_enough:
  assumes "forest l" "depth l \<le> n"
  shows "filled_in n l i = filled l i" "no_panic (filled l i)"
proof -
  from assms(1) obtain r where r: "ranked l r" by (auto simp: forest_def)
  have "filled l i = filled_in n l i \<and> no_panic (filled l i)"
    unfolding filled_def by (rule filled_in_enough [OF r, of "depth l"]) (use assms(2) in \<open>auto simp: depth_def\<close>)
  then show "filled_in n l i = filled l i" "no_panic (filled l i)" by metis+
qed

lemma state_with_no_panic:
  assumes "forest l" "no_panic com"
  shows "no_panic (state_with l i com)"
  using assms filled_enough(2) [OF assms(1) order_refl]
  by (auto simp: state_with_def intro!: no_panics split: option.split)

lemma committed_in_enough:
  assumes "ranked l r"
  shows "0 < k \<Longrightarrow> k \<le> n \<Longrightarrow> k \<le> m \<Longrightarrow> (bt_has (l_orders l) i \<Longrightarrow> length (l_orders l) - r i \<le> k) \<Longrightarrow>
           committed_in n l i = committed_in m l i \<and> no_panic (committed_in n l i)"
proof (induction k arbitrary: n m i)
  case (Suc k)
  have forest: "forest l" using assms by (auto simp: forest_def)
  obtain n' m' where nm: "n = Suc n'" "m = Suc m'" using Suc.prems by (cases n; cases m) auto
  show ?case
  proof (cases "bt_get (l_orders l) i")
    case (Some h)
    have child: "committed_in n' l c = committed_in m' l c \<and> no_panic (committed_in n' l c)" if "c \<in> set (h_children h)" for c
      using ranked_child [OF assms Some that] Suc.prems Some by (intro Suc.IH) (auto simp: nm bt_has_def)
    note held = ranked_child(3) [OF assms Some]
    define step where "step com c t =
      rbind (state_with l c (com c)) (\<lambda>s. if \<not> live_state s then Inr t
        else case bt_get (l_orders l) c of
               None \<Rightarrow> Inl Panicked
             | Some k \<Rightarrow> rbind (filled l c) (\<lambda>(r, _, _). rbind (num_sub ''committed'' (ordered k) r)
                          (\<lambda>open. num_add ''committed'' t (zero_floor open))))" for com and c and t :: exact
    have unfolded: "committed_in (Suc j) l i =
        rbind (rfold (\<lambda>p t. rbind (placement_open l p) (num_add ''committed'' t)) (h_placements h) ex_zero)
          (rfold (step (committed_in j l)) (h_children h))" for j
      by (simp add: Some step_def [abs_def])
    have "rfold (step (committed_in n' l)) (h_children h) = rfold (step (committed_in m' l)) (h_children h)"
      by (intro ext rfold_cong) (use child in \<open>auto simp: step_def\<close>)
    then have same: "committed_in (Suc n') l i = committed_in (Suc m') l i" unfolding unfolded by simp
    have "no_panic (step (committed_in n' l) c t)" if "c \<in> set (h_children h)" for c t
      using child [OF that] held [OF that] filled_enough(2) [OF forest order_refl]
      by (auto simp: step_def bt_has_def intro!: no_panics state_with_no_panic [OF forest])
    then have "no_panic (committed_in (Suc n') l i)" unfolding unfolded by (auto intro!: no_panics)
    with same show ?thesis unfolding nm by blast
  qed (simp add: nm)
qed simp

lemma committed_enough:
  assumes "forest l" "depth l \<le> n"
  shows "committed_in n l i = committed l i" "no_panic (committed l i)"
proof -
  from assms(1) obtain r where r: "ranked l r" by (auto simp: forest_def)
  have "committed l i = committed_in n l i \<and> no_panic (committed l i)"
    unfolding committed_def by (rule committed_in_enough [OF r, of "depth l"]) (use assms(2) in \<open>auto simp: depth_def\<close>)
  then show "committed_in n l i = committed l i" "no_panic (committed l i)" by metis+
qed


subsection \<open>What a fold of sums is\<close>

lemma num_add_val: "num_add field a b = Inr c \<Longrightarrow> ex_val c = ex_val a + ex_val b"
  by (auto simp: num_add_def dest: checked_add_val split: sum.splits)

lemma num_sub_val: "num_sub field a b = Inr c \<Longrightarrow> ex_val c = ex_val a - ex_val b"
  by (auto simp: num_sub_def dest: num_add_val)

text \<open>A fold each of whose steps adds what its element is worth, adds up what all are.\<close>

lemma rfold_sums:
  fixes v :: "'s \<Rightarrow> rat"
  assumes "\<And>x s t. x \<in> set xs \<Longrightarrow> f x s = Inr t \<Longrightarrow> v t = v s + w x"
  shows "rfold f xs s = Inr t \<Longrightarrow> v t = v s + (\<Sum>x\<leftarrow>xs. w x)"
  using assms
proof (induction xs arbitrary: s)
  case (Cons x xs)
  then obtain u where "f x s = Inr u" "rfold f xs u = Inr t" by (auto simp: rbind_eq_Inr)
  with Cons.IH [of u] Cons.prems(2) [of x s u] Cons.prems(2) show ?case by auto
qed simp


subsection \<open>What filled comes to\<close>

definition wire_val :: "decimal option \<Rightarrow> rat" where "wire_val w = ex_val (wire_or_zero w)"

text \<open>What an execution is worth to its order: its quantity, or at its price for an order for an amount.\<close>

definition worth :: "order_held \<Rightarrow> execution \<Rightarrow> rat" where
  "worth h x = wire_val (xe_quantity x)
     * (if or_quantity (h_order h) = None then wire_val (Option.bind (xe_price x) mo_amount) else 1)"

definition counts :: "execution_held \<Rightarrow> bool" where
  "counts e \<longleftrightarrow> xd_superseded_by e = None \<and> xe_kind (xd_execution e) \<noteq> execution_kind_no KInternalCross
     \<and> x_reported (xd_execution e)"

definition execution_fill :: "ledger \<Rightarrow> order_held \<Rightarrow> string \<Rightarrow> rat" where
  "execution_fill l h i =
     (case bt_get (l_executions l) i of
        None \<Rightarrow> 0 | Some e \<Rightarrow> if counts e then worth h (xd_execution e) else 0)"

definition also_fill :: "ledger \<Rightarrow> string \<Rightarrow> rat" where
  "also_fill l i =
     (\<Sum>r\<leftarrow>bt_values (l_received l). if rd_member_order_id r = i \<and> \<not> rd_withdrawn r
                                   then wire_val (al_quantity (rd_allocation r)) else 0)
     + (\<Sum>c\<leftarrow>bt_values (l_sleeve_crosses l). if List.member (sc_order_ids c) i then wire_val (sc_quantity c) else 0)"

definition order_fill :: "ledger \<Rightarrow> string \<Rightarrow> rat" where
  "order_fill l i =
     (case bt_get (l_orders l) i of
        None \<Rightarrow> 0 | Some h \<Rightarrow> (\<Sum>x\<leftarrow>h_executions h. execution_fill l h x) + also_fill l i)"

text \<open>An order and its split orders, theirs, and so on down.\<close>

primrec family_in :: "nat \<Rightarrow> ledger \<Rightarrow> string \<Rightarrow> string list" where
  "family_in 0 l i = []"
| "family_in (Suc n) l i =
     i # (case bt_get (l_orders l) i of None \<Rightarrow> [] | Some h \<Rightarrow> concat (map (family_in n l) (h_children h)))"

definition family :: "ledger \<Rightarrow> string \<Rightarrow> string list" where
  "family l = family_in (depth l) l"

lemma required_val: "required field w = Inr q \<Longrightarrow> ex_val q = wire_val w \<and> exact_ok q"
  by (auto simp: required_def wire_val_def wire_or_zero_def from_wire_def dest: ex_new_ok
      split: option.splits sum.splits)

lemma wire_or_zero_ok [simp]: "exact_ok (wire_or_zero w)"
  by (auto simp: wire_or_zero_def from_wire_def dest: ex_new_ok split: option.split sum.split)

lemma counted_val: "counted (Some h) x = Inr q \<Longrightarrow> ex_val q = worth h x"
  by (auto simp: counted_def worth_def wire_val_def rbind_eq_Inr num_multiply_def required_val
      dest!: required_val [unfolded wire_val_def] ex_multiply_val(1) split: if_splits sum.splits)

lemma own_step_val:
  "own_step l h i s = Inr t \<Longrightarrow> ex_val (fst t) = ex_val (fst s) + execution_fill l h i"
  by (auto simp: own_step_def execution_fill_def counts_def Let_def rbind_eq_Inr counted_val
      dest!: num_add_val split: option.splits prod.splits if_splits)

lemma add_fills_val: "add_fills s t = Inr u \<Longrightarrow> ex_val (fst u) = ex_val (fst s) + ex_val (fst t)"
  by (auto simp: add_fills_def rbind_eq_Inr dest!: num_add_val split: prod.splits)

lemma also_filled_val: "also_filled l i = Inr t \<Longrightarrow> ex_val t = also_fill l i"
proof -
  assume "also_filled l i = Inr t"
  then obtain s where s: "rfold (\<lambda>r t. if rd_member_order_id r = i \<and> \<not> rd_withdrawn r
        then rbind (required ''allocation.quantity'' (al_quantity (rd_allocation r))) (\<lambda>q. num_add ''allocated'' t q)
        else Inr t) (bt_values (l_received l)) ex_zero = Inr s"
    and t: "rfold (\<lambda>c t. if List.member (sc_order_ids c) i
        then rbind (required ''sleeve_cross.quantity'' (sc_quantity c)) (\<lambda>q. num_add ''crossed'' t q)
        else Inr t) (bt_values (l_sleeve_crosses l)) s = Inr t"
    unfolding also_filled_def rbind_eq_Inr by blast
  have "ex_val s = ex_val ex_zero + (\<Sum>r\<leftarrow>bt_values (l_received l).
      if rd_member_order_id r = i \<and> \<not> rd_withdrawn r then wire_val (al_quantity (rd_allocation r)) else 0)"
    by (rule rfold_sums [OF _ s]) (auto simp: rbind_eq_Inr dest!: num_add_val required_val split: if_splits)
  moreover have "ex_val t = ex_val s + (\<Sum>c\<leftarrow>bt_values (l_sleeve_crosses l).
      if List.member (sc_order_ids c) i then wire_val (sc_quantity c) else 0)"
    by (rule rfold_sums [OF _ t]) (auto simp: rbind_eq_Inr dest!: num_add_val required_val split: if_splits)
  ultimately show ?thesis by (simp add: also_fill_def)
qed

lemma sum_list_concat_map: "(\<Sum>x\<leftarrow>concat xss. f x) = (\<Sum>xs\<leftarrow>xss. \<Sum>x\<leftarrow>xs. (f x :: rat))"
  by (induction xss) simp_all

lemma filled_in_val:
  "filled_in n l i = Inr s \<Longrightarrow> ex_val (fst s) = (\<Sum>o'\<leftarrow>family_in n l i. order_fill l o')"
proof (induction n arbitrary: i s)
  case (Suc n)
  show ?case
  proof (cases "bt_get (l_orders l) i")
    case None
    with Suc.prems show ?thesis by (auto simp: order_fill_def)
  next
    case (Some h)
    from Suc.prems obtain u v more where
      u: "rfold (own_step l h) (h_executions h) (ex_zero, ex_zero, ex_zero) = Inr u" and
      v: "rfold (\<lambda>c s. rbind (filled_in n l c) (add_fills s)) (h_children h) u = Inr v" and
      m: "also_filled l i = Inr more" and r: "num_add ''reported_filled'' (fst v) more = Inr (fst s)"
      by (fastforce simp: Some rbind_eq_Inr split: prod.splits)
    have "ex_val (fst u) = ex_val ex_zero + (\<Sum>x\<leftarrow>h_executions h. execution_fill l h x)"
      using rfold_sums [OF _ u, of "\<lambda>s. ex_val (fst s)" "execution_fill l h"] own_step_val by auto
    moreover have "ex_val (fst v) = ex_val (fst u) + (\<Sum>c\<leftarrow>h_children h. \<Sum>o'\<leftarrow>family_in n l c. order_fill l o')"
      by (rule rfold_sums [OF _ v, of "\<lambda>s. ex_val (fst s)"])
        (auto simp: rbind_eq_Inr dest!: add_fills_val Suc.IH)
    moreover have "order_fill l i = (\<Sum>x\<leftarrow>h_executions h. execution_fill l h x) + also_fill l i"
      by (simp add: Some order_fill_def)
    ultimately show ?thesis
      using num_add_val [OF r] also_filled_val [OF m]
      by (simp add: Some sum_list_concat_map o_def)
  qed
qed simp


text \<open>The family too is complete within the bound.\<close>

lemma family_in_enough:
  assumes "ranked l r"
  shows "0 < k \<Longrightarrow> k \<le> n \<Longrightarrow> k \<le> m \<Longrightarrow> (bt_has (l_orders l) i \<Longrightarrow> length (l_orders l) - r i \<le> k) \<Longrightarrow>
           family_in n l i = family_in m l i"
proof (induction k arbitrary: n m i)
  case (Suc k)
  obtain n' m' where nm: "n = Suc n'" "m = Suc m'" using Suc.prems by (cases n; cases m) auto
  show ?case
  proof (cases "bt_get (l_orders l) i")
    case (Some h)
    have "family_in n' l c = family_in m' l c" if "c \<in> set (h_children h)" for c
      using ranked_child [OF assms Some that] Suc.prems Some by (intro Suc.IH) (auto simp: nm bt_has_def)
    then show ?thesis by (simp add: nm Some cong: map_cong)
  qed (simp add: nm)
qed simp

lemma family_enough:
  assumes "forest l" "depth l \<le> n"
  shows "family_in n l i = family l i"
proof -
  from assms(1) obtain r where r: "ranked l r" by (auto simp: forest_def)
  show ?thesis unfolding family_def
    by (rule family_in_enough [OF r, of "depth l"]) (use assms(2) in \<open>auto simp: depth_def\<close>)
qed

subsection \<open>The sums are within a decimal's range\<close>

definition fills_ok :: "fills \<Rightarrow> bool" where
  "fills_ok s \<longleftrightarrow> exact_ok (fst s) \<and> exact_ok (fst (snd s)) \<and> exact_ok (snd (snd s))"

lemma num_add_ok: "num_add field a b = Inr c \<Longrightarrow> exact_ok c"
  by (auto simp: num_add_def dest: checked_add_ok split: sum.splits)

lemma num_sub_ok: "num_sub field a b = Inr c \<Longrightarrow> exact_ok c"
  by (auto simp: num_sub_def dest: num_add_ok)

lemma filled_in_ok: "filled_in n l i = Inr (r, f, a) \<Longrightarrow> exact_ok r"
  by (cases n) (auto simp: rbind_eq_Inr dest: num_add_ok split: option.splits prod.splits)

lemma ordered_ok [simp]: "exact_ok (ordered h)"
  by (simp add: ordered_def split: option.split)

lemma ex_ge_val: "exact_ok a \<Longrightarrow> exact_ok b \<Longrightarrow> ex_ge a b \<longleftrightarrow> ex_val b \<le> ex_val a"
  by (auto simp: ex_ge_def ex_cmp_val exact_ok_def cmp_def)

lemma zero_floor_val: "ex_val (zero_floor x) = max 0 (ex_val x)"
  by (auto simp: zero_floor_def is_negative_val max_def)

lemma live_parts_no_panic:
  assumes "forest l"
  shows "no_panic (live_parts l i)"
  using state_with_no_panic [OF assms committed_enough(2) [OF assms order_refl]]
  by (auto simp: live_parts_def order_live_def order_state_at_def intro!: no_panics split: option.split)

section \<open>Properties\<close>

text \<open>An order for 100, 60 of it split off and placed, 40 of that filled.\<close>

definition sample_split :: ledger where
  "sample_split = apply_acts
     [Opened (order_terms_default\<lparr>or_order_id := ''O1'', or_quantity := Some (to_wire (mk 100 0))\<rparr>) True,
      Opened (order_terms_default\<lparr>or_order_id := ''O2'', or_quantity := Some (to_wire (mk 60 0)),
        or_link := Some \<lparr>ol_kind = order_link_kind_no LSplit, ol_parent_order_id = ''O1''\<rparr>\<rparr>) True,
      PlacementOpened (placement_default\<lparr>pl_placement_id := ''P1'', pl_order_id := ''O2'',
        pl_quantity := Some (to_wire (mk 60 0))\<rparr>),
      Executed (execution_default\<lparr>xe_execution_id := ''X1'', xe_order_id := ''O2'', xe_placement_id := ''P1'',
        xe_quantity := Some (to_wire (mk 40 0))\<rparr>) ''S1'' [] [] [] factor_row_default]
     ''E1'' [] ledger_new"

lemma sample_split_ok: "ledger_ok sample_split"
  unfolding sample_split_def by (rule acts_ledger_ok [of _ "[]"]) (simp, code_simp, simp add: ledger_new_def bt_has_def)

lemma sample_split_folds:
  "filled sample_split ''O1'' = Inr (mk 40 0, mk 40 0, mk 0 0)"
  "committed sample_split ''O1'' = Inr (mk 20 0)"
  "map_option (\<lambda>h. (h_ended h, h_released h, ordered h)) (bt_get (l_orders sample_split) ''O1'') = Some (None, True, mk 100 0)"
  by code_simp+

text \<open>C20: Folding an order's status always returns: over every ledger a book's entries make, what
  is filled, what is committed, the state and the live parts of any order are found within as many
  levels of split orders as there are orders and one more, a larger bound gives the same answer,
  and no index is missing; only an amount outside the decimal range or unset is refused.\<close>

theorem status_folds_return:
  assumes "ledger_ok l" "depth l \<le> n"
  shows "filled_in n l i = filled l i \<and> committed_in n l i = committed l i \<and> family_in n l i = family l i
    \<and> filled l i \<noteq> Inl Panicked \<and> committed l i \<noteq> Inl Panicked \<and> order_state_at l i \<noteq> Inl Panicked
    \<and> live_parts l i \<noteq> Inl Panicked"
proof -
  have forest: "forest l" using assms(1) by (simp add: ledger_ok_def)
  from filled_enough [OF this assms(2), of i] committed_enough [OF this assms(2), of i]
    family_enough [OF this assms(2), of i] state_with_no_panic [OF this committed_enough(2) [OF this order_refl], of i i]
    live_parts_no_panic [OF this, of i]
  show ?thesis by (auto simp: no_panic_def order_state_at_def)
qed

theorem status_folds_return_witness:
  "filled_in 7 sample_split ''O1'' = filled sample_split ''O1'' \<and> order_state_at sample_split ''O1'' \<noteq> Inl Panicked"
proof -
  have "depth sample_split \<le> 7" by code_simp
  from status_folds_return [OF sample_split_ok this, of "''O1''"] show ?thesis by blast
qed

text \<open>C8: Reported filled is exactly the sum, over the order and every order split from it down
  the chain, of the executions that count -- reported, superseded by none, no internal cross -- at
  their quantity, or at their amount where the order is for an amount, with the allocations and
  sleeve crosses that stand in for executions.\<close>

theorem filled_is_the_sum_over_the_family:
  assumes "filled l i = Inr (r, f, a)"
  shows "ex_val r = (\<Sum>o'\<leftarrow>family l i. order_fill l o')"
  using filled_in_val [of "depth l" l i "(r, f, a)"] assms by (simp add: filled_def family_def)

theorem filled_is_the_sum_over_the_family_witness:
  "(\<Sum>o'\<leftarrow>family sample_split ''O1''. order_fill sample_split o') = 40"
  using filled_is_the_sum_over_the_family [OF sample_split_folds(1)] by (simp add: ex_val_def)

text \<open>An order's state is the documented fold: ended as an act ended it; else filled when what
  is reported filled reaches a quantity ordered that is not zero; else, once released, working when
  anything is filled or committed and released when nothing is; else proposed.\<close>

theorem an_orders_state_is_the_fold:
  assumes "bt_get (l_orders l) i = Some h" "filled l i = Inr (r, f, a)" "committed l i = Inr c"
  shows "order_state_at l i = Inr
    (case h_ended h of
       Some ended \<Rightarrow> ended
     | None \<Rightarrow>
         if ex_val (ordered h) \<noteq> 0 \<and> ex_val (ordered h) \<le> ex_val r then OFilled
         else if h_released h then (if ex_val r = 0 \<and> ex_val c = 0 then OReleased else OWorking)
         else OProposed)"
proof -
  have "exact_ok r" using assms(2) by (auto simp: filled_def dest: filled_in_ok)
  with assms show ?thesis
    by (simp add: order_state_at_def state_with_def is_zero_val ex_ge_val split: option.split)
qed

theorem an_orders_state_is_the_fold_witness: "order_state_at sample_split ''O1'' = Inr OWorking"
proof -
  from sample_split_folds(3) obtain h where
    h: "bt_get (l_orders sample_split) ''O1'' = Some h" "h_ended h = None" "h_released h" "ordered h = mk 100 0" by auto
  from an_orders_state_is_the_fold [OF h(1) sample_split_folds(1,2)] h show ?thesis by (simp add: ex_val_def)
qed

end
