(* ===== verification/Order_Status.thy ===== *)
theory Order_Status
  imports Order_Fold Calendar_Date
begin

section \<open>The records a book answers of its orders\<close>

text \<open>
  \<open>crates/bor/src/orders.rs\<close>, what is read of the ledger: an order's quantities and
  conditions, an order, placement, locate and booking whole, the top of an order's chain, when
  its time in force ends, and which fields of a record an update says changed. A sentence for a
  person is built as the source builds it; an index that is not there is \<open>Panicked\<close>.
\<close>

definition num_wire :: "exact \<Rightarrow> decimal option" where "num_wire x = Some (to_wire x)"

definition quantities :: "ledger \<Rightarrow> string \<Rightarrow> store_error + order_quantities" where
  "quantities l i =
     rbind (ok_or (Invalid [i]) (bt_get (l_orders l) i)) (\<lambda>h.
     rbind (filled l i) (\<lambda>(r, f, a).
     rbind (committed l i) (\<lambda>c.
     rbind (if h_released h \<and> h_ended h = None
            then rbind (num_sub ''idle'' (ordered h) r) (\<lambda>d. num_sub ''idle'' d c)
            else Inr ex_zero) (\<lambda>idle.
     rbind (num_sub ''leaves'' (ordered h) r) (\<lambda>leaves.
       Inr \<lparr>oq_ordered = num_wire (ordered h), oq_reported_filled = num_wire r,
            oq_final_filled = num_wire f, oq_awaiting_acceptance = num_wire a,
            oq_committed = num_wire c, oq_idle = num_wire idle, oq_leaves = num_wire leaves\<rparr>)))))"

subsection \<open>Conditions\<close>

definition pending_changes :: "ledger \<Rightarrow> string \<Rightarrow> change_request list" where
  "pending_changes l i =
     (case bt_get (l_orders l) i of
        None \<Rightarrow> []
      | Some h \<Rightarrow>
          (let ids = h_change_requests h @ concat (map (\<lambda>p. case bt_get (l_placements l) p of
                       None \<Rightarrow> [] | Some pd \<Rightarrow> pd_change_requests pd) (h_placements h))
           in filter (\<lambda>r. cr_outcome r = change_outcome_no RPending)
                (List.map_filter (bt_get (l_changes l)) ids)))"

definition change_words :: "change_request \<Rightarrow> string" where
  "change_words r =
     (case cr_change r of
        Some (OfOrder c) \<Rightarrow>
          (case order_change_kind_of (och_kind c) of
             Some OKCancel \<Rightarrow> ''cancel requested''
           | Some OKAmend \<Rightarrow> ''amendment requested''
           | Some OKQuantity \<Rightarrow> ''quantity change requested''
           | Some OKRecall \<Rightarrow> ''recall requested''
           | Some OKWithdraw \<Rightarrow> ''withdrawal requested''
           | _ \<Rightarrow> ''change requested'')
      | Some (OfPlacement c) \<Rightarrow>
          (case placement_change_kind_of (pch_kind c) of
             Some PKCancel \<Rightarrow> ''cancel requested''
           | Some PKReplace \<Rightarrow> ''replace requested''
           | _ \<Rightarrow> ''change requested'')
      | None \<Rightarrow> ''change requested'')"

definition request_actor :: "change_request \<Rightarrow> actor option" where
  "request_actor r = Option.bind (cr_entry r) em_actor"

definition unknown_step :: "ledger \<Rightarrow> string \<Rightarrow> (int, order_standing) btree \<Rightarrow> (int, order_standing) btree" where
  "unknown_step l p cs =
     (case Option.bind (bt_get (l_placements l) p)
             (\<lambda>pd. bt_get (pd_conditions pd) (placement_condition_no PCOutcomeUnknown)) of
        None \<Rightarrow> cs
      | Some unknown \<Rightarrow>
          bt_insert (order_condition_no COutcomeUnknown)
            (order_standing_default\<lparr>oc_condition := order_condition_no COutcomeUnknown,
               oc_reason := ''placement '' @ p @ [CHR 0x27] @ ''s outcome is unknown'', oc_actor := pc_actor unknown\<rparr>) cs)"

definition order_conditions :: "ledger \<Rightarrow> string \<Rightarrow> store_error + order_standing list" where
  "order_conditions l i =
     rbind (ok_or (Invalid [i]) (bt_get (l_orders l) i)) (\<lambda>h.
       let pending = pending_changes l i;
           c1 = (if pending = [] then h_conditions h
                 else bt_insert (order_condition_no CChangeRequested)
                        (order_standing_default\<lparr>oc_condition := order_condition_no CChangeRequested,
                           oc_reason := change_words (last pending), oc_actor := request_actor (last pending)\<rparr>)
                        (h_conditions h));
           c2 = fold (unknown_step l) (h_placements h) c1
       in rbind (filled l i) (\<lambda>(r, _, _).
          rbind (error_booked l i) (\<lambda>e.
          rbind (num_sub ''filled'' r e) (\<lambda>net.
            Inr (bt_values
              (if \<not> is_zero (ordered h) \<and> ex_cmp net (ordered h) = Greater
                  \<and> \<not> bt_has c2 (order_condition_no CDoesNotTieOut)
               then bt_insert (order_condition_no CDoesNotTieOut)
                      (order_standing_default\<lparr>oc_condition := order_condition_no CDoesNotTieOut,
                         oc_reason := ''reported filled '' @ to_string net @ '' exceeds ordered '' @ to_string (ordered h),
                         oc_tie_out_reason := tie_out_no EOverfill\<rparr>) c2
               else c2))))))"

definition placement_conditions :: "ledger \<Rightarrow> string \<Rightarrow> store_error + placement_standing list" where
  "placement_conditions l i =
     (case bt_get (l_placements l) i of
        None \<Rightarrow> Inl Panicked
      | Some p \<Rightarrow>
          (let pending = filter (\<lambda>r. cr_outcome r = change_outcome_no RPending)
                           (List.map_filter (bt_get (l_changes l)) (pd_change_requests p))
           in Inr (bt_values
                (if pending = [] then pd_conditions p
                 else bt_insert (placement_condition_no PCChangeRequested)
                        (placement_standing_default\<lparr>pc_condition := placement_condition_no PCChangeRequested,
                           pc_reason := change_words (last pending), pc_actor := request_actor (last pending)\<rparr>)
                        (pd_conditions p)))))"

subsection \<open>Records whole\<close>

definition placement_record :: "ledger \<Rightarrow> string \<Rightarrow> store_error + placement" where
  "placement_record l i =
     rbind (ok_or (Invalid [i]) (bt_get (l_placements l) i)) (\<lambda>p.
     rbind (placement_state_at l i) (\<lambda>s.
     rbind (placement_conditions l i) (\<lambda>cs.
       Inr ((pd_placement p)\<lparr>pl_status := Some \<lparr>ps_state = placement_state_no s, ps_conditions = cs\<rparr>,
              pl_checks := pd_checks p,
              pl_change_requests := List.map_filter (bt_get (l_changes l)) (pd_change_requests p),
              pl_last_change := pd_last_change p\<rparr>))))"

definition order_record :: "ledger \<Rightarrow> string \<Rightarrow> bool \<Rightarrow> store_error + order_terms" where
  "order_record l i with_records =
     rbind (ok_or (Invalid [i]) (bt_get (l_orders l) i)) (\<lambda>h.
     rbind (order_state_at l i) (\<lambda>s.
     rbind (order_conditions l i) (\<lambda>cs.
     rbind (quantities l i) (\<lambda>q.
       let o1 = (h_order h)\<lparr>or_status := Some \<lparr>os_state = order_state_no s, os_conditions = cs, os_quantities = Some q\<rparr>,
                  or_checks := h_checks h,
                  or_change_requests := List.map_filter (bt_get (l_changes l)) (h_change_requests h),
                  or_last_change := h_last_change h\<rparr>
       in if \<not> with_records then Inr o1
          else rbind (rfold (\<lambda>p ps. rbind (placement_record l p) (\<lambda>r. Inr (ps @ [r]))) (h_placements h) []) (\<lambda>ps.
                 Inr (o1\<lparr>or_placements := ps,
                         or_executions := map xd_execution (List.map_filter (bt_get (l_executions l)) (h_executions h)),
                         or_charges := List.map_filter (bt_get (l_charges l)) (h_charges h)\<rparr>))))))"

definition locate_step :: "locate_use \<Rightarrow> exact \<Rightarrow> store_error + exact" where
  "locate_step u remaining =
     (let q = wire_or_zero (lu_quantity u) in
      case locate_use_kind_of (lu_kind u) of
        Some UGiveBack \<Rightarrow> num_add ''remaining'' remaining q
      | Some UReserve \<Rightarrow> num_sub ''remaining'' remaining q
      | Some UConsume \<Rightarrow> num_sub ''remaining'' remaining q
      | _ \<Rightarrow> Inr remaining)"

definition locate_record :: "ledger \<Rightarrow> string \<Rightarrow> store_error + locate" where
  "locate_record l i =
     rbind (ok_or (Invalid [i]) (bt_get (l_locates l) i)) (\<lambda>k.
     rbind (rfold locate_step (ld_uses k)
              (wire_or_zero (Option.bind (lo_answer (ld_locate k)) la_quantity_approved))) (\<lambda>remaining.
       Inr ((ld_locate k)\<lparr>lo_remaining := num_wire remaining, lo_uses := ld_uses k\<rparr>)))"

definition booking_record :: "ledger \<Rightarrow> string \<Rightarrow> store_error + booking" where
  "booking_record l i =
     rbind (ok_or (Invalid [i]) (bt_get (l_bookings l) i)) (\<lambda>b.
       Inr ((bd_booking b)\<lparr>bo_state := booking_state_no (bd_state b), bo_held_reason := bd_held_reason b\<rparr>))"

definition booked_in :: "ledger \<Rightarrow> string \<Rightarrow> booking_held option" where
  "booked_in l x =
     find (\<lambda>b. bd_state b \<noteq> BCancelled \<and> List.member (bo_execution_ids (bd_booking b)) x) (bt_values (l_bookings l))"

subsection \<open>The top of the chain\<close>

definition parent_of :: "ledger \<Rightarrow> string \<Rightarrow> string option" where
  "parent_of l i =
     Option.bind (bt_get (l_orders l) i) (\<lambda>h. map_option ol_parent_order_id (or_link (h_order h)))"

function top_from :: "ledger \<Rightarrow> string list \<Rightarrow> string \<Rightarrow> string" where
  "top_from l seen i =
     (case parent_of l i of
        None \<Rightarrow> i
      | Some parent \<Rightarrow>
          if List.member seen parent \<or> \<not> bt_has (l_orders l) parent then i
          else top_from l (parent # seen) parent)"
  by pat_completeness auto
termination
proof (relation "measure (\<lambda>(l, seen, _). card (set (bt_keys (l_orders l)) - set seen))")
  fix l :: ledger and seen i parent
  assume p: "\<not> (List.member seen parent \<or> \<not> bt_has (l_orders l) parent)"
  then have "parent \<in> set (bt_keys (l_orders l)) - set seen" by (auto simp: bt_has_iff)
  then have "set (bt_keys (l_orders l)) - set (parent # seen) \<subset> set (bt_keys (l_orders l)) - set seen" by auto
  then have "card (set (bt_keys (l_orders l)) - set (parent # seen)) < card (set (bt_keys (l_orders l)) - set seen)"
    by (intro psubset_card_mono) simp_all
  then show "((l, parent # seen, parent), (l, seen, i)) \<in> measure (\<lambda>(l, seen, _). card (set (bt_keys (l_orders l)) - set seen))"
    unfolding in_measure case_prod_conv .
qed simp

declare top_from.simps [simp del]

definition chain_top :: "ledger \<Rightarrow> string \<Rightarrow> string" where "chain_top l i = top_from l [] i"

subsection \<open>When an order's time in force ends\<close>

definition DAY_NS :: int where "DAY_NS = 86400 * 1000000000"

definition checked_i64 :: "int \<Rightarrow> int option" where
  "checked_i64 n = (if - (2 ^ 63) \<le> n \<and> n < 2 ^ 63 then Some n else None)"

definition end_of :: "date \<Rightarrow> int option" where
  "end_of d = checked_i64 ((days_since_epoch d + 1) * DAY_NS)"

definition expires_at :: "order_held \<Rightarrow> int option" where
  "expires_at h =
     (case time_in_force_of (or_time_in_force (h_order h)) of
        None \<Rightarrow> None
      | Some t \<Rightarrow>
          if t \<in> {IDay, IAtTheOpen, IAtTheClose} then end_of (of_utc_instant (h_opened_at_ns h))
          else if t = IGoodTillDate
          then (case parse_date (or_expire_date (h_order h)) of Inl _ \<Rightarrow> None | Inr d \<Rightarrow> end_of d)
          else if t = IGoodTillTime
          then (if or_expire_time_ns (h_order h) > 0 then Some (or_expire_time_ns (h_order h)) else None)
          else None)"

definition due_at :: "order_held \<Rightarrow> int option" where
  "due_at h =
     (if h_ending h \<noteq> None \<or> h_ended h \<noteq> None then None
      else let day = time_in_force_of (or_time_in_force (h_order h)) \<in> {Some IDay, Some IAtTheOpen, Some IAtTheClose}
           in if \<not> h_released h \<and> \<not> day then None else expires_at h)"

subsection \<open>What an update says changed\<close>

definition order_changed :: "order_terms option \<Rightarrow> order_terms \<Rightarrow> string list" where
  "order_changed earlier after =
     (let before = (case earlier of None \<Rightarrow> order_terms_default | Some b \<Rightarrow> b) in
      map fst (filter snd
        [(''order_id'', or_order_id before \<noteq> or_order_id after),
         (''account_id'', or_account_id before \<noteq> or_account_id after),
         (''instrument_id'', or_instrument_id before \<noteq> or_instrument_id after),
         (''sleeve'', or_sleeve before \<noteq> or_sleeve after),
         (''side'', or_side before \<noteq> or_side after),
         (''locate_id'', or_locate_id before \<noteq> or_locate_id after),
         (''quantity'', or_quantity before \<noteq> or_quantity after),
         (''cash_quantity'', or_cash_quantity before \<noteq> or_cash_quantity after),
         (''order_type'', or_order_type before \<noteq> or_order_type after),
         (''limit_price'', or_limit_price before \<noteq> or_limit_price after),
         (''stop_price'', or_stop_price before \<noteq> or_stop_price after),
         (''dealt_currency'', or_dealt_currency before \<noteq> or_dealt_currency after),
         (''legs'', or_legs before \<noteq> or_legs after),
         (''allocation_instruction'', or_allocation_instruction before \<noteq> or_allocation_instruction after),
         (''time_in_force'', or_time_in_force before \<noteq> or_time_in_force after),
         (''expire_date'', or_expire_date before \<noteq> or_expire_date after),
         (''expire_time_ns'', or_expire_time_ns before \<noteq> or_expire_time_ns after),
         (''execution_instructions'', or_execution_instructions before \<noteq> or_execution_instructions after),
         (''lot_relief_method'', or_lot_relief_method before \<noteq> or_lot_relief_method after),
         (''relieve_lot_ids'', or_relieve_lot_ids before \<noteq> or_relieve_lot_ids after),
         (''capacity'', or_capacity before \<noteq> or_capacity after),
         (''direction'', or_direction before \<noteq> or_direction after),
         (''parties'', or_parties before \<noteq> or_parties after),
         (''person_roles'', or_person_roles before \<noteq> or_person_roles after),
         (''customer_id'', or_customer_id before \<noteq> or_customer_id after),
         (''firm_designated_id'', or_firm_designated_id before \<noteq> or_firm_designated_id after),
         (''handling_instructions'', or_handling_instructions before \<noteq> or_handling_instructions after),
         (''received_at_ns'', or_received_at_ns before \<noteq> or_received_at_ns after),
         (''received_precision'', or_received_precision before \<noteq> or_received_precision after),
         (''quote_at_receipt'', or_quote_at_receipt before \<noteq> or_quote_at_receipt after),
         (''represents_order_ids'', or_represents_order_ids before \<noteq> or_represents_order_ids after),
         (''axe_source'', or_axe_source before \<noteq> or_axe_source after),
         (''axe_counterparty_id'', or_axe_counterparty_id before \<noteq> or_axe_counterparty_id after),
         (''link'', or_link before \<noteq> or_link after),
         (''origin'', or_origin before \<noteq> or_origin after),
         (''venue_order_id'', or_venue_order_id before \<noteq> or_venue_order_id after),
         (''block_member_order_ids'', or_block_member_order_ids before \<noteq> or_block_member_order_ids after),
         (''sleeve_cross_ids'', or_sleeve_cross_ids before \<noteq> or_sleeve_cross_ids after),
         (''status'', or_status before \<noteq> or_status after),
         (''checks'', or_checks before \<noteq> or_checks after),
         (''change_requests'', or_change_requests before \<noteq> or_change_requests after),
         (''placements'', or_placements before \<noteq> or_placements after),
         (''executions'', or_executions before \<noteq> or_executions after),
         (''charges'', or_charges before \<noteq> or_charges after)]))"

definition placement_changed :: "placement option \<Rightarrow> placement \<Rightarrow> string list" where
  "placement_changed earlier after =
     (let before = (case earlier of None \<Rightarrow> placement_default | Some b \<Rightarrow> b) in
      map fst (filter snd
        [(''placement_id'', pl_placement_id before \<noteq> pl_placement_id after),
         (''order_id'', pl_order_id before \<noteq> pl_order_id after),
         (''account_id'', pl_account_id before \<noteq> pl_account_id after),
         (''ems_instance_id'', pl_ems_instance_id before \<noteq> pl_ems_instance_id after),
         (''connectivity_instance_id'', pl_connectivity_instance_id before \<noteq> pl_connectivity_instance_id after),
         (''venue_account_code'', pl_venue_account_code before \<noteq> pl_venue_account_code after),
         (''quantity'', pl_quantity before \<noteq> pl_quantity after),
         (''limit_price'', pl_limit_price before \<noteq> pl_limit_price after),
         (''time_in_force'', pl_time_in_force before \<noteq> pl_time_in_force after),
         (''strategy'', pl_strategy before \<noteq> pl_strategy after),
         (''destination'', pl_destination before \<noteq> pl_destination after),
         (''route_type'', pl_route_type before \<noteq> pl_route_type after),
         (''routed_at_ns'', pl_routed_at_ns before \<noteq> pl_routed_at_ns after),
         (''routed_precision'', pl_routed_precision before \<noteq> pl_routed_precision after),
         (''handling_instructions'', pl_handling_instructions before \<noteq> pl_handling_instructions after),
         (''rfq_id'', pl_rfq_id before \<noteq> pl_rfq_id after),
         (''axe_id'', pl_axe_id before \<noteq> pl_axe_id after),
         (''venue_order_id'', pl_venue_order_id before \<noteq> pl_venue_order_id after),
         (''status'', pl_status before \<noteq> pl_status after),
         (''person_roles'', pl_person_roles before \<noteq> pl_person_roles after),
         (''checks'', pl_checks before \<noteq> pl_checks after),
         (''rejection_reason'', pl_rejection_reason before \<noteq> pl_rejection_reason after),
         (''rejection_as_reported'', pl_rejection_as_reported before \<noteq> pl_rejection_as_reported after),
         (''venue_order_ids'', pl_venue_order_ids before \<noteq> pl_venue_order_ids after)]))"


section \<open>Facts\<close>

lemma wire_val_num_wire [simp]: "exact_ok x \<Longrightarrow> wire_val (num_wire x) = ex_val x"
  by (simp add: wire_val_def num_wire_def wire_or_zero_def from_to_wire)

lemma i64_instant_dated:
  assumes "- (2 ^ 63) \<le> ns" "ns < (2 ^ 63 :: int)"
  shows "\<exists>d. from_days (ns div NS_PER_DAY) = Some d"
proof -
  have "(- (2 ^ 63)) div NS_PER_DAY \<le> ns div NS_PER_DAY"
    by (rule zdiv_mono1 [OF assms(1)]) (simp add: NS_PER_DAY_def)
  moreover have "ns div NS_PER_DAY \<le> 2 ^ 63 div NS_PER_DAY"
    by (rule zdiv_mono1 [OF order_less_imp_le [OF assms(2)]]) (simp add: NS_PER_DAY_def)
  ultimately have "- 719162 \<le> ns div NS_PER_DAY \<and> ns div NS_PER_DAY \<le> 2932896" by (simp add: NS_PER_DAY_def)
  then have "from_days (ns div NS_PER_DAY) \<noteq> None" using dates_range by blast
  then show ?thesis by auto
qed


lemma day_end:
  assumes "- (2 ^ 63) \<le> ns" "ns < (2 ^ 63 :: int)"
  shows "end_of (of_utc_instant ns) = checked_i64 ((ns div DAY_NS + 1) * DAY_NS)"
proof -
  from i64_instant_dated [OF assms] obtain d where d: "from_days (ns div NS_PER_DAY) = Some d" by blast
  then have "days_since_epoch d = ns div NS_PER_DAY" by (rule counted)
  with d show ?thesis by (simp add: end_of_def of_utc_instant_def DAY_NS_def NS_PER_DAY_def)
qed

lemma day_around: "ns < (ns div DAY_NS + 1) * DAY_NS" "(ns div DAY_NS + 1) * DAY_NS \<le> ns + DAY_NS"
proof -
  have "ns = ns div DAY_NS * DAY_NS + ns mod DAY_NS" by simp
  moreover have "0 \<le> ns mod DAY_NS" "ns mod DAY_NS < DAY_NS" by (simp_all add: DAY_NS_def)
  ultimately show "ns < (ns div DAY_NS + 1) * DAY_NS" "(ns div DAY_NS + 1) * DAY_NS \<le> ns + DAY_NS"
    unfolding distrib_right mult_1 by linarith+
qed

text \<open>What a use of a locate takes from what is left of it.\<close>

definition use_taken :: "locate_use \<Rightarrow> rat" where
  "use_taken u =
     (case locate_use_kind_of (lu_kind u) of
        Some UReserve \<Rightarrow> wire_val (lu_quantity u)
      | Some UConsume \<Rightarrow> wire_val (lu_quantity u)
      | Some UGiveBack \<Rightarrow> - wire_val (lu_quantity u)
      | _ \<Rightarrow> 0)"

lemma locate_step_val: "locate_step u s = Inr t \<Longrightarrow> ex_val t = ex_val s - use_taken u"
  by (auto simp: locate_step_def use_taken_def wire_val_def Let_def dest!: num_add_val num_sub_val
      split: option.splits locate_use_kind.splits)

lemma locate_step_ok: "locate_step u s = Inr t \<Longrightarrow> exact_ok s \<Longrightarrow> exact_ok t"
  by (auto simp: locate_step_def Let_def dest: num_add_ok num_sub_ok split: option.splits locate_use_kind.splits)

lemma locate_uses_val:
  assumes "rfold locate_step us s = Inr t"
  shows "ex_val t = ex_val s - (\<Sum>u\<leftarrow>us. use_taken u)"
  using rfold_sums [OF _ assms, of ex_val "\<lambda>u. - use_taken u"] locate_step_val
  by (auto simp: uminus_sum_list_map o_def)



text \<open>The top of a chain: reached by parents held, and itself with none, or with one passed before.\<close>

lemma top_from_end:
  "case parent_of l (top_from l seen i) of
     None \<Rightarrow> True
   | Some p \<Rightarrow> \<not> bt_has (l_orders l) p \<or> p \<in> set seen \<or> (\<exists>n > 0. ((\<lambda>j. Option.bind j (parent_of l)) ^^ n) (Some i) = Some p)"
proof (induction l seen i rule: top_from.induct)
  case (1 l seen i)
  show ?case
  proof (cases "parent_of l i")
    case None
    then show ?thesis by (simp add: top_from.simps [of l seen i])
  next
    case (Some p)
    show ?thesis
    proof (cases "List.member seen p \<or> \<not> bt_has (l_orders l) p")
      case True
      then show ?thesis by (auto simp: top_from.simps [of l seen i] Some)
    next
      case False
      have climb: "((\<lambda>j. Option.bind j (parent_of l)) ^^ n) (Some p) = Some q
          \<Longrightarrow> \<exists>n > 0. ((\<lambda>j. Option.bind j (parent_of l)) ^^ n) (Some i) = Some q" for n q
        by (rule exI [of _ "Suc n"]) (simp add: funpow_Suc_right Some del: funpow.simps)
      have "top_from l seen i = top_from l (p # seen) p" using False by (simp add: top_from.simps [of l seen i] Some)
      with 1 [OF Some False] climb [of 0 p] climb show ?thesis by (auto split: option.splits)
    qed
  qed
qed


section \<open>Properties\<close>




text \<open>What is left of a locate is what the prime approved less what was reserved and
  consumed of it, with what was given back returned, exactly; before an answer nothing is.\<close>

theorem a_locates_remaining_is_exact:
  assumes "bt_get (l_locates l) i = Some k" "locate_record l i = Inr m"
  shows "wire_val (lo_remaining m) =
      wire_val (Option.bind (lo_answer (ld_locate k)) la_quantity_approved) - (\<Sum>u\<leftarrow>ld_uses k. use_taken u)
    \<and> lo_uses m = ld_uses k \<and> lo_answer m = lo_answer (ld_locate k)"
proof -
  let ?approved = "wire_or_zero (Option.bind (lo_answer (ld_locate k)) la_quantity_approved)"
  from assms obtain left where left: "rfold locate_step (ld_uses k) ?approved = Inr left"
    and m: "m = (ld_locate k)\<lparr>lo_remaining := num_wire left, lo_uses := ld_uses k\<rparr>"
    by (auto simp: locate_record_def rbind_eq_Inr)
  have "exact_ok left" by (rule rfold_invariant [OF left]) (auto dest: locate_step_ok)
  with locate_uses_val [OF left] m show ?thesis by (simp add: wire_val_def [of "Option.bind _ _"])
qed

definition sample_locates :: ledger where
  "sample_locates = apply_acts
     [LocateOpened (locate_default\<lparr>lo_locate_record_id := ''L1''\<rparr>),
      LocateAnswered ''L1'' (locate_answer_default\<lparr>la_quantity_approved := Some (to_wire (mk 500 0))\<rparr>),
      LocateUsed ''L1'' (locate_use_default\<lparr>lu_kind := 1, lu_quantity := Some (to_wire (mk 300 0))\<rparr>),
      LocateUsed ''L1'' (locate_use_default\<lparr>lu_kind := 2, lu_quantity := Some (to_wire (mk 505 1))\<rparr>)]
     ''E1'' [] ledger_new"

theorem a_locates_remaining_is_exact_witness:
  "\<exists>m. locate_record sample_locates ''L1'' = Inr m
     \<and> wire_val (lo_remaining m) = 500 - (\<Sum>u\<leftarrow>lo_uses m. use_taken u)"
proof -
  have "(case locate_record sample_locates ''L1'' of Inl _ \<Rightarrow> False | Inr _ \<Rightarrow> True)" by code_simp
  then obtain m where m: "locate_record sample_locates ''L1'' = Inr m" by (auto split: sum.splits)
  have "map_option (\<lambda>k. Option.bind (lo_answer (ld_locate k)) la_quantity_approved) (bt_get (l_locates sample_locates) ''L1'')
      = Some (Some (to_wire (mk 500 0)))" by code_simp
  then obtain k where k: "bt_get (l_locates sample_locates) ''L1'' = Some k"
    "Option.bind (lo_answer (ld_locate k)) la_quantity_approved = num_wire (mk 500 0)" by (auto simp: num_wire_def)
  have "exact_ok (mk 500 0)" by (simp add: exact_ok_def PLACES_def LIMIT_def DIGITS_def)
  then have "wire_val (num_wire (mk 500 0)) = 500" by (simp add: ex_val_def)
  with a_locates_remaining_is_exact [OF k(1) m] m show ?thesis by (simp add: k(2))
qed

text \<open>A day order, and one at the open or the close, expires at the end of the UTC day it was
  opened in: after it was opened, at most a day later, at a whole day; it is due then while it is
  neither ending nor ended, whether released or not, and an order never released that is not a
  day order never comes due.\<close>

theorem a_day_order_expires_at_its_days_end:
  assumes "- (2 ^ 63) \<le> h_opened_at_ns h" "h_opened_at_ns h < 2 ^ 63 - DAY_NS"
    and "time_in_force_of (or_time_in_force (h_order h)) \<in> {Some IDay, Some IAtTheOpen, Some IAtTheClose}"
  shows "\<exists>e. expires_at h = Some e \<and> h_opened_at_ns h < e \<and> e \<le> h_opened_at_ns h + DAY_NS \<and> DAY_NS dvd e
      \<and> due_at h = (if h_ending h = None \<and> h_ended h = None then Some e else None)"
proof -
  let ?e = "(h_opened_at_ns h div DAY_NS + 1) * DAY_NS"
  note around = day_around [of "h_opened_at_ns h"]
  have "h_opened_at_ns h < 2 ^ 63" using assms(2) by (simp add: DAY_NS_def)
  then have "end_of (of_utc_instant (h_opened_at_ns h)) = checked_i64 ?e" by (rule day_end [OF assms(1)])
  also have "\<dots> = Some ?e" using assms(1,2) around unfolding checked_i64_def by simp
  finally have "expires_at h = Some ?e" using assms(3) by (auto simp: expires_at_def)
  with around assms(3) show ?thesis by (auto simp: due_at_def)
qed

theorem a_day_order_expires_at_its_days_end_witness:
  "\<exists>e. expires_at (order_held_default\<lparr>h_order := order_terms_default\<lparr>or_time_in_force := 1\<rparr>, h_opened_at_ns := 5\<rparr>) = Some e
     \<and> 5 < e \<and> e \<le> 5 + DAY_NS"
proof -
  let ?h = "order_held_default\<lparr>h_order := order_terms_default\<lparr>or_time_in_force := 1\<rparr>, h_opened_at_ns := 5\<rparr>"
  have "time_in_force_of (or_time_in_force (h_order ?h)) = Some IDay" by code_simp
  with a_day_order_expires_at_its_days_end [of ?h] show ?thesis by (auto simp: DAY_NS_def)
qed

subsection \<open>A dealer's quotes\<close>

text \<open>Recording or picking a quote changes a placement's quotes and its pick, and nothing else.\<close>

definition requoted :: "string \<Rightarrow> (placement \<Rightarrow> placement_quote list) \<Rightarrow> (placement \<Rightarrow> string) \<Rightarrow> ledger \<Rightarrow> ledger" where
  "requoted i f g = on_placement i (\<lambda>p. p\<lparr>pd_placement := (pd_placement p)
     \<lparr>pl_quotes := f (pd_placement p), pl_picked_quote_id := g (pd_placement p)\<rparr>\<rparr>)"

lemma quoting_requotes:
  "apply_placement_quoted i quote =
     requoted i (\<lambda>p. let same = (\<lambda>q. pq_quote_id q = pq_quote_id quote) in
                     if list_ex same (pl_quotes p) then on_first same (\<lambda>_. quote) (pl_quotes p) else pl_quotes p @ [quote])
       (\<lambda>p. if pl_picked_quote_id p = pq_quote_id quote
                 \<and> quote_outcome_of (pq_outcome quote) \<in> {Some QExpired, Some QWithdrawn} then [] else pl_picked_quote_id p)"
  "apply_quote_picked i picked =
     requoted i (\<lambda>p. on_first (\<lambda>q. pq_quote_id q = picked) (\<lambda>q. q\<lparr>pq_outcome := quote_outcome_no QPicked\<rparr>) (pl_quotes p))
       (\<lambda>_. picked)"
  by (simp_all add: apply_placement_quoted_def apply_quote_picked_def requoted_def Let_def)

lemma requoted_record:
  assumes "placement_record l i = Inr before"
  shows "placement_record (requoted i f g l) i =
     Inr (before\<lparr>pl_quotes := f (pd_placement (the (bt_get (l_placements l) i))),
                 pl_picked_quote_id := g (pd_placement (the (bt_get (l_placements l) i)))\<rparr>)"
proof -
  from assms obtain p where p: "bt_get (l_placements l) i = Some p" by (auto simp: placement_record_def rbind_eq_Inr ok_or_eq_Inr)
  have fill: "placement_filled (requoted i f g l) i = placement_filled l i"
    by (simp add: placement_filled_def requoted_def p cong: option.case_cong if_cong)
  have "placement_state_at (requoted i f g l) i = placement_state_at l i"
    using fill by (simp add: placement_state_at_def requoted_def p Let_def cong: if_cong)
  moreover have "placement_conditions (requoted i f g l) i = placement_conditions l i"
    by (simp add: placement_conditions_def requoted_def p Let_def cong: if_cong)
  ultimately show ?thesis using assms
    by (auto simp: placement_record_def rbind_eq_Inr p) (simp add: requoted_def p)
qed

lemma quoted_in: "list_ex P qs \<Longrightarrow> quote \<in> set (on_first P (\<lambda>_. quote) qs)"
  by (induction qs) auto

text \<open>What an update says changed leaves fields out. A dealer's quote recorded on a placement,
  or one picked, changes the placement's record, and the update says nothing of it changed; an
  order opened with a limit yield and a value date is said to have neither.\<close>

theorem some_changes_are_not_named:
  assumes "a \<in> {PlacementQuoted i quote, QuotePicked i picked}" "placement_record l i = Inr before"
  shows "\<exists>after. placement_record (apply_act a entry vs l) i = Inr after
      \<and> placement_changed (Some before) after = []
      \<and> (if a = QuotePicked i picked then pl_picked_quote_id after = picked else quote \<in> set (pl_quotes after))
      \<and> order_changed None (order_terms_default\<lparr>or_limit_yield := y, or_value_date := d\<rparr>) = []"
proof -
  have order: "order_changed None (order_terms_default\<lparr>or_limit_yield := y, or_value_date := d\<rparr>) = []"
    by (simp add: order_changed_def order_terms_default_def)
  have same: "placement_changed (Some before) (before\<lparr>pl_quotes := qs, pl_picked_quote_id := k\<rparr>) = []" for qs k
    by (simp add: placement_changed_def)
  note records = requoted_record [OF assms(2)]
  from assms(1) consider "a = PlacementQuoted i quote" | "a = QuotePicked i picked" by blast
  then show ?thesis
  proof cases
    case 1
    with order same quoted_in show ?thesis
      by (simp only: apply_act.simps quoting_requotes records sum.inject act.distinct if_False) (simp add: Let_def quoted_in)
  next
    case 2
    with order same show ?thesis by (simp add: quoting_requotes records)
  qed
qed

theorem some_changes_are_not_named_witness:
  "\<exists>before after. placement_record sample_split ''P1'' = Inr before
     \<and> placement_record (apply_act (QuotePicked ''P1'' ''Q1'') ''E2'' [] sample_split) ''P1'' = Inr after
     \<and> pl_picked_quote_id after = ''Q1'' \<and> pl_picked_quote_id before = [] \<and> placement_changed (Some before) after = []"
proof -
  have "(case placement_record sample_split ''P1'' of Inl _ \<Rightarrow> False | Inr b \<Rightarrow> pl_picked_quote_id b = [])" by code_simp
  then obtain before where b: "placement_record sample_split ''P1'' = Inr before" "pl_picked_quote_id before = []"
    by (auto split: sum.splits)
  from some_changes_are_not_named [OF _ b(1), of "QuotePicked ''P1'' ''Q1''" _ "''Q1''" "''E2''" "[]"] b
  show ?thesis by (auto split: if_splits)
qed

end
