(* ===== verification/Order_Touched.thy ===== *)
theory Order_Touched
  imports Order_Shape
begin

section \<open>The records an entry's acts change\<close>

text \<open>
  \<open>Ledger::touched\<close> of \<open>crates/bor/src/orders.rs\<close>: the identifiers of the records an entry
  numbers and publishes, each once, worked out before its acts are applied. The loop that adds
  each order's parents grows the list it walks; it ends since each identifier is added once and
  every parent is one the ledger or the acts name.
\<close>

record touched =
  t_orders :: "string list"
  t_placements :: "string list"
  t_executions :: "string list"
  t_unplaced :: "string list"
  t_locates :: "string list"
  t_instructions :: "string list"
  t_bookings :: "string list"
  t_alerts :: "string list"
  t_settings :: "string list"

definition touched_none :: touched where
  "touched_none = \<lparr>t_orders = [], t_placements = [], t_executions = [], t_unplaced = [], t_locates = [],
     t_instructions = [], t_bookings = [], t_alerts = [], t_settings = []\<rparr>"

definition push_once :: "string list \<Rightarrow> string \<Rightarrow> string list" where
  "push_once xs i = (if i \<noteq> [] \<and> \<not> List.member xs i then xs @ [i] else xs)"

definition add_order :: "string \<Rightarrow> touched \<Rightarrow> touched" where
  "add_order i t = t\<lparr>t_orders := push_once (t_orders t) i\<rparr>"

definition add_placement :: "string \<Rightarrow> touched \<Rightarrow> touched" where
  "add_placement i t = t\<lparr>t_placements := push_once (t_placements t) i\<rparr>"

definition add_execution :: "string \<Rightarrow> touched \<Rightarrow> touched" where
  "add_execution i t = t\<lparr>t_executions := push_once (t_executions t) i\<rparr>"

definition add_unplaced :: "string \<Rightarrow> touched \<Rightarrow> touched" where
  "add_unplaced i t = t\<lparr>t_unplaced := push_once (t_unplaced t) i\<rparr>"

definition add_locate :: "string \<Rightarrow> touched \<Rightarrow> touched" where
  "add_locate i t = t\<lparr>t_locates := push_once (t_locates t) i\<rparr>"

definition add_booking :: "string \<Rightarrow> touched \<Rightarrow> touched" where
  "add_booking i t = t\<lparr>t_bookings := push_once (t_bookings t) i\<rparr>"

definition add_alert :: "string \<Rightarrow> touched \<Rightarrow> touched" where
  "add_alert i t = t\<lparr>t_alerts := push_once (t_alerts t) i\<rparr>"

definition add_setting :: "string \<Rightarrow> touched \<Rightarrow> touched" where
  "add_setting i t = t\<lparr>t_settings := push_once (t_settings t) i\<rparr>"

text \<open>One act's records; the ledger is the one before any of the acts.\<close>

primrec touch_act :: "act \<Rightarrow> ledger \<Rightarrow> touched \<Rightarrow> touched" where
  "touch_act (Opened t released) l s = add_order (or_order_id t) s"
| "touch_act (Terms t) l s = add_order (or_order_id t) s"
| "touch_act (Released i) l s = add_order i s"
| "touch_act (ReleaseRequested i) l s = add_order i s"
| "touch_act (Recalled i) l s = add_order i s"
| "touch_act (Ended i state) l s = add_order i s"
| "touch_act (Ending i state) l s = add_order i s"
| "touch_act (Condition i condition on standing) l s = add_order i s"
| "touch_act (Overridden i) l s = add_order i s"
| "touch_act (Checked i verdict) l s =
     (if ck_placement_id verdict = [] then add_order i s
      else add_order i (add_placement (ck_placement_id verdict) s))"
| "touch_act (ChangeOpened r) l s = add_placement (cr_placement_id r) (add_order (cr_order_id r) s)"
| "touch_act (ChangeOutcome i outcome) l s =
     (case bt_get (l_changes l) i of
        None \<Rightarrow> s | Some r \<Rightarrow> add_placement (cr_placement_id r) (add_order (cr_order_id r) s))"
| "touch_act (PlacementOpened p) l s = add_order (pl_order_id p) (add_placement (pl_placement_id p) s)"
| "touch_act (PlacementQuoted i quote) l s = add_placement i s"
| "touch_act (QuotePicked i quote) l s = add_placement i s"
| "touch_act (NetLinked i net account) l s = add_order i s"
| "touch_act (PlacementRefused i) l s = add_order i s"
| "touch_act (AcceptRefused ids) l s = fold add_execution ids s"
| "touch_act (PlacementReported rp) l s =
     (let s1 = add_placement (rp_placement_id rp) s in
      case bt_get (l_placements l) (rp_placement_id rp) of
        None \<Rightarrow> s1 | Some p \<Rightarrow> add_order (pl_order_id (pd_placement p)) s1)"
| "touch_act (Executed x sender code client taken row) l s =
     (let s1 = add_order (xe_order_id x) (add_placement (xe_placement_id x) (add_execution (xe_execution_id x) s))
      in if xe_supersedes x = [] then s1 else add_execution (xe_supersedes x) s1)"
| "touch_act (FactorRevised i taken row lots) l s = add_execution i s"
| "touch_act (CapacityBackfilled i capacity) l s = add_execution i s"
| "touch_act (NotRecordedBackfilled b als) l s = add_booking b s"
| "touch_act (FixedIncomeBackfill cutoff finished) l s = add_setting ''fixed-income-backfill'' s"
| "touch_act (Accepted ids oid pid counts words) l s = add_order oid (add_placement pid (fold add_execution ids s))"
| "touch_act (DontKnow ids reason words) l s = fold add_execution ids s"
| "touch_act (ValueDateRolled roll sender) l s = s"
| "touch_act (Charged c) l s = add_order (ch_order_id c) (add_placement (ch_placement_id c) s)"
| "touch_act (Unplaced f sender) l s = add_unplaced (uf_unplaced_id f) s"
| "touch_act (Placed i) l s = add_unplaced i s"
| "touch_act (LocateOpened k) l s = add_locate (lo_locate_record_id k) s"
| "touch_act (LocateAnswered i answer) l s = add_locate i s"
| "touch_act (LocateUsed i used) l s = add_locate i s"
| "touch_act (Instructed key instruction) l s = s\<lparr>t_instructions := push_once (t_instructions s) key\<rparr>"
| "touch_act (BookingOpened b lines) l s = add_booking (bo_booking_id b) s"
| "touch_act (BookingHeld b reason) l s = add_booking b s"
| "touch_act (BookingHandedOff b) l s = add_booking b s"
| "touch_act (BookingClosed b) l s = add_booking b s"
| "touch_act (BookingCancelled b reason) l s = add_booking b s"
| "touch_act (BookingReplaced b als effective reason lines) l s = add_booking b s"
| "touch_act (BookingMoved b reason) l s = add_booking b s"
| "touch_act (AllocationReceived b account a member_order lines factor month) l s = add_order member_order s"
| "touch_act (AllocationWithdrawn b a) l s =
     (case bt_get (l_received l) (b, a) of None \<Rightarrow> s | Some r \<Rightarrow> add_order (rd_member_order_id r) s)"
| "touch_act (GiveUpRecorded x b a answer) l s = add_booking b (add_execution x s)"
| "touch_act (SleeveCrossed c) l s = fold add_order (sc_order_ids c) s"
| "touch_act (AlertRaised a) l s = add_alert (ar_alert_id a) s"
| "touch_act (AlertAcknowledged i reason) l s = add_alert i s"
| "touch_act (AlertCleared i) l s = add_alert i s"
| "touch_act (LocalRecordOrdersSet allows) l s = add_setting ''local-record-orders'' s"
| "touch_act (AgentOrdersDemoOnlySet on) l s = add_setting ''agent-orders-demo-only'' s"

text \<open>The parents of the orders the acts open or give terms.\<close>

definition opened_terms :: "act \<Rightarrow> order_terms option" where
  "opened_terms a = (case a of Opened t _ \<Rightarrow> Some t | Terms t \<Rightarrow> Some t | _ \<Rightarrow> None)"

definition note_parent :: "act \<Rightarrow> (string, string) btree \<Rightarrow> (string, string) btree" where
  "note_parent a ps =
     (case opened_terms a of
        None \<Rightarrow> ps
      | Some t \<Rightarrow> (case or_link t of
                     None \<Rightarrow> ps | Some link \<Rightarrow> bt_insert (or_order_id t) (ol_parent_order_id link) ps))"

definition opened_parents :: "act list \<Rightarrow> (string, string) btree" where
  "opened_parents acts = fold note_parent acts []"

definition touched_parent :: "ledger \<Rightarrow> (string, string) btree \<Rightarrow> string \<Rightarrow> string option" where
  "touched_parent l ps i =
     (case Option.bind (bt_get (l_orders l) i) (\<lambda>h. case or_link (h_order h) of
             None \<Rightarrow> None
           | Some link \<Rightarrow> if ol_kind link = order_link_kind_no LNet then None else Some (ol_parent_order_id link)) of
        Some parent \<Rightarrow> Some parent
      | None \<Rightarrow> bt_get ps i)"

text \<open>Every parent the walk can meet.\<close>

definition known_parents :: "ledger \<Rightarrow> (string, string) btree \<Rightarrow> string set" where
  "known_parents l ps = set (bt_values ps) \<union>
     (\<lambda>(i, h). case or_link (h_order h) of None \<Rightarrow> [] | Some link \<Rightarrow> ol_parent_order_id link) ` set (l_orders l)"

lemma known_parent: "touched_parent l ps i = Some parent \<Longrightarrow> parent \<in> known_parents l ps"
  by (force simp: touched_parent_def known_parents_def bind_eq_Some_conv dest!: bt_get_Some_mem
      split: option.splits if_splits)

definition climb_left :: "ledger \<times> (string, string) btree \<times> nat \<times> string list \<Rightarrow> nat" where
  "climb_left = (\<lambda>(l, ps, n, orders). card (known_parents l ps - set orders) + (length orders - n))"

function climb :: "ledger \<Rightarrow> (string, string) btree \<Rightarrow> nat \<Rightarrow> string list \<Rightarrow> string list" where
  "climb l ps n orders =
     (if n < length orders
      then climb l ps (Suc n)
             (case touched_parent l ps (orders ! n) of None \<Rightarrow> orders | Some parent \<Rightarrow> push_once orders parent)
      else orders)"
  by pat_completeness auto

termination
proof (relation "measure climb_left")
  fix l ps n and orders :: "string list"
  assume n: "n < length orders"
  have fin: "finite (known_parents l ps)" by (simp add: known_parents_def)
  show "((l, ps, Suc n, case touched_parent l ps (orders ! n) of None \<Rightarrow> orders | Some p \<Rightarrow> push_once orders p),
         (l, ps, n, orders)) \<in> measure climb_left"
  proof (cases "touched_parent l ps (orders ! n)")
    case None
    with n show ?thesis by (simp add: climb_left_def)
  next
    case (Some p)
    show ?thesis
    proof (cases "p \<noteq> [] \<and> p \<notin> set orders")
      case True
      with known_parent [OF Some] have "known_parents l ps - insert p (set orders) \<subset> known_parents l ps - set orders" by auto
      with fin have "card (known_parents l ps - insert p (set orders)) < card (known_parents l ps - set orders)"
        by (intro psubset_card_mono) auto
      with True Some n show ?thesis by (simp add: climb_left_def push_once_def)
    next
      case False
      with Some n show ?thesis by (auto simp: climb_left_def push_once_def)
    qed
  qed
qed simp

declare climb.simps [simp del]

definition touched_by :: "ledger \<Rightarrow> act list \<Rightarrow> touched" where
  "touched_by l acts =
     (let t = fold (\<lambda>a. touch_act a l) acts touched_none
      in t\<lparr>t_orders := climb l (opened_parents acts) 0 (t_orders t)\<rparr>)"


section \<open>Facts\<close>

lemma set_push_once: "set (push_once xs i) = (if i = [] then set xs else insert i (set xs))"
  by (auto simp: push_once_def)

lemma distinct_push_once [simp]: "distinct xs \<Longrightarrow> distinct (push_once xs i)"
  by (simp add: push_once_def)

lemmas add_defs = add_order_def add_placement_def add_execution_def add_unplaced_def add_locate_def
  add_booking_def add_alert_def add_setting_def

lemma fold_add_execution [simp]:
  "t_orders (fold add_execution ids s) = t_orders s" "t_placements (fold add_execution ids s) = t_placements s"
  "t_locates (fold add_execution ids s) = t_locates s" "t_instructions (fold add_execution ids s) = t_instructions s"
  "t_unplaced (fold add_execution ids s) = t_unplaced s" "t_bookings (fold add_execution ids s) = t_bookings s"
  "t_alerts (fold add_execution ids s) = t_alerts s"
  "set (t_executions (fold add_execution ids s)) = set (t_executions s) \<union> (set ids - {[]})"
  by (induction ids arbitrary: s) (auto simp: add_execution_def set_push_once)

lemma fold_add_order [simp]:
  "t_executions (fold add_order ids s) = t_executions s" "t_placements (fold add_order ids s) = t_placements s"
  "t_locates (fold add_order ids s) = t_locates s" "t_instructions (fold add_order ids s) = t_instructions s"
  "t_unplaced (fold add_order ids s) = t_unplaced s" "t_bookings (fold add_order ids s) = t_bookings s"
  "t_alerts (fold add_order ids s) = t_alerts s"
  "set (t_orders (fold add_order ids s)) = set (t_orders s) \<union> (set ids - {[]})"
  by (induction ids arbitrary: s) (auto simp: add_order_def set_push_once)

text \<open>Nothing touched is forgotten.\<close>

definition touched_le :: "touched \<Rightarrow> touched \<Rightarrow> bool" where
  "touched_le s t \<longleftrightarrow> set (t_orders s) \<subseteq> set (t_orders t) \<and> set (t_placements s) \<subseteq> set (t_placements t)
     \<and> set (t_executions s) \<subseteq> set (t_executions t) \<and> set (t_locates s) \<subseteq> set (t_locates t)
     \<and> set (t_instructions s) \<subseteq> set (t_instructions t)"

lemma touched_le_refl [simp]: "touched_le s s"
  by (simp add: touched_le_def)













subsection \<open>Each once\<close>

definition touched_once :: "touched \<Rightarrow> bool" where
  "touched_once t \<longleftrightarrow> distinct (t_orders t) \<and> distinct (t_placements t) \<and> distinct (t_executions t)
     \<and> distinct (t_unplaced t) \<and> distinct (t_locates t) \<and> distinct (t_instructions t)
     \<and> distinct (t_bookings t) \<and> distinct (t_alerts t) \<and> distinct (t_settings t)"

lemma add_once [simp]:
  assumes "touched_once s"
  shows "touched_once (add_order i s)" "touched_once (add_placement i s)" "touched_once (add_execution i s)"
    "touched_once (add_unplaced i s)" "touched_once (add_locate i s)" "touched_once (add_booking i s)"
    "touched_once (add_alert i s)" "touched_once (add_setting i s)"
    "touched_once (s\<lparr>t_instructions := push_once (t_instructions s) i\<rparr>)"
    "touched_once (fold add_order ids s)" "touched_once (fold add_execution ids s)"
proof -
  have each: "touched_once (add_order i s)" "touched_once (add_execution i s)" if "touched_once s" for i s
    using that by (simp_all add: touched_once_def add_defs)
  show "touched_once (fold add_order ids s)"
    by (rule fold_keeps [where P = touched_once]) (use each assms in auto)
  show "touched_once (fold add_execution ids s)"
    by (rule fold_keeps [where P = touched_once]) (use each assms in auto)
qed (use assms in \<open>simp_all add: touched_once_def add_defs\<close>)


subsection \<open>The walk up to the parents\<close>



section \<open>Properties\<close>









text \<open>Terms given to a member of a net number the net too. A net's member is linked to the
  net order, which the allocation account holds, and whatever else touches the member leaves the
  net alone; but an amendment's terms carry the link, and the net's identifier is numbered in this
  account's partition, where no order has it and nothing is published for the number.\<close>

theorem amending_a_net_member_numbers_the_net:
  assumes "bt_get (l_orders l) i = Some h" "or_order_id (h_order h) = i" "i \<noteq> []"
    and "or_link (h_order h) = Some \<lparr>ol_kind = order_link_kind_no LNet, ol_parent_order_id = net\<rparr>"
    and "net \<noteq> []" "net \<noteq> i" "\<not> bt_has (l_orders l) net"
  shows "t_orders (touched_by l [Terms ((h_order h)\<lparr>or_limit_price := price\<rparr>)]) = [i, net]
    \<and> t_orders (touched_by l [Released i]) = [i]
    \<and> \<not> bt_has (l_orders (apply_acts [Terms ((h_order h)\<lparr>or_limit_price := price\<rparr>)] entry vs l)) net"
proof -
  have held: "touched_parent l ps i = bt_get ps i" for ps using assms(1,4) by (simp add: touched_parent_def)
  have up: "touched_parent l ps net = bt_get ps net" for ps using assms(7) by (simp add: touched_parent_def bt_has_def)
  have "climb l [(i, net)] 0 [i] = [i, net]" "climb l [] 0 [i] = [i]"
    using assms(3,5,6) by (simp_all add: climb.simps held up push_once_def)
  with assms(2-4,7) show ?thesis
    by (simp add: touched_by_def touched_none_def add_order_def push_once_def opened_parents_def note_parent_def
        opened_terms_def apply_acts_def apply_terms_def Let_def)
qed

definition sample_member :: ledger where
  "sample_member = apply_acts [Opened (order_terms_default\<lparr>or_order_id := ''O1''\<rparr>) True, NetLinked ''O1'' ''N1'' ''A1'']
     ''E1'' [] ledger_new"

theorem amending_a_net_member_numbers_the_net_witness:
  "\<exists>h. bt_get (l_orders sample_member) ''O1'' = Some h
     \<and> t_orders (touched_by sample_member [Terms ((h_order h)\<lparr>or_limit_price := None\<rparr>)]) = [''O1'', ''N1'']"
proof -
  have "map_option (\<lambda>h. (or_order_id (h_order h), or_link (h_order h))) (bt_get (l_orders sample_member) ''O1'') =
      Some (''O1'', Some \<lparr>ol_kind = order_link_kind_no LNet, ol_parent_order_id = ''N1''\<rparr>)" by code_simp
  then obtain h where h: "bt_get (l_orders sample_member) ''O1'' = Some h" "or_order_id (h_order h) = ''O1''"
    "or_link (h_order h) = Some \<lparr>ol_kind = order_link_kind_no LNet, ol_parent_order_id = ''N1''\<rparr>" by auto
  have "\<not> bt_has (l_orders sample_member) ''N1''" by code_simp
  with amending_a_net_member_numbers_the_net [OF h(1,2) _ h(3), of None] h(1) show ?thesis by auto
qed

end
