(* ===== verification/Order_Settle.thy ===== *)
theory Order_Settle
  imports Order_Fold
begin

section \<open>What an entry's acts bring with them\<close>

text \<open>
  \<open>settle\<close> of \<open>crates/bor/src/order_decide.rs\<close>: before an entry is made, every order whose cancel
  or expiry was waiting and now has nothing live is ended, up the chain of parents, and a cancel's
  own request applied with it. The loop may in principle run for ever, so it is a
  \<open>partial_function\<close>: not returning is \<open>None\<close>. That it returns is proved of every ledger a book
  makes: each pass that goes on ends an order that was waiting, and nothing starts one waiting.
\<close>

definition pending_cancel :: "ledger \<Rightarrow> string \<Rightarrow> bool" where
  "pending_cancel l i \<longleftrightarrow>
     (case bt_get (l_changes l) i of
        None \<Rightarrow> False
      | Some r \<Rightarrow> cr_outcome r = change_outcome_no RPending
          \<and> (case cr_change r of Some (OfOrder c) \<Rightarrow> och_kind c = order_change_kind_no OKCancel | _ \<Rightarrow> False))"

definition settle_one :: "ledger \<Rightarrow> string \<times> order_held \<Rightarrow> act list \<Rightarrow> store_error + act list" where
  "settle_one l entry added =
     (let (i, h) = entry in
      case (h_ending h, h_ended h) of
        (Some ending, None) \<Rightarrow>
          rbind (live_parts l i) (\<lambda>(ps, cs).
            if ps \<noteq> [] \<or> cs \<noteq> [] then Inr added
            else Inr (added
                   @ (if ending = OCancelled
                      then map (\<lambda>c. ChangeOutcome c (change_outcome_no RApplied))
                             (filter (pending_cancel l) (h_change_requests h))
                      else [])
                   @ [Ended i (order_state_no ending)]))
      | _ \<Rightarrow> Inr added)"

definition settle_pass :: "ledger \<Rightarrow> store_error + act list" where
  "settle_pass l = rfold (settle_one l) (l_orders l) []"

partial_function (option) settle_loop :: "ledger \<Rightarrow> act list \<Rightarrow> (store_error + act list) option" where
  "settle_loop l out =
     (case settle_pass l of
        Inl e \<Rightarrow> Some (Inl e)
      | Inr added \<Rightarrow>
          if added = [] then Some (Inr out) else settle_loop (apply_acts added [] [] l) (out @ added))"

declare settle_loop.simps [code]

definition settle :: "ledger \<Rightarrow> act list \<Rightarrow> (store_error + act list) option" where
  "settle l acts = settle_loop (apply_acts acts [] [] l) acts"

section \<open>Facts\<close>

lemma order_state_of_no [simp]: "order_state_of (order_state_no s) = Some s"
  by (cases s) (simp_all add: order_state_of_def enum_of_def)

definition waits :: "order_held \<Rightarrow> bool" where
  "waits h \<longleftrightarrow> h_ending h \<noteq> None \<and> h_ended h = None"

text \<open>What a pass adds: requests applied, and ends of orders that wait with nothing live.\<close>

definition settles :: "ledger \<Rightarrow> act \<Rightarrow> bool" where
  "settles l a \<longleftrightarrow> (\<exists>c. a = ChangeOutcome c (change_outcome_no RApplied))
     \<or> (\<exists>i h ending. (i, h) \<in> set (l_orders l) \<and> h_ending h = Some ending \<and> h_ended h = None
          \<and> live_parts l i = Inr ([], []) \<and> a = Ended i (order_state_no ending))"

lemma settle_one_adds:
  assumes "settle_one l (i, h) s = Inr t"
  shows "\<exists>new. t = s @ new
    \<and> (\<forall>a \<in> set new. (\<exists>c. a = ChangeOutcome c (change_outcome_no RApplied))
         \<or> (\<exists>ending. h_ending h = Some ending \<and> h_ended h = None \<and> live_parts l i = Inr ([], [])
              \<and> a = Ended i (order_state_no ending)))
    \<and> (new \<noteq> [] \<longrightarrow> (\<exists>ending. h_ending h = Some ending \<and> h_ended h = None \<and> Ended i (order_state_no ending) \<in> set new))
    \<and> (waits h \<longrightarrow> (\<exists>ps cs. live_parts l i = Inr (ps, cs) \<and> (ps = [] \<and> cs = [] \<longrightarrow> new \<noteq> [])))"
  using assms by (auto simp: settle_one_def waits_def rbind_eq_Inr split: option.splits if_splits)

lemma settle_fold:
  assumes "rfold (settle_one l) xs s = Inr t" "set xs \<subseteq> set (l_orders l)"
  shows "\<exists>new. t = s @ new \<and> (\<forall>a \<in> set new. settles l a)
    \<and> (new \<noteq> [] \<longrightarrow> (\<exists>i h ending. (i, h) \<in> set (l_orders l) \<and> h_ending h = Some ending \<and> h_ended h = None
         \<and> Ended i (order_state_no ending) \<in> set new))
    \<and> (\<forall>(i, h) \<in> set xs. waits h \<longrightarrow> (\<exists>ps cs. live_parts l i = Inr (ps, cs) \<and> (ps = [] \<and> cs = [] \<longrightarrow> new \<noteq> [])))"
  using assms
proof (induction xs arbitrary: s)
  case (Cons x xs)
  obtain i h where x: "x = (i, h)" by force
  from Cons.prems obtain u where u: "settle_one l (i, h) s = Inr u" "rfold (settle_one l) xs u = Inr t"
    by (auto simp: x rbind_eq_Inr)
  from settle_one_adds [OF u(1)] obtain a where a: "u = s @ a"
    "\<forall>b \<in> set a. (\<exists>c. b = ChangeOutcome c (change_outcome_no RApplied))
         \<or> (\<exists>ending. h_ending h = Some ending \<and> h_ended h = None \<and> live_parts l i = Inr ([], [])
              \<and> b = Ended i (order_state_no ending))"
    "a \<noteq> [] \<longrightarrow> (\<exists>ending. h_ending h = Some ending \<and> h_ended h = None \<and> Ended i (order_state_no ending) \<in> set a)"
    "waits h \<longrightarrow> (\<exists>ps cs. live_parts l i = Inr (ps, cs) \<and> (ps = [] \<and> cs = [] \<longrightarrow> a \<noteq> []))" by blast
  from Cons.IH [OF u(2)] Cons.prems(2) obtain b where b: "t = u @ b" "\<forall>c \<in> set b. settles l c"
    "b \<noteq> [] \<longrightarrow> (\<exists>i h ending. (i, h) \<in> set (l_orders l) \<and> h_ending h = Some ending \<and> h_ended h = None
         \<and> Ended i (order_state_no ending) \<in> set b)"
    "\<forall>(i, h) \<in> set xs. waits h \<longrightarrow> (\<exists>ps cs. live_parts l i = Inr (ps, cs) \<and> (ps = [] \<and> cs = [] \<longrightarrow> b \<noteq> []))" by auto
  have x_in: "(i, h) \<in> set (l_orders l)" using Cons.prems(2) by (simp add: x)
  have "\<forall>c \<in> set (a @ b). settles l c" using a(2) b(2) x_in unfolding settles_def by fastforce
  moreover have "a @ b \<noteq> [] \<longrightarrow> (\<exists>i h ending. (i, h) \<in> set (l_orders l) \<and> h_ending h = Some ending \<and> h_ended h = None
         \<and> Ended i (order_state_no ending) \<in> set (a @ b))" using a(3) b(3) x_in by fastforce
  moreover have "\<forall>(i, h) \<in> set (x # xs). waits h \<longrightarrow>
      (\<exists>ps cs. live_parts l i = Inr (ps, cs) \<and> (ps = [] \<and> cs = [] \<longrightarrow> a @ b \<noteq> []))"
    using a(4) b(4) by (fastforce simp: x)
  ultimately show ?case using a(1) b(1) by (intro exI [of _ "a @ b"]) auto
qed auto

text \<open>The orders waiting, fewer after a pass that goes on.\<close>

definition waiting :: "ledger \<Rightarrow> string set" where
  "waiting l = {i. \<exists>h. bt_get (l_orders l) i = Some h \<and> waits h}"

lemma finite_waiting [simp]: "finite (waiting l)"
  by (rule finite_subset [of _ "fst ` set (l_orders l)"]) (force simp: waiting_def dest: bt_get_Some_mem)+

lemma waits_settled:
  "waiting (apply_change_outcome c out l) = waiting l"
  "waiting (apply_ended i (order_state_no s) l) = waiting l - {i}"
  by (auto simp: waiting_def apply_change_outcome_def apply_ended_def waits_def split: if_splits)

lemma settles_cases:
  assumes "settles l a"
  obtains c where "a = ChangeOutcome c (change_outcome_no RApplied)" | i s where "a = Ended i (order_state_no s)"
  using assms by (auto simp: settles_def)

lemma settled_waits_fewer:
  "\<forall>a \<in> set acts. settles l a \<Longrightarrow> waiting (apply_acts acts e vs k) \<subseteq> waiting k"
proof (induction acts arbitrary: k)
  case (Cons a acts)
  then have "settles l a" by simp
  then have "waiting (apply_act a e vs k) \<subseteq> waiting k" by (rule settles_cases) (auto simp: waits_settled)
  with Cons.IH [of "apply_act a e vs k"] Cons.prems show ?case by (auto simp: apply_acts_def)
qed (simp add: apply_acts_def)

lemma ended_waits_no_more:
  "\<forall>a \<in> set acts. settles l a \<Longrightarrow> Ended i (order_state_no s) \<in> set acts \<Longrightarrow> i \<notin> waiting (apply_acts acts e vs k)"
proof (induction acts arbitrary: k)
  case (Cons a acts)
  show ?case
  proof (cases "a = Ended i (order_state_no s)")
    case True
    then have "i \<notin> waiting (apply_act a e vs k)" by (simp add: waits_settled)
    with settled_waits_fewer [of acts l e vs "apply_act a e vs k"] Cons.prems(1) show ?thesis
      by (auto simp: apply_acts_def)
  next
    case False
    with Cons show ?thesis by (simp add: apply_acts_def)
  qed
qed simp

lemma settling_acts_open_none: "\<forall>a \<in> set acts. settles l a \<Longrightarrow> opens_fresh known acts"
proof (induction acts)
  case (Cons a acts)
  then have "opens a = None" by (auto simp: opens_def elim!: settles_cases [of l a])
  with Cons show ?case by simp
qed simp

lemma settled_ok:
  assumes "ledger_ok l" "\<forall>a \<in> set added. settles k a"
  shows "ledger_ok (apply_acts added e vs l)"
  by (rule acts_ledger_ok [OF assms(1) settling_acts_open_none [OF assms(2)], of "bt_keys (l_orders l)"])
    (auto simp: bt_has_iff)

lemma settle_pass_no_panic: "ledger_ok l \<Longrightarrow> no_panic (settle_pass l)"
  by (auto simp: settle_pass_def settle_one_def ledger_ok_def Let_def
      intro!: no_panics live_parts_no_panic split: prod.split option.split)

lemma waits_mem: "bt_wf (l_orders l) \<Longrightarrow> (i, h) \<in> set (l_orders l) \<Longrightarrow> waits h \<Longrightarrow> i \<in> waiting l"
  by (auto simp: waiting_def bt_get_mem)

text \<open>The loop returns, and says what it leaves.\<close>

lemma settle_loop_returns:
  assumes "ledger_ok l"
  shows "\<exists>r. settle_loop l out = Some r \<and> r \<noteq> Inl Panicked
    \<and> (\<forall>done'. r = Inr done' \<longrightarrow> (\<exists>added. done' = out @ added \<and> settle_pass (apply_acts added [] [] l) = Inr []
         \<and> ledger_ok (apply_acts added [] [] l)
         \<and> list_all (\<lambda>a. (\<exists>c. a = ChangeOutcome c (change_outcome_no RApplied)) \<or> (\<exists>i s. a = Ended i (order_state_no s))) added))"
  using assms
proof (induction "card (waiting l)" arbitrary: l out rule: less_induct)
  case less
  show ?case
  proof (cases "settle_pass l")
    case (Inl e)
    with settle_pass_no_panic [OF less.prems] show ?thesis
      by (simp add: settle_loop.simps [of l out])
  next
    case (Inr added)
    from settle_fold [OF Inr [unfolded settle_pass_def] subset_refl]
    have added: "\<forall>a \<in> set added. settles l a"
      "added \<noteq> [] \<longrightarrow> (\<exists>i h ending. (i, h) \<in> set (l_orders l) \<and> h_ending h = Some ending \<and> h_ended h = None
         \<and> Ended i (order_state_no ending) \<in> set added)" by auto
    show ?thesis
    proof (cases "added = []")
      case True
      with Inr less.prems show ?thesis
        by (simp add: settle_loop.simps [of l out] apply_acts_def)
    next
      case False
      let ?k = "apply_acts added [] [] l"
      from False added(2) obtain i h ending where i: "(i, h) \<in> set (l_orders l)" "h_ending h = Some ending"
        "h_ended h = None" "Ended i (order_state_no ending) \<in> set added" by blast
      have "bt_wf (l_orders l)" using less.prems by (simp add: ledger_ok_def maps_ok_def)
      with i have "i \<in> waiting l" by (intro waits_mem) (auto simp: waits_def)
      with settled_waits_fewer [OF added(1), of "[]" "[]" l] ended_waits_no_more [OF added(1) i(4), of "[]" "[]" l] have "waiting ?k \<subset> waiting l" by blast
      then have "card (waiting ?k) < card (waiting l)" by (intro psubset_card_mono) auto
      from less.hyps [OF this settled_ok [OF less.prems added(1)], of "out @ added"]
      obtain r where r: "settle_loop ?k (out @ added) = Some r" "r \<noteq> Inl Panicked"
        "\<forall>done'. r = Inr done' \<longrightarrow> (\<exists>rest. done' = (out @ added) @ rest \<and> settle_pass (apply_acts rest [] [] ?k) = Inr []
           \<and> ledger_ok (apply_acts rest [] [] ?k)
           \<and> list_all (\<lambda>a. (\<exists>c. a = ChangeOutcome c (change_outcome_no RApplied)) \<or> (\<exists>i s. a = Ended i (order_state_no s))) rest)"
        by blast
      have ends: "list_all (\<lambda>a. (\<exists>c. a = ChangeOutcome c (change_outcome_no RApplied)) \<or> (\<exists>i s. a = Ended i (order_state_no s))) added"
        using added(1) by (auto simp: settles_def list_all_iff)
      have "settle_loop l out = Some r" using r(1) Inr False by (simp add: settle_loop.simps [of l out])
      moreover have "\<exists>rest'. done' = out @ rest' \<and> settle_pass (apply_acts rest' [] [] l) = Inr []
          \<and> ledger_ok (apply_acts rest' [] [] l)
          \<and> list_all (\<lambda>a. (\<exists>c. a = ChangeOutcome c (change_outcome_no RApplied)) \<or> (\<exists>i s. a = Ended i (order_state_no s))) rest'"
        if "r = Inr done'" for done'
      proof -
        from r(3) that obtain rest where "done' = (out @ added) @ rest" "settle_pass (apply_acts rest [] [] ?k) = Inr []"
          "ledger_ok (apply_acts rest [] [] ?k)"
          "list_all (\<lambda>a. (\<exists>c. a = ChangeOutcome c (change_outcome_no RApplied)) \<or> (\<exists>i s. a = Ended i (order_state_no s))) rest"
          by blast
        with ends show ?thesis by (intro exI [of _ "added @ rest"]) (simp add: apply_acts_def)
      qed
      ultimately show ?thesis using r(2) by blast
    qed
  qed
qed


section \<open>Properties\<close>

text \<open>C5: Settling an entry's acts ends, and leaves nothing that should have ended. On every
  ledger a book makes, with acts opening no order twice, the loop returns; what it adds after the
  acts only applies cancels and ends orders; and once all are applied, every order still waiting on
  a cancel or an expiry has a live placement or a live split order.\<close>

theorem settling_ends_what_has_nothing_live:
  assumes "ledger_ok l" "opens_fresh (bt_keys (l_orders l)) acts"
  shows "\<exists>r. settle l acts = Some r \<and> r \<noteq> Inl Panicked
    \<and> (\<forall>out. r = Inr out \<longrightarrow>
         (\<exists>new. out = acts @ new
            \<and> list_all (\<lambda>a. (\<exists>c. a = ChangeOutcome c (change_outcome_no RApplied)) \<or> (\<exists>i s. a = Ended i (order_state_no s))) new)
         \<and> (\<forall>i h. bt_get (l_orders (apply_acts out [] [] l)) i = Some h \<and> waits h \<longrightarrow>
              (\<exists>ps cs. live_parts (apply_acts out [] [] l) i = Inr (ps, cs) \<and> (ps \<noteq> [] \<or> cs \<noteq> []))))"
proof -
  let ?k = "apply_acts acts [] [] l"
  have ok: "ledger_ok ?k" by (rule acts_ledger_ok [OF assms]) (auto simp: bt_has_iff)
  from settle_loop_returns [OF ok, of acts] obtain r where r: "settle l acts = Some r" "r \<noteq> Inl Panicked"
    "\<forall>out. r = Inr out \<longrightarrow> (\<exists>new. out = acts @ new \<and> settle_pass (apply_acts new [] [] ?k) = Inr []
       \<and> ledger_ok (apply_acts new [] [] ?k)
       \<and> list_all (\<lambda>a. (\<exists>c. a = ChangeOutcome c (change_outcome_no RApplied)) \<or> (\<exists>i s. a = Ended i (order_state_no s))) new)"
    unfolding settle_def by blast
  have "\<exists>ps cs. live_parts (apply_acts out [] [] l) i = Inr (ps, cs) \<and> (ps \<noteq> [] \<or> cs \<noteq> [])"
    if "r = Inr out" "bt_get (l_orders (apply_acts out [] [] l)) i = Some h" "waits h" for out i h
  proof -
    from r(3) that(1) obtain new where new: "out = acts @ new" "settle_pass (apply_acts new [] [] ?k) = Inr []" by blast
    have same: "apply_acts new [] [] ?k = apply_acts out [] [] l" by (simp add: new(1) apply_acts_def)
    from settle_fold [OF new(2) [unfolded settle_pass_def] subset_refl] bt_get_Some_mem [OF that(2)] that(3)
    show ?thesis unfolding same by auto
  qed
  with r show ?thesis by blast
qed

text \<open>An order being cancelled whose one placement the venue now cancels.\<close>

definition sample_ending :: ledger where
  "sample_ending = apply_acts
     [ChangeOpened (change_request_default\<lparr>cr_change_request_id := ''C1'', cr_order_id := ''O2'',
        cr_change := Some (OfOrder \<lparr>och_kind = 1, och_quantity = None, och_limit_price = None, och_time_in_force = 0,
          och_allocation_instruction = None, och_execution_instructions = []\<rparr>), cr_outcome := 1\<rparr>),
      Ending ''O2'' 6] ''E2'' [] sample_split"

theorem settling_ends_what_has_nothing_live_witness:
  "settle sample_ending [PlacementReported (sample_report VCancelled)] =
     Some (Inr [PlacementReported (sample_report VCancelled), ChangeOutcome ''C1'' 2, Ended ''O2'' 6])
   \<and> (\<exists>r. settle sample_ending [] = Some r \<and> r \<noteq> Inl Panicked)"
proof
  show "settle sample_ending [PlacementReported (sample_report VCancelled)] =
     Some (Inr [PlacementReported (sample_report VCancelled), ChangeOutcome ''C1'' 2, Ended ''O2'' 6])" by code_simp
  have "ledger_ok sample_ending" unfolding sample_ending_def
    by (rule acts_ledger_ok [OF sample_split_ok, of "bt_keys (l_orders sample_split)"])
      (simp add: opens_def, auto simp: bt_has_iff)
  from settling_ends_what_has_nothing_live [OF this, of "[]"]
  show "\<exists>r. settle sample_ending [] = Some r \<and> r \<noteq> Inl Panicked" by auto
qed

end
