(* ===== verification/Order_Table.thy ===== *)
theory Order_Table
  imports Order_Settle
begin

section \<open>The transition tables\<close>

text \<open>
  \<open>crates/bor/src/transitions.rs\<close>: an order's rows, an execution's and a booking's, as the contract
  states them -- where each may start, what causes it, where it may lead and what a command meeting
  it may be refused with -- and how the book reads a row (\<open>row\<close>, \<open>starts_from\<close>, \<open>admits\<close> of
  \<open>crates/bor/src/order_decide.rs\<close>). Naming a row the table does not have is \<open>Panicked\<close>.
\<close>

datatype 's row_from = FromState 's | FromAny | FromNone

datatype 's row_to = ToState 's | ToUnchanged

record 's transition =
  tr_row :: string
  tr_from :: "'s row_from list"
  tr_cause :: string
  tr_caused_by :: "string list"
  tr_to :: "'s row_to list"
  tr_refusal :: "refusal_reason list"

definition STATES :: "order_state list" where "STATES = [OProposed, ORefused, OReleased, OWorking, OFilled, OCancelled, OExpired]"

definition EXECUTION_STATES :: "execution_state list" where "EXECUTION_STATES = [XUnmatched, XMatched, XDontKnow]"

definition BOOKING_STATES :: "booking_state list" where "BOOKING_STATES = [BBooked, BHeld, BHandedOff, BClosed, BCancelled]"

definition TRANSITIONS :: "order_state transition list" where
  "TRANSITIONS =
    [\<lparr>tr_row = ''1'', tr_from = [FromState OProposed],
       tr_cause = ''a release, through the gate, its allocation equal to its ordered quantity (the transfer from portfolio to oms)'',
       tr_caused_by = [''oms''], tr_to = [ToState OReleased],
       tr_refusal = [AllocationUnbalanced, CheckBlocks, ApprovalRequired, OrderStateRefused]\<rparr>,
     \<lparr>tr_row = ''2'', tr_from = [FromState OProposed],
       tr_cause = ''approval required by policy, then a person's approval'',
       tr_caused_by = [''compliance'', ''oms''], tr_to = [ToState OReleased],
       tr_refusal = [ActorRequired]\<rparr>,
     \<lparr>tr_row = ''3'', tr_from = [FromState OProposed],
       tr_cause = ''a verdict of warn or block, then a person's override of a block, with a reason'',
       tr_caused_by = [''compliance''], tr_to = [ToState OReleased],
       tr_refusal = [ActorRequired, ReasonRequired]\<rparr>,
     \<lparr>tr_row = ''4'', tr_from = [FromState OProposed],
       tr_cause = ''a verdict of refuse; or a rejection by the oms asked to work the order'',
       tr_caused_by = [''compliance'', ''oms''], tr_to = [ToState ORefused],
       tr_refusal = []\<rparr>,
     \<lparr>tr_row = ''5'', tr_from = [FromState OReleased],
       tr_cause = ''a recall, with nothing committed or filled'',
       tr_caused_by = [''oms''], tr_to = [ToState OProposed],
       tr_refusal = [OrderStateRefused]\<rparr>,
     \<lparr>tr_row = ''6'', tr_from = [FromState OReleased],
       tr_cause = ''a placement or a child order commits quantity'',
       tr_caused_by = [''ems''], tr_to = [ToState OWorking],
       tr_refusal = [ConnectivityNotAllowed, Claimed, OrderStateRefused, AgentLiveOrder]\<rparr>,
     \<lparr>tr_row = ''7'', tr_from = [FromState OWorking],
       tr_cause = ''every placement ends unfilled (derived)'',
       tr_caused_by = [''bor''], tr_to = [ToState OReleased],
       tr_refusal = []\<rparr>,
     \<lparr>tr_row = ''8'', tr_from = [FromState OReleased, FromState OWorking],
       tr_cause = ''placements created and ended, quantity between idle and committed; over-commitment shown, never refused'',
       tr_caused_by = [''ems''], tr_to = [ToUnchanged],
       tr_refusal = []\<rparr>,
     \<lparr>tr_row = ''9'', tr_from = [FromState OWorking],
       tr_cause = ''a pause or a resume of working, for a person (a condition)'',
       tr_caused_by = [''ems'', ''oms''], tr_to = [ToUnchanged],
       tr_refusal = [Claimed, OrderStateRefused]\<rparr>,
     \<lparr>tr_row = ''10'', tr_from = [FromState OReleased, FromState OWorking],
       tr_cause = ''fills: partially filled or filled, derived from the quantities, never an edge'',
       tr_caused_by = [''bor''], tr_to = [ToState OWorking, ToState OFilled],
       tr_refusal = []\<rparr>,
     \<lparr>tr_row = ''11'', tr_from = [FromState OWorking],
       tr_cause = ''fills while a cancel is pending (venue facts); change requested stays'',
       tr_caused_by = [''connectivity''], tr_to = [ToState OWorking, ToState OFilled],
       tr_refusal = []\<rparr>,
     \<lparr>tr_row = ''12'', tr_from = [FromState OCancelled],
       tr_cause = ''a fill after the cancel took effect (a venue fact): accepted, late fact set'',
       tr_caused_by = [''connectivity''], tr_to = [ToState OCancelled],
       tr_refusal = []\<rparr>,
     \<lparr>tr_row = ''13'', tr_from = [FromState OWorking],
       tr_cause = ''fills while a replace is pending (venue facts)'',
       tr_caused_by = [''connectivity''], tr_to = [ToState OWorking, ToState OFilled],
       tr_refusal = []\<rparr>,
     \<lparr>tr_row = ''14'', tr_from = [FromState OReleased, FromState OWorking],
       tr_cause = ''a cancel or replace rejected (a venue fact): the request ends refused'',
       tr_caused_by = [''connectivity''], tr_to = [ToUnchanged],
       tr_refusal = []\<rparr>,
     \<lparr>tr_row = ''15'', tr_from = [FromState OReleased, FromState OWorking],
       tr_cause = ''a second change while the first is pending, tracked'',
       tr_caused_by = [''ems'', ''oms''], tr_to = [ToUnchanged],
       tr_refusal = [Claimed, OrderStateRefused]\<rparr>,
     \<lparr>tr_row = ''16'', tr_from = [FromState OReleased, FromState OWorking],
       tr_cause = ''a cancel of an unacknowledged placement, or one crossing the acknowledgement'',
       tr_caused_by = [''ems'', ''oms''], tr_to = [ToUnchanged],
       tr_refusal = [Claimed, OrderStateRefused]\<rparr>,
     \<lparr>tr_row = ''17'', tr_from = [FromState OFilled],
       tr_cause = ''a bust (a superseding fact)'',
       tr_caused_by = [''connectivity''], tr_to = [ToState OWorking],
       tr_refusal = []\<rparr>,
     \<lparr>tr_row = ''18'', tr_from = [FromState OFilled],
       tr_cause = ''an upsizing change, applied: portfolio's own order, its allocation amended in the same act; the oms's only for a trader's alignment'',
       tr_caused_by = [''portfolio'', ''oms''], tr_to = [ToState OWorking],
       tr_refusal = [OrderStateRefused, ReasonRequired]\<rparr>,
     \<lparr>tr_row = ''19'', tr_from = [FromState OWorking],
       tr_cause = ''a downsizing change, applied: portfolio's; the oms's only for a trader's alignment'',
       tr_caused_by = [''portfolio'', ''oms''], tr_to = [ToState OFilled],
       tr_refusal = [OrderStateRefused, ReasonRequired]\<rparr>,
     \<lparr>tr_row = ''20'', tr_from = [FromState OWorking],
       tr_cause = ''a placement done for day, then restated (venue facts); its quantity stays committed'',
       tr_caused_by = [''connectivity''], tr_to = [ToUnchanged],
       tr_refusal = []\<rparr>,
     \<lparr>tr_row = ''21'', tr_from = [FromState OReleased, FromState OWorking],
       tr_cause = ''an immediate-or-cancel or fill-or-kill placement unfilled (a venue fact): the order cancelled if its own time in force is one of these, back to idle otherwise'',
       tr_caused_by = [''connectivity''], tr_to = [ToState OCancelled, ToState OReleased, ToState OWorking],
       tr_refusal = []\<rparr>,
     \<lparr>tr_row = ''22'', tr_from = [FromState OReleased, FromState OWorking],
       tr_cause = ''a venue-initiated cancel, replace, quantity cut, cancel at close or restatement (a venue fact); past the order's intent, late fact and does not tie out'',
       tr_caused_by = [''connectivity''], tr_to = [ToUnchanged],
       tr_refusal = []\<rparr>,
     \<lparr>tr_row = ''23a'', tr_from = [FromNone],
       tr_cause = ''an order the book did not create: telephoned or placed outside, recorded by the oms for a user (a record, never through the gate; no venue-originated order, ruled 2026-10-13)'',
       tr_caused_by = [''oms''], tr_to = [ToState OReleased, ToState OWorking, ToState OFilled],
       tr_refusal = [Incomplete, IdentifierInUse, ActorRequired]\<rparr>,
     \<lparr>tr_row = ''23b'', tr_from = [FromNone],
       tr_cause = ''a client's order received at a broker, proposed into the client's account'',
       tr_caused_by = [''portfolio''], tr_to = [ToState OProposed],
       tr_refusal = [Incomplete, IdentifierInUse, ActorRequired, LocalRecordNotAllowed]\<rparr>,
     \<lparr>tr_row = ''24'', tr_from = [FromState OWorking],
       tr_cause = ''a placement held at the venue, then triggered (a venue fact)'',
       tr_caused_by = [''connectivity''], tr_to = [ToUnchanged],
       tr_refusal = []\<rparr>,
     \<lparr>tr_row = ''25'', tr_from = [FromAny],
       tr_cause = ''a duplicate identifier, or a possible resend: a repeat answered as first, a key reused for another command refused, a resent fact recognised'',
       tr_caused_by = [''any''], tr_to = [ToUnchanged],
       tr_refusal = [IdentifierInUse, IdempotencyConflict]\<rparr>,
     \<lparr>tr_row = ''26'', tr_from = [FromState OReleased, FromState OWorking],
       tr_cause = ''a placement sent, its outcome unknown; resolved by a status reply or a fact; never treated as rejected'',
       tr_caused_by = [''connectivity''], tr_to = [ToUnchanged],
       tr_refusal = []\<rparr>,
     \<lparr>tr_row = ''27'', tr_from = [FromState OReleased, FromState OWorking],
       tr_cause = ''a manual fill, or a fill from inventory, entered for a person'',
       tr_caused_by = [''ems'', ''oms''], tr_to = [ToState OWorking, ToState OFilled],
       tr_refusal = []\<rparr>,
     \<lparr>tr_row = ''28'', tr_from = [FromAny],
       tr_cause = ''a trade done away, recorded against the order'',
       tr_caused_by = [''oms'', ''connectivity''], tr_to = [ToUnchanged],
       tr_refusal = []\<rparr>,
     \<lparr>tr_row = ''29'', tr_from = [FromAny],
       tr_cause = ''a bust or correction, after a cancel, a done for day or booking included (a superseding fact)'',
       tr_caused_by = [''connectivity''], tr_to = [ToUnchanged],
       tr_refusal = []\<rparr>,
     \<lparr>tr_row = ''30'', tr_from = [FromAny],
       tr_cause = ''finality moves matched, included, final, or failed (venue facts); a failed execution reopens the order if it no longer reaches ordered'',
       tr_caused_by = [''connectivity''], tr_to = [ToUnchanged],
       tr_refusal = []\<rparr>,
     \<lparr>tr_row = ''31'', tr_from = [FromState OWorking, FromState OFilled],
       tr_cause = ''an overfill (fills): accepted, does not tie out until a justified alignment or an error-account booking'',
       tr_caused_by = [''bor''], tr_to = [ToState OFilled],
       tr_refusal = []\<rparr>,
     \<lparr>tr_row = ''32'', tr_from = [FromAny],
       tr_cause = ''booking acts (contract v24, W11.27 to W11.29; a booking's own states are rows b1 onward): booked, held, handed off, closed or cancelled; the order's state unchanged but for a block's member order, whose filled quantity is its allocation's'',
       tr_caused_by = [''oms'', ''operations''], tr_to = [ToUnchanged],
       tr_refusal = []\<rparr>,
     \<lparr>tr_row = ''i1'', tr_from = [FromState OProposed],
       tr_cause = ''a withdrawal'',
       tr_caused_by = [''oms'', ''portfolio''], tr_to = [ToState OCancelled],
       tr_refusal = [OrderStateRefused]\<rparr>,
     \<lparr>tr_row = ''i2'', tr_from = [FromNone],
       tr_cause = ''a split child's proposal under a released parent: released on creation, within the parent, not through the gate'',
       tr_caused_by = [''ems'', ''oms''], tr_to = [ToState OReleased],
       tr_refusal = [OrderStateRefused]\<rparr>,
     \<lparr>tr_row = ''i3'', tr_from = [FromState OReleased, FromState OWorking],
       tr_cause = ''an order cancel: each live placement and child order asked to cancel; cancelled when none is live'',
       tr_caused_by = [''oms'', ''ems''], tr_to = [ToState OCancelled],
       tr_refusal = [Claimed, OrderStateRefused]\<rparr>,
     \<lparr>tr_row = ''i4'', tr_from = [FromState OReleased, FromState OWorking],
       tr_cause = ''the order's time in force ends, by the deployment's clock (actor the system); live placements asked to cancel first'',
       tr_caused_by = [''bor''], tr_to = [ToState OExpired],
       tr_refusal = []\<rparr>,
     \<lparr>tr_row = ''i5'', tr_from = [FromAny],
       tr_cause = ''a trading instruction set, within its setter's reach: journalled and broadcast; no order changes state, nothing refused or cancelled for it'',
       tr_caused_by = [''dashboard''], tr_to = [ToUnchanged],
       tr_refusal = [ReasonRequired]\<rparr>,
     \<lparr>tr_row = ''i6'', tr_from = [FromState OReleased, FromState OWorking],
       tr_cause = ''a cancel under a stop: each working plugin's cancel, its cause the stop's entry; a connectivity plugin's venue cancel reported at once, actor the venue, past a claim, needing no service account'',
       tr_caused_by = [''oms'', ''ems'', ''connectivity''], tr_to = [ToState OCancelled],
       tr_refusal = [OrderStateRefused]\<rparr>,
     \<lparr>tr_row = ''i7'', tr_from = [FromState OProposed],
       tr_cause = ''a day order never released: its day ends, by the deployment's clock (actor the system), awaiting check or approval included'',
       tr_caused_by = [''bor''], tr_to = [ToState OExpired],
       tr_refusal = []\<rparr>]"

definition EXECUTION_TRANSITIONS :: "execution_state transition list" where
  "EXECUTION_TRANSITIONS =
    [\<lparr>tr_row = ''e1'', tr_from = [FromNone],
       tr_cause = ''a fill reported on a placement the book holds, or entered manual or done away against an order (every v22 fill)'',
       tr_caused_by = [''connectivity'', ''ems'', ''oms''], tr_to = [ToState XMatched],
       tr_refusal = []\<rparr>,
     \<lparr>tr_row = ''e2'', tr_from = [FromNone],
       tr_cause = ''a fill on no order and no placement, its venue account code mapped by the ems (a venue fact): recorded unmatched, moving nothing; an unmapped code or an unknown placement is unplaced instead'',
       tr_caused_by = [''connectivity''], tr_to = [ToState XUnmatched],
       tr_refusal = []\<rparr>,
     \<lparr>tr_row = ''e3'', tr_from = [FromState XUnmatched],
       tr_cause = ''an accept to an existing order the accepting ems may place against, or to a new order made from the fills: the placement created at filled, the position moved as of the trade date; one naming an execution superseded by a bust or a correction is refused REFUSAL_REASON_EXECUTION_STATE; fills of more than one account, instrument, side, connectivity plugin or trade date REFUSAL_REASON_EXECUTIONS_DIFFER; an existing order claimed by another REFUSAL_REASON_CLAIMED'',
       tr_caused_by = [''ems''], tr_to = [ToState XMatched],
       tr_refusal = [ActorRequired, OrderStateRefused, Claimed, QuantityExceedsOrder, ExecutionStateRefused, ExecutionsDiffer, LocalRecordNotAllowed, AgentLiveOrder]\<rparr>,
     \<lparr>tr_row = ''e4'', tr_from = [FromState XUnmatched],
       tr_cause = ''a DK, with a reason from the closed list: recorded and closed, never moving a position; one naming an execution superseded by a bust or a correction is refused REFUSAL_REASON_EXECUTION_STATE'',
       tr_caused_by = [''ems''], tr_to = [ToState XDontKnow],
       tr_refusal = [ActorRequired, ExecutionStateRefused]\<rparr>,
     \<lparr>tr_row = ''e5'', tr_from = [FromState XUnmatched],
       tr_cause = ''a correction (a superseding fact, FIX ExecType G): the correcting execution unmatched in its place, the corrected one superseded and left out of the unmatched listing, an accept or a DK naming it refused REFUSAL_REASON_EXECUTION_STATE (e3, e4)'',
       tr_caused_by = [''connectivity''], tr_to = [ToState XUnmatched],
       tr_refusal = []\<rparr>,
     \<lparr>tr_row = ''e6'', tr_from = [FromState XUnmatched],
       tr_cause = ''a bust (a superseding fact, FIX ExecType H naming it in ExecRefID): the fill closed with nothing to answer, staying unmatched and superseded by the bust, as a busted matched fill stays matched (e8); the unmatched listing, flags and counts leave out the fill and its bust, and an accept or a DK naming the fill is refused REFUSAL_REASON_EXECUTION_STATE (e3, e4)'',
       tr_caused_by = [''connectivity''], tr_to = [ToUnchanged],
       tr_refusal = []\<rparr>,
     \<lparr>tr_row = ''e7'', tr_from = [FromState XDontKnow],
       tr_cause = ''a later fill for the same venue order (a venue fact): recorded unmatched on its own, the earlier DK shown beside it'',
       tr_caused_by = [''connectivity''], tr_to = [ToUnchanged],
       tr_refusal = []\<rparr>,
     \<lparr>tr_row = ''e8'', tr_from = [FromState XMatched],
       tr_cause = ''a bust or correction after an accept or on a placement (a superseding fact): the position reversed by its own entry, as any bust'',
       tr_caused_by = [''connectivity''], tr_to = [ToUnchanged],
       tr_refusal = []\<rparr>]"

definition BOOKING_TRANSITIONS :: "booking_state transition list" where
  "BOOKING_TRANSITIONS =
    [\<lparr>tr_row = ''b1'', tr_from = [FromNone],
       tr_cause = ''a booking of an explicit list of executions on one order, each allocation tying out exactly in quantity, gross and each fee kind; one naming an execution unmatched, DK'd, superseded or in a live booking is refused REFUSAL_REASON_ORDER_STATE, allocations not summing REFUSAL_REASON_BOOKING_UNBALANCED, an account neither instructed nor marked an error account REFUSAL_REASON_ACCOUNT_NOT_INSTRUCTED, an error-account allocation without its reason REFUSAL_REASON_REASON_REQUIRED'',
       tr_caused_by = [''oms''], tr_to = [ToState BBooked],
       tr_refusal = [ActorRequired, OrderStateRefused, BookingUnbalanced, AccountNotInstructed, ReasonRequired]\<rparr>,
     \<lparr>tr_row = ''b2'', tr_from = [FromNone],
       tr_cause = ''a booking asking to hand off in the same act (hand_off, FIX's Ready-To-Book), the hand-off check passing; booked instead where it does not (b1)'',
       tr_caused_by = [''oms''], tr_to = [ToState BHandedOff],
       tr_refusal = [ActorRequired, OrderStateRefused, BookingUnbalanced, AccountNotInstructed, ReasonRequired]\<rparr>,
     \<lparr>tr_row = ''b3'', tr_from = [FromState BBooked, FromState BHeld],
       tr_cause = ''a hand-off to operations, or the closing of a client's booking the firm does not settle (its error-account allocations handed off in the same act), executed equal to allocated, checked at the store; any other state refused REFUSAL_REASON_ORDER_STATE'',
       tr_caused_by = [''oms''], tr_to = [ToState BHandedOff, ToState BClosed],
       tr_refusal = [ActorRequired, OrderStateRefused]\<rparr>,
     \<lparr>tr_row = ''b4'', tr_from = [FromState BBooked],
       tr_cause = ''a hand-off whose check fails: held with the reason, a held-booking alert raised against the affirmation deadline'',
       tr_caused_by = [''oms''], tr_to = [ToState BHeld],
       tr_refusal = []\<rparr>,
     \<lparr>tr_row = ''b5'', tr_from = [FromState BBooked],
       tr_cause = ''executions moved after booking by a bust, a correction, a late fill, or a fee or charge reported later (a fact, never refused): held with the reason, a held-booking alert raised'',
       tr_caused_by = [''connectivity'', ''ems'', ''oms'', ''bor''], tr_to = [ToState BHeld],
       tr_refusal = []\<rparr>,
     \<lparr>tr_row = ''b6'', tr_from = [FromState BBooked, FromState BHeld],
       tr_cause = ''a cancel, the oms's, before the hand-off or closing, with a reason, so the executions may be booked again; a held booking's alert cleared'',
       tr_caused_by = [''oms''], tr_to = [ToState BCancelled],
       tr_refusal = [ActorRequired, OrderStateRefused, ReasonRequired]\<rparr>,
     \<lparr>tr_row = ''b7'', tr_from = [FromState BHandedOff, FromState BClosed],
       tr_cause = ''a replace, operations', after the hand-off or closing, carrying the full new allocation set and its effective date: a new version, the state kept, the movement lines computed by the book; a cancel after it, or a replace before it, refused REFUSAL_REASON_ORDER_STATE'',
       tr_caused_by = [''operations''], tr_to = [ToUnchanged],
       tr_refusal = [ActorRequired, OrderStateRefused, BookingUnbalanced, AccountNotInstructed, ReasonRequired]\<rparr>,
     \<lparr>tr_row = ''b8'', tr_from = [FromAny],
       tr_cause = ''a give-up's answer recorded on a booked allocation (a fact), accepted or rejected; a rejection moves no position'',
       tr_caused_by = [''connectivity'', ''confirmation''], tr_to = [ToUnchanged],
       tr_refusal = []\<rparr>,
     \<lparr>tr_row = ''b9'', tr_from = [FromState BHandedOff, FromState BClosed],
       tr_cause = ''executions moved after the hand-off or closing by a bust or a correction (a fact, never refused): the state kept; operations hears it on BookingUpdated and corrects by a replace (b7), as FIX corrects an affirmed allocation (ruled 2026-10-14)'',
       tr_caused_by = [''connectivity'', ''ems'', ''oms'', ''bor''], tr_to = [ToUnchanged],
       tr_refusal = []\<rparr>]"

subsection \<open>A row read\<close>

definition row_in :: "'s transition list \<Rightarrow> string \<Rightarrow> store_error + 's transition" where
  "row_in rows i = ok_or Panicked (find (\<lambda>r. tr_row r = i) rows)"

definition order_row :: "string \<Rightarrow> store_error + order_state transition" where
  "order_row = row_in TRANSITIONS"

definition starts_from :: "'s transition \<Rightarrow> 's option \<Rightarrow> bool" where
  "starts_from r from_state \<longleftrightarrow>
     list_ex (\<lambda>held. case held of
         FromAny \<Rightarrow> True | FromNone \<Rightarrow> from_state = None | FromState s \<Rightarrow> Some s = from_state) (tr_from r)"

definition admits :: "'s transition \<Rightarrow> 's option \<Rightarrow> 's \<Rightarrow> bool" where
  "admits r from_state to_state \<longleftrightarrow> starts_from r from_state
     \<and> (Some to_state = from_state
        \<or> list_ex (\<lambda>held. case held of ToUnchanged \<Rightarrow> Some to_state = from_state | ToState s \<Rightarrow> s = to_state) (tr_to r))"

definition state_named :: "order_state \<Rightarrow> string" where
  "state_named s =
     (case s of OProposed \<Rightarrow> ''proposed'' | ORefused \<Rightarrow> ''refused'' | OReleased \<Rightarrow> ''released'' | OWorking \<Rightarrow> ''working''
      | OFilled \<Rightarrow> ''filled'' | OCancelled \<Rightarrow> ''cancelled'' | OExpired \<Rightarrow> ''expired''
      | OUnspecified \<Rightarrow> ''unknown to the book'')"

definition state_refused :: "order_state transition \<Rightarrow> order_state \<Rightarrow> string \<Rightarrow> store_error" where
  "state_refused r s what = Refused OrderStateRefused [what, state_named s, tr_row r, tr_cause r] []"

text \<open>A row that a command is held to, and the refusal it names.\<close>

definition row_refused :: "string \<Rightarrow> order_state \<Rightarrow> string \<Rightarrow> store_error + 'a" where
  "row_refused i s what = rbind (order_row i) (\<lambda>r. Inl (state_refused r s what))"

definition command_from :: "string \<Rightarrow> order_state \<Rightarrow> string \<Rightarrow> store_error + unit" where
  "command_from i s what =
     rbind (order_row i) (\<lambda>r. if starts_from r (Some s) then Inr () else Inl (state_refused r s what))"

definition state_ended :: "order_state \<Rightarrow> bool" where
  "state_ended s \<longleftrightarrow> s \<in> {ORefused, OCancelled, OExpired}"

section \<open>Facts\<close>

text \<open>The table without its words, and the rows the commands are held to, read from it: where each
  starts, and where it may lead.\<close>

definition row_ends :: "'s transition list \<Rightarrow> string \<rightharpoonup> 's row_from list \<times> 's row_to list" where
  "row_ends rows = map_of (map (\<lambda>r. (tr_row r, tr_from r, tr_to r)) rows)"

lemma row_ends_found: "row_ends rows i = map_option (\<lambda>r. (tr_from r, tr_to r)) (find (\<lambda>r. tr_row r = i) rows)"
  by (induction rows) (auto simp: row_ends_def)

lemma order_row_ends: "row_ends TRANSITIONS i = (case order_row i of Inl e \<Rightarrow> None | Inr r \<Rightarrow> Some (tr_from r, tr_to r))"
  by (simp add: row_ends_found order_row_def row_in_def ok_or_def split: option.split)

lemma table_read:
  "map (\<lambda>r. (tr_row r, tr_from r, tr_to r)) TRANSITIONS =
    [(''1'', [FromState OProposed], [ToState OReleased]),
     (''2'', [FromState OProposed], [ToState OReleased]),
     (''3'', [FromState OProposed], [ToState OReleased]),
     (''4'', [FromState OProposed], [ToState ORefused]),
     (''5'', [FromState OReleased], [ToState OProposed]),
     (''6'', [FromState OReleased], [ToState OWorking]),
     (''7'', [FromState OWorking], [ToState OReleased]),
     (''8'', [FromState OReleased, FromState OWorking], [ToUnchanged]),
     (''9'', [FromState OWorking], [ToUnchanged]),
     (''10'', [FromState OReleased, FromState OWorking], [ToState OWorking, ToState OFilled]),
     (''11'', [FromState OWorking], [ToState OWorking, ToState OFilled]),
     (''12'', [FromState OCancelled], [ToState OCancelled]),
     (''13'', [FromState OWorking], [ToState OWorking, ToState OFilled]),
     (''14'', [FromState OReleased, FromState OWorking], [ToUnchanged]),
     (''15'', [FromState OReleased, FromState OWorking], [ToUnchanged]),
     (''16'', [FromState OReleased, FromState OWorking], [ToUnchanged]),
     (''17'', [FromState OFilled], [ToState OWorking]),
     (''18'', [FromState OFilled], [ToState OWorking]),
     (''19'', [FromState OWorking], [ToState OFilled]),
     (''20'', [FromState OWorking], [ToUnchanged]),
     (''21'', [FromState OReleased, FromState OWorking], [ToState OCancelled, ToState OReleased, ToState OWorking]),
     (''22'', [FromState OReleased, FromState OWorking], [ToUnchanged]),
     (''23a'', [FromNone], [ToState OReleased, ToState OWorking, ToState OFilled]),
     (''23b'', [FromNone], [ToState OProposed]),
     (''24'', [FromState OWorking], [ToUnchanged]),
     (''25'', [FromAny], [ToUnchanged]),
     (''26'', [FromState OReleased, FromState OWorking], [ToUnchanged]),
     (''27'', [FromState OReleased, FromState OWorking], [ToState OWorking, ToState OFilled]),
     (''28'', [FromAny], [ToUnchanged]),
     (''29'', [FromAny], [ToUnchanged]),
     (''30'', [FromAny], [ToUnchanged]),
     (''31'', [FromState OWorking, FromState OFilled], [ToState OFilled]),
     (''32'', [FromAny], [ToUnchanged]),
     (''i1'', [FromState OProposed], [ToState OCancelled]),
     (''i2'', [FromNone], [ToState OReleased]),
     (''i3'', [FromState OReleased, FromState OWorking], [ToState OCancelled]),
     (''i4'', [FromState OReleased, FromState OWorking], [ToState OExpired]),
     (''i5'', [FromAny], [ToUnchanged]),
     (''i6'', [FromState OReleased, FromState OWorking], [ToState OCancelled]),
     (''i7'', [FromState OProposed], [ToState OExpired])]"
  by (simp add: TRANSITIONS_def)

lemma row_found:
  assumes "row_ends TRANSITIONS i = Some (f, t)"
  obtains r where "order_row i = Inr r" "tr_from r = f" "tr_to r = t"
  using assms by (auto simp: order_row_ends split: sum.splits)

lemma command_from_row:
  assumes "row_ends TRANSITIONS i = Some (f, t)"
  shows "command_from i s w = (if list_ex (\<lambda>held. held = FromAny \<or> held = FromState s) f then Inr () else row_refused i s w)"
proof -
  obtain r where "order_row i = Inr r" "tr_from r = f" by (rule row_found [OF assms])
  moreover have "(case held of FromAny \<Rightarrow> True | FromNone \<Rightarrow> Some s = None | FromState s' \<Rightarrow> Some s' = Some s)
      \<longleftrightarrow> held = FromAny \<or> held = FromState s" for held
    by (cases held) auto
  ultimately show ?thesis by (simp add: command_from_def row_refused_def starts_from_def)
qed

lemma row_admits_row:
  assumes "row_ends TRANSITIONS i = Some (f, t)" "order_row i = Inr r"
  shows "admits r (Some s) s' \<longleftrightarrow> list_ex (\<lambda>held. held = FromAny \<or> held = FromState s) f
    \<and> (s' = s \<or> list_ex (\<lambda>held. held = ToState s') t)"
proof -
  have "tr_from r = f" "tr_to r = t" using assms by (auto simp: order_row_ends)
  moreover have "(case held of FromAny \<Rightarrow> True | FromNone \<Rightarrow> Some s = None | FromState s' \<Rightarrow> Some s' = Some s)
      \<longleftrightarrow> held = FromAny \<or> held = FromState s" for held
    by (cases held) auto
  moreover have "(case held of ToUnchanged \<Rightarrow> Some s' = Some s | ToState s'' \<Rightarrow> s'' = s')
      \<longleftrightarrow> held = ToUnchanged \<and> s' = s \<or> held = ToState s'" for held
    by (cases held) auto
  ultimately show ?thesis by (auto simp: admits_def starts_from_def list_ex_iff)
qed

lemma row_ends_rows:
  "row_ends TRANSITIONS ''1'' = Some ([FromState OProposed], [ToState OReleased])"
  "row_ends TRANSITIONS ''2'' = Some ([FromState OProposed], [ToState OReleased])"
  "row_ends TRANSITIONS ''3'' = Some ([FromState OProposed], [ToState OReleased])"
  "row_ends TRANSITIONS ''4'' = Some ([FromState OProposed], [ToState ORefused])"
  "row_ends TRANSITIONS ''5'' = Some ([FromState OReleased], [ToState OProposed])"
  "row_ends TRANSITIONS ''6'' = Some ([FromState OReleased], [ToState OWorking])"
  "row_ends TRANSITIONS ''8'' = Some ([FromState OReleased, FromState OWorking], [ToUnchanged])"
  "row_ends TRANSITIONS ''9'' = Some ([FromState OWorking], [ToUnchanged])"
  "row_ends TRANSITIONS ''15'' = Some ([FromState OReleased, FromState OWorking], [ToUnchanged])"
  "row_ends TRANSITIONS ''i1'' = Some ([FromState OProposed], [ToState OCancelled])"
  "row_ends TRANSITIONS ''i3'' = Some ([FromState OReleased, FromState OWorking], [ToState OCancelled])"
  "row_ends TRANSITIONS ''i4'' = Some ([FromState OReleased, FromState OWorking], [ToState OExpired])"
  "row_ends TRANSITIONS ''i7'' = Some ([FromState OProposed], [ToState OExpired])"
  by (simp_all add: row_ends_def table_read)

lemma command_from_rows:
  "command_from ''1'' s w = (if s = OProposed then Inr () else row_refused ''1'' s w)"
  "command_from ''2'' s w = (if s = OProposed then Inr () else row_refused ''2'' s w)"
  "command_from ''3'' s w = (if s = OProposed then Inr () else row_refused ''3'' s w)"
  "command_from ''4'' s w = (if s = OProposed then Inr () else row_refused ''4'' s w)"
  "command_from ''5'' s w = (if s = OReleased then Inr () else row_refused ''5'' s w)"
  "command_from ''6'' s w = (if s = OReleased then Inr () else row_refused ''6'' s w)"
  "command_from ''8'' s w = (if s = OReleased \<or> s = OWorking then Inr () else row_refused ''8'' s w)"
  "command_from ''9'' s w = (if s = OWorking then Inr () else row_refused ''9'' s w)"
  "command_from ''15'' s w = (if s = OReleased \<or> s = OWorking then Inr () else row_refused ''15'' s w)"
  "command_from ''i1'' s w = (if s = OProposed then Inr () else row_refused ''i1'' s w)"
  "command_from ''i3'' s w = (if s = OReleased \<or> s = OWorking then Inr () else row_refused ''i3'' s w)"
  "command_from ''i4'' s w = (if s = OReleased \<or> s = OWorking then Inr () else row_refused ''i4'' s w)"
  "command_from ''i7'' s w = (if s = OProposed then Inr () else row_refused ''i7'' s w)"
  by (simp_all add: command_from_row [OF row_ends_rows(1)] command_from_row [OF row_ends_rows(2)] command_from_row [OF row_ends_rows(3)] command_from_row [OF row_ends_rows(4)] command_from_row [OF row_ends_rows(5)] command_from_row [OF row_ends_rows(6)] command_from_row [OF row_ends_rows(7)] command_from_row [OF row_ends_rows(8)] command_from_row [OF row_ends_rows(9)] command_from_row [OF row_ends_rows(10)] command_from_row [OF row_ends_rows(11)] command_from_row [OF row_ends_rows(12)] command_from_row [OF row_ends_rows(13)] eq_commute)

lemma row_admits:
  "order_row ''1'' = Inr r \<Longrightarrow> admits r (Some s) t \<longleftrightarrow> (s = OProposed) \<and> (t = s \<or> t = OReleased)"
  "order_row ''2'' = Inr r \<Longrightarrow> admits r (Some s) t \<longleftrightarrow> (s = OProposed) \<and> (t = s \<or> t = OReleased)"
  "order_row ''3'' = Inr r \<Longrightarrow> admits r (Some s) t \<longleftrightarrow> (s = OProposed) \<and> (t = s \<or> t = OReleased)"
  "order_row ''4'' = Inr r \<Longrightarrow> admits r (Some s) t \<longleftrightarrow> (s = OProposed) \<and> (t = s \<or> t = ORefused)"
  "order_row ''5'' = Inr r \<Longrightarrow> admits r (Some s) t \<longleftrightarrow> (s = OReleased) \<and> (t = s \<or> t = OProposed)"
  "order_row ''6'' = Inr r \<Longrightarrow> admits r (Some s) t \<longleftrightarrow> (s = OReleased) \<and> (t = s \<or> t = OWorking)"
  "order_row ''8'' = Inr r \<Longrightarrow> admits r (Some s) t \<longleftrightarrow> (s = OReleased \<or> s = OWorking) \<and> (t = s)"
  "order_row ''9'' = Inr r \<Longrightarrow> admits r (Some s) t \<longleftrightarrow> (s = OWorking) \<and> (t = s)"
  "order_row ''15'' = Inr r \<Longrightarrow> admits r (Some s) t \<longleftrightarrow> (s = OReleased \<or> s = OWorking) \<and> (t = s)"
  "order_row ''i1'' = Inr r \<Longrightarrow> admits r (Some s) t \<longleftrightarrow> (s = OProposed) \<and> (t = s \<or> t = OCancelled)"
  "order_row ''i3'' = Inr r \<Longrightarrow> admits r (Some s) t \<longleftrightarrow> (s = OReleased \<or> s = OWorking) \<and> (t = s \<or> t = OCancelled)"
  "order_row ''i4'' = Inr r \<Longrightarrow> admits r (Some s) t \<longleftrightarrow> (s = OReleased \<or> s = OWorking) \<and> (t = s \<or> t = OExpired)"
  "order_row ''i7'' = Inr r \<Longrightarrow> admits r (Some s) t \<longleftrightarrow> (s = OProposed) \<and> (t = s \<or> t = OExpired)"
  by ((simp add: row_admits_row [OF row_ends_rows(1)] row_admits_row [OF row_ends_rows(2)] row_admits_row [OF row_ends_rows(3)] row_admits_row [OF row_ends_rows(4)] row_admits_row [OF row_ends_rows(5)] row_admits_row [OF row_ends_rows(6)] row_admits_row [OF row_ends_rows(7)] row_admits_row [OF row_ends_rows(8)] row_admits_row [OF row_ends_rows(9)] row_admits_row [OF row_ends_rows(10)] row_admits_row [OF row_ends_rows(11)] row_admits_row [OF row_ends_rows(12)] row_admits_row [OF row_ends_rows(13)] eq_commute; fail)+)

end

