(* ===== verification/Order_Requests.thy ===== *)
theory Order_Requests
  imports Order_Records
begin

section \<open>The order path's commands\<close>

text \<open>
  The requests the order path's commands carry (\<open>crates/domain/src/v1.rs\<close>), with every field each
  has.
\<close>

subsection \<open>Enumerations\<close>

datatype price_basis = YBUnspecified | YBPerUnit | YBPercentOfPar | YBYield | YBSpread

primrec price_basis_no :: "price_basis \<Rightarrow> int" where
  "price_basis_no YBUnspecified = 0"
| "price_basis_no YBPerUnit = 1"
| "price_basis_no YBPercentOfPar = 2"
| "price_basis_no YBYield = 3"
| "price_basis_no YBSpread = 4"

definition price_basis_of :: "int \<Rightarrow> price_basis option" where
  "price_basis_of = enum_of price_basis_no
     [YBUnspecified, YBPerUnit, YBPercentOfPar, YBYield, YBSpread]"

datatype position_effect = PEUnspecified | PEOpen | PEClose

primrec position_effect_no :: "position_effect \<Rightarrow> int" where
  "position_effect_no PEUnspecified = 0"
| "position_effect_no PEOpen = 1"
| "position_effect_no PEClose = 2"

definition position_effect_of :: "int \<Rightarrow> position_effect option" where
  "position_effect_of = enum_of position_effect_no
     [PEUnspecified, PEOpen, PEClose]"

datatype instrument_type = ITUnspecified | ITMoneyMarketFund | ITBinaryEventContract
    | ITInterestRate | ITRateCurve | ITIndex | ITListedOption | ITFuture | ITFutureOption
    | ITCommodity | ITBond | ITMbsPool | ITTba | ITCmoTranche | ITCertificateOfDeposit

primrec instrument_type_no :: "instrument_type \<Rightarrow> int" where
  "instrument_type_no ITUnspecified = 0"
| "instrument_type_no ITMoneyMarketFund = 1"
| "instrument_type_no ITBinaryEventContract = 2"
| "instrument_type_no ITInterestRate = 3"
| "instrument_type_no ITRateCurve = 4"
| "instrument_type_no ITIndex = 5"
| "instrument_type_no ITListedOption = 6"
| "instrument_type_no ITFuture = 7"
| "instrument_type_no ITFutureOption = 8"
| "instrument_type_no ITCommodity = 9"
| "instrument_type_no ITBond = 10"
| "instrument_type_no ITMbsPool = 11"
| "instrument_type_no ITTba = 12"
| "instrument_type_no ITCmoTranche = 13"
| "instrument_type_no ITCertificateOfDeposit = 14"

definition instrument_type_of :: "int \<Rightarrow> instrument_type option" where
  "instrument_type_of = enum_of instrument_type_no
     [ITUnspecified, ITMoneyMarketFund, ITBinaryEventContract, ITInterestRate, ITRateCurve, ITIndex,
      ITListedOption, ITFuture, ITFutureOption, ITCommodity, ITBond, ITMbsPool,
      ITTba, ITCmoTranche, ITCertificateOfDeposit]"

datatype instruction_value = IVUnspecified | IVActive | IVPause | IVStop

primrec instruction_value_no :: "instruction_value \<Rightarrow> int" where
  "instruction_value_no IVUnspecified = 0"
| "instruction_value_no IVActive = 1"
| "instruction_value_no IVPause = 2"
| "instruction_value_no IVStop = 3"

definition instruction_value_of :: "int \<Rightarrow> instruction_value option" where
  "instruction_value_of = enum_of instruction_value_no
     [IVUnspecified, IVActive, IVPause, IVStop]"

datatype setter_level = SLUnspecified | SLDeploymentAdmin | SLPluginAdmin

primrec setter_level_no :: "setter_level \<Rightarrow> int" where
  "setter_level_no SLUnspecified = 0"
| "setter_level_no SLDeploymentAdmin = 1"
| "setter_level_no SLPluginAdmin = 2"

definition setter_level_of :: "int \<Rightarrow> setter_level option" where
  "setter_level_of = enum_of setter_level_no
     [SLUnspecified, SLDeploymentAdmin, SLPluginAdmin]"

datatype approval = APUnspecified | APRequire | APApprove | APOverride | APReject

primrec approval_no :: "approval \<Rightarrow> int" where
  "approval_no APUnspecified = 0"
| "approval_no APRequire = 1"
| "approval_no APApprove = 2"
| "approval_no APOverride = 3"
| "approval_no APReject = 4"

definition approval_of :: "int \<Rightarrow> approval option" where
  "approval_of = enum_of approval_no
     [APUnspecified, APRequire, APApprove, APOverride, APReject]"

datatype placement_type = PTUnspecified | PTDma | PTAlgo | PTCare | PTRfq | PTManual

primrec placement_type_no :: "placement_type \<Rightarrow> int" where
  "placement_type_no PTUnspecified = 0"
| "placement_type_no PTDma = 1"
| "placement_type_no PTAlgo = 2"
| "placement_type_no PTCare = 3"
| "placement_type_no PTRfq = 4"
| "placement_type_no PTManual = 5"

definition placement_type_of :: "int \<Rightarrow> placement_type option" where
  "placement_type_of = enum_of placement_type_no
     [PTUnspecified, PTDma, PTAlgo, PTCare, PTRfq, PTManual]"

datatype hold_cause = HCUnspecified | HCReferencePriceStale

primrec hold_cause_no :: "hold_cause \<Rightarrow> int" where
  "hold_cause_no HCUnspecified = 0"
| "hold_cause_no HCReferencePriceStale = 1"

definition hold_cause_of :: "int \<Rightarrow> hold_cause option" where
  "hold_cause_of = enum_of hold_cause_no
     [HCUnspecified, HCReferencePriceStale]"

subsection \<open>Messages\<close>

record order_change_request =
  qoc_order_id :: string
  qoc_change :: "order_change option"
  qoc_reason :: string
  qoc_idempotency_key :: string

record check_request =
  qck_order_id :: string
  qck_order_version :: nat
  qck_placement_id :: string
  qck_verdict :: int
  qck_rule :: string
  qck_note :: string
  qck_idempotency_key :: string

definition check_request_default :: check_request where
  "check_request_default =
     \<lparr>qck_order_id = [], qck_order_version = 0, qck_placement_id = [], qck_verdict = 0,
      qck_rule = [], qck_note = [], qck_idempotency_key = []\<rparr>"

record approval_request =
  qap_order_id :: string
  qap_decision :: int
  qap_reason :: string
  qap_idempotency_key :: string

record release_request =
  qre_order_id :: string
  qre_idempotency_key :: string

record working_request =
  qwc_order_id :: string
  qwc_condition :: int
  qwc_set :: bool
  qwc_reason :: string
  qwc_idempotency_key :: string
  qwc_hold_cause :: int
  qwc_stale_reference :: "stale_reference option"

record placement_request =
  qpl_order_id :: string
  qpl_connectivity_instance_id :: string
  qpl_venue_account_code :: string
  qpl_quantity :: "decimal option"
  qpl_limit_price :: "money option"
  qpl_time_in_force :: int
  qpl_strategy :: "encoded option"
  qpl_destination :: string
  qpl_route_type :: int
  qpl_handling_instructions :: "string list"
  qpl_rfq_id :: string
  qpl_axe_id :: string
  qpl_ems_instance_id :: string
  qpl_idempotency_key :: string
  qpl_placement_type :: int
  qpl_counterparty_contact :: string
  qpl_agreed_at_ns :: int
  qpl_agreed_precision :: int
  qpl_stale_reference :: "stale_reference option"

record placement_change_request =
  qpc_placement_id :: string
  qpc_change :: "placement_change option"
  qpc_reason :: string
  qpc_cause :: "entry_meta option"
  qpc_idempotency_key :: string

record propose_request =
  qpo_account_id :: string
  qpo_instrument_id :: string
  qpo_sleeve :: string
  qpo_side :: int
  qpo_locate_id :: string
  qpo_quantity :: "decimal option"
  qpo_cash_quantity :: "money option"
  qpo_order_type :: int
  qpo_limit_price :: "money option"
  qpo_dealt_currency :: string
  qpo_legs :: "order_leg list"
  qpo_allocation_instruction :: "allocation_instruction option"
  qpo_time_in_force :: int
  qpo_lot_relief_method :: int
  qpo_relieve_lot_ids :: "string list"
  qpo_capacity :: int
  qpo_direction :: int
  qpo_parties :: "encoded list"
  qpo_decided_by :: "actor option"
  qpo_customer_id :: string
  qpo_firm_designated_id :: string
  qpo_handling_instructions :: "string list"
  qpo_received_at_ns :: int
  qpo_received_precision :: int
  qpo_quote_at_receipt :: "encoded option"
  qpo_represents_order_ids :: "string list"
  qpo_axe_source :: string
  qpo_axe_counterparty_id :: string
  qpo_link :: "order_link option"
  qpo_idempotency_key :: string
  qpo_stop_price :: "money option"
  qpo_expire_date :: string
  qpo_expire_time_ns :: int
  qpo_execution_instructions :: "int list"
  qpo_quote_currency :: string
  qpo_block_member_order_ids :: "string list"
  qpo_net_member_order_ids :: "string list"
  qpo_value_date :: string
  qpo_position_effect :: int
  qpo_price_basis :: int
  qpo_limit_yield :: "encoded option"
  qpo_limit_spread_bps :: "decimal option"
  qpo_benchmark_instrument_id :: string

record acknowledge_request =
  qaf_order_id :: string
  qaf_condition :: int
  qaf_reason :: string
  qaf_idempotency_key :: string

record record_request =
  qro_account_id :: string
  qro_instrument_id :: string
  qro_sleeve :: string
  qro_side :: int
  qro_quantity :: "decimal option"
  qro_order_type :: int
  qro_limit_price :: "money option"
  qro_time_in_force :: int
  qro_venue_order_id :: string
  qro_origin :: int
  qro_idempotency_key :: string

record quote_report =
  qpq_placement_id :: string
  qpq_quote_id :: string
  qpq_dealer_id :: string
  qpq_dealer_quote_id :: string
  qpq_side :: int
  qpq_price :: "money option"
  qpq_quantity :: "decimal option"
  qpq_received_at_ns :: int
  qpq_valid_until_ns :: int
  qpq_outcome :: int
  qpq_raw_record :: "encoded option"
  qpq_idempotency_key :: string

record pick_request =
  qpp_placement_id :: string
  qpp_quote_id :: string
  qpp_reason :: string
  qpp_idempotency_key :: string

record instruction_request =
  qti_target :: "instruction_target option"
  qti_value :: int
  qti_reason :: string
  qti_setter_level :: int

record locate_request =
  qlo_account_id :: string
  qlo_venue_account_code :: string
  qlo_instrument_id :: string
  qlo_quantity_requested :: "decimal option"
  qlo_answer :: "locate_answer option"
  qlo_locate_record_id :: string
  qlo_raw_record :: "encoded option"
  qlo_idempotency_key :: string

record locate_use_request =
  qlu_locate_record_id :: string
  qlu_use :: "locate_use option"
  qlu_idempotency_key :: string

end
