(* ===== verification/Book_Records.thy ===== *)
theory Book_Records
  imports Order_Records
begin

section \<open>The account's messages\<close>

text \<open>
  The contract's messages an account's positions are kept in (\<open>crates/domain/src/v1.rs\<close>): movement
  lines, lots and their reliefs, encumbrances, breaks, figures, attributes and lifecycle events.
\<close>

subsection \<open>Enumerations\<close>

datatype bucket = SBUnspecified | SBSettled | SBPending | SBNotStated

primrec bucket_no :: "bucket \<Rightarrow> int" where
  "bucket_no SBUnspecified = 0"
| "bucket_no SBSettled = 1"
| "bucket_no SBPending = 2"
| "bucket_no SBNotStated = 3"

definition bucket_of :: "int \<Rightarrow> bucket option" where
  "bucket_of = enum_of bucket_no
     [SBUnspecified, SBSettled, SBPending, SBNotStated]"

datatype holding_side = HSUnspecified | HSLong | HSShort

primrec holding_side_no :: "holding_side \<Rightarrow> int" where
  "holding_side_no HSUnspecified = 0"
| "holding_side_no HSLong = 1"
| "holding_side_no HSShort = 2"

definition holding_side_of :: "int \<Rightarrow> holding_side option" where
  "holding_side_of = enum_of holding_side_no
     [HSUnspecified, HSLong, HSShort]"

datatype free_basis = FBUnspecified | FBSettled | FBTradeDate

primrec free_basis_no :: "free_basis \<Rightarrow> int" where
  "free_basis_no FBUnspecified = 0"
| "free_basis_no FBSettled = 1"
| "free_basis_no FBTradeDate = 2"

datatype lot_source = LSUnspecified | LSOpeningBalance | LSAdjustment | LSExecution

primrec lot_source_no :: "lot_source \<Rightarrow> int" where
  "lot_source_no LSUnspecified = 0"
| "lot_source_no LSOpeningBalance = 1"
| "lot_source_no LSAdjustment = 2"
| "lot_source_no LSExecution = 3"

datatype relief_method = RMUnspecified | RMFirstInFirstOut | RMLastInFirstOut | RMHighestCost
    | RMLowestCost | RMAverageCost

primrec relief_method_no :: "relief_method \<Rightarrow> int" where
  "relief_method_no RMUnspecified = 0"
| "relief_method_no RMFirstInFirstOut = 1"
| "relief_method_no RMLastInFirstOut = 2"
| "relief_method_no RMHighestCost = 3"
| "relief_method_no RMLowestCost = 4"
| "relief_method_no RMAverageCost = 5"

definition relief_method_of :: "int \<Rightarrow> relief_method option" where
  "relief_method_of = enum_of relief_method_no
     [RMUnspecified, RMFirstInFirstOut, RMLastInFirstOut, RMHighestCost, RMLowestCost, RMAverageCost]"

subsection \<open>Messages\<close>

record pending_state =
  pst_failing :: bool
  pst_fail_reason :: string
  pst_expected_date :: string

record lot_terms =
  lt_unit_cost :: "money option"
  lt_cost :: "money option"
  lt_acquired_date :: string
  lt_holding_period_start :: string
  lt_settlement_date :: string
  lt_source :: int

definition lot_terms_default :: lot_terms where
  "lot_terms_default =
     \<lparr>lt_unit_cost = None, lt_cost = None, lt_acquired_date = [],
      lt_holding_period_start = [], lt_settlement_date = [], lt_source = 0\<rparr>"

record movement_line =
  ml_instrument_id :: string
  ml_side :: int
  ml_bucket :: int
  ml_value_date :: string
  ml_quantity :: "decimal option"
  ml_lot_id :: string
  ml_opens_lot :: "lot_terms option"
  ml_pending_state :: "pending_state option"
  ml_sleeve :: string

definition movement_line_default :: movement_line where
  "movement_line_default =
     \<lparr>ml_instrument_id = [], ml_side = 0, ml_bucket = 0, ml_value_date = [],
      ml_quantity = None, ml_lot_id = [], ml_opens_lot = None, ml_pending_state = None,
      ml_sleeve = []\<rparr>"

record lot_relief =
  lr_relieved_by :: "journal_ref option"
  lr_quantity :: "decimal option"
  lr_proceeds :: "money option"
  lr_trade_date :: string

record lot =
  lx_lot_id :: string
  lx_open_quantity :: "decimal option"
  lx_original_quantity :: "decimal option"
  lx_terms :: "lot_terms option"
  lx_opened_by :: "journal_ref option"
  lx_relieved_by :: "journal_ref list"
  lx_adjusted_by :: "journal_ref list"
  lx_sleeve :: string
  lx_reliefs :: "lot_relief list"
  lx_factor_month_awaited :: string

definition lot_default :: lot where
  "lot_default =
     \<lparr>lx_lot_id = [], lx_open_quantity = None, lx_original_quantity = None, lx_terms = None,
      lx_opened_by = None, lx_relieved_by = [], lx_adjusted_by = [], lx_sleeve = [],
      lx_reliefs = [], lx_factor_month_awaited = []\<rparr>"

record statement_segment =
  ssr_external_account_id :: string
  ssr_segment :: string
  ssr_counterparty :: string

datatype agreement_of = StatementSegment statement_segment

record margin_agreement =
  mga_agreement :: "agreement_of option"

record street_ref =
  stf_statement_id :: string
  stf_change :: "journal_ref option"
  stf_as_of_date :: string

record encumbrance =
  enc_kind :: int
  enc_quantity :: "decimal option"
  enc_pledgee :: string
  enc_held_at :: string
  enc_agreement :: "margin_agreement option"
  enc_source_code :: string
  enc_detail :: string
  enc_source :: "street_ref option"
  enc_since_date :: string
  enc_set_by :: "journal_ref option"

record opening_source =
  osr_kind :: int
  osr_name :: string
  osr_as_of_date :: string
  osr_basis :: int
  osr_street_records :: "street_ref list"

datatype cost_adjustment = CostChange money | StatedCost money

record basis_adjustment =
  ba_lot_id :: string
  ba_holding_period_start :: string
  ba_cost :: "cost_adjustment option"

record pending_settlement =
  pse_value_date :: string
  pse_quantity :: "decimal option"
  pse_state :: "pending_state option"

record book_position =
  bp_account_id :: string
  bp_instrument_id :: string
  bp_side :: int
  bp_trade_date_quantity :: "decimal option"
  bp_settled_quantity :: "decimal option"
  bp_not_stated_quantity :: "decimal option"
  bp_pending :: "pending_settlement list"
  bp_lots :: "lot list"
  bp_opened_from :: "opening_source list"
  bp_effective_date :: string
  bp_last_change :: "journal_ref option"
  bp_removed :: bool
  bp_encumbrances :: "encumbrance list"
  bp_free_quantity :: "decimal option"
  bp_free_basis :: int
  bp_sleeve :: string

record break_resolution =
  brr_entries :: "journal_ref list"
  brr_explanation :: string
  brr_actor :: "actor option"
  brr_reason :: string
  brr_cleared_at :: "street_ref option"

definition break_resolution_default :: break_resolution where
  "break_resolution_default =
     \<lparr>brr_entries = [], brr_explanation = [], brr_actor = None, brr_reason = [],
      brr_cleared_at = None\<rparr>"

record position_key =
  pky_instrument_id :: string
  pky_side :: int

record figure_key =
  fky_agreement :: "margin_agreement option"
  fky_figure :: string
  fky_instrument_id :: string

datatype stated_value = QuantityValue decimal | AmountValue money | TextValue string

record break_value =
  bva_value :: "stated_value option"

record break_difference =
  bdf_field :: string
  bdf_book :: "break_value option"
  bdf_street :: "break_value option"

text \<open>A calendar as a check names it: its identifier and its version.\<close>

type_synonym calendar_ref = "string \<times> int"

record date_check =
  dck_date :: string
  dck_calendars :: "calendar_ref list"
  dck_reason :: int
  dck_holiday_name :: string

record pending_ref =
  psr_instrument_id :: string
  psr_side :: int
  psr_value_date :: string

datatype cause_item = StreetItem street_ref | EntryItem journal_ref | PendingItem pending_ref | EventItem string
  | NoneFoundItem bool | ActivityItem encoded | DateItem date_check

record break_cause =
  bcs_category :: int
  bcs_note :: string
  bcs_item :: "cause_item option"

record break_handling =
  bhd_owner_subject :: string
  bhd_escalation_level :: nat
  bhd_due_date :: string

record stated_identifier =
  idn_scheme :: string
  idn_value :: string
  idn_source :: string
  idn_valid_from_ns :: int
  idn_valid_until_ns :: int
  idn_trading_currency :: string

definition stated_identifier_default :: stated_identifier where
  "stated_identifier_default =
     \<lparr>idn_scheme = [], idn_value = [], idn_source = [], idn_valid_from_ns = 0,
      idn_valid_until_ns = 0, idn_trading_currency = []\<rparr>"

record statement_figures =
  sfg_segment :: string
  sfg_buying_power :: "money option"
  sfg_margin_requirement :: "money option"
  sfg_maintenance_excess :: "money option"
  sfg_initial_margin :: "money option"
  sfg_variation_margin :: "money option"
  sfg_net_liquidation :: "money option"
  sfg_collateral :: "encoded list"

datatype break_subject = OnPosition position_key | OnFigure figure_key

record break_record =
  brk_break_id :: string
  brk_account_id :: string
  brk_category :: int
  brk_differences :: "break_difference list"
  brk_book_watermark :: "encoded option"
  brk_street :: "street_ref option"
  brk_first_seen_date :: string
  brk_last_seen_date :: string
  brk_state :: int
  brk_candidate_causes :: "break_cause list"
  brk_confirmed_cause :: "break_cause option"
  brk_handling :: "break_handling option"
  brk_resolution :: "break_resolution option"
  brk_recorded_by :: "actor option"
  brk_last_change :: "journal_ref option"
  brk_unresolved_identifiers :: "stated_identifier list"
  brk_subject :: "break_subject option"

definition break_record_default :: break_record where
  "break_record_default =
     \<lparr>brk_break_id = [], brk_account_id = [], brk_category = 0, brk_differences = [],
      brk_book_watermark = None, brk_street = None, brk_first_seen_date = [],
      brk_last_seen_date = [], brk_state = 0, brk_candidate_causes = [],
      brk_confirmed_cause = None, brk_handling = None, brk_resolution = None,
      brk_recorded_by = None, brk_last_change = None, brk_unresolved_identifiers = [],
      brk_subject = None\<rparr>"

record account_figures =
  af_account_id :: string
  af_business_date :: string
  af_agreement :: "margin_agreement option"
  af_figures :: "statement_figures option"
  af_position_values :: "encoded list"
  af_source :: "street_ref option"
  af_last_change :: "journal_ref option"

record opening_balance =
  ob_entry_id :: string
  ob_as_of_date :: string
  ob_sources :: "opening_source list"
  ob_recorded_by :: "actor option"
  ob_journal :: "journal_ref option"
  ob_reason :: string

record account_attributes =
  aa_account_id :: string
  aa_base_currency_code :: string
  aa_lot_relief_default :: int
  aa_last_change :: "journal_ref option"
  aa_opening_balance :: "opening_balance option"
  aa_waits_for_compliance :: bool
  aa_error_account :: bool
  aa_allocation_account :: bool
  aa_base_cash_instrument_id :: string

definition account_attributes_default :: account_attributes where
  "account_attributes_default =
     \<lparr>aa_account_id = [], aa_base_currency_code = [], aa_lot_relief_default = 0,
      aa_last_change = None, aa_opening_balance = None, aa_waits_for_compliance = False,
      aa_error_account = False, aa_allocation_account = False, aa_base_cash_instrument_id = []\<rparr>"

record lifecycle_event =
  le_event_id :: string
  le_account_id :: string
  le_instrument_id :: string
  le_kind :: int
  le_state :: int
  le_quantity :: "decimal option"
  le_event_date :: string
  le_deliveries :: "encoded list"
  le_cash :: "money option"
  le_settlement_price :: "money option"
  le_external_event_id :: string
  le_answers_event_id :: string
  le_proposal_basis :: "money option"
  le_raw_record :: "encoded option"
  le_last_change :: "journal_ref option"
  le_redemption_kind :: int
  le_redemption_price :: "decimal option"
  le_period_start_date :: string
  le_period_end_date :: string
  le_record_date :: string
  le_factor :: "decimal option"
  le_prior_factor :: "decimal option"
  le_face_change :: "decimal option"
  le_cost_change :: "money option"
  le_execution_id :: string

record change_cause =
  cc_instance_id :: string
  cc_acting_for_subject :: string
  cc_correlation_id :: string
  cc_causation_id :: string
  cc_committed_at_ns :: int

end
