(* ===== verification/Book_Positions.thy ===== *)
theory Book_Positions
  imports Book_Records Order_Status
begin

section \<open>One position: its buckets and its lots\<close>

text \<open>
  \<open>PositionState\<close> of \<open>crates/bor/src/book.rs\<close> and what a movement line does to it: a settlement
  bucket moved (\<open>add_to_bucket\<close>), a lot opened, carried in, added to or relieved (\<open>apply_lot\<close>),
  each relief recorded with its proceeds (\<open>record_relief\<close>), and the record it is read as. What
  each instrument became and which cash instrument a currency's code is are the process's own
  maps (\<open>crates/bor/src/became.rs\<close>, \<open>crates/domain/src/money.rs\<close>), an argument here. The
  multiplier of a lot is guessed in binary floating point and kept only where it multiplies back
  exactly; the floats are modelled as they are, a rounded mantissa and its exponent.
\<close>

subsection \<open>What the process knows\<close>

record known =
  kn_became :: "(string, string) btree"
  kn_cash :: "(string, string) btree"

definition became_record :: "string \<Rightarrow> string \<Rightarrow> known \<Rightarrow> known" where
  "became_record replaced by k =
     (if replaced = [] \<or> by = [] \<or> replaced = by then k
      else k\<lparr>kn_became := bt_insert replaced by (kn_became k)\<rparr>)"

primrec follow :: "nat \<Rightarrow> (string, string) btree \<Rightarrow> string \<Rightarrow> string" where
  "follow 0 m now = now"
| "follow (Suc n) m now =
     (case bt_get m now of
        None \<Rightarrow> now
      | Some after \<Rightarrow> if after \<noteq> now then follow n m after else now)"

definition became_current :: "known \<Rightarrow> string \<Rightarrow> string" where
  "became_current k = follow 8 (kn_became k)"

definition became_same :: "known \<Rightarrow> string \<Rightarrow> string \<Rightarrow> bool" where
  "became_same k a b \<longleftrightarrow> a = b \<or> became_current k a = became_current k b"

definition money_known :: "known \<Rightarrow> string \<Rightarrow> string option" where
  "money_known k code = bt_get (kn_cash k) code"

definition money_code_of :: "known \<Rightarrow> string \<Rightarrow> string option" where
  "money_code_of k instrument = map_option fst (find (\<lambda>(_, held). held = instrument) (kn_cash k))"

subsection \<open>A position\<close>

type_synonym pos_key = "string \<times> int \<times> string"

record lot_state =
  ls_lot :: lot
  ls_opened_in :: nat
  ls_ordinal :: nat

record position_state =
  pn_instrument_id :: string
  pn_side :: int
  pn_sleeve :: string
  pn_settled :: exact
  pn_pending :: "(string, exact \<times> pending_state option) btree"
  pn_not_stated :: exact
  pn_lots :: "(string, lot_state) btree"
  pn_opened_lots :: nat
  pn_opened_from :: "opening_source list"
  pn_effective_date :: string
  pn_last_change :: "journal_ref option"
  pn_removed :: bool
  pn_encumbrances :: "encumbrance list"

definition position_new :: "pos_key \<Rightarrow> position_state" where
  "position_new = (\<lambda>(instrument, side, sleeve).
     \<lparr>pn_instrument_id = instrument, pn_side = side, pn_sleeve = sleeve, pn_settled = ex_zero,
      pn_pending = [], pn_not_stated = ex_zero, pn_lots = [], pn_opened_lots = 0, pn_opened_from = [],
      pn_effective_date = [], pn_last_change = None, pn_removed = False, pn_encumbrances = []\<rparr>)"

definition position_free :: "position_state \<Rightarrow> store_error + exact option" where
  "position_free p =
     (if \<not> is_zero (pn_not_stated p) then Inr None
      else rbind (rfold (\<lambda>e free. rbind (required ''encumbrances.quantity'' (enc_quantity e))
                                   (\<lambda>q. num_add ''free_quantity'' free (negated q)))
                        (pn_encumbrances p) (pn_settled p)) (\<lambda>free. Inr (Some free)))"

definition trade_date :: "position_state \<Rightarrow> store_error + exact" where
  "trade_date p =
     rbind (num_add ''trade_date_quantity'' (pn_settled p) (pn_not_stated p))
       (rfold (\<lambda>(q, _) total. num_add ''trade_date_quantity'' total q) (bt_values (pn_pending p)))"

definition lots_open :: "position_state \<Rightarrow> store_error + exact" where
  "lots_open p =
     rfold (\<lambda>s total. rbind (required ''lots.open_quantity'' (lx_open_quantity (ls_lot s)))
                      (\<lambda>q. num_add ''lots.open_quantity'' total q))
       (bt_values (pn_lots p)) ex_zero"

definition wire_is_zero :: "decimal option \<Rightarrow> bool" where
  "wire_is_zero w =
     (case w of None \<Rightarrow> True | Some d \<Rightarrow> (case from_wire d of Inl _ \<Rightarrow> True | Inr q \<Rightarrow> is_zero q))"

definition has_open_lots :: "position_state \<Rightarrow> bool" where
  "has_open_lots p \<longleftrightarrow> list_ex (\<lambda>s. \<not> wire_is_zero (lx_open_quantity (ls_lot s))) (bt_values (pn_lots p))"

definition position_flat :: "position_state \<Rightarrow> bool" where
  "position_flat p \<longleftrightarrow> is_zero (pn_settled p) \<and> is_zero (pn_not_stated p)
     \<and> list_all (\<lambda>(q, _). is_zero q) (bt_values (pn_pending p)) \<and> \<not> has_open_lots p"

definition position_record :: "string \<Rightarrow> position_state \<Rightarrow> store_error + book_position" where
  "position_record account p =
     rbind (trade_date p) (\<lambda>trade.
     rbind (position_free p) (\<lambda>free.
       Inr \<lparr>bp_account_id = account, bp_instrument_id = pn_instrument_id p, bp_side = pn_side p,
            bp_trade_date_quantity = num_wire trade,
            bp_settled_quantity = (if is_zero (pn_not_stated p) then Some (to_wire (pn_settled p)) else None),
            bp_not_stated_quantity = num_wire (pn_not_stated p),
            bp_pending = map (\<lambda>(d, q, s). \<lparr>pse_value_date = d, pse_quantity = num_wire q, pse_state = s\<rparr>)
                           (filter (\<lambda>(d, q, s). \<not> is_zero q) (pn_pending p)),
            bp_lots = map ls_lot (sort_key ls_ordinal
                           (filter (\<lambda>s. \<not> wire_is_zero (lx_open_quantity (ls_lot s))) (bt_values (pn_lots p)))),
            bp_opened_from = pn_opened_from p, bp_effective_date = pn_effective_date p,
            bp_last_change = pn_last_change p, bp_removed = pn_removed p,
            bp_encumbrances = pn_encumbrances p,
            bp_free_quantity = Option.bind free num_wire,
            bp_free_basis = free_basis_no FBSettled, bp_sleeve = pn_sleeve p\<rparr>))"

subsection \<open>A line's bucket\<close>

definition add_to_bucket :: "movement_line \<Rightarrow> exact \<Rightarrow> position_state \<Rightarrow> store_error + position_state" where
  "add_to_bucket line q p =
     (case bucket_of (ml_bucket line) of
        Some SBSettled \<Rightarrow>
          rbind (num_add ''settled_quantity'' (pn_settled p) q) (\<lambda>s. Inr (p\<lparr>pn_settled := s\<rparr>))
      | Some SBPending \<Rightarrow>
          (let (held, state) = (case bt_get (pn_pending p) (ml_value_date line) of
                                  None \<Rightarrow> (ex_zero, None) | Some h \<Rightarrow> h) in
           rbind (num_add ''pending.quantity'' held q) (\<lambda>s.
             let state' = (if ml_pending_state line \<noteq> None then ml_pending_state line else state) in
             Inr (p\<lparr>pn_pending :=
               (if is_zero s then bt_remove (ml_value_date line) (pn_pending p)
                else bt_insert (ml_value_date line) (s, state') (pn_pending p))\<rparr>)))
      | Some SBNotStated \<Rightarrow>
          rbind (num_add ''not_stated_quantity'' (pn_not_stated p) q) (\<lambda>s. Inr (p\<lparr>pn_not_stated := s\<rparr>))
      | _ \<Rightarrow> Inl (Invalid [ml_instrument_id line]))"

subsection \<open>Binary floating point, where a multiplier is guessed\<close>

text \<open>
  An \<open>f64\<close> without its sign, as a mantissa of at most 53 bits and an exponent: what a quotient
  of positive whole numbers rounds to, ties to even. Every number met here is a decimal the wire
  carries or a quotient of two, so none leaves the exponent's range.
\<close>

type_synonym float64 = "int \<times> int"

fun bit_length :: "int \<Rightarrow> nat" where
  "bit_length n = (if n \<le> 0 then 0 else Suc (bit_length (n div 2)))"

declare bit_length.simps [simp del]

definition shifted :: "int \<Rightarrow> int \<Rightarrow> int \<Rightarrow> int \<times> int" where
  "shifted n d e = (if 0 \<le> e then (n, d * 2 ^ nat e) else (n * 2 ^ nat (- e), d))"

definition f64_ratio :: "int \<Rightarrow> int \<Rightarrow> float64" where
  "f64_ratio n d =
     (let e = int (bit_length n) - int (bit_length d) - 53;
          (a, b) = shifted n d e;
          e' = (if 2 ^ 53 \<le> a div b then e + 1 else e);
          (a', b') = shifted n d e'
      in (half_even a' b', e'))"

definition f64_of_exact :: "exact \<Rightarrow> float64" where
  "f64_of_exact x = (if integer x = 0 then (0, 0) else f64_ratio \<bar>integer x\<bar> (10 ^ scale x))"

definition f64_div :: "float64 \<Rightarrow> float64 \<Rightarrow> float64" where
  "f64_div x y =
     (let (m, e) = x; (k, f) = y; (a, b) = shifted m k (f - e) in f64_ratio a b)"

definition f64_is_zero :: "float64 \<Rightarrow> bool" where "f64_is_zero x \<longleftrightarrow> fst x = 0"

text \<open>\<open>{:.places}\<close>: the decimal nearest, ties to even, with that many places.\<close>

definition f64_to_places :: "nat \<Rightarrow> float64 \<Rightarrow> string" where
  "f64_to_places places x =
     (let (a, b) = shifted (fst x * 10 ^ places) 1 (- snd x); n = half_even a b; unit = 10 ^ places
      in show_uint (n div unit) @ ''.'' @ pad0 places (show_uint (n mod unit)))"

definition trim_end_matches :: "char \<Rightarrow> string \<Rightarrow> string" where
  "trim_end_matches c s = rev (dropWhile (\<lambda>d. d = c) (rev s))"

subsection \<open>A lot's multiplier\<close>

definition read_wire :: "decimal option \<Rightarrow> exact option" where
  "read_wire w = (case w of None \<Rightarrow> None | Some d \<Rightarrow> (case from_wire d of Inl _ \<Rightarrow> None | Inr x \<Rightarrow> Some x))"

definition guessed :: "exact \<Rightarrow> exact \<Rightarrow> float64 \<Rightarrow> nat \<Rightarrow> exact option" where
  "guessed per cost ratio places =
     (case from_str (trim_end_matches (CHR ''.'') (trim_end_matches (CHR ''0'') (f64_to_places places ratio))) of
        Inl _ \<Rightarrow> None
      | Inr m \<Rightarrow>
          if \<not> is_zero m
             \<and> (case num_multiply ''a lot's cost'' per m of Inl _ \<Rightarrow> False
                | Inr back \<Rightarrow> ex_eq back cost \<or> ex_eq back (negated cost))
          then Some m else None)"

definition lot_multiplier :: "lot \<Rightarrow> exact" where
  "lot_multiplier x =
     (case lx_terms x of
        None \<Rightarrow> ex_one
      | Some terms \<Rightarrow>
          (case (read_wire (Option.bind (lt_unit_cost terms) mo_amount),
                 read_wire (Option.bind (lt_cost terms) mo_amount), read_wire (lx_original_quantity x)) of
             (Some unit, Some cost, Some q) \<Rightarrow>
               (case num_multiply ''a lot's cost'' unit q of
                  Inl _ \<Rightarrow> ex_one
                | Inr per \<Rightarrow>
                    (let p = f64_of_exact per; c = f64_of_exact cost in
                     if f64_is_zero p \<or> f64_is_zero c then ex_one
                     else (case guessed per cost (f64_div c p) 6 of
                             Some m \<Rightarrow> m
                           | None \<Rightarrow> (case guessed per cost (f64_div c p) 12 of Some m \<Rightarrow> m | None \<Rightarrow> ex_one))))
           | _ \<Rightarrow> ex_one))"

subsection \<open>A relief\<close>

type_synonym sale = "money \<times> string \<times> exact option"

definition proceeds :: "exact \<Rightarrow> sale option \<Rightarrow> exact \<Rightarrow> store_error + money option" where
  "proceeds multiplier sale q =
     (case sale of
        None \<Rightarrow> Inr None
      | Some (price, _, _) \<Rightarrow>
          (case read_wire (mo_amount price) of
             None \<Rightarrow> Inr None
           | Some unit \<Rightarrow>
               rbind (num_multiply ''a relief's proceeds'' q unit) (\<lambda>a.
               rbind (num_multiply ''a relief's proceeds'' a multiplier) (\<lambda>amount.
                 Inr (Some (price\<lparr>mo_amount := num_wire amount\<rparr>))))))"

definition record_relief :: "journal_ref \<Rightarrow> exact \<Rightarrow> sale option \<Rightarrow> lot \<Rightarrow> store_error + lot" where
  "record_relief ref relieved sale x =
     (let multiplier = (case sale of Some (_, _, Some factored) \<Rightarrow> factored | _ \<Rightarrow> lot_multiplier x);
          rs = lx_reliefs x
      in if rs \<noteq> [] \<and> lr_relieved_by (last rs) = Some ref
         then rbind (required ''relief.quantity'' (lr_quantity (last rs))) (\<lambda>before.
              rbind (num_add ''relief.quantity'' before relieved) (\<lambda>total.
              rbind (proceeds multiplier sale total) (\<lambda>gained.
                Inr (x\<lparr>lx_reliefs := butlast rs @ [(last rs)\<lparr>lr_quantity := num_wire total, lr_proceeds := gained\<rparr>]\<rparr>))))
         else rbind (proceeds multiplier sale relieved) (\<lambda>gained.
                Inr (x\<lparr>lx_reliefs := rs @ [\<lparr>lr_relieved_by = Some ref, lr_quantity = num_wire relieved,
                   lr_proceeds = gained,
                   lr_trade_date = (case sale of None \<Rightarrow> [] | Some (_, day, _) \<Rightarrow> day)\<rparr>]\<rparr>)))"

definition magnitude :: "exact \<Rightarrow> exact" where
  "magnitude x = (if is_negative x then negated x else x)"

definition magnitude_below :: "exact \<Rightarrow> exact \<Rightarrow> bool" where
  "magnitude_below a b \<longleftrightarrow> ex_less (magnitude a) (magnitude b)"

subsection \<open>A line's lot\<close>

definition U64_MAX :: nat where "U64_MAX = 2 ^ 64 - 1"

definition lot_opened :: "movement_line \<Rightarrow> lot_terms \<Rightarrow> exact \<Rightarrow> journal_ref \<Rightarrow> nat \<Rightarrow> nat \<Rightarrow> lot_state" where
  "lot_opened line terms q ref entry_sequence ordinal =
     \<lparr>ls_lot = \<lparr>lx_lot_id = ml_lot_id line, lx_open_quantity = num_wire q, lx_original_quantity = num_wire q,
        lx_terms = Some terms, lx_opened_by = Some ref, lx_relieved_by = [], lx_adjusted_by = [],
        lx_sleeve = ml_sleeve line, lx_reliefs = [], lx_factor_month_awaited = []\<rparr>,
      ls_opened_in = entry_sequence, ls_ordinal = ordinal\<rparr>"

definition lot_unknown :: "string \<Rightarrow> lot_state" where
  "lot_unknown i =
     \<lparr>ls_lot = lot_default\<lparr>lx_lot_id := i, lx_open_quantity := num_wire ex_zero,
        lx_original_quantity := num_wire ex_zero\<rparr>, ls_opened_in = 0, ls_ordinal = U64_MAX\<rparr>"

definition open_lot ::
  "movement_line \<Rightarrow> lot_terms \<Rightarrow> exact \<Rightarrow> lot_state option \<Rightarrow> journal_ref \<Rightarrow> nat \<Rightarrow> bool \<Rightarrow> position_state
    \<Rightarrow> store_error + position_state" where
  "open_lot line terms q carried ref entry_sequence lenient p =
     (let i = ml_lot_id line in
      if i = [] then Inl (Invalid [ml_instrument_id line])
      else
        let ordinal = pn_opened_lots p + 1; p1 = p\<lparr>pn_opened_lots := ordinal\<rparr> in
        case carried of
          Some moved \<Rightarrow>
            Inr (p1\<lparr>pn_lots := bt_insert i
              (moved\<lparr>ls_lot := (ls_lot moved)\<lparr>lx_open_quantity := num_wire q\<rparr>, ls_ordinal := ordinal\<rparr>) (pn_lots p1)\<rparr>)
        | None \<Rightarrow>
            if bt_has (pn_lots p1) i \<and> \<not> lenient then Inl (Invalid [i, ml_instrument_id line])
            else Inr (p1\<lparr>pn_lots := bt_insert i (lot_opened line terms q ref entry_sequence ordinal) (pn_lots p1)\<rparr>))"

definition lot_moved ::
  "exact \<Rightarrow> journal_ref \<Rightarrow> nat \<Rightarrow> sale option \<Rightarrow> lot_state \<Rightarrow> store_error + lot_state" where
  "lot_moved q ref entry_sequence sale s =
     (let x = ls_lot s in
      rbind (required ''lots.open_quantity'' (lx_open_quantity x)) (\<lambda>opened.
      rbind (num_add ''lots.open_quantity'' opened q) (\<lambda>after.
        let x1 = x\<lparr>lx_open_quantity := num_wire after\<rparr> in
        if ls_opened_in s = entry_sequence
        then rbind (required ''lots.original_quantity'' (lx_original_quantity x1)) (\<lambda>original.
             rbind (num_add ''lots.original_quantity'' original q) (\<lambda>total.
               Inr (s\<lparr>ls_lot := x1\<lparr>lx_original_quantity := num_wire total\<rparr>\<rparr>)))
        else if magnitude_below after opened
        then (let x2 = (if lx_relieved_by x1 \<noteq> [] \<and> last (lx_relieved_by x1) = ref then x1
                        else x1\<lparr>lx_relieved_by := lx_relieved_by x1 @ [ref]\<rparr>)
              in rbind (num_add ''relief'' opened (negated after)) (\<lambda>relieved.
                 rbind (record_relief ref (magnitude relieved) sale x2) (\<lambda>x3. Inr (s\<lparr>ls_lot := x3\<rparr>))))
        else Inr (s\<lparr>ls_lot := x1\<rparr>))))"

definition move_lot ::
  "movement_line \<Rightarrow> exact \<Rightarrow> journal_ref \<Rightarrow> nat \<Rightarrow> bool \<Rightarrow> sale option \<Rightarrow> position_state
    \<Rightarrow> store_error + position_state" where
  "move_lot line q ref entry_sequence lenient sale p =
     (let i = ml_lot_id line in
      rbind (case bt_get (pn_lots p) i of
               Some s \<Rightarrow> Inr s
             | None \<Rightarrow> if lenient then Inr (lot_unknown i)
                       else Inl (Invalid [i, ml_instrument_id line])) (\<lambda>s.
      rbind (lot_moved q ref entry_sequence sale s) (\<lambda>s'.
        Inr (p\<lparr>pn_lots := bt_insert i s' (pn_lots p)\<rparr>))))"

definition apply_lot ::
  "movement_line \<Rightarrow> exact \<Rightarrow> lot_state option \<Rightarrow> journal_ref \<Rightarrow> nat \<Rightarrow> bool \<Rightarrow> sale option \<Rightarrow> position_state
    \<Rightarrow> store_error + position_state" where
  "apply_lot line q carried ref entry_sequence lenient sale p =
     (case ml_opens_lot line of
        Some terms \<Rightarrow> open_lot line terms q carried ref entry_sequence lenient p
      | None \<Rightarrow> if ml_lot_id line = [] then Inr p else move_lot line q ref entry_sequence lenient sale p)"

section \<open>Facts\<close>

lemma sum_values_insert:
  fixes g :: "'v \<Rightarrow> 'a::ab_group_add"
  assumes "bt_wf m"
  shows "(\<Sum>v\<leftarrow>bt_values (bt_insert k w m). g v) =
    (\<Sum>v\<leftarrow>bt_values m. g v) + g w - (case bt_get m k of None \<Rightarrow> 0 | Some v \<Rightarrow> g v)"
  using assms
proof (induction k w m rule: bt_insert.induct)
  case (2 k w a v m)
  then have above: "\<forall>b \<in> fst ` set m. a < b" and wf: "bt_wf m" by (auto simp: bt_wf_Cons)
  from above have "bt_get m k = None" if "k < a \<or> k = a" using that by (auto simp: bt_get_None_iff)
  with 2 wf show ?case by (auto split: option.split)
qed simp

lemma set_bt_insertD: "x \<in> set (bt_insert k v m) \<Longrightarrow> x = (k, v) \<or> x \<in> set m"
  by (induction k v m rule: bt_insert.induct) (auto split: if_splits)

lemma set_bt_removeD: "x \<in> set (bt_remove k m) \<Longrightarrow> x \<in> set m"
  by (induction k m rule: bt_remove.induct) (auto split: if_splits)

lemma sum_values_remove:
  fixes g :: "'v \<Rightarrow> 'a::ab_group_add"
  shows "(\<Sum>v\<leftarrow>bt_values (bt_remove k m). g v) =
    (\<Sum>v\<leftarrow>bt_values m. g v) - (case bt_get m k of None \<Rightarrow> 0 | Some v \<Rightarrow> g v)"
  by (induction k m rule: bt_remove.induct) (auto split: option.split)

text \<open>What a position holds: in its buckets, and in its lots.\<close>

definition trade_val :: "position_state \<Rightarrow> rat" where
  "trade_val p = ex_val (pn_settled p) + ex_val (pn_not_stated p) + (\<Sum>(q, _)\<leftarrow>bt_values (pn_pending p). ex_val q)"

definition open_val :: "lot_state \<Rightarrow> rat" where "open_val s = wire_val (lx_open_quantity (ls_lot s))"

definition lots_val :: "position_state \<Rightarrow> rat" where
  "lots_val p = (\<Sum>s\<leftarrow>bt_values (pn_lots p). open_val s)"

definition position_ok :: "position_state \<Rightarrow> bool" where
  "position_ok p \<longleftrightarrow> bt_wf (pn_pending p) \<and> bt_wf (pn_lots p)
     \<and> list_all (\<lambda>(q, _). \<not> is_zero q) (bt_values (pn_pending p))"

lemma wire_val_wire [simp]: "exact_ok x \<Longrightarrow> wire_val (num_wire x) = ex_val x"
  by (simp add: wire_val_def wire_or_zero_def num_wire_def from_to_wire)

lemma trade_date_val: "trade_date p = Inr t \<Longrightarrow> ex_val t = trade_val p"
proof -
  assume "trade_date p = Inr t"
  then obtain s where s: "num_add ''trade_date_quantity'' (pn_settled p) (pn_not_stated p) = Inr s"
    and t: "rfold (\<lambda>(q, _) total. num_add ''trade_date_quantity'' total q) (bt_values (pn_pending p)) s = Inr t"
    by (auto simp: trade_date_def rbind_eq_Inr)
  have "ex_val t = ex_val s + (\<Sum>(q, _)\<leftarrow>bt_values (pn_pending p). ex_val q)"
    by (rule rfold_sums [OF _ t]) (auto dest: num_add_val)
  with num_add_val [OF s] show ?thesis by (simp add: trade_val_def)
qed

lemma lots_open_val: "lots_open p = Inr t \<Longrightarrow> ex_val t = lots_val p"
  unfolding lots_open_def lots_val_def open_val_def
  by (drule rfold_sums [where v = ex_val and w = "\<lambda>s. wire_val (lx_open_quantity (ls_lot s))", rotated])
     (auto simp: rbind_eq_Inr dest!: num_add_val required_val)

lemma new_position [simp]:
  "trade_val (position_new k) = 0" "lots_val (position_new k) = 0" "position_ok (position_new k)"
  by (cases k; simp add: trade_val_def lots_val_def position_new_def position_ok_def)+

subsection \<open>A line moves its position by its quantity\<close>

lemma add_to_bucket_moves:
  assumes "add_to_bucket line q p = Inr p'" and "position_ok p"
  shows "trade_val p' = trade_val p + ex_val q" "position_ok p'" "pn_lots p' = pn_lots p"
    "pn_opened_lots p' = pn_opened_lots p"
proof -
  have "trade_val p' = trade_val p + ex_val q \<and> position_ok p' \<and> pn_lots p' = pn_lots p
    \<and> pn_opened_lots p' = pn_opened_lots p"
  proof (cases "bucket_of (ml_bucket line) = Some SBPending")
    case False
    with assms show ?thesis
      by (auto simp: add_to_bucket_def rbind_eq_Inr trade_val_def position_ok_def dest!: num_add_val
          split: option.splits bucket.splits)
  next
    case True
    define old where "old = (case bt_get (pn_pending p) (ml_value_date line) of None \<Rightarrow> (ex_zero, None) | Some h \<Rightarrow> h)"
    from assms(1) True obtain s st where s: "num_add ''pending.quantity'' (fst old) q = Inr s"
      and p': "p' = p\<lparr>pn_pending := (if is_zero s then bt_remove (ml_value_date line) (pn_pending p)
                else bt_insert (ml_value_date line) (s, st) (pn_pending p))\<rparr>"
      unfolding add_to_bucket_def old_def [symmetric] by (auto simp: rbind_eq_Inr Let_def split: prod.splits)
    let ?g = "\<lambda>(q :: exact, x :: pending_state option). ex_val q"
    have "(case bt_get (pn_pending p) (ml_value_date line) of None \<Rightarrow> 0 | Some v \<Rightarrow> ?g v) = ex_val (fst old)"
      by (auto simp: old_def split: option.split)
    then have "trade_val p' = trade_val p + ex_val q"
      using sum_values_remove [of ?g "ml_value_date line" "pn_pending p"]
        sum_values_insert [of "pn_pending p" ?g "ml_value_date line" "(s, st)"] num_add_val [OF s] assms(2)
      by (auto simp: p' trade_val_def position_ok_def is_zero_val)
    moreover have "list_all (\<lambda>(q, _). \<not> is_zero q) (bt_values (pn_pending p'))"
      using assms(2) by (auto simp: p' position_ok_def list_all_iff dest!: set_bt_insertD set_bt_removeD)
    ultimately show ?thesis using assms(2) by (auto simp: p' position_ok_def)
  qed
  then show "trade_val p' = trade_val p + ex_val q" "position_ok p'" "pn_lots p' = pn_lots p"
    "pn_opened_lots p' = pn_opened_lots p" by blast+
qed

subsection \<open>A line moves its lot by its quantity\<close>

lemma record_relief_open: "record_relief ref q sale x = Inr y \<Longrightarrow> lx_open_quantity y = lx_open_quantity x"
  by (auto simp: record_relief_def rbind_eq_Inr Let_def split: if_splits)

lemma num_add_both: "num_add field a b = Inr c \<Longrightarrow> ex_val c = ex_val a + ex_val b \<and> exact_ok c"
  by (simp add: num_add_val num_add_ok)

lemma lot_moved_val: "lot_moved q ref n sale s = Inr t \<Longrightarrow> open_val t = open_val s + ex_val q"
  by (auto simp: lot_moved_def rbind_eq_Inr Let_def open_val_def
      dest!: record_relief_open required_val num_add_both split: if_splits)

lemma lots_val_insert:
  assumes "position_ok p"
  shows "lots_val (p\<lparr>pn_lots := bt_insert i s (pn_lots p)\<rparr>) =
    lots_val p + open_val s - (case bt_get (pn_lots p) i of None \<Rightarrow> 0 | Some t \<Rightarrow> open_val t)"
  using sum_values_insert [of "pn_lots p" open_val i s] assms by (simp add: lots_val_def position_ok_def)

definition names_lot :: "movement_line \<Rightarrow> bool" where
  "names_lot line \<longleftrightarrow> ml_opens_lot line \<noteq> None \<or> ml_lot_id line \<noteq> []"

lemma apply_lot_frame:
  assumes "apply_lot line q carried ref n lenient sale p = Inr p'" and "position_ok p"
  shows "trade_val p' = trade_val p" "position_ok p'" "\<not> names_lot line \<Longrightarrow> p' = p"
    "pn_removed p' = pn_removed p" "pn_side p' = pn_side p"
  using assms
  by (auto simp: apply_lot_def open_lot_def move_lot_def rbind_eq_Inr trade_val_def position_ok_def Let_def
      names_lot_def split: option.splits if_splits)

lemma apply_lot_moves:
  assumes step: "apply_lot line q carried ref n lenient sale p = Inr p'" and ok: "position_ok p" "exact_ok q"
    and names: "names_lot line" "ml_opens_lot line \<noteq> None \<Longrightarrow> \<not> bt_has (pn_lots p) (ml_lot_id line)"
  shows "lots_val p' = lots_val p + ex_val q"
proof (cases "ml_opens_lot line")
  case (Some terms)
  define i where "i = ml_lot_id line"
  let ?p1 = "p\<lparr>pn_opened_lots := pn_opened_lots p + 1\<rparr>"
  have none: "bt_get (pn_lots ?p1) i = None" using names Some by (simp add: bt_has_def i_def)
  from step Some obtain s where s: "p' = ?p1\<lparr>pn_lots := bt_insert i s (pn_lots ?p1)\<rparr>" "open_val s = ex_val q"
    using ok(2) by (auto simp: apply_lot_def open_lot_def lot_opened_def open_val_def Let_def i_def [symmetric]
        split: if_splits option.splits)
  have "lots_val ?p1 = lots_val p" "position_ok ?p1" using ok(1) by (simp_all add: lots_val_def position_ok_def)
  with lots_val_insert [of ?p1 i s] none s show ?thesis by simp
next
  case None
  define i where "i = ml_lot_id line"
  from step None names(1) obtain s t where s: "lot_moved q ref n sale s = Inr t"
      "bt_get (pn_lots p) i = Some s \<or> bt_get (pn_lots p) i = None \<and> s = lot_unknown i"
    and p': "p' = p\<lparr>pn_lots := bt_insert i t (pn_lots p)\<rparr>"
    by (auto simp: apply_lot_def move_lot_def names_lot_def rbind_eq_Inr Let_def i_def [symmetric]
        split: if_splits option.splits)
  have "open_val (lot_unknown i) = 0"
    by (simp add: open_val_def lot_unknown_def)
  with lots_val_insert [OF ok(1), of i t] lot_moved_val [OF s(1)] s(2) p' show ?thesis by auto
qed

text \<open>A lot's multiplier is never a guess: where it is not one, it takes the lot's unit cost times
  its original quantity to its cost exactly, whatever the floating point said.\<close>

lemma ex_eq_val: "exact_ok a \<Longrightarrow> exact_ok b \<Longrightarrow> ex_eq a b \<longleftrightarrow> ex_val a = ex_val b"
  by (auto simp: ex_eq_def ex_cmp_val exact_ok_def cmp_def)

lemma read_wire_ok: "read_wire w = Some x \<Longrightarrow> exact_ok x"
  by (auto simp: read_wire_def from_wire_def dest: ex_new_ok split: option.splits sum.splits)

lemma guessed_exact:
  assumes "guessed unit cost ratio places = Some m" and "exact_ok cost"
  shows "\<bar>ex_val unit * ex_val m\<bar> = \<bar>ex_val cost\<bar>"
proof -
  from assms(1) obtain again where m: "ex_multiply unit m = Inr again"
    and again: "ex_eq again cost \<or> ex_eq again (negated cost)"
    by (auto simp: guessed_def num_multiply_def split: sum.splits if_splits)
  from ex_multiply_val [OF m] again assms(2) show ?thesis by (auto simp: ex_eq_val)
qed

section \<open>Properties\<close>

text \<open>C40: A lot's multiplier is exact though it is guessed in floating point: it is one, or the
  lot's unit cost times its original quantity times it is the lot's cost, to the last digit.\<close>

theorem a_lots_multiplier_is_exact:
  assumes "lot_multiplier x \<noteq> ex_one" and "lx_terms x = Some terms"
  shows "\<bar>wire_val (Option.bind (lt_unit_cost terms) mo_amount) * wire_val (lx_original_quantity x)
      * ex_val (lot_multiplier x)\<bar> = \<bar>wire_val (Option.bind (lt_cost terms) mo_amount)\<bar>"
proof -
  define m where "m = lot_multiplier x"
  have "\<exists>u c q. read_wire (Option.bind (lt_unit_cost terms) mo_amount) = Some u
      \<and> read_wire (Option.bind (lt_cost terms) mo_amount) = Some c \<and> read_wire (lx_original_quantity x) = Some q"
    using assms by (simp add: lot_multiplier_def split: option.splits)
  then obtain u c q where r: "read_wire (Option.bind (lt_unit_cost terms) mo_amount) = Some u"
      "read_wire (Option.bind (lt_cost terms) mo_amount) = Some c" "read_wire (lx_original_quantity x) = Some q" by blast
  with assms obtain p where p: "num_multiply ''a lot's cost'' u q = Inr p"
    by (simp add: lot_multiplier_def split: sum.splits)
  with assms r have g: "guessed p c (f64_div (f64_of_exact c) (f64_of_exact p)) 6 = Some m
      \<or> guessed p c (f64_div (f64_of_exact c) (f64_of_exact p)) 12 = Some m"
    by (simp add: lot_multiplier_def m_def Let_def split: option.splits if_splits)
  from p have per: "ex_multiply u q = Inr p" by (simp add: num_multiply_def split: sum.splits)
  have val: "wire_val w = ex_val y" if "read_wire w = Some y" for w y
    using that by (auto simp: read_wire_def wire_val_def wire_or_zero_def split: option.splits sum.splits)
  have "\<bar>ex_val p * ex_val m\<bar> = \<bar>ex_val c\<bar>" using guessed_exact [OF _ read_wire_ok [OF r(2)]] g by blast
  with ex_multiply_val(1) [OF per] m_def val [OF r(1)] val [OF r(2)] val [OF r(3)] show ?thesis by simp
qed

definition option_lot :: lot where
  "option_lot = lot_default\<lparr>lx_original_quantity := num_wire (mk 3 0),
     lx_terms := Some (lot_terms_default\<lparr>lt_unit_cost := Some (money_default\<lparr>mo_amount := num_wire (mk 125 2)\<rparr>),
       lt_cost := Some (money_default\<lparr>mo_amount := num_wire (mk 375 0)\<rparr>)\<rparr>)\<rparr>"

theorem a_lots_multiplier_is_exact_witness:
  "lot_multiplier option_lot = mk 100 0 \<and> \<bar>ex_val (mk 125 2) * ex_val (mk 3 0) * ex_val (mk 100 0)\<bar> = \<bar>ex_val (mk 375 0)\<bar>"
proof -
  have m: "lot_multiplier option_lot = mk 100 0" by code_simp
  have "lot_multiplier option_lot \<noteq> ex_one" by (simp add: m ex_one_def mk_def)
  from a_lots_multiplier_is_exact [OF this, of "the (lx_terms option_lot)"] m have
    "\<bar>wire_val (num_wire (mk 125 2)) * wire_val (num_wire (mk 3 0)) * ex_val (mk 100 0)\<bar> = \<bar>wire_val (num_wire (mk 375 0))\<bar>"
    unfolding m by (simp add: option_lot_def)
  moreover have "exact_ok (mk 125 2)" "exact_ok (mk 3 0)" "exact_ok (mk 375 0)" by code_simp+
  ultimately show ?thesis using m by simp
qed

text \<open>C19: A line moves its position by its quantity, whatever its bucket; and where the line
  names a lot -- opens one not held, or moves one -- it moves the open lots by the same, so a
  position whose lots sum to its quantity still does after it.\<close>

theorem a_line_moves_quantity_and_lots_alike:
  assumes "add_to_bucket line q p = Inr p1" "apply_lot line q carried ref n lenient sale p1 = Inr p2"
    and "position_ok p" "exact_ok q"
  shows "trade_val p2 = trade_val p + ex_val q \<and> position_ok p2
    \<and> (lots_val p2 = (if names_lot line then lots_val p + ex_val q else lots_val p)
        \<or> ml_opens_lot line \<noteq> None \<and> bt_has (pn_lots p) (ml_lot_id line))"
proof -
  note b = add_to_bucket_moves [OF assms(1,3)]
  note f = apply_lot_frame [OF assms(2) b(2)]
  have "lots_val p1 = lots_val p" using b(3) by (simp add: lots_val_def)
  with apply_lot_moves [OF assms(2) b(2) assms(4)] b f show ?thesis by (cases "names_lot line") auto
qed

definition sample_line :: movement_line where
  "sample_line = movement_line_default\<lparr>ml_instrument_id := ''INS-1'', ml_side := 1, ml_bucket := 1,
     ml_quantity := num_wire (mk 5 0), ml_lot_id := ''LOT-1'', ml_opens_lot := Some lot_terms_default\<rparr>"

definition sample_ref :: journal_ref where
  "sample_ref = \<lparr>jr_partition = ''P0'', jr_sequence = 1, jr_previous_sequence = 0\<rparr>"

theorem a_line_moves_quantity_and_lots_alike_witness:
  "\<exists>p2. trade_val p2 = 5 \<and> lots_val p2 = 5"
proof -
  let ?p = "position_new (''INS-1'', 1, [])"
  have "(case add_to_bucket sample_line (mk 5 0) ?p of Inl _ \<Rightarrow> False | Inr p1 \<Rightarrow>
      (case apply_lot sample_line (mk 5 0) None sample_ref 1 False None p1 of Inl _ \<Rightarrow> False | Inr _ \<Rightarrow> True))"
    by code_simp
  then obtain p1 p2 where s: "add_to_bucket sample_line (mk 5 0) ?p = Inr p1"
      "apply_lot sample_line (mk 5 0) None sample_ref 1 False None p1 = Inr p2" by (auto split: sum.splits)
  have ok: "exact_ok (mk 5 0)" by code_simp
  have "names_lot sample_line" "ex_val (mk 5 0) = 5" by (simp_all add: names_lot_def sample_line_def ex_val_def mk_def)
  moreover have "\<not> bt_has (pn_lots ?p) (ml_lot_id sample_line)" by (simp add: position_new_def bt_has_def)
  ultimately show ?thesis using a_line_moves_quantity_and_lots_alike [OF s _ ok] by (intro exI [of _ p2]) simp
qed

end
