(* ===== verification/Book_Apply.thy ===== *)
theory Book_Apply
  imports Book_Positions Order_Touched
begin

section \<open>An account's book, and an entry applied to it\<close>

text \<open>
  \<open>Body\<close> and \<open>Entry\<close> of \<open>crates/bor/src/journal.rs\<close>, and \<open>Book::apply\<close> of \<open>crates/bor/src/book.rs\<close>
  with everything it does, in its order: the records an entry changes numbered one after
  another, each chained to the last change of its row; its lines, basis adjustments,
  encumbrances and sources; the records it sets whole; the order path's acts; and the index of
  the entry kept. An indexing Rust would panic at is \<open>Panicked\<close>. A digest is not replayed from
  and is not kept here; an entry's bodies are the store's (\<open>Book_Store\<close>).
\<close>

subsection \<open>An entry\<close>

record entry_body =
  by_lines :: "movement_line list"
  by_basis_adjustments :: "basis_adjustment list"
  by_prior_holding_period_starts :: "string list"
  by_restored_unknown_costs :: "string list"
  by_sources :: "opening_source list"
  by_opening :: "opening_balance option"
  by_clears_opening :: bool
  by_breaks :: "break_record list"
  by_resolved_by_this :: "string list"
  by_figures :: "account_figures list"
  by_attributes :: "account_attributes option"
  by_tombstones :: "(string \<times> int) list"
  by_reverses :: string
  by_event_reference :: string
  by_encumbrances :: "(string \<times> int \<times> encumbrance list) list"
  by_acts :: "act list"
  by_trade :: bool
  by_states_waits :: bool
  by_lifecycle_events :: "lifecycle_event list"

definition entry_body_default :: entry_body where
  "entry_body_default =
     \<lparr>by_lines = [], by_basis_adjustments = [], by_prior_holding_period_starts = [],
      by_restored_unknown_costs = [], by_sources = [], by_opening = None, by_clears_opening = False,
      by_breaks = [], by_resolved_by_this = [], by_figures = [], by_attributes = None, by_tombstones = [],
      by_reverses = [], by_event_reference = [], by_encumbrances = [], by_acts = [], by_trade = False,
      by_states_waits = False, by_lifecycle_events = []\<rparr>"

definition moves_positions :: "entry_body \<Rightarrow> bool" where
  "moves_positions body \<longleftrightarrow> by_lines body \<noteq> [] \<or> by_basis_adjustments body \<noteq> []"

record book_entry =
  et_entry_id :: string
  et_account_id :: string
  et_partition :: string
  et_first_sequence :: nat
  et_last_sequence :: nat
  et_message_id :: string
  et_idempotency_key :: string
  et_meta :: entry_meta
  et_cause :: change_cause
  et_body :: entry_body

subsection \<open>A book\<close>

datatype chain = ChPosition | ChBreak | ChFigures | ChAttributes | ChOrder | ChPlacement | ChExecution
  | ChUnplaced | ChLocate | ChInstruction | ChBooking | ChAlert | ChSetting | ChLifecycle

primrec chain_no :: "chain \<Rightarrow> nat" where
  "chain_no ChPosition = 0"
| "chain_no ChBreak = 1"
| "chain_no ChFigures = 2"
| "chain_no ChAttributes = 3"
| "chain_no ChOrder = 4"
| "chain_no ChPlacement = 5"
| "chain_no ChExecution = 6"
| "chain_no ChUnplaced = 7"
| "chain_no ChLocate = 8"
| "chain_no ChInstruction = 9"
| "chain_no ChBooking = 10"
| "chain_no ChAlert = 11"
| "chain_no ChSetting = 12"
| "chain_no ChLifecycle = 13"

definition CHAINS :: nat where "CHAINS = 14"

record entry_index =
  ei_entry_id :: string
  ei_kind :: string
  ei_effective_date :: string
  ei_first :: journal_ref
  ei_reversed_by :: "string option"
  ei_moves_positions :: bool
  ei_reverses :: string
  ei_acts :: bool
  ei_rolls :: bool

definition is_roll :: "act \<Rightarrow> bool" where
  "is_roll a = (case a of ValueDateRolled _ _ \<Rightarrow> True | _ \<Rightarrow> False)"

definition entry_index_of :: "book_entry \<Rightarrow> journal_ref \<Rightarrow> entry_index" where
  "entry_index_of e first =
     \<lparr>ei_entry_id = et_entry_id e, ei_kind = em_kind (et_meta e), ei_effective_date = em_effective_date (et_meta e),
      ei_first = first, ei_reversed_by = None, ei_moves_positions = moves_positions (et_body e),
      ei_reverses = by_reverses (et_body e), ei_acts = (by_acts (et_body e) \<noteq> []),
      ei_rolls = list_ex is_roll (by_acts (et_body e))\<rparr>"

record account_book =
  ab_account_id :: string
  ab_partition :: string
  ab_positions :: "(pos_key, position_state) btree"
  ab_breaks :: "(string, break_record) btree"
  ab_figures :: "(string \<times> string, account_figures) btree"
  ab_attributes :: "account_attributes option"
  ab_lifecycle_events :: "(string, lifecycle_event) btree"
  ab_opening :: "(string \<times> string) option"
  ab_reversed_openings :: "string list"
  ab_entries :: "entry_index list"
  ab_chains :: "nat list"
  ab_ledger :: ledger
  ab_waits_stated :: bool

definition book_new :: "string \<Rightarrow> string \<Rightarrow> account_book" where
  "book_new account part =
     \<lparr>ab_account_id = account, ab_partition = part, ab_positions = [], ab_breaks = [], ab_figures = [],
      ab_attributes = None, ab_lifecycle_events = [], ab_opening = None, ab_reversed_openings = [],
      ab_entries = [], ab_chains = replicate CHAINS 0, ab_ledger = ledger_new, ab_waits_stated = False\<rparr>"

definition agreement_key :: "margin_agreement option \<Rightarrow> string" where
  "agreement_key a =
     (case Option.bind a mga_agreement of
        Some (StatementSegment s) \<Rightarrow>
          ''segment'' @ [CHR 0x1F] @ ssr_external_account_id s @ [CHR 0x1F] @ ssr_segment s
      | None \<Rightarrow> [])"

definition book_entry_at :: "account_book \<Rightarrow> string \<Rightarrow> entry_index option" where
  "book_entry_at b i = find (\<lambda>e. ei_entry_id e = i) (ab_entries b)"

definition lot_owner :: "account_book \<Rightarrow> string \<Rightarrow> pos_key option" where
  "lot_owner b i = map_option fst (find (\<lambda>(k, p). bt_has (pn_lots p) i) (ab_positions b))"

definition carried_lot :: "account_book \<Rightarrow> pos_key \<Rightarrow> string \<Rightarrow> lot_state option" where
  "carried_lot b k i =
     Option.bind (find (\<lambda>(j, p). j \<noteq> k \<and> bt_has (pn_lots p) i) (ab_positions b)) (\<lambda>(j, p). bt_get (pn_lots p) i)"

subsection \<open>What a body touches\<close>

definition line_key :: "movement_line \<Rightarrow> pos_key" where
  "line_key line = (ml_instrument_id line, ml_side line, ml_sleeve line)"

definition book_touched :: "account_book \<Rightarrow> entry_body \<Rightarrow> pos_key bset" where
  "book_touched b body =
     bs_extend
       (bs_extend
         (bs_extend (bs_extend [] (map line_key (by_lines body)))
           (List.map_filter (\<lambda>a. lot_owner b (ba_lot_id a)) (by_basis_adjustments body)))
         (map (\<lambda>(instrument, side). (instrument, side, [])) (by_tombstones body)))
       (map (\<lambda>(instrument, side, _). (instrument, side, [])) (by_encumbrances body))"

definition quantity_before :: "account_book \<Rightarrow> pos_key \<Rightarrow> store_error + exact" where
  "quantity_before b k = (case bt_get (ab_positions b) k of None \<Rightarrow> Inr ex_zero | Some p \<Rightarrow> trade_date p)"

definition quantities_before :: "account_book \<Rightarrow> pos_key list \<Rightarrow> store_error + (pos_key, exact) btree" where
  "quantities_before b keys =
     rfold (\<lambda>k m. rbind (quantity_before b k) (\<lambda>q. Inr (bt_insert k q m))) keys []"

subsection \<open>Every change numbered\<close>

record numbering =
  nb_partition :: string
  nb_chains :: "nat list"
  nb_sequence :: nat
  nb_first :: "journal_ref option"

definition take_ref :: "chain \<Rightarrow> numbering \<Rightarrow> journal_ref \<times> numbering" where
  "take_ref ch n =
     (let ref = \<lparr>jr_partition = nb_partition n, jr_sequence = nb_sequence n,
                 jr_previous_sequence = nb_chains n ! chain_no ch\<rparr>
      in (ref, n\<lparr>nb_chains := (nb_chains n)[chain_no ch := nb_sequence n], nb_sequence := nb_sequence n + 1,
                nb_first := (case nb_first n of None \<Rightarrow> Some ref | Some f \<Rightarrow> Some f)\<rparr>))"

fun take_refs :: "chain \<Rightarrow> 'a list \<Rightarrow> numbering \<Rightarrow> ('a \<times> journal_ref) list \<times> numbering" where
  "take_refs ch [] n = ([], n)"
| "take_refs ch (x # xs) n =
     (let (ref, n1) = take_ref ch n; (refs, n2) = take_refs ch xs n1 in ((x, ref) # refs, n2))"

record entry_refs =
  rf_positions :: "(pos_key \<times> journal_ref) list"
  rf_breaks :: "(break_record \<times> journal_ref) list"
  rf_figures :: "(account_figures \<times> journal_ref) list"
  rf_attributes :: "(account_attributes \<times> journal_ref) list"
  rf_lifecycle :: "(lifecycle_event \<times> journal_ref) list"
  rf_orders :: "(string \<times> journal_ref) list"
  rf_placements :: "(string \<times> journal_ref) list"
  rf_executions :: "(string \<times> journal_ref) list"
  rf_unplaced :: "(string \<times> journal_ref) list"
  rf_locates :: "(string \<times> journal_ref) list"
  rf_instructions :: "(string \<times> journal_ref) list"
  rf_bookings :: "(string \<times> journal_ref) list"
  rf_alerts :: "(string \<times> journal_ref) list"
  rf_settings :: "(string \<times> journal_ref) list"

definition take_all :: "pos_key list \<Rightarrow> entry_body \<Rightarrow> touched \<Rightarrow> numbering \<Rightarrow> entry_refs \<times> numbering" where
  "take_all keys body t n0 =
     (let (positions, n1) = take_refs ChPosition keys n0;
          (breaks, n2) = take_refs ChBreak (by_breaks body) n1;
          (figures, n3) = take_refs ChFigures (by_figures body) n2;
          (attributes, n4) = take_refs ChAttributes
             (case by_attributes body of None \<Rightarrow> [] | Some a \<Rightarrow> [a]) n3;
          (lifecycle, n5) = take_refs ChLifecycle (by_lifecycle_events body) n4;
          (orders, n6) = take_refs ChOrder (t_orders t) n5;
          (placements, n7) = take_refs ChPlacement (t_placements t) n6;
          (executions, n8) = take_refs ChExecution (t_executions t) n7;
          (unplaced, n9) = take_refs ChUnplaced (t_unplaced t) n8;
          (locates, n10) = take_refs ChLocate (t_locates t) n9;
          (instructions, n11) = take_refs ChInstruction (t_instructions t) n10;
          (bookings, n12) = take_refs ChBooking (t_bookings t) n11;
          (alerts, n13) = take_refs ChAlert (t_alerts t) n12;
          (settings, n14) = take_refs ChSetting (t_settings t) n13
      in (\<lparr>rf_positions = positions, rf_breaks = breaks, rf_figures = figures, rf_attributes = attributes,
           rf_lifecycle = lifecycle, rf_orders = orders, rf_placements = placements,
           rf_executions = executions, rf_unplaced = unplaced, rf_locates = locates,
           rf_instructions = instructions, rf_bookings = bookings, rf_alerts = alerts,
           rf_settings = settings\<rparr>, n14))"

definition numbered :: "book_entry \<Rightarrow> account_book \<Rightarrow> entry_refs \<times> numbering" where
  "numbered e b =
     take_all (book_touched b (et_body e)) (et_body e) (touched_by (ab_ledger b) (by_acts (et_body e)))
       \<lparr>nb_partition = ab_partition b, nb_chains = ab_chains b, nb_sequence = et_first_sequence e, nb_first = None\<rparr>"

subsection \<open>What an entry sold each instrument at\<close>

definition hundredth :: exact where "hundredth = mk 1 2"

definition hundredths_of :: "exact option \<Rightarrow> exact option" where
  "hundredths_of factor =
     Option.bind factor (\<lambda>f. case num_multiply ''factor'' hundredth f of Inl _ \<Rightarrow> None | Inr m \<Rightarrow> Some m)"

definition executed_sale :: "execution \<Rightarrow> string \<Rightarrow> (string \<times> money \<times> string \<times> exact option) list" where
  "executed_sale x taken =
     (case (read_wire (xe_quantity x), xe_price x) of
        (Some q, Some price) \<Rightarrow>
          if is_zero q then []
          else [(xe_instrument_id x, price, xe_trade_date x, hundredths_of (read_wire (factor_of x taken)))]
      | _ \<Rightarrow> [])"

definition booking_factor :: "ledger \<Rightarrow> string \<Rightarrow> exact option" where
  "booking_factor l i =
     (case bt_get (l_executions l) i of
        None \<Rightarrow> None
      | Some held \<Rightarrow>
          (case x_factor held of
             None \<Rightarrow> None
           | Some d \<Rightarrow> if xd_factor_taken held \<noteq> [] \<or> xe_factor_used (xd_execution held) \<noteq> None
                       then read_wire (Some d) else None))"

definition first_factor :: "ledger \<Rightarrow> string list \<Rightarrow> exact option" where
  "first_factor l ids = (case List.map_filter (booking_factor l) ids of [] \<Rightarrow> None | f # _ \<Rightarrow> Some f)"

definition sales_in :: "string \<Rightarrow> string \<Rightarrow> ledger \<Rightarrow> act \<Rightarrow> (string \<times> money \<times> string \<times> exact option) list" where
  "sales_in effective account l a =
     (case a of
        Executed x _ _ _ taken _ \<Rightarrow> executed_sale x taken
      | AllocationReceived _ _ al _ _ factor _ \<Rightarrow>
          (case al_average_price al of
             None \<Rightarrow> []
           | Some price \<Rightarrow> [([], price, effective,
                hundredths_of (case from_str factor of Inl _ \<Rightarrow> None | Inr f \<Rightarrow> Some f))])
      | BookingOpened b _ \<Rightarrow>
          (let factor = first_factor l (bo_execution_ids b) in
           List.map_filter (\<lambda>al. if al_account_id al = account
               then map_option (\<lambda>price. ([], price, effective, hundredths_of factor)) (al_average_price al)
               else None) (bo_allocations b))
      | _ \<Rightarrow> [])"

definition sales_of :: "entry_body \<Rightarrow> string \<Rightarrow> string \<Rightarrow> ledger \<Rightarrow> (string \<times> money \<times> string \<times> exact option) list" where
  "sales_of body effective account l =
     (let traded = (case find (\<lambda>line. ml_opens_lot line \<noteq> None \<or> ml_lot_id line \<noteq> []) (by_lines body) of
                      None \<Rightarrow> [] | Some line \<Rightarrow> ml_instrument_id line)
      in map (\<lambda>(instrument, rest). (if instrument = [] then traded else instrument, rest))
           (concat (map (sales_in effective account l) (by_acts body))))"

definition sale_for :: "known \<Rightarrow> (string \<times> money \<times> string \<times> exact option) list \<Rightarrow> string \<Rightarrow> sale option" where
  "sale_for k sales instrument = map_option snd (find (\<lambda>(i, _). became_same k i instrument) sales)"

subsection \<open>Lines\<close>

definition index_or_panic :: "('k::linorder \<times> 'v) list \<Rightarrow> 'k \<Rightarrow> store_error + 'v" where
  "index_or_panic m k = ok_or Panicked (bt_get m k)"

definition apply_line ::
  "known \<Rightarrow> (string \<times> money \<times> string \<times> exact option) list \<Rightarrow> entry_refs \<Rightarrow> nat \<Rightarrow> bool
    \<Rightarrow> movement_line \<Rightarrow> account_book \<Rightarrow> store_error + account_book" where
  "apply_line kn sales refs entry_sequence lenient line b =
     (let k = line_key line in
      rbind (index_or_panic (rf_positions refs) k) (\<lambda>ref.
      rbind (required (''the line on '' @ ml_instrument_id line @ [CHR 0x27] @ ''s quantity'') (ml_quantity line)) (\<lambda>q.
        let carried = (if ml_opens_lot line \<noteq> None \<and> ml_lot_id line \<noteq> [] then carried_lot b k (ml_lot_id line) else None);
            p = (case bt_get (ab_positions b) k of None \<Rightarrow> position_new k | Some p \<Rightarrow> p)
        in rbind (add_to_bucket line q (p\<lparr>pn_removed := False\<rparr>)) (\<lambda>p1.
           rbind (apply_lot line q carried ref entry_sequence lenient
                    (sale_for kn sales (ml_instrument_id line)) p1) (\<lambda>p2.
             Inr (b\<lparr>ab_positions := bt_insert k p2 (ab_positions b)\<rparr>))))))"

subsection \<open>Lots awaiting a factor\<close>

definition awaited_in :: "ledger \<Rightarrow> string list \<Rightarrow> string option" where
  "awaited_in l ids =
     (case List.map_filter (\<lambda>i. case bt_get (l_executions l) i of
              None \<Rightarrow> None
            | Some held \<Rightarrow> if fr_awaited (xd_factor_row held) = [] then None
                           else Some (fr_awaited (xd_factor_row held))) ids of
        [] \<Rightarrow> None | a # _ \<Rightarrow> Some a)"

definition on_lot :: "string \<Rightarrow> (lot \<Rightarrow> lot) \<Rightarrow> account_book \<Rightarrow> account_book" where
  "on_lot i f b =
     (case lot_owner b i of
        None \<Rightarrow> b
      | Some k \<Rightarrow>
          b\<lparr>ab_positions := bt_adjust k
              (\<lambda>p. p\<lparr>pn_lots := bt_adjust i (\<lambda>s. s\<lparr>ls_lot := f (ls_lot s)\<rparr>) (pn_lots p)\<rparr>) (ab_positions b)\<rparr>)"

type_synonym mark = "nat \<times> nat \<times> string \<times> string"

definition marks_in :: "nat \<Rightarrow> ledger \<Rightarrow> act \<Rightarrow> mark list" where
  "marks_in every l a =
     (case a of
        Executed x _ _ _ _ row \<Rightarrow>
          if fr_awaited row = [] then [] else [(0, every, xe_instrument_id x, fr_awaited row)]
      | Accepted ids _ _ _ _ \<Rightarrow>
          List.map_filter (\<lambda>i. case bt_get (l_executions l) i of
              None \<Rightarrow> None
            | Some held \<Rightarrow> if fr_awaited (xd_factor_row held) = [] then None
                else Some (0, every, xe_instrument_id (xd_execution held), fr_awaited (xd_factor_row held))) ids
      | BookingOpened b (start, many) \<Rightarrow>
          (case awaited_in l (bo_execution_ids b) of None \<Rightarrow> [] | Some month \<Rightarrow> [(start, many, [], month)])
      | BookingReplaced b _ _ _ (start, many) \<Rightarrow>
          (case awaited_in l (case bt_get (l_bookings l) b of None \<Rightarrow> [] | Some h \<Rightarrow> bo_execution_ids (bd_booking h)) of
             None \<Rightarrow> [] | Some month \<Rightarrow> [(start, many, [], month)])
      | AllocationReceived _ _ _ _ (start, many) _ month \<Rightarrow>
          if month = [] then [] else [(start, many, [], month)]
      | _ \<Rightarrow> [])"

definition clear_awaited :: "act \<Rightarrow> account_book \<Rightarrow> account_book" where
  "clear_awaited a b =
     (case a of
        FactorRevised _ _ _ lots \<Rightarrow> fold (\<lambda>i. on_lot i (\<lambda>x. x\<lparr>lx_factor_month_awaited := []\<rparr>)) lots b
      | _ \<Rightarrow> b)"

definition mark_line :: "known \<Rightarrow> string \<Rightarrow> string \<Rightarrow> movement_line \<Rightarrow> account_book \<Rightarrow> account_book" where
  "mark_line kn instrument month line b =
     (if ml_opens_lot line \<noteq> None \<and> ml_lot_id line \<noteq> []
         \<and> (instrument = [] \<or> became_same kn instrument (ml_instrument_id line))
      then on_lot (ml_lot_id line) (\<lambda>x. x\<lparr>lx_factor_month_awaited := month\<rparr>) b else b)"

definition mark_awaited :: "known \<Rightarrow> entry_body \<Rightarrow> account_book \<Rightarrow> account_book" where
  "mark_awaited kn body b =
     (let marks = concat (map (marks_in (length (by_lines body)) (ab_ledger b)) (by_acts body));
          b1 = fold clear_awaited (by_acts body) b
      in fold (\<lambda>(start, many, instrument, month).
            fold (mark_line kn instrument month) (take many (drop start (by_lines body)))) marks b1)"

subsection \<open>Basis adjustments, encumbrances, sources\<close>

definition num_add_money :: "string \<Rightarrow> money \<Rightarrow> money \<Rightarrow> store_error + money" where
  "num_add_money field a b =
     (if mo_currency_code a \<noteq> mo_currency_code b
      then Inl (Invalid [field, mo_currency_code a, mo_currency_code b])
      else rbind (required (field @ ''.amount'') (mo_amount a)) (\<lambda>x.
           rbind (required (field @ ''.amount'') (mo_amount b)) (\<lambda>y.
           rbind (num_add field x y) (\<lambda>z.
             Inr \<lparr>mo_amount = num_wire z, mo_currency_code = mo_currency_code a, mo_instrument_id = []\<rparr>))))"

definition adjusted_cost :: "bool \<Rightarrow> basis_adjustment \<Rightarrow> money option \<Rightarrow> store_error + money option" where
  "adjusted_cost lenient a cost =
     (case ba_cost a of
        Some (CostChange change) \<Rightarrow>
          (case cost of
             Some c \<Rightarrow> rbind (num_add_money ''lots.terms.cost'' c change) (\<lambda>sum. Inr (Some sum))
           | None \<Rightarrow> if lenient then Inr None else Inl (Invalid [ba_lot_id a]))
      | Some (StatedCost stated) \<Rightarrow>
          if cost \<noteq> None \<and> \<not> lenient then Inl (Invalid [ba_lot_id a]) else Inr (Some stated)
      | None \<Rightarrow> Inr cost)"

definition apply_adjustment ::
  "entry_body \<Rightarrow> entry_refs \<Rightarrow> bool \<Rightarrow> basis_adjustment \<Rightarrow> account_book \<Rightarrow> store_error + account_book" where
  "apply_adjustment body refs lenient a b =
     (let i = ba_lot_id a in
      case lot_owner b i of
        None \<Rightarrow> if lenient then Inr b else Inl (Invalid [i, ab_account_id b])
      | Some k \<Rightarrow>
          rbind (index_or_panic (rf_positions refs) k) (\<lambda>ref.
          rbind (index_or_panic (ab_positions b) k) (\<lambda>p.
          rbind (index_or_panic (pn_lots p) i) (\<lambda>s.
            let terms = (case lx_terms (ls_lot s) of None \<Rightarrow> lot_terms_default | Some t \<Rightarrow> t) in
            rbind (adjusted_cost lenient a (lt_cost terms)) (\<lambda>cost.
              let terms1 = terms\<lparr>lt_cost := (if List.member (by_restored_unknown_costs body) i then None else cost)\<rparr>;
                  terms2 = (if by_reverses body \<noteq> [] \<or> ba_holding_period_start a \<noteq> []
                            then terms1\<lparr>lt_holding_period_start := ba_holding_period_start a\<rparr> else terms1);
                  x = (ls_lot s)\<lparr>lx_terms := Some terms2, lx_adjusted_by := lx_adjusted_by (ls_lot s) @ [ref]\<rparr>
              in Inr (b\<lparr>ab_positions := bt_insert k
                   (p\<lparr>pn_lots := bt_insert i (s\<lparr>ls_lot := x\<rparr>) (pn_lots p)\<rparr>) (ab_positions b)\<rparr>))))))"

definition apply_encumbrance ::
  "entry_refs \<Rightarrow> string \<times> int \<times> encumbrance list \<Rightarrow> account_book \<Rightarrow> store_error + account_book" where
  "apply_encumbrance refs held b =
     (let (instrument, side, es) = held; k = (instrument, side, []) in
      rbind (index_or_panic (rf_positions refs) k) (\<lambda>ref.
        Inr (b\<lparr>ab_positions := bt_adjust k
               (\<lambda>p. p\<lparr>pn_encumbrances := map (\<lambda>e. e\<lparr>enc_set_by := Some ref\<rparr>) es\<rparr>) (ab_positions b)\<rparr>)))"

definition apply_sources :: "entry_body \<Rightarrow> account_book \<Rightarrow> account_book" where
  "apply_sources body b =
     (if by_sources body = [] then b
      else b\<lparr>ab_positions := fold (\<lambda>k. bt_adjust k (\<lambda>p. p\<lparr>pn_opened_from := by_sources body\<rparr>))
               (bs_extend [] (map line_key (by_lines body))) (ab_positions b)\<rparr>)"

end
