(* ===== verification/Book_Replay.thy ===== *)
theory Book_Replay
  imports Book_Apply
begin

section \<open>Entries replayed\<close>

text \<open>
  The rest of \<open>Book::apply\<close> (\<open>crates/bor/src/book.rs\<close>): each record an entry changes set with its
  reference and told in \<open>Changes\<close>, the order path's acts among them (\<open>Book::apply_acts\<close>); what must
  hold after it (\<open>Book::check\<close>); and a journal replayed, strictly (\<open>replay\<close>) or leniently and up to
  a watermark and a date (\<open>as_of\<close>, \<open>resume_as_of\<close>).
\<close>

record book_changes =
  cs_positions :: "(book_position \<times> exact) list"
  cs_breaks :: "break_record list"
  cs_figures :: "account_figures list"
  cs_attributes :: "account_attributes option"
  cs_lifecycle_events :: "lifecycle_event list"
  cs_orders :: "(order_terms \<times> string list) list"
  cs_placements :: "(placement \<times> string list) list"
  cs_executions :: "execution list"
  cs_unplaced :: "unplaced_fact list"
  cs_locates :: "locate list"
  cs_instructions :: "trading_instruction list"
  cs_bookings :: "booking list"
  cs_alerts :: "alert_record list"
  cs_order_expiries :: "(string, int option) btree"
  cs_change_requests :: "(string \<times> string \<times> string) list"
  cs_first :: journal_ref
  cs_last_sequence :: nat

definition changes_of :: "journal_ref \<Rightarrow> nat \<Rightarrow> book_changes" where
  "changes_of first last_sequence =
     \<lparr>cs_positions = [], cs_breaks = [], cs_figures = [], cs_attributes = None, cs_lifecycle_events = [],
      cs_orders = [], cs_placements = [], cs_executions = [], cs_unplaced = [], cs_locates = [],
      cs_instructions = [], cs_bookings = [], cs_alerts = [], cs_order_expiries = [],
      cs_change_requests = [], cs_first = first, cs_last_sequence = last_sequence\<rparr>"

subsection \<open>Positions\<close>

definition change_position ::
  "book_entry \<Rightarrow> entry_refs \<Rightarrow> (pos_key, exact) btree \<Rightarrow> pos_key \<Rightarrow> account_book \<times> book_changes
    \<Rightarrow> store_error + account_book \<times> book_changes" where
  "change_position e refs previous k s =
     (let (b, cs) = s; (instrument, side, sleeve) = k;
          p = (case bt_get (ab_positions b) k of None \<Rightarrow> position_new k | Some p \<Rightarrow> p);
          gone = (sleeve = [] \<and> List.member (by_tombstones (et_body e)) (instrument, side))
      in rbind (index_or_panic (rf_positions refs) k) (\<lambda>ref.
         rbind (index_or_panic previous k) (\<lambda>before.
           let p1 = p\<lparr>pn_removed := (gone \<or> pn_removed p),
                      pn_effective_date := em_effective_date (et_meta e), pn_last_change := Some ref\<rparr>
           in rbind (position_record (ab_account_id b) p1) (\<lambda>r.
                Inr (b\<lparr>ab_positions := bt_insert k p1 (ab_positions b)\<rparr>,
                     cs\<lparr>cs_positions := cs_positions cs @ [(r, before)]\<rparr>)))))"

subsection \<open>Records set whole\<close>

definition break_set :: "entry_body \<Rightarrow> journal_ref \<Rightarrow> break_record \<times> journal_ref \<Rightarrow> break_record" where
  "break_set body first br =
     (let (held, ref) = br;
          resolution = (case brk_resolution held of None \<Rightarrow> break_resolution_default | Some r \<Rightarrow> r);
          r1 = (if List.member (by_resolved_by_this body) (brk_break_id held)
                then held\<lparr>brk_resolution := Some (resolution\<lparr>brr_entries := [first]\<rparr>)\<rparr> else held)
      in r1\<lparr>brk_last_change := Some ref\<rparr>)"

definition attributes_set :: "entry_body \<Rightarrow> journal_ref \<Rightarrow> account_attributes \<times> journal_ref \<Rightarrow> account_attributes" where
  "attributes_set body first ar =
     (let (held, ref) = ar
      in held\<lparr>aa_opening_balance :=
                (if by_opening body \<noteq> None
                 then map_option (\<lambda>o'. o'\<lparr>ob_journal := Some first\<rparr>) (aa_opening_balance held)
                 else aa_opening_balance held),
              aa_last_change := Some ref\<rparr>)"

definition set_records :: "entry_body \<Rightarrow> entry_refs \<Rightarrow> account_book \<times> book_changes \<Rightarrow> account_book \<times> book_changes" where
  "set_records body refs s =
     (let (b, cs) = s; first = cs_first cs;
          breaks = map (break_set body first) (rf_breaks refs);
          events = map (\<lambda>(held, ref). held\<lparr>le_last_change := Some ref\<rparr>) (rf_lifecycle refs);
          figures = map (\<lambda>(held, ref). held\<lparr>af_last_change := Some ref\<rparr>) (rf_figures refs);
          attributes = map (attributes_set body first) (rf_attributes refs)
      in (b\<lparr>ab_breaks := fold (\<lambda>r. bt_insert (brk_break_id r) r) breaks (ab_breaks b),
            ab_lifecycle_events := fold (\<lambda>r. bt_insert (le_event_id r) r) events (ab_lifecycle_events b),
            ab_figures := fold (\<lambda>r. bt_insert (agreement_key (af_agreement r), af_business_date r) r)
                            figures (ab_figures b),
            ab_attributes := (case attributes of [] \<Rightarrow> ab_attributes b | a # _ \<Rightarrow> Some a)\<rparr>,
          cs\<lparr>cs_breaks := breaks, cs_lifecycle_events := events, cs_figures := figures,
             cs_attributes := (case attributes of [] \<Rightarrow> None | a # _ \<Rightarrow> Some a)\<rparr>))"

subsection \<open>The order path's acts\<close>

definition stamp_act :: "book_entry \<Rightarrow> act \<Rightarrow> act" where
  "stamp_act e a =
     (case a of
        GiveUpRecorded x b al answer \<Rightarrow> GiveUpRecorded x b al (answer\<lparr>gu_entry := Some (et_meta e)\<rparr>)
      | _ \<Rightarrow> a)"

definition note_act :: "book_entry \<Rightarrow> act \<Rightarrow> ledger \<Rightarrow> ledger" where
  "note_act e a l =
     (case a of
        BookingOpened b _ \<Rightarrow> on_booking (bo_booking_id b) (\<lambda>h. h\<lparr>bd_booked_at := et_first_sequence e\<rparr>) l
      | BookingReplaced i _ _ _ _ \<Rightarrow> on_booking i (\<lambda>h. h\<lparr>bd_booked_at := et_first_sequence e\<rparr>) l
      | Opened t _ \<Rightarrow>
          on_order (or_order_id t) (\<lambda>h. h\<lparr>h_opened_by := cc_instance_id (et_cause e),
                                          h_opened_at_ns := em_received_at_ns (et_meta e)\<rparr>) l
      | ChangeOpened r \<Rightarrow>
          on_change (cr_change_request_id r)
            (\<lambda>h. if cr_entry h = None then h\<lparr>cr_entry := Some (et_meta e)\<rparr> else h) l
      | _ \<Rightarrow> l)"

definition play_act :: "book_entry \<Rightarrow> (string, nat) btree \<Rightarrow> act \<Rightarrow> ledger \<Rightarrow> ledger" where
  "play_act e versions a l =
     (let a1 = stamp_act e a in note_act e a1 (apply_act a1 (et_entry_id e) versions l))"

definition play_acts :: "book_entry \<Rightarrow> entry_refs \<Rightarrow> ledger \<Rightarrow> ledger" where
  "play_acts e refs =
     fold (play_act e (fold (\<lambda>(i, ref). bt_insert i (jr_sequence ref)) (rf_orders refs) [])) (by_acts (et_body e))"

definition requests_opened :: "act list \<Rightarrow> (string \<times> string \<times> string) list" where
  "requests_opened acts =
     List.map_filter (\<lambda>a. case a of
         ChangeOpened r \<Rightarrow> Some (cr_change_request_id r, cr_order_id r, cr_placement_id r) | _ \<Rightarrow> None) acts"

definition reference_records :: "book_entry \<Rightarrow> entry_refs \<Rightarrow> ledger \<Rightarrow> ledger" where
  "reference_records e refs l =
     (let l1 = fold (\<lambda>(i, ref) l.
                 if bt_has (l_orders l) i
                 then (on_order i (\<lambda>h. h\<lparr>h_last_change := Some ref\<rparr>) l)
                        \<lparr>l_order_entries := bt_entry i [] (\<lambda>es. es @ [et_entry_id e]) (l_order_entries l)\<rparr>
                 else l) (rf_orders refs) l;
          l2 = fold (\<lambda>(i, ref). on_placement i (\<lambda>p. p\<lparr>pd_last_change := Some ref\<rparr>)) (rf_placements refs) l1
      in fold (\<lambda>(i, ref). on_execution i
            (\<lambda>x. x\<lparr>xd_execution := (xd_execution x)\<lparr>xe_last_change := Some ref\<rparr>\<rparr>)) (rf_executions refs) l2)"

definition orders_before :: "entry_refs \<Rightarrow> ledger \<Rightarrow> store_error + (string, order_terms) btree" where
  "orders_before refs l =
     rfold (\<lambda>(i, _) m. if bt_has (l_orders l) i
                       then rbind (order_record l i True) (\<lambda>r. Inr (bt_insert i r m)) else Inr m)
       (rf_orders refs) []"

definition placements_before :: "entry_refs \<Rightarrow> ledger \<Rightarrow> store_error + (string, placement) btree" where
  "placements_before refs l =
     rfold (\<lambda>(i, _) m. if bt_has (l_placements l) i
                       then rbind (placement_record l i) (\<lambda>r. Inr (bt_insert i r m)) else Inr m)
       (rf_placements refs) []"

definition tell_order ::
  "(string, order_terms) btree \<Rightarrow> ledger \<Rightarrow> string \<times> journal_ref \<Rightarrow> book_changes \<Rightarrow> store_error + book_changes" where
  "tell_order before l ref cs =
     (case bt_get (l_orders l) (fst ref) of
        None \<Rightarrow> Inr cs
      | Some h \<Rightarrow>
          rbind (order_record l (fst ref) True) (\<lambda>after.
            Inr (cs\<lparr>cs_order_expiries := bt_insert (fst ref) (due_at h) (cs_order_expiries cs),
                    cs_orders := cs_orders cs @ [(after, order_changed (bt_get before (fst ref)) after)]\<rparr>)))"

definition tell_placement ::
  "(string, placement) btree \<Rightarrow> ledger \<Rightarrow> string \<times> journal_ref \<Rightarrow> book_changes \<Rightarrow> store_error + book_changes" where
  "tell_placement before l ref cs =
     (if bt_has (l_placements l) (fst ref)
      then rbind (placement_record l (fst ref)) (\<lambda>after.
             Inr (cs\<lparr>cs_placements := cs_placements cs @ [(after, placement_changed (bt_get before (fst ref)) after)]\<rparr>))
      else Inr cs)"

definition places :: "string \<Rightarrow> act \<Rightarrow> bool" where
  "places i a = (case a of Placed j \<Rightarrow> j = i | _ \<Rightarrow> False)"

definition reference_others ::
  "book_entry \<Rightarrow> entry_refs \<Rightarrow> ledger \<Rightarrow> book_changes \<Rightarrow> store_error + ledger \<times> book_changes" where
  "reference_others e refs l cs =
     (let l1 = fold (\<lambda>(i, ref) l. l\<lparr>l_unplaced := bt_adjust i
                 (\<lambda>f. (if list_ex (places i) (by_acts (et_body e)) then f\<lparr>uf_placed_by := Some ref\<rparr> else f)
                        \<lparr>uf_last_change := Some ref\<rparr>) (l_unplaced l)\<rparr>) (rf_unplaced refs) l;
          l2 = fold (\<lambda>(i, ref). on_locate i (\<lambda>k. k\<lparr>ld_locate := (ld_locate k)\<lparr>lo_last_change := Some ref\<rparr>\<rparr>))
                 (rf_locates refs) l1;
          l3 = fold (\<lambda>(i, ref) l. l\<lparr>l_instructions := bt_adjust i
                 (\<lambda>t. t\<lparr>ti_last_change := Some ref, ti_entry := Some (et_meta e)\<rparr>) (l_instructions l)\<rparr>)
                 (rf_instructions refs) l2;
          l4 = fold (\<lambda>(i, ref). on_booking i (\<lambda>h. h\<lparr>bd_booking := (bd_booking h)\<lparr>bo_last_change := Some ref\<rparr>\<rparr>))
                 (rf_bookings refs) l3;
          l5 = fold (\<lambda>(i, ref). on_alert i (\<lambda>a. a\<lparr>ar_last_change := Some ref\<rparr>)) (rf_alerts refs) l4
      in rbind (rfold (\<lambda>(i, _) out. if bt_has (l_locates l5) i
                          then rbind (locate_record l5 i) (\<lambda>r. Inr (out @ [r])) else Inr out) (rf_locates refs) [])
           (\<lambda>locates.
         rbind (rfold (\<lambda>(i, _) out. if bt_has (l_bookings l5) i
                          then rbind (booking_record l5 i) (\<lambda>r. Inr (out @ [r])) else Inr out) (rf_bookings refs) [])
           (\<lambda>bookings.
         Inr (l5, cs\<lparr>cs_unplaced := List.map_filter (\<lambda>(i, _). bt_get (l_unplaced l5) i) (rf_unplaced refs),
                     cs_locates := locates,
                     cs_instructions := List.map_filter (\<lambda>(i, _). bt_get (l_instructions l5) i) (rf_instructions refs),
                     cs_bookings := bookings,
                     cs_alerts := List.map_filter (\<lambda>(i, _). bt_get (l_alerts l5) i) (rf_alerts refs)\<rparr>))))"

definition apply_order_path ::
  "book_entry \<Rightarrow> entry_refs \<Rightarrow> ledger \<Rightarrow> book_changes \<Rightarrow> store_error + ledger \<times> book_changes" where
  "apply_order_path e refs l cs =
     (if by_acts (et_body e) = [] then Inr (l, cs)
      else
        rbind (orders_before refs l) (\<lambda>orders.
        rbind (placements_before refs l) (\<lambda>placements.
          let l2 = reference_records e refs (play_acts e refs l);
              cs1 = cs\<lparr>cs_change_requests := requests_opened (by_acts (et_body e))\<rparr>
          in rbind (rfold (tell_order orders l2) (rf_orders refs) cs1) (\<lambda>cs2.
             rbind (rfold (tell_placement placements l2) (rf_placements refs) cs2) (\<lambda>cs3.
               let cs4 = cs3\<lparr>cs_executions := map xd_execution
                           (List.map_filter (\<lambda>(i, _). bt_get (l_executions l2) i) (rf_executions refs))\<rparr>
               in reference_others e refs l2 cs4)))))"

subsection \<open>An entry applied\<close>

definition close_entry :: "book_entry \<Rightarrow> journal_ref \<Rightarrow> account_book \<Rightarrow> account_book" where
  "close_entry e first b =
     (let body = et_body e;
          opening = (case by_opening body of
                       Some ob \<Rightarrow> Some (ob_entry_id ob, ob_as_of_date ob) | None \<Rightarrow> ab_opening b);
          (opening', reversed) =
            (if by_clears_opening body
             then (None, ab_reversed_openings b @ (case opening of None \<Rightarrow> [] | Some (i, _) \<Rightarrow> [i]))
             else (opening, ab_reversed_openings b));
          entries = (if by_reverses body = [] then ab_entries b
                     else on_first (\<lambda>h. ei_entry_id h = by_reverses body)
                            (\<lambda>h. h\<lparr>ei_reversed_by := Some (et_entry_id e)\<rparr>) (ab_entries b))
      in b\<lparr>ab_waits_stated := (by_states_waits body \<or> ab_waits_stated b), ab_opening := opening',
           ab_reversed_openings := reversed, ab_entries := entries @ [entry_index_of e first]\<rparr>)"

definition apply_numbered ::
  "known \<Rightarrow> book_entry \<Rightarrow> bool \<Rightarrow> (pos_key, exact) btree \<Rightarrow> entry_refs \<Rightarrow> journal_ref \<Rightarrow> nat \<Rightarrow> account_book
    \<Rightarrow> store_error + account_book \<times> book_changes" where
  "apply_numbered kn e lenient previous refs first last_sequence b =
     (let body = et_body e;
          sales = sales_of body (em_effective_date (et_meta e)) (ab_account_id b) (ab_ledger b)
      in rbind (rfold (apply_line kn sales refs (et_first_sequence e) lenient) (by_lines body) b) (\<lambda>b1.
         rbind (rfold (apply_adjustment body refs lenient) (by_basis_adjustments body) (mark_awaited kn body b1)) (\<lambda>b2.
         rbind (rfold (apply_encumbrance refs) (by_encumbrances body) b2) (\<lambda>b3.
         rbind (rfold (change_position e refs previous) (book_touched b body)
                  (apply_sources body b3, changes_of first last_sequence)) (\<lambda>s4.
           let (b5, cs5) = set_records body refs s4 in
           rbind (apply_order_path e refs (ab_ledger b5) cs5) (\<lambda>(l, cs).
             Inr (close_entry e first (b5\<lparr>ab_ledger := l\<rparr>), cs)))))))"

definition apply_entry ::
  "known \<Rightarrow> book_entry \<Rightarrow> bool \<Rightarrow> account_book \<Rightarrow> store_error + account_book \<times> book_changes" where
  "apply_entry kn e lenient b =
     rbind (quantities_before b (book_touched b (et_body e))) (\<lambda>previous.
       let (refs, n) = numbered e b in
       case nb_first n of
         None \<Rightarrow> Inl (Invalid [''an entry that changes no record''])
       | Some first \<Rightarrow>
           (let last_sequence = nb_sequence n - 1 in
            if et_last_sequence e \<noteq> 0 \<and> et_last_sequence e \<noteq> last_sequence
            then Inl (Unavailable [et_entry_id e])
            else apply_numbered kn e lenient previous refs first last_sequence (b\<lparr>ab_chains := nb_chains n\<rparr>)))"

subsection \<open>What must hold after an entry\<close>

definition is_base :: "known \<Rightarrow> account_book \<Rightarrow> string \<Rightarrow> bool" where
  "is_base kn b instrument \<longleftrightarrow>
     (case ab_attributes b of
        None \<Rightarrow> False
      | Some a \<Rightarrow> aa_base_currency_code a \<noteq> []
          \<and> (money_known kn (aa_base_currency_code a) = Some instrument
             \<or> money_code_of kn instrument = Some (aa_base_currency_code a)))"

definition base_cash_instrument :: "known \<Rightarrow> account_book \<Rightarrow> string option" where
  "base_cash_instrument kn b =
     (case ab_attributes b of
        None \<Rightarrow> None
      | Some a \<Rightarrow> if aa_base_currency_code a = [] then None else money_known kn (aa_base_currency_code a))"

definition on_its_side :: "int \<Rightarrow> exact \<Rightarrow> bool" where
  "on_its_side side q \<longleftrightarrow>
     (if side = holding_side_no HSLong then \<not> is_negative q else \<not> is_negative (negated q))"

definition lot_keys :: "entry_body \<Rightarrow> pos_key bset" where
  "lot_keys body =
     bs_extend [] (map line_key (filter (\<lambda>line. ml_lot_id line \<noteq> [] \<or> ml_opens_lot line \<noteq> None) (by_lines body)))"

definition check_position ::
  "known \<Rightarrow> account_book \<Rightarrow> entry_body \<Rightarrow> pos_key \<Rightarrow> position_state \<Rightarrow> store_error + unit" where
  "check_position kn b body k p =
     (let base = is_base kn b (fst k); named = List.member (lot_keys body) k in
      rbind (trade_date p) (\<lambda>trade.
      rbind (guard_r (Invalid [fst k])
               (on_its_side (pn_side p) trade \<or> (by_trade body \<and> pn_lots p = [] \<and> \<not> named) \<or> base)) (\<lambda>_.
      rbind (rfold (\<lambda>s _. rbind (required ''lots.open_quantity'' (lx_open_quantity (ls_lot s)))
                          (\<lambda>q. guard_r (Invalid [lx_lot_id (ls_lot s)]) (on_its_side (pn_side p) q)))
               (bt_values (pn_lots p)) ()) (\<lambda>_.
        if \<not> base \<and> (has_open_lots p \<or> named)
        then rbind (lots_open p) (\<lambda>lots. guard_r (Refused LotsUnbalanced [fst k] []) (ex_eq lots trade))
        else Inr ()))))"

definition check_book :: "known \<Rightarrow> entry_body \<Rightarrow> account_book \<Rightarrow> store_error + unit" where
  "check_book kn body b =
     rfold (\<lambda>k _. case bt_get (ab_positions b) k of
                    None \<Rightarrow> Inr ()
                  | Some p \<Rightarrow> if pn_removed p then Inr () else check_position kn b body k p)
       (book_touched b body) ()"

subsection \<open>A journal replayed\<close>

definition replay :: "known \<Rightarrow> string \<Rightarrow> string \<Rightarrow> book_entry list \<Rightarrow> store_error + account_book" where
  "replay kn account part es =
     rfold (\<lambda>e b. rbind (apply_entry kn e False b) (\<lambda>(b', _). Inr b')) es (book_new account part)"

fun resume_as_of ::
  "known \<Rightarrow> nat option \<Rightarrow> string option \<Rightarrow> book_entry list \<Rightarrow> account_book \<Rightarrow> store_error + account_book" where
  "resume_as_of kn upper until [] b = Inr b"
| "resume_as_of kn upper until (e # es) b =
     (if (case upper of None \<Rightarrow> False | Some n \<Rightarrow> et_first_sequence e > n) then Inr b
      else if (case until of None \<Rightarrow> False | Some until' \<Rightarrow> em_effective_date (et_meta e) > until')
      then resume_as_of kn upper until es b
      else rbind (apply_entry kn e True b) (\<lambda>(b', _). resume_as_of kn upper until es b'))"

definition as_of ::
  "known \<Rightarrow> string \<Rightarrow> string \<Rightarrow> book_entry list \<Rightarrow> nat option \<Rightarrow> string option \<Rightarrow> store_error + account_book" where
  "as_of kn account part es upper until = resume_as_of kn upper until es (book_new account part)"

end
