(* ===== verification/Book_Numbering.thy ===== *)
theory Book_Numbering
  imports Book_Replay
begin

section \<open>Every change of a journal, numbered and chained\<close>

text \<open>
  What the numbering of \<open>Book::apply\<close> promises its readers: the records an entry changes take
  consecutive numbers, and on each of the fourteen rows every change names the one before it,
  from the journal's first entry to its last. An entry read back must have the number it was
  given, and then replays as it was made.
\<close>

fun runs :: "(chain \<times> journal_ref) list \<Rightarrow> numbering \<Rightarrow> numbering \<Rightarrow> bool" where
  "runs [] n n' \<longleftrightarrow> n' = n"
| "runs ((c, r) # rs) n n' \<longleftrightarrow> r = fst (take_ref c n) \<and> runs rs (snd (take_ref c n)) n'"

lemma runs_append: "runs (rs @ ss) n n' \<longleftrightarrow> (\<exists>m. runs rs n m \<and> runs ss m n')"
  by (induction rs n n' rule: runs.induct) auto

lemma runs_join: "runs rs n m \<Longrightarrow> runs ss m n' \<Longrightarrow> runs (rs @ ss) n n'"
  by (auto simp: runs_append)

lemma take_refs_runs: "take_refs c xs n = (rs, n') \<Longrightarrow> runs (map (\<lambda>(_, r). (c, r)) rs) n n' \<and> map fst rs = xs"
  by (induction c xs n arbitrary: rs n' rule: take_refs.induct) (fastforce simp: Let_def split: prod.splits)+

text \<open>Every reference of an entry, with its row, in the order they are taken.\<close>

definition on_chain :: "chain \<Rightarrow> ('a \<times> journal_ref) list \<Rightarrow> (chain \<times> journal_ref) list" where
  "on_chain c = map (\<lambda>(_, r). (c, r))"

definition all_refs :: "entry_refs \<Rightarrow> (chain \<times> journal_ref) list" where
  "all_refs refs =
     on_chain ChPosition (rf_positions refs) @ on_chain ChBreak (rf_breaks refs)
     @ on_chain ChFigures (rf_figures refs) @ on_chain ChAttributes (rf_attributes refs)
     @ on_chain ChLifecycle (rf_lifecycle refs) @ on_chain ChOrder (rf_orders refs)
     @ on_chain ChPlacement (rf_placements refs) @ on_chain ChExecution (rf_executions refs)
     @ on_chain ChUnplaced (rf_unplaced refs) @ on_chain ChLocate (rf_locates refs)
     @ on_chain ChInstruction (rf_instructions refs) @ on_chain ChBooking (rf_bookings refs)
     @ on_chain ChAlert (rf_alerts refs) @ on_chain ChSetting (rf_settings refs)"

lemma take_all_runs:
  assumes "take_all keys body t n = (refs, n')"
  shows "runs (all_refs refs) n n'" "map fst (rf_positions refs) = keys"
proof -
  show "runs (all_refs refs) n n'"
    using assms unfolding take_all_def all_refs_def on_chain_def Let_def
    by (clarsimp split: prod.splits dest!: take_refs_runs) ((rule runs_join, assumption)+, assumption)
  show "map fst (rf_positions refs) = keys"
    using assms unfolding take_all_def Let_def by (clarsimp split: prod.splits dest!: take_refs_runs)
qed

lemma runs_sequences:
  "runs rs n n' \<Longrightarrow> map (jr_sequence \<circ> snd) rs = [nb_sequence n ..< nb_sequence n'] \<and> nb_sequence n \<le> nb_sequence n'"
  by (induction rs n n' rule: runs.induct) (auto simp: take_ref_def Let_def upt_conv_Cons)

lemma runs_first:
  "runs rs n n' \<Longrightarrow> nb_first n' =
     (case nb_first n of Some f \<Rightarrow> Some f | None \<Rightarrow> (case rs of [] \<Rightarrow> None | r # _ \<Rightarrow> Some (snd r)))"
  by (induction rs n n' rule: runs.induct) (auto simp: take_ref_def Let_def split: option.splits)

text \<open>References that each name the one before, the first one \<open>p\<close>, the last being \<open>q\<close>.\<close>

fun linked :: "nat \<Rightarrow> journal_ref list \<Rightarrow> nat \<Rightarrow> bool" where
  "linked p [] q \<longleftrightarrow> q = p"
| "linked p (r # rs) q \<longleftrightarrow> jr_previous_sequence r = p \<and> linked (jr_sequence r) rs q"

lemma linked_append: "linked p (rs @ ss) q \<longleftrightarrow> (\<exists>m. linked p rs m \<and> linked m ss q)"
  by (induction p rs q rule: linked.induct) auto

definition row :: "chain \<Rightarrow> (chain \<times> journal_ref) list \<Rightarrow> journal_ref list" where
  "row c rs = map snd (filter (\<lambda>(d, _). d = c) rs)"

lemma chain_no_less [simp]: "chain_no c < CHAINS"
  by (cases c) (simp_all add: CHAINS_def)

lemma chain_no_inj [simp]: "chain_no c = chain_no d \<longleftrightarrow> c = d"
  by (cases c; cases d) simp_all

lemma runs_linked:
  "runs rs n n' \<Longrightarrow> length (nb_chains n) = CHAINS \<Longrightarrow>
     linked (nb_chains n ! chain_no c) (row c rs) (nb_chains n' ! chain_no c) \<and> length (nb_chains n') = CHAINS"
  by (induction rs n n' rule: runs.induct) (auto simp: take_ref_def Let_def row_def nth_list_update)

lemma numbered_runs:
  assumes "numbered e b = (refs, n)"
  shows "runs (all_refs refs) \<lparr>nb_partition = ab_partition b, nb_chains = ab_chains b,
      nb_sequence = et_first_sequence e, nb_first = None\<rparr> n"
    "map fst (rf_positions refs) = book_touched b (et_body e)"
  using assms unfolding numbered_def by (auto dest: take_all_runs)

subsection \<open>What an entry leaves of the book's own fields\<close>

lemma apply_line_chains:
  "apply_line kn sales refs n lenient line b = Inr b' \<Longrightarrow> ab_chains b' = ab_chains b \<and> ab_ledger b' = ab_ledger b
     \<and> ab_attributes b' = ab_attributes b"
  by (auto simp: apply_line_def rbind_eq_Inr Let_def)

lemma on_lot_chains [simp]:
  "ab_chains (on_lot i f b) = ab_chains b" "ab_ledger (on_lot i f b) = ab_ledger b"
  "ab_attributes (on_lot i f b) = ab_attributes b"
  by (simp_all add: on_lot_def split: option.split)

lemma fold_same:
  assumes "\<And>x s. x \<in> set xs \<Longrightarrow> g (f x s) = g s"
  shows "g (fold f xs s) = g s"
  using assms by (induction xs arbitrary: s) auto

lemma mark_awaited_chains:
  "ab_chains (mark_awaited kn body b) = ab_chains b \<and> ab_ledger (mark_awaited kn body b) = ab_ledger b
     \<and> ab_attributes (mark_awaited kn body b) = ab_attributes b"
proof -
  let ?g = "\<lambda>b. (ab_chains b, ab_ledger b, ab_attributes b)"
  have c: "?g (clear_awaited a b) = ?g b" for a b
    unfolding clear_awaited_def by (cases a) (simp_all add: fold_same [where g = ?g])
  have m: "?g (mark_line kn i month line b) = ?g b" for i month line b by (simp add: mark_line_def)
  have "?g (mark_awaited kn body b) = ?g b"
    unfolding mark_awaited_def Let_def by (simp add: fold_same [where g = ?g] c m split_beta)
  then show ?thesis by simp
qed

lemma rfold_same:
  assumes "rfold f xs s = Inr t" and "\<And>x u v. x \<in> set xs \<Longrightarrow> f x u = Inr v \<Longrightarrow> g v = g u"
  shows "g t = g s"
  using assms(1) by (rule rfold_invariant [where P = "\<lambda>u. g u = g s"]) (use assms(2) in auto)

lemma apply_adjustment_chains:
  "apply_adjustment body refs lenient a b = Inr b' \<Longrightarrow> ab_chains b' = ab_chains b \<and> ab_ledger b' = ab_ledger b
     \<and> ab_attributes b' = ab_attributes b"
  by (cases "lot_owner b (ba_lot_id a)")
     (auto simp: apply_adjustment_def rbind_eq_Inr Let_def split: if_split_asm)

lemma apply_encumbrance_chains:
  "apply_encumbrance refs held b = Inr b' \<Longrightarrow> ab_chains b' = ab_chains b \<and> ab_ledger b' = ab_ledger b
     \<and> ab_attributes b' = ab_attributes b"
  by (cases held) (auto simp: apply_encumbrance_def rbind_eq_Inr Let_def)

lemma apply_sources_chains [simp]:
  "ab_chains (apply_sources body b) = ab_chains b" "ab_ledger (apply_sources body b) = ab_ledger b"
  "ab_attributes (apply_sources body b) = ab_attributes b"
  by (simp_all add: apply_sources_def)

lemma change_position_chains:
  "change_position e refs previous k (b, cs) = Inr (b', cs') \<Longrightarrow> ab_chains b' = ab_chains b
     \<and> ab_ledger b' = ab_ledger b \<and> ab_attributes b' = ab_attributes b
     \<and> cs_first cs' = cs_first cs \<and> cs_last_sequence cs' = cs_last_sequence cs"
  by (cases k) (auto simp: change_position_def rbind_eq_Inr Let_def)

lemma set_records_chains:
  "set_records body refs (b, cs) = (b', cs') \<Longrightarrow> ab_chains b' = ab_chains b \<and> ab_ledger b' = ab_ledger b
     \<and> ab_positions b' = ab_positions b \<and> cs_first cs' = cs_first cs \<and> cs_last_sequence cs' = cs_last_sequence cs
     \<and> cs_positions cs' = cs_positions cs"
  by (auto simp: set_records_def Let_def)

lemma tell_first:
  "tell_order before l ref cs = Inr cs' \<Longrightarrow> cs_first cs' = cs_first cs \<and> cs_last_sequence cs' = cs_last_sequence cs
     \<and> cs_positions cs' = cs_positions cs"
  "tell_placement before' l ref cs = Inr cs' \<Longrightarrow> cs_first cs' = cs_first cs \<and> cs_last_sequence cs' = cs_last_sequence cs
     \<and> cs_positions cs' = cs_positions cs"
  by (auto simp: tell_order_def tell_placement_def rbind_eq_Inr split: option.splits if_splits)

lemma apply_order_path_first:
  assumes "apply_order_path e refs l cs = Inr (l', cs')"
  shows "cs_first cs' = cs_first cs \<and> cs_last_sequence cs' = cs_last_sequence cs \<and> cs_positions cs' = cs_positions cs"
proof (cases "by_acts (et_body e) = []")
  case True
  with assms show ?thesis by (simp add: apply_order_path_def)
next
  case False
  let ?g = "\<lambda>cs. (cs_first cs, cs_last_sequence cs, cs_positions cs)"
  define cs1 where s1: "cs1 = cs\<lparr>cs_change_requests := requests_opened (by_acts (et_body e))\<rparr>"
  from assms False obtain os ps l2 cs2 cs3 xs where
    s: "rfold (tell_order os l2) (rf_orders refs) cs1 = Inr cs2"
      "rfold (tell_placement ps l2) (rf_placements refs) cs2 = Inr cs3"
    and c: "reference_others e refs l2 (cs3\<lparr>cs_executions := xs\<rparr>) = Inr (l', cs')"
    by (auto simp: apply_order_path_def rbind_eq_Inr Let_def s1)
  have "?g cs2 = ?g cs1" by (rule rfold_same [where g = ?g, OF s(1)]) (use tell_first(1) in auto)
  moreover have "?g cs3 = ?g cs2" by (rule rfold_same [where g = ?g, OF s(2)]) (use tell_first(2) in auto)
  moreover have "?g cs' = ?g cs3" using c by (auto simp: reference_others_def rbind_eq_Inr Let_def)
  ultimately show ?thesis by (simp add: s1)
qed

lemma close_entry_chains [simp]:
  "ab_chains (close_entry e first b) = ab_chains b" "ab_ledger (close_entry e first b) = ab_ledger b"
  "ab_positions (close_entry e first b) = ab_positions b" "ab_attributes (close_entry e first b) = ab_attributes b"
  by (simp_all add: close_entry_def Let_def split: prod.split)

text \<open>The stages of an entry applied, named for the proofs that follow one through all of them.\<close>

lemma apply_numbered_stages:
  assumes "apply_numbered kn e lenient previous refs first last_sequence b = Inr (b', cs')"
  obtains b1 b2 b3 b4 cs4 b5 cs5 l where
    "rfold (apply_line kn (sales_of (et_body e) (em_effective_date (et_meta e)) (ab_account_id b) (ab_ledger b))
        refs (et_first_sequence e) lenient) (by_lines (et_body e)) b = Inr b1"
    "rfold (apply_adjustment (et_body e) refs lenient) (by_basis_adjustments (et_body e))
        (mark_awaited kn (et_body e) b1) = Inr b2"
    "rfold (apply_encumbrance refs) (by_encumbrances (et_body e)) b2 = Inr b3"
    "rfold (change_position e refs previous) (book_touched b (et_body e))
        (apply_sources (et_body e) b3, changes_of first last_sequence) = Inr (b4, cs4)"
    "set_records (et_body e) refs (b4, cs4) = (b5, cs5)"
    "apply_order_path e refs (ab_ledger b5) cs5 = Inr (l, cs')"
    "b' = close_entry e first (b5\<lparr>ab_ledger := l\<rparr>)"
proof -
  from assms show ?thesis
    unfolding apply_numbered_def Let_def
    by (clarsimp simp: rbind_eq_Inr split_beta) (rule that, assumption+, rule surjective_pairing, simp_all)
qed

lemma apply_numbered_chains:
  assumes "apply_numbered kn e lenient previous refs first last_sequence b = Inr (b', cs')"
  shows "ab_chains b' = ab_chains b \<and> cs_first cs' = first \<and> cs_last_sequence cs' = last_sequence"
  using assms
proof (rule apply_numbered_stages)
  fix b1 b2 b3 b4 cs4 b5 cs5 l
  let ?g = "\<lambda>(b, cs). (ab_chains b, cs_first cs, cs_last_sequence cs)"
  assume s: "rfold (apply_line kn (sales_of (et_body e) (em_effective_date (et_meta e)) (ab_account_id b) (ab_ledger b))
        refs (et_first_sequence e) lenient) (by_lines (et_body e)) b = Inr b1"
    "rfold (apply_adjustment (et_body e) refs lenient) (by_basis_adjustments (et_body e))
        (mark_awaited kn (et_body e) b1) = Inr b2"
    "rfold (apply_encumbrance refs) (by_encumbrances (et_body e)) b2 = Inr b3"
    "rfold (change_position e refs previous) (book_touched b (et_body e))
        (apply_sources (et_body e) b3, changes_of first last_sequence) = Inr (b4, cs4)"
    "set_records (et_body e) refs (b4, cs4) = (b5, cs5)"
    "apply_order_path e refs (ab_ledger b5) cs5 = Inr (l, cs')" "b' = close_entry e first (b5\<lparr>ab_ledger := l\<rparr>)"
  have "ab_chains b1 = ab_chains b" by (rule rfold_same [where g = ab_chains, OF s(1)]) (use apply_line_chains in auto)
  moreover have "ab_chains b2 = ab_chains (mark_awaited kn (et_body e) b1)"
    by (rule rfold_same [where g = ab_chains, OF s(2)]) (use apply_adjustment_chains in auto)
  moreover have "ab_chains b3 = ab_chains b2"
    by (rule rfold_same [where g = ab_chains, OF s(3)]) (use apply_encumbrance_chains in auto)
  moreover have "?g (b4, cs4) = ?g (apply_sources (et_body e) b3, changes_of first last_sequence)"
    by (rule rfold_same [where g = ?g, OF s(4)]) (auto dest: change_position_chains)
  ultimately show ?thesis
    using set_records_chains [OF s(5)] apply_order_path_first [OF s(6)] mark_awaited_chains [of kn "et_body e" b1]
    by (simp add: s(7) changes_of_def)
qed

subsection \<open>One entry, and a journal of them\<close>

lemma apply_entry_stages:
  assumes "apply_entry kn e lenient b = Inr (b', cs)"
  obtains previous refs n first where "quantities_before b (book_touched b (et_body e)) = Inr previous"
    "numbered e b = (refs, n)" "nb_first n = Some first"
    "et_last_sequence e = 0 \<or> et_last_sequence e = nb_sequence n - 1"
    "apply_numbered kn e lenient previous refs first (nb_sequence n - 1) (b\<lparr>ab_chains := nb_chains n\<rparr>) = Inr (b', cs)"
proof -
  obtain refs n where num: "numbered e b = (refs, n)" by force
  show ?thesis
  proof (cases "nb_first n")
    case None
    with assms show ?thesis by (auto simp: apply_entry_def num rbind_eq_Inr Let_def)
  next
    case (Some first)
    with assms that [OF _ num] show ?thesis
      by (auto simp: apply_entry_def num rbind_eq_Inr Let_def split: if_split_asm)
  qed
qed

lemma apply_entry_numbered:
  assumes "apply_entry kn e lenient b = Inr (b', cs)" "numbered e b = (refs, n)"
  shows "ab_chains b' = nb_chains n" "cs_last_sequence cs = nb_sequence n - 1" "nb_first n = Some (cs_first cs)"
    "et_last_sequence e \<noteq> 0 \<Longrightarrow> et_last_sequence e = cs_last_sequence cs"
proof -
  from assms(1) obtain previous first where s: "nb_first n = Some first"
      "et_last_sequence e = 0 \<or> et_last_sequence e = nb_sequence n - 1"
      "apply_numbered kn e lenient previous refs first (nb_sequence n - 1) (b\<lparr>ab_chains := nb_chains n\<rparr>) = Inr (b', cs)"
    by (rule apply_entry_stages) (use assms(2) in auto)
  from apply_numbered_chains [OF s(3)] s(1,2)
  show "ab_chains b' = nb_chains n" "cs_last_sequence cs = nb_sequence n - 1" "nb_first n = Some (cs_first cs)"
    "et_last_sequence e \<noteq> 0 \<Longrightarrow> et_last_sequence e = cs_last_sequence cs" by auto
qed

lemma apply_entry_refs:
  assumes "apply_entry kn e lenient b = Inr (b', cs)"
  defines "rs \<equiv> all_refs (fst (numbered e b))"
  shows "map (jr_sequence \<circ> snd) rs = [et_first_sequence e ..< Suc (cs_last_sequence cs)]" "rs \<noteq> []"
    "length (ab_chains b) = CHAINS \<Longrightarrow> linked (ab_chains b ! chain_no c) (row c rs) (ab_chains b' ! chain_no c)"
    "length (ab_chains b) = CHAINS \<Longrightarrow> length (ab_chains b') = CHAINS"
proof -
  obtain refs n where num: "numbered e b = (refs, n)" by force
  note runs = numbered_runs(1) [OF num] and entry = apply_entry_numbered [OF assms(1) num]
  from runs_first [OF runs] entry(3) show ne: "rs \<noteq> []" by (auto simp: rs_def num split: list.splits)
  from runs_sequences [OF runs] have seq: "map (jr_sequence \<circ> snd) rs = [et_first_sequence e ..< nb_sequence n]"
    by (simp add: rs_def num)
  then have "length rs = nb_sequence n - et_first_sequence e" by (metis length_map length_upt)
  with ne have "et_first_sequence e < nb_sequence n" by (cases rs) auto
  with seq show "map (jr_sequence \<circ> snd) rs = [et_first_sequence e ..< Suc (cs_last_sequence cs)]"
    using entry(2) by simp
  show "length (ab_chains b) = CHAINS \<Longrightarrow> linked (ab_chains b ! chain_no c) (row c rs) (ab_chains b' ! chain_no c)"
    "length (ab_chains b) = CHAINS \<Longrightarrow> length (ab_chains b') = CHAINS"
    using runs_linked [OF runs, of c] entry(1) by (auto simp: rs_def num)
qed

fun journal_refs :: "known \<Rightarrow> book_entry list \<Rightarrow> account_book \<Rightarrow> (chain \<times> journal_ref) list" where
  "journal_refs kn [] b = []"
| "journal_refs kn (e # es) b =
     all_refs (fst (numbered e b)) @
     (case apply_entry kn e False b of Inl _ \<Rightarrow> [] | Inr (b', _) \<Rightarrow> journal_refs kn es b')"

definition replay_from :: "known \<Rightarrow> book_entry list \<Rightarrow> account_book \<Rightarrow> store_error + account_book" where
  "replay_from kn es = rfold (\<lambda>e b. rbind (apply_entry kn e False b) (\<lambda>(b', _). Inr b')) es"

lemma replay_from_simps [simp]:
  "replay_from kn [] b = Inr b"
  "replay_from kn (e # es) b = rbind (apply_entry kn e False b) (\<lambda>(b', _). replay_from kn es b')"
  by (auto simp: replay_from_def rbind_assoc intro!: rbind_cong split: prod.splits)

lemma replay_replay_from: "replay kn account part es = replay_from kn es (book_new account part)"
  by (simp add: replay_def replay_from_def)

lemma replay_append: "replay_from kn (es @ fs) b = rbind (replay_from kn es b) (replay_from kn fs)"
  by (simp add: replay_from_def rfold_append)

lemma row_append: "row c (rs @ ss) = row c rs @ row c ss"
  by (simp add: row_def)

lemma journal_linked:
  assumes "replay_from kn es b = Inr b'" "length (ab_chains b) = CHAINS"
  shows "linked (ab_chains b ! chain_no c) (row c (journal_refs kn es b)) (ab_chains b' ! chain_no c)
    \<and> length (ab_chains b') = CHAINS"
  using assms
proof (induction es arbitrary: b)
  case Nil
  then show ?case by (simp add: row_def)
next
  case (Cons e es)
  then obtain b1 cs where step: "apply_entry kn e False b = Inr (b1, cs)" "replay_from kn es b1 = Inr b'"
    by (auto simp: rbind_eq_Inr split: prod.splits)
  from Cons.IH [OF step(2)] apply_entry_refs(3,4) [OF step(1) Cons.prems(2)] show ?case
    by (auto simp: step(1) row_append linked_append)
qed

subsection \<open>Numbers read back\<close>

lemma with_last [simp]:
  "numbered (e\<lparr>et_last_sequence := k\<rparr>) = numbered e"
  "change_position (e\<lparr>et_last_sequence := k\<rparr>) = change_position e"
  "close_entry (e\<lparr>et_last_sequence := k\<rparr>) = close_entry e"
  by (intro ext, simp add: numbered_def change_position_def close_entry_def entry_index_of_def Let_def cong: if_cong)+

lemma with_last_act [simp]: "play_act (e\<lparr>et_last_sequence := k\<rparr>) = play_act e"
proof (intro ext)
  fix versions a l
  show "play_act (e\<lparr>et_last_sequence := k\<rparr>) versions a l = play_act e versions a l"
    by (cases a) (simp_all add: play_act_def stamp_act_def note_act_def cong: if_cong)
qed

lemma with_last_order_path [simp]: "apply_order_path (e\<lparr>et_last_sequence := k\<rparr>) = apply_order_path e"
proof -
  have "play_acts (e\<lparr>et_last_sequence := k\<rparr>) = play_acts e"
    by (intro ext) (simp add: play_acts_def play_act_def)
  moreover have "reference_records (e\<lparr>et_last_sequence := k\<rparr>) = reference_records e"
    by (intro ext) (simp add: reference_records_def cong: if_cong)
  moreover have "reference_others (e\<lparr>et_last_sequence := k\<rparr>) = reference_others e"
    by (intro ext) (simp add: reference_others_def cong: if_cong)
  ultimately show ?thesis by (intro ext) (simp add: apply_order_path_def)
qed

lemma with_last_numbered: "apply_numbered kn (e\<lparr>et_last_sequence := k\<rparr>) = apply_numbered kn e"
  by (intro ext) (simp add: apply_numbered_def)

section \<open>Properties\<close>

text \<open>C16: Every change a journal records is numbered with no hole and chained with no gap: the
  records an entry changes take the numbers from its first to its last, one each, and on each
  row -- positions, orders, placements and the rest -- every change of the journal names the one
  before it, the first naming none.\<close>

theorem every_change_is_numbered_and_chained:
  assumes "replay kn account part es = Inr b" and "apply_entry kn e False b = Inr (b', cs)"
  shows "map (jr_sequence \<circ> snd) (all_refs (fst (numbered e b))) = [et_first_sequence e ..< Suc (cs_last_sequence cs)]
    \<and> linked 0 (row c (journal_refs kn (es @ [e]) (book_new account part))) (ab_chains b' ! chain_no c)"
proof -
  have "replay_from kn (es @ [e]) (book_new account part) = Inr b'"
    using assms by (simp add: replay_replay_from replay_append)
  from journal_linked [OF this, of c] chain_no_less [of c] have "linked 0 (row c (journal_refs kn (es @ [e]) (book_new account part))) (ab_chains b' ! chain_no c)"
    by (simp add: book_new_def)
  with apply_entry_refs(1) [OF assms(2)] show ?thesis by blast
qed

text \<open>C18: A journal read back is the journal written: the entry a command made, kept with the last
  number it was given, replays onto the book it was made on as the book it made; and kept with any
  other last number it is refused as not what the book wrote, and nothing after it is replayed.\<close>

theorem a_made_entry_replays:
  assumes "replay kn account part es = Inr b" and "et_last_sequence e = 0" and "apply_entry kn e False b = Inr (b', cs)"
  shows "replay kn account part (es @ [e\<lparr>et_last_sequence := cs_last_sequence cs\<rparr>]) = Inr b'
    \<and> (k \<noteq> 0 \<longrightarrow> k \<noteq> cs_last_sequence cs \<longrightarrow>
         replay kn account part (es @ e\<lparr>et_last_sequence := k\<rparr> # fs) = Inl (Unavailable [et_entry_id e]))"
proof -
  from assms(3) obtain previous refs n first where s:
    "quantities_before b (book_touched b (et_body e)) = Inr previous" "numbered e b = (refs, n)" "nb_first n = Some first"
    "apply_numbered kn e False previous refs first (nb_sequence n - 1) (b\<lparr>ab_chains := nb_chains n\<rparr>) = Inr (b', cs)"
    by (rule apply_entry_stages) auto
  note last = apply_entry_numbered(2) [OF assms(3) s(2)]
  have "apply_entry kn (e\<lparr>et_last_sequence := k\<rparr>) False b =
      (if k \<noteq> 0 \<and> k \<noteq> cs_last_sequence cs then Inl (Unavailable [et_entry_id e]) else Inr (b', cs))" for k
    using s by (simp add: apply_entry_def with_last_numbered last)
  with assms(1) show ?thesis by (simp add: replay_replay_from replay_append)
qed

definition sample_entry :: book_entry where
  "sample_entry =
     \<lparr>et_entry_id = ''ENT-1'', et_account_id = ''a1'', et_partition = ''P0'', et_first_sequence = 1,
      et_last_sequence = 0, et_message_id = ''m1'', et_idempotency_key = [],
      et_meta = \<lparr>em_entry_id = ''ENT-1'', em_kind = ''adjustment'', em_actor = None, em_event_time_ns = 0,
        em_received_at_ns = 0, em_effective_date = ''2026-10-14'', em_control_sequence = 0,
        em_reference_versions = [], em_reason = [], em_break_ids = [], em_idempotency_key = []\<rparr>,
      et_cause = \<lparr>cc_instance_id = ''oms-1'', cc_acting_for_subject = [], cc_correlation_id = [],
        cc_causation_id = ''m1'', cc_committed_at_ns = 0\<rparr>,
      et_body = entry_body_default\<lparr>by_lines := [sample_line],
        by_attributes := Some (account_attributes_default\<lparr>aa_account_id := ''a1''\<rparr>)\<rparr>\<rparr>"

definition knows_nothing :: known where "knows_nothing = \<lparr>kn_became = [], kn_cash = []\<rparr>"

text \<open>What evaluating an entry on a concrete book unfolds.\<close>

lemma whole_number_ok: "\<bar>n\<bar> < 10 ^ 30 \<Longrightarrow> exact_ok (mk n 0)"
  by (simp add: exact_ok_def LIMIT_def DIGITS_def)

lemma whole_numbers_add:
  assumes "\<bar>m\<bar> < 10 ^ 30" "\<bar>n\<bar> < 10 ^ 30"
  shows "num_add field (mk m 0) (mk n 0) = Inr (mk (m + n) 0)"
proof -
  from assms have "i128_fits m" "i128_fits n" "i128_fits (m + n)" "\<bar>m + n\<bar> < LIMIT"
    by (auto simp: i128_fits_def LIMIT_def DIGITS_def abs_less_iff)
  then show ?thesis by (simp add: num_add_def checked_add_def widen_def ok_or_def checked_i128_def ex_new_def)
qed

lemmas entry_evals =
  book_new_def CHAINS_def ledger_new_def entry_body_default_def movement_line_default_def
  apply_entry_def book_touched_def bs_extend_def line_key_def quantities_before_def quantity_before_def
  numbered_def take_all_def take_ref_def touched_none_def opened_parents_def touched_by_def climb.simps [of _ _ 0 "[]"]
  apply_numbered_def sales_of_def map_filter_simps apply_line_def index_or_panic_def ok_or_def required_def num_wire_def from_to_wire
  whole_number_ok whole_numbers_add is_zero_def ex_zero_def add_to_bucket_def bucket_of_def enum_of_def
  apply_lot_def open_lot_def lot_opened_def carried_lot_def position_new_def mark_awaited_def apply_sources_def change_position_def position_record_def
  trade_date_def position_free_def changes_of_def set_records_def attributes_set_def apply_order_path_def close_entry_def
  entry_index_of_def moves_positions_def bt_has_def Let_def

lemma sample_applies:
  obtains b cs where "apply_entry knows_nothing sample_entry False (book_new ''a1'' ''P0'') = Inr (b, cs)"
    "cs_last_sequence cs = 2" "ab_chains b = (replicate 14 0)[0 := Suc 0, 3 := Suc (Suc 0)]"
proof -
  have "(case apply_entry knows_nothing sample_entry False (book_new ''a1'' ''P0'') of Inl _ \<Rightarrow> False
     | Inr (b, cs) \<Rightarrow> cs_last_sequence cs = 2 \<and> ab_chains b = (replicate 14 0)[0 := Suc 0, 3 := Suc (Suc 0)])"
    by (simp add: entry_evals sample_entry_def sample_line_def)
  then show ?thesis by (auto split: sum.splits prod.splits intro: that)
qed

theorem every_change_is_numbered_and_chained_witness:
  "map (jr_sequence \<circ> snd) (all_refs (fst (numbered sample_entry (book_new ''a1'' ''P0'')))) = [1, 2]
    \<and> linked 0 (row ChAttributes (journal_refs knows_nothing [sample_entry] (book_new ''a1'' ''P0''))) 2"
proof -
  obtain b cs where s: "apply_entry knows_nothing sample_entry False (book_new ''a1'' ''P0'') = Inr (b, cs)"
    "cs_last_sequence cs = 2" "ab_chains b = (replicate 14 0)[0 := Suc 0, 3 := Suc (Suc 0)]" by (rule sample_applies)
  have "replay knows_nothing ''a1'' ''P0'' [] = Inr (book_new ''a1'' ''P0'')" by (simp add: replay_def)
  moreover have "(replicate 14 0)[0 := Suc 0, 3 := Suc (Suc 0)] ! 3 = 2" by (simp add: nth_list_update)
  moreover have "et_first_sequence sample_entry = 1" by (simp add: sample_entry_def)
  ultimately show ?thesis
    using every_change_is_numbered_and_chained [OF _ s(1), of "''a1''" "''P0''" "[]" ChAttributes] s(2,3)
    by (simp add: s(1) upt_rec numeral_2_eq_2)
qed

theorem a_made_entry_replays_witness:
  "replay knows_nothing ''a1'' ''P0'' [sample_entry\<lparr>et_last_sequence := 7\<rparr>] = Inl (Unavailable [''ENT-1''])
    \<and> (case replay knows_nothing ''a1'' ''P0'' [sample_entry\<lparr>et_last_sequence := 2\<rparr>] of Inl _ \<Rightarrow> False | Inr _ \<Rightarrow> True)"
proof -
  obtain b cs where s: "apply_entry knows_nothing sample_entry False (book_new ''a1'' ''P0'') = Inr (b, cs)"
    "cs_last_sequence cs = 2" by (rule sample_applies) auto
  have "replay knows_nothing ''a1'' ''P0'' [] = Inr (book_new ''a1'' ''P0'')" by (simp add: replay_def)
  moreover have "et_last_sequence sample_entry = 0" "et_entry_id sample_entry = ''ENT-1''" by (simp_all add: sample_entry_def)
  ultimately show ?thesis using a_made_entry_replays [OF _ _ s(1), of _ _ "[]" 7 "[]"] s(2) by simp
qed

end
