(* ===== verification/Book_Quantities.thy ===== *)
theory Book_Quantities
  imports Book_Numbering
begin

section \<open>What an account holds, entry by entry\<close>

text \<open>
  The quantities of \<open>crates/bor/src/book.rs\<close>: what each stage of \<open>Book::apply\<close> does to what a
  position holds and to its open lots. Only lines move either; a basis adjustment, an encumbrance,
  a mark and a record set whole leave both.
\<close>

subsection \<open>What a book holds at a key\<close>

definition position_at :: "account_book \<Rightarrow> pos_key \<Rightarrow> position_state" where
  "position_at b k = (case bt_get (ab_positions b) k of None \<Rightarrow> position_new k | Some p \<Rightarrow> p)"

definition open_quantities :: "position_state \<Rightarrow> decimal option list" where
  "open_quantities p = map (lx_open_quantity \<circ> ls_lot) (bt_values (pn_lots p))"

definition gist :: "position_state \<Rightarrow> rat \<times> decimal option list \<times> bool \<times> int" where
  "gist p = (trade_val p, open_quantities p, position_ok p, pn_side p)"

definition held_val :: "account_book \<Rightarrow> pos_key \<Rightarrow> rat" where
  "held_val b k = trade_val (position_at b k)"

definition book_ok :: "account_book \<Rightarrow> bool" where
  "book_ok b \<longleftrightarrow> (\<forall>k. position_ok (position_at b k))"

text \<open>Two books that hold alike: the same quantities and open lots at every key, and the same
  positions removed but for some.\<close>

definition alike :: "pos_key set \<Rightarrow> account_book \<Rightarrow> account_book \<Rightarrow> bool" where
  "alike ks b c \<longleftrightarrow> (\<forall>k. gist (position_at c k) = gist (position_at b k)
     \<and> (k \<notin> ks \<longrightarrow> pn_removed (position_at c k) = pn_removed (position_at b k)))"

lemma alike_refl [simp]: "alike ks b b" by (simp add: alike_def)

lemma alike_trans: "alike ks b c \<Longrightarrow> alike ks c d \<Longrightarrow> alike ks b d"
  unfolding alike_def by (simp del: split_paired_All)

lemma alike_mono: "alike {} b c \<Longrightarrow> alike ks b c"
  unfolding alike_def by (simp del: split_paired_All)

lemma alikeD:
  assumes "alike ks b c"
  shows "held_val c k = held_val b k" "open_quantities (position_at c k) = open_quantities (position_at b k)"
    "k \<notin> ks \<Longrightarrow> pn_removed (position_at c k) = pn_removed (position_at b k)"
  using assms unfolding alike_def gist_def held_val_def by (simp_all del: split_paired_All)

lemma alike_ok: "alike ks b c \<Longrightarrow> book_ok b \<Longrightarrow> book_ok c"
  unfolding alike_def gist_def book_ok_def by (simp del: split_paired_All)

lemma alike_positions: "ab_positions c = ab_positions b \<Longrightarrow> alike ks b c"
  by (simp add: alike_def position_at_def)

lemma fold_alike: "(\<And>x c. x \<in> set xs \<Longrightarrow> alike ks c (f x c)) \<Longrightarrow> alike ks b (fold f xs b)"
  by (induction xs arbitrary: b) (auto intro: alike_trans)

lemma rfold_alike:
  assumes "rfold f xs s = Inr t" "book_ok (g s)"
    and "\<And>x u v. x \<in> set xs \<Longrightarrow> book_ok (g u) \<Longrightarrow> f x u = Inr v \<Longrightarrow> alike ks (g u) (g v)"
  shows "alike ks (g s) (g t)"
  using assms
proof (induction xs arbitrary: s)
  case (Cons x xs)
  then obtain u where u: "f x s = Inr u" "rfold f xs u = Inr t" by (auto simp: rbind_eq_Inr)
  from Cons.prems(3) [OF _ Cons.prems(2) u(1)] have a: "alike ks (g s) (g u)" by simp
  have "alike ks (g u) (g t)"
    by (rule Cons.IH [OF u(2) alike_ok [OF a Cons.prems(2)] Cons.prems(3)]) simp_all
  with a show ?case by (rule alike_trans)
qed simp

lemma values_adjust: "(\<And>v. g (f v) = g v) \<Longrightarrow> map g (bt_values (bt_adjust k f m)) = map g (bt_values m)"
  by (induction k f m rule: bt_adjust.induct) auto

lemma values_replace:
  "bt_wf m \<Longrightarrow> bt_get m k = Some v \<Longrightarrow> g w = g v \<Longrightarrow> map g (bt_values (bt_insert k w m)) = map g (bt_values m)"
proof (induction k w m rule: bt_insert.induct)
  case (2 k w a u m)
  then show ?case by (force simp: bt_wf_Cons dest: bt_get_Some_mem split: if_splits)
qed simp

lemma position_at_insert: "ab_positions c = bt_insert k p (ab_positions b) \<Longrightarrow> position_at c j = (if j = k then p else position_at b j)"
  by (simp add: position_at_def)

lemma alike_adjust:
  assumes "\<And>p. gist (f p) = gist p" "\<And>p. pn_removed (f p) = pn_removed p"
  shows "alike ks b (b\<lparr>ab_positions := bt_adjust k f (ab_positions b)\<rparr>)"
  using assms by (simp add: alike_def position_at_def split: option.split)

lemma alike_insert:
  assumes "gist p = gist (position_at b k)" "k \<in> ks \<or> pn_removed p = pn_removed (position_at b k)"
  shows "alike ks b (b\<lparr>ab_positions := bt_insert k p (ab_positions b)\<rparr>)"
  using assms unfolding alike_def by (auto simp: position_at_insert simp del: split_paired_All)

lemma position_atI: "bt_get (ab_positions b) k = Some p \<Longrightarrow> position_at b k = p"
  by (simp add: position_at_def)

subsection \<open>The stages that move nothing\<close>

lemma gist_lots:
  assumes "map (lx_open_quantity \<circ> ls_lot) (bt_values m) = map (lx_open_quantity \<circ> ls_lot) (bt_values (pn_lots p))"
    and "bt_wf m = bt_wf (pn_lots p)"
  shows "gist (p\<lparr>pn_lots := m\<rparr>) = gist p"
  using assms by (simp add: gist_def open_quantities_def trade_val_def position_ok_def)

lemma on_lot_alike: "(\<And>x. lx_open_quantity (f x) = lx_open_quantity x) \<Longrightarrow> alike ks b (on_lot i f b)"
  by (auto simp: on_lot_def intro!: alike_adjust gist_lots values_adjust split: option.split)

lemma mark_awaited_alike: "alike ks b (mark_awaited kn body b)"
  unfolding mark_awaited_def Let_def
proof (rule alike_trans)
  show "alike ks b (fold clear_awaited (by_acts body) b)"
    by (rule fold_alike) (auto simp: clear_awaited_def split: act.split intro!: fold_alike on_lot_alike)
  show "alike ks (fold clear_awaited (by_acts body) b) (fold (\<lambda>(start, many, instrument, month).
          fold (mark_line kn instrument month) (take many (drop start (by_lines body))))
        (concat (map (marks_in (length (by_lines body)) (ab_ledger b)) (by_acts body)))
        (fold clear_awaited (by_acts body) b))"
    by (rule fold_alike) (auto simp: mark_line_def intro!: fold_alike on_lot_alike)
qed

lemma apply_adjustment_alike:
  assumes "apply_adjustment body refs lenient a b = Inr c" "book_ok b"
  shows "alike ks b c"
proof (cases "lot_owner b (ba_lot_id a)")
  case None
  with assms(1) show ?thesis by (simp add: apply_adjustment_def split: if_split_asm)
next
  case (Some k)
  with assms(1) obtain p s x where p: "bt_get (ab_positions b) k = Some p" "bt_get (pn_lots p) (ba_lot_id a) = Some s"
    and c: "c = b\<lparr>ab_positions := bt_insert k
        (p\<lparr>pn_lots := bt_insert (ba_lot_id a) (s\<lparr>ls_lot := x\<rparr>) (pn_lots p)\<rparr>) (ab_positions b)\<rparr>"
    and x: "lx_open_quantity x = lx_open_quantity (ls_lot s)"
    by (auto simp: apply_adjustment_def rbind_eq_Inr index_or_panic_def ok_or_eq_Inr Let_def)
  note at = position_atI [OF p(1)]
  from assms(2) have "position_ok (position_at b k)" by (simp add: book_ok_def del: split_paired_All)
  then have wf: "bt_wf (pn_lots p)" by (simp add: at position_ok_def)
  have "gist (p\<lparr>pn_lots := bt_insert (ba_lot_id a) (s\<lparr>ls_lot := x\<rparr>) (pn_lots p)\<rparr>) = gist p"
    by (rule gist_lots, rule values_replace [OF wf p(2)]) (simp_all add: x wf)
  then show ?thesis unfolding c by (intro alike_insert) (simp_all add: at)
qed

lemma apply_encumbrance_alike: "apply_encumbrance refs x b = Inr c \<Longrightarrow> alike ks b c"
  by (cases x) (auto simp: apply_encumbrance_def rbind_eq_Inr Let_def gist_def trade_val_def open_quantities_def
      position_ok_def intro!: alike_adjust)

lemma apply_sources_alike: "alike ks b (apply_sources body b)"
proof -
  have "alike ks b (b\<lparr>ab_positions := fold (\<lambda>k. bt_adjust k (\<lambda>p. p\<lparr>pn_opened_from := es\<rparr>)) js (ab_positions b)\<rparr>)" for js es
  proof (induction js arbitrary: b)
    case (Cons k js)
    let ?c = "b\<lparr>ab_positions := bt_adjust k (\<lambda>p. p\<lparr>pn_opened_from := es\<rparr>) (ab_positions b)\<rparr>"
    have "alike ks b ?c" by (rule alike_adjust) (simp_all add: gist_def trade_val_def open_quantities_def position_ok_def)
    with Cons.IH [of ?c] show ?case by (auto intro: alike_trans)
  qed simp
  then show ?thesis by (simp add: apply_sources_def)
qed

lemma set_records_positions: "set_records body refs s = (b', cs') \<Longrightarrow> ab_positions b' = ab_positions (fst s)"
  by (auto simp: set_records_def Let_def split: prod.splits)

lemma close_entry_positions [simp]: "ab_positions (close_entry e first b) = ab_positions b"
  by (simp add: close_entry_def Let_def split: prod.splits)

definition buried_keys :: "entry_body \<Rightarrow> pos_key set" where
  "buried_keys body = (\<lambda>(instrument, side). (instrument, side, [])) ` set (by_tombstones body)"

lemma buried_keys_iff [simp]:
  "(instrument, side, sleeve) \<in> buried_keys body \<longleftrightarrow> sleeve = [] \<and> (instrument, side) \<in> set (by_tombstones body)"
  by (auto simp: buried_keys_def)

lemma change_position_alike:
  assumes "change_position e refs previous k s = Inr t"
  shows "alike (buried_keys (et_body e)) (fst s) (fst t)"
  using assms
  by (cases s; cases k)
     (auto simp: change_position_def rbind_eq_Inr Let_def position_at_def gist_def trade_val_def open_quantities_def
        position_ok_def intro!: alike_insert split: option.split)

subsection \<open>The lines\<close>

definition line_val :: "pos_key \<Rightarrow> movement_line \<Rightarrow> rat" where
  "line_val k line = (if line_key line = k then wire_val (ml_quantity line) else 0)"

definition lot_line_val :: "pos_key \<Rightarrow> movement_line \<Rightarrow> rat" where
  "lot_line_val k line = (if names_lot line then line_val k line else 0)"

lemma apply_line_moves:
  assumes "apply_line kn sales refs n lenient line b = Inr c" "book_ok b"
  shows "book_ok c" "held_val c k = held_val b k + line_val k line"
    "line_key line \<noteq> k \<Longrightarrow> position_at c k = position_at b k"
proof -
  define j where "j = line_key line"
  have p: "(case bt_get (ab_positions b) j of None \<Rightarrow> position_new j | Some p \<Rightarrow> p) = position_at b j"
    by (simp add: position_at_def)
  from assms(1) obtain q carried ref p1 p2 where
    q: "required (''the line on '' @ ml_instrument_id line @ [CHR 0x27] @ ''s quantity'') (ml_quantity line) = Inr q"
    and s: "add_to_bucket line q ((position_at b j)\<lparr>pn_removed := False\<rparr>) = Inr p1"
      "apply_lot line q carried ref n lenient (sale_for kn sales (ml_instrument_id line)) p1 = Inr p2"
    and c: "c = b\<lparr>ab_positions := bt_insert j p2 (ab_positions b)\<rparr>"
    unfolding apply_line_def by (auto simp: rbind_eq_Inr Let_def p j_def [symmetric])
  from assms(2) have "position_ok (position_at b j)" by (simp add: book_ok_def del: split_paired_All)
  then have ok: "position_ok ((position_at b j)\<lparr>pn_removed := False\<rparr>)" by (simp add: position_ok_def)
  note m = add_to_bucket_moves [OF s(1) ok] and f = apply_lot_frame [OF s(2)]
  have at: "position_at c i = (if i = j then p2 else position_at b i)" for i
    by (simp add: position_at_insert [of _ j p2 b] c)
  show "book_ok c" using assms(2) f(2) [OF m(2)] by (simp add: book_ok_def at del: split_paired_All)
  have "trade_val p2 = trade_val (position_at b j) + wire_val (ml_quantity line)"
    using f(1) [OF m(2)] m(1) required_val [OF q] by (simp add: trade_val_def)
  then show "held_val c k = held_val b k + line_val k line" by (simp add: held_val_def at line_val_def j_def)
  show "line_key line \<noteq> k \<Longrightarrow> position_at c k = position_at b k" by (simp add: at j_def)
qed

lemma apply_lines_move:
  assumes "rfold (apply_line kn sales refs n lenient) lines b = Inr c" "book_ok b"
  shows "book_ok c \<and> held_val c k = held_val b k + (\<Sum>line\<leftarrow>lines. line_val k line)
    \<and> (k \<notin> line_key ` set lines \<longrightarrow> position_at c k = position_at b k)"
  using assms
proof (induction lines arbitrary: b)
  case (Cons line lines)
  then obtain d where d: "apply_line kn sales refs n lenient line b = Inr d"
      "rfold (apply_line kn sales refs n lenient) lines d = Inr c" by (auto simp: rbind_eq_Inr)
  note m = apply_line_moves [OF d(1) Cons.prems(2)]
  from Cons.IH [OF d(2) m(1)] m(2,3) [of k] show ?case by auto
qed simp

subsection \<open>An entry\<close>

text \<open>The positions whose quantity, lots or removal an entry may change.\<close>

definition moved_keys :: "entry_body \<Rightarrow> pos_key set" where
  "moved_keys body = line_key ` set (by_lines body) \<union> buried_keys body"

lemma moved_keys_touched: "moved_keys body \<subseteq> set (book_touched b body)"
  by (auto simp: book_touched_def moved_keys_def buried_keys_def)

lemma apply_numbered_moves:
  assumes "apply_numbered kn e lenient previous refs first last_sequence b = Inr (b', cs')" "book_ok b"
  shows "book_ok b'" "held_val b' k = held_val b k + (\<Sum>line\<leftarrow>by_lines (et_body e). line_val k line)"
    "k \<notin> moved_keys (et_body e) \<Longrightarrow> gist (position_at b' k) = gist (position_at b k)
       \<and> pn_removed (position_at b' k) = pn_removed (position_at b k)"
proof -
  let ?body = "et_body e" and ?ks = "buried_keys (et_body e)"
  from assms(1) obtain b1 b2 b3 b4 cs4 b5 cs5 l where s:
    "rfold (apply_line kn (sales_of ?body (em_effective_date (et_meta e)) (ab_account_id b) (ab_ledger b))
        refs (et_first_sequence e) lenient) (by_lines ?body) b = Inr b1"
    "rfold (apply_adjustment ?body refs lenient) (by_basis_adjustments ?body) (mark_awaited kn ?body b1) = Inr b2"
    "rfold (apply_encumbrance refs) (by_encumbrances ?body) b2 = Inr b3"
    "rfold (change_position e refs previous) (book_touched b ?body)
        (apply_sources ?body b3, changes_of first last_sequence) = Inr (b4, cs4)"
    "set_records ?body refs (b4, cs4) = (b5, cs5)"
    "b' = close_entry e first (b5\<lparr>ab_ledger := l\<rparr>)"
    by (rule apply_numbered_stages)
  note lines = apply_lines_move [OF s(1) assms(2)]
  have a1: "alike ?ks b1 (mark_awaited kn ?body b1)" by (rule mark_awaited_alike)
  have a2: "alike ?ks (mark_awaited kn ?body b1) b2"
    using rfold_alike [where g = id, OF s(2)] alike_ok [OF a1] lines apply_adjustment_alike by auto
  have a3: "alike ?ks b2 b3"
    using rfold_alike [where g = id, OF s(3)] alike_ok [OF a2] alike_ok [OF a1] lines apply_encumbrance_alike by auto
  have a4: "alike ?ks b3 (apply_sources ?body b3)" by (rule apply_sources_alike)
  have a5: "alike ?ks (apply_sources ?body b3) b4"
    using rfold_alike [where g = fst, OF s(4)] alike_ok [OF a4] alike_ok [OF a3] alike_ok [OF a2] alike_ok [OF a1]
      lines change_position_alike by fastforce
  have a6: "alike ?ks b4 b'"
    by (rule alike_positions) (simp add: s(6) set_records_positions [OF s(5)])
  from a1 a2 a3 a4 a5 a6 have a: "alike ?ks b1 b'" by (blast intro: alike_trans)
  show "book_ok b'" using alike_ok [OF a] lines by blast
  show "held_val b' k = held_val b k + (\<Sum>line\<leftarrow>by_lines ?body. line_val k line)" using alikeD(1) [OF a] lines by simp
  assume k: "k \<notin> moved_keys ?body"
  then have "k \<notin> ?ks" "k \<notin> line_key ` set (by_lines ?body)" by (simp_all add: moved_keys_def)
  with lines have "position_at b1 k = position_at b k" by blast
  with a \<open>k \<notin> ?ks\<close> show "gist (position_at b' k) = gist (position_at b k)
      \<and> pn_removed (position_at b' k) = pn_removed (position_at b k)"
    unfolding alike_def by (simp del: split_paired_All)
qed

lemma touched_chains [simp]: "book_touched (b\<lparr>ab_chains := x\<rparr>) body = book_touched b body"
  by (simp add: book_touched_def lot_owner_def)

lemma position_at_chains [simp]: "position_at (b\<lparr>ab_chains := x\<rparr>) k = position_at b k"
  by (simp add: position_at_def)

lemma held_val_chains [simp]: "held_val (b\<lparr>ab_chains := x\<rparr>) k = held_val b k"
  by (simp add: held_val_def)

lemma book_ok_chains [simp]: "book_ok (b\<lparr>ab_chains := x\<rparr>) = book_ok b"
  by (simp add: book_ok_def)

lemma apply_entry_moves:
  assumes "apply_entry kn e lenient b = Inr (b', cs)" "book_ok b"
  shows "book_ok b'" "held_val b' k = held_val b k + (\<Sum>line\<leftarrow>by_lines (et_body e). line_val k line)"
    "k \<notin> moved_keys (et_body e) \<Longrightarrow> gist (position_at b' k) = gist (position_at b k)
       \<and> pn_removed (position_at b' k) = pn_removed (position_at b k)"
proof -
  from assms(1) obtain previous refs first and n :: numbering where
    "apply_numbered kn e lenient previous refs first (nb_sequence n - 1) (b\<lparr>ab_chains := nb_chains n\<rparr>) = Inr (b', cs)"
    by (rule apply_entry_stages)
  note m = apply_numbered_moves [OF this]
  from m(1,2) assms(2) show "book_ok b'" "held_val b' k = held_val b k + (\<Sum>line\<leftarrow>by_lines (et_body e). line_val k line)"
    by simp_all
  from m(3) [of k] assms(2) show "k \<notin> moved_keys (et_body e) \<Longrightarrow> gist (position_at b' k) = gist (position_at b k)
       \<and> pn_removed (position_at b' k) = pn_removed (position_at b k)" by simp
qed

lemma book_new_ok [simp]: "book_ok (book_new account part)"
  by (simp add: book_ok_def position_at_def book_new_def)

lemma replay_moves:
  assumes "replay_from kn es b = Inr b'" "book_ok b"
  shows "book_ok b' \<and> held_val b' k = held_val b k + (\<Sum>e\<leftarrow>es. \<Sum>line\<leftarrow>by_lines (et_body e). line_val k line)"
  using assms
proof (induction es arbitrary: b)
  case (Cons e es)
  then obtain c cs where c: "apply_entry kn e False b = Inr (c, cs)" "replay_from kn es c = Inr b'"
    by (auto simp: rbind_eq_Inr split: prod.splits)
  note m = apply_entry_moves [OF c(1) Cons.prems(2)]
  from Cons.IH [OF c(2) m(1)] m(2) show ?case by simp
qed simp

subsection \<open>Strictness\<close>

text \<open>A lenient entry is refused less and does the same: what a strict one does, it does.\<close>

definition refines :: "'e + 's \<Rightarrow> 'e + 's \<Rightarrow> bool" where
  "refines strict lenient \<longleftrightarrow> (\<forall>s. strict = Inr s \<longrightarrow> lenient = Inr s)"

lemma refines_refl [simp]: "refines r r" by (simp add: refines_def)

lemma refines_bind: "refines r r' \<Longrightarrow> (\<And>s. refines (f s) (f' s)) \<Longrightarrow> refines (rbind r f) (rbind r' f')"
  by (auto simp: refines_def rbind_eq_Inr)

lemma refines_rfold: "(\<And>x s. refines (f x s) (f' x s)) \<Longrightarrow> refines (rfold f xs s) (rfold f' xs s)"
  by (induction xs arbitrary: s) (auto intro: refines_bind)

lemma refines_if: "(c \<Longrightarrow> refines a a') \<Longrightarrow> (\<not> c \<Longrightarrow> refines b b') \<Longrightarrow> refines (if c then a else b) (if c then a' else b')"
  by simp

lemma apply_lot_refines: "refines (apply_lot line q carried ref n False sale p) (apply_lot line q carried ref n True sale p)"
  by (auto simp: refines_def apply_lot_def open_lot_def move_lot_def rbind_eq_Inr Let_def split: option.splits if_splits)

lemma apply_line_refines: "refines (apply_line kn sales refs n False line b) (apply_line kn sales refs n True line b)"
  unfolding apply_line_def Let_def by (intro refines_bind refines_refl apply_lot_refines)

lemma apply_adjustment_refines: "refines (apply_adjustment body refs False a b) (apply_adjustment body refs True a b)"
proof (cases "lot_owner b (ba_lot_id a)")
  case (Some k)
  have "refines (adjusted_cost False a cost) (adjusted_cost True a cost)" for cost
    by (auto simp: refines_def adjusted_cost_def split: option.splits cost_adjustment.splits if_splits)
  then show ?thesis by (simp add: apply_adjustment_def Some Let_def refines_bind)
qed (simp add: refines_def apply_adjustment_def)

lemma apply_numbered_refines:
  "refines (apply_numbered kn e False previous refs first n b) (apply_numbered kn e True previous refs first n b)"
  unfolding apply_numbered_def Let_def
  by (intro refines_bind refines_refl refines_rfold apply_line_refines apply_adjustment_refines)

lemma apply_entry_lenient:
  assumes "apply_entry kn e False b = Inr r"
  shows "apply_entry kn e True b = Inr r"
proof -
  have "refines (apply_entry kn e False b) (apply_entry kn e True b)"
    unfolding apply_entry_def Let_def
    by (intro refines_bind refines_refl)
       (auto simp: split_beta split: option.split intro!: refines_if apply_numbered_refines)
  with assms show ?thesis by (simp add: refines_def)
qed

lemma resume_replays:
  assumes "replay_from kn es b = Inr c" "\<forall>e \<in> set es. et_first_sequence e \<le> n"
  shows "resume_as_of kn (Some n) None (es @ fs) b = resume_as_of kn (Some n) None fs c"
  using assms
proof (induction es arbitrary: b)
  case (Cons e es)
  then obtain d cs where d: "apply_entry kn e False b = Inr (d, cs)" "replay_from kn es d = Inr c"
    by (auto simp: rbind_eq_Inr split: prod.splits)
  from Cons.IH [OF d(2)] Cons.prems(2) apply_entry_lenient [OF d(1)] show ?case by simp
qed simp

lemma resume_moves:
  assumes "resume_as_of kn upper until es b = Inr b'" "book_ok b"
  defines "taken \<equiv> \<lambda>e. case until of None \<Rightarrow> True | Some day \<Rightarrow> em_effective_date (et_meta e) \<le> day"
    and "told \<equiv> \<lambda>e. case upper of None \<Rightarrow> True | Some n \<Rightarrow> et_first_sequence e \<le> n"
  shows "held_val b' k = held_val b k
    + (\<Sum>e\<leftarrow>filter taken (takeWhile told es). \<Sum>line\<leftarrow>by_lines (et_body e). line_val k line)"
  using assms(1,2)
proof (induction es arbitrary: b)
  case (Cons e es)
  show ?case
  proof (cases "told e \<and> taken e")
    case False
    with Cons show ?thesis by (cases "told e") (auto simp: told_def taken_def not_le split: option.splits if_splits)
  next
    case True
    then have "\<not> (case upper of None \<Rightarrow> False | Some n \<Rightarrow> et_first_sequence e > n)"
      "\<not> (case until of None \<Rightarrow> False | Some day \<Rightarrow> em_effective_date (et_meta e) > day)"
      by (auto simp: told_def taken_def not_less split: option.splits)
    with Cons.prems(1) obtain c cs where c: "apply_entry kn e True b = Inr (c, cs)"
        "resume_as_of kn upper until es c = Inr b'" by (auto simp: rbind_eq_Inr split: prod.splits)
    note m = apply_entry_moves [OF c(1) Cons.prems(2)]
    from Cons.IH [OF c(2) m(1)] m(2) True show ?thesis by simp
  qed
qed simp


section \<open>Properties\<close>

text \<open>A position is the sum of its lines and nothing else moves it: replayed as of any
  watermark and any date, its trade-date quantity is the exact sum of the quantities of the lines
  on it, over the entries numbered within the watermark and effective by the date.\<close>

theorem positions_are_the_sum_of_their_lines:
  assumes "as_of kn account part es upper until = Inr b" and "trade_date (position_at b k) = Inr t"
  shows "ex_val t =
    (\<Sum>e\<leftarrow>filter (\<lambda>e. case until of None \<Rightarrow> True | Some day \<Rightarrow> em_effective_date (et_meta e) \<le> day)
            (takeWhile (\<lambda>e. case upper of None \<Rightarrow> True | Some n \<Rightarrow> et_first_sequence e \<le> n) es).
       \<Sum>line\<leftarrow>by_lines (et_body e). if line_key line = k then wire_val (ml_quantity line) else 0)"
proof -
  have "held_val (book_new account part) k = 0"
    by (simp add: held_val_def position_at_def book_new_def)
  with resume_moves [OF assms(1) [unfolded as_of_def] book_new_ok, of k] trade_date_val [OF assms(2)]
  show ?thesis by (simp add: held_val_def line_val_def)
qed

definition cash_entry :: "nat \<Rightarrow> int \<Rightarrow> book_entry" where
  "cash_entry n q = sample_entry\<lparr>et_first_sequence := n, et_body := entry_body_default\<lparr>by_lines :=
     [movement_line_default\<lparr>ml_instrument_id := ''USD'', ml_side := 1, ml_bucket := 1,
       ml_quantity := num_wire (mk q 0)\<rparr>]\<rparr>\<rparr>"

lemma cash_entries_apply:
  obtains b t where "replay knows_nothing ''a1'' ''P0'' [cash_entry 1 5, cash_entry 2 7] = Inr b"
    "as_of knows_nothing ''a1'' ''P0'' [cash_entry 1 5, cash_entry 2 7, cash_entry 3 8] (Some 2) None = Inr b"
    "trade_date (position_at b (''USD'', 1, [])) = Inr t"
proof -
  let ?es = "[cash_entry 1 5, cash_entry 2 7]"
  have "(case replay knows_nothing ''a1'' ''P0'' ?es of Inl _ \<Rightarrow> False
     | Inr b \<Rightarrow> (case trade_date (position_at b (''USD'', 1, [])) of Inl _ \<Rightarrow> False | Inr _ \<Rightarrow> True))"
    by (simp add: entry_evals replay_def cash_entry_def sample_entry_def position_at_def)
  then obtain b t where s: "replay knows_nothing ''a1'' ''P0'' ?es = Inr b"
      "trade_date (position_at b (''USD'', 1, [])) = Inr t" by (auto split: sum.splits)
  from resume_replays [OF s(1) [unfolded replay_replay_from], of 2 "[cash_entry 3 8]"]
  have "as_of knows_nothing ''a1'' ''P0'' (?es @ [cash_entry 3 8]) (Some 2) None = Inr b"
    by (simp add: as_of_def cash_entry_def)
  with s show ?thesis by (auto intro: that)
qed

theorem positions_are_the_sum_of_their_lines_witness:
  "\<exists>b t. as_of knows_nothing ''a1'' ''P0'' [cash_entry 1 5, cash_entry 2 7, cash_entry 3 8] (Some 2) None = Inr b
    \<and> trade_date (position_at b (''USD'', 1, [])) = Inr t \<and> ex_val t = 12"
proof -
  obtain b t where s: "as_of knows_nothing ''a1'' ''P0'' [cash_entry 1 5, cash_entry 2 7, cash_entry 3 8] (Some 2) None = Inr b"
    "trade_date (position_at b (''USD'', 1, [])) = Inr t" by (rule cash_entries_apply)
  have "exact_ok (mk 5 0)" "exact_ok (mk 7 0)" by (simp_all add: whole_number_ok)
  with positions_are_the_sum_of_their_lines [OF s] have "ex_val t = 12"
    by (simp add: cash_entry_def line_key_def sample_entry_def ex_val_def mk_def movement_line_default_def)
  with s show ?thesis by blast
qed

text \<open>C15: What was known at a watermark is what a strict replay of the entries up to it made: the
  lenient reading of an account as of a watermark answers the very book the book held then,
  whatever was journalled since.\<close>

theorem a_watermark_reads_the_book_held_then:
  assumes "replay kn account part es = Inr b" and "\<forall>e \<in> set es. et_first_sequence e \<le> n"
    and "\<forall>e \<in> set fs. n < et_first_sequence e"
  shows "as_of kn account part (es @ fs) (Some n) None = Inr b"
proof -
  have "resume_as_of kn (Some n) None fs b = Inr b" using assms(3) by (cases fs) auto
  with resume_replays [OF assms(1) [unfolded replay_replay_from] assms(2), of fs] show ?thesis
    by (simp add: as_of_def)
qed

theorem a_watermark_reads_the_book_held_then_witness:
  "\<exists>b. replay knows_nothing ''a1'' ''P0'' [cash_entry 1 5, cash_entry 2 7] = Inr b
    \<and> as_of knows_nothing ''a1'' ''P0'' [cash_entry 1 5, cash_entry 2 7, cash_entry 3 8] (Some 2) None = Inr b"
proof -
  obtain b where b: "replay knows_nothing ''a1'' ''P0'' [cash_entry 1 5, cash_entry 2 7] = Inr b" by (rule cash_entries_apply)
  from a_watermark_reads_the_book_held_then [OF b, of 2 "[cash_entry 3 8]"] b show ?thesis
    by (simp add: cash_entry_def)
qed

end
