(* ===== verification/Book_Requests.thy ===== *)
theory Book_Requests
  imports Book_Records
begin

section \<open>The account's commands\<close>

text \<open>
  The requests the account's commands carry (\<open>crates/domain/src/v1.rs\<close>), with every field each
  has, and the enumerations of a break and an encumbrance.
\<close>

subsection \<open>Enumerations\<close>

datatype break_state = BSUnspecified | BSOpen | BSResolved | BSClosed

primrec break_state_no :: "break_state \<Rightarrow> int" where
  "break_state_no BSUnspecified = 0"
| "break_state_no BSOpen = 1"
| "break_state_no BSResolved = 2"
| "break_state_no BSClosed = 3"

definition break_state_of :: "int \<Rightarrow> break_state option" where
  "break_state_of = enum_of break_state_no
     [BSUnspecified, BSOpen, BSResolved, BSClosed]"

datatype break_category = BCUnspecified | BCTradeDateQuantity | BCSettledQuantity | BCCostOrLots
    | BCSettledAgainstPending | BCBookOnly | BCStreetOnly | BCFigure | BCUnrecognizedSecurity

primrec break_category_no :: "break_category \<Rightarrow> int" where
  "break_category_no BCUnspecified = 0"
| "break_category_no BCTradeDateQuantity = 1"
| "break_category_no BCSettledQuantity = 2"
| "break_category_no BCCostOrLots = 3"
| "break_category_no BCSettledAgainstPending = 4"
| "break_category_no BCBookOnly = 5"
| "break_category_no BCStreetOnly = 6"
| "break_category_no BCFigure = 7"
| "break_category_no BCUnrecognizedSecurity = 8"

definition break_category_of :: "int \<Rightarrow> break_category option" where
  "break_category_of = enum_of break_category_no
     [BCUnspecified, BCTradeDateQuantity, BCSettledQuantity, BCCostOrLots, BCSettledAgainstPending, BCBookOnly,
      BCStreetOnly, BCFigure, BCUnrecognizedSecurity]"

datatype cause_category = CCUnspecified | CCUnbookedTrade | CCSettlementTiming | CCCostOrPrice
    | CCCorporateAction | CCFail | CCCustodianError | CCUnknown | CCIncomeReinvested
    | CCValueDateNotBusinessDay

primrec cause_category_no :: "cause_category \<Rightarrow> int" where
  "cause_category_no CCUnspecified = 0"
| "cause_category_no CCUnbookedTrade = 1"
| "cause_category_no CCSettlementTiming = 2"
| "cause_category_no CCCostOrPrice = 3"
| "cause_category_no CCCorporateAction = 4"
| "cause_category_no CCFail = 5"
| "cause_category_no CCCustodianError = 6"
| "cause_category_no CCUnknown = 7"
| "cause_category_no CCIncomeReinvested = 8"
| "cause_category_no CCValueDateNotBusinessDay = 9"

definition cause_category_of :: "int \<Rightarrow> cause_category option" where
  "cause_category_of = enum_of cause_category_no
     [CCUnspecified, CCUnbookedTrade, CCSettlementTiming, CCCostOrPrice, CCCorporateAction, CCFail,
      CCCustodianError, CCUnknown, CCIncomeReinvested, CCValueDateNotBusinessDay]"

datatype check_reason = DRUnspecified | DRWeekend | DRHoliday | DROutsideCoverage

primrec check_reason_no :: "check_reason \<Rightarrow> int" where
  "check_reason_no DRUnspecified = 0"
| "check_reason_no DRWeekend = 1"
| "check_reason_no DRHoliday = 2"
| "check_reason_no DROutsideCoverage = 3"

definition check_reason_of :: "int \<Rightarrow> check_reason option" where
  "check_reason_of = enum_of check_reason_no
     [DRUnspecified, DRWeekend, DRHoliday, DROutsideCoverage]"

datatype encumbrance_kind = EKUnspecified | EKPledged | EKPosted | EKOnLoan | EKBlocked
    | EKRestricted | EKInTransit | EKOther | EKPending | EKRehypothecated | EKBorrowed

primrec encumbrance_kind_no :: "encumbrance_kind \<Rightarrow> int" where
  "encumbrance_kind_no EKUnspecified = 0"
| "encumbrance_kind_no EKPledged = 1"
| "encumbrance_kind_no EKPosted = 2"
| "encumbrance_kind_no EKOnLoan = 3"
| "encumbrance_kind_no EKBlocked = 4"
| "encumbrance_kind_no EKRestricted = 5"
| "encumbrance_kind_no EKInTransit = 6"
| "encumbrance_kind_no EKOther = 7"
| "encumbrance_kind_no EKPending = 8"
| "encumbrance_kind_no EKRehypothecated = 9"
| "encumbrance_kind_no EKBorrowed = 10"

definition encumbrance_kind_of :: "int \<Rightarrow> encumbrance_kind option" where
  "encumbrance_kind_of = enum_of encumbrance_kind_no
     [EKUnspecified, EKPledged, EKPosted, EKOnLoan, EKBlocked, EKRestricted,
      EKInTransit, EKOther, EKPending, EKRehypothecated, EKBorrowed]"

subsection \<open>Messages\<close>

record opening_lot =
  olt_quantity :: "decimal option"
  olt_terms :: "lot_terms option"

record opening_position =
  opo_instrument_id :: string
  opo_side :: int
  opo_trade_date_quantity :: "decimal option"
  opo_settled_quantity :: "decimal option"
  opo_pending :: "pending_settlement list"
  opo_lots :: "opening_lot list"

record opening_request =
  qob_account_id :: string
  qob_as_of_date :: string
  qob_sources :: "opening_source list"
  qob_positions :: "opening_position list"
  qob_reason :: string
  qob_replaces_entry_id :: string
  qob_idempotency_key :: string

record break_request =
  qbr_account_id :: string
  qbr_break_id :: string
  qbr_category :: int
  qbr_differences :: "break_difference list"
  qbr_book_watermark :: "encoded option"
  qbr_street :: "street_ref option"
  qbr_business_date :: string
  qbr_candidate_causes :: "break_cause list"
  qbr_idempotency_key :: string
  qbr_unresolved_identifiers :: "stated_identifier list"
  qbr_subject :: "break_subject option"

record handle_request =
  qhb_account_id :: string
  qhb_break_id :: string
  qhb_confirmed_cause :: "break_cause option"
  qhb_handling :: "break_handling option"
  qhb_reason :: string
  qhb_idempotency_key :: string

record adjustment =
  adj_effective_date :: string
  adj_lines :: "movement_line list"
  adj_basis_adjustments :: "basis_adjustment list"
  adj_event_reference :: string

record reversal =
  rvs_entry_id :: string

record resolved_by =
  rbe_entry_ids :: "string list"

datatype resolution = ByAdjustment adjustment | ByReversal reversal | ByEntries resolved_by | ByExplanation string

record resolve_request =
  qrb_account_id :: string
  qrb_break_ids :: "string list"
  qrb_reason :: string
  qrb_idempotency_key :: string
  qrb_resolution :: "resolution option"

record clear_request =
  qcb_account_id :: string
  qcb_break_ids :: "string list"
  qcb_cleared_at :: "street_ref option"
  qcb_reason :: string
  qcb_idempotency_key :: string

record agreement_figures =
  agf_agreement :: "margin_agreement option"
  agf_figures :: "statement_figures option"
  agf_position_values :: "encoded list"

record figures_request =
  qrf_account_id :: string
  qrf_business_date :: string
  qrf_source :: "street_ref option"
  qrf_agreements :: "agreement_figures list"
  qrf_idempotency_key :: string

record position_encumbrances =
  pen_instrument_id :: string
  pen_side :: int
  pen_encumbrances :: "encumbrance list"

record encumbrances_request =
  qen_account_id :: string
  qen_business_date :: string
  qen_source :: "street_ref option"
  qen_positions :: "position_encumbrances list"
  qen_idempotency_key :: string

datatype attribute_set = BaseCurrency string | LotReliefDefault int | WaitsForCompliance bool | ErrorAccount bool
  | AllocationAccount bool

record attribute_request =
  qsa_account_id :: string
  qsa_reason :: string
  qsa_attribute :: "attribute_set option"

end
