(* ===== verification/Book_Context.thy ===== *)
theory Book_Context
  imports Book_Quantities Book_Requests Order_Requests Calendar_Date Rust_Text
begin

section \<open>What an act knows, and an entry made\<close>

text \<open>
  \<open>Context\<close> of \<open>crates/bor/src/decide.rs\<close> -- what an act knows beside its command -- and \<open>made\<close>, by
  which every act of the book becomes an entry: its draft numbered after the partition's head,
  applied to a copy of the account and checked on it. The identifiers an act mints are random
  (\<open>crates/bor/src/ids.rs\<close>): a supply of them, by prefix and how many were drawn before, is an
  argument of the acts that mint. The kind of user a command was sent for is the bus contract's
  enumeration, which the book reads only for a service account; the deadline's time zone is kept
  as what names it.
\<close>

datatype subject_kind = UserSubject | ServiceAccountSubject

record debt_says =
  db_minimum_denomination :: "exact option"
  db_denomination_increment :: "exact option"
  db_agency :: int
  db_program :: string
  db_pass_through_rate :: "exact option"
  db_stripped_from :: string

record record_says =
  sy_asset_class :: bool
  sy_currency :: bool
  sy_cash :: bool
  sy_code :: string
  sy_provisional :: bool
  sy_referential :: bool
  sy_instrument_type :: int
  sy_expired :: bool
  sy_multiplier :: "exact option"
  sy_debt :: "debt_says option"

definition record_says_default :: record_says where
  "record_says_default =
     \<lparr>sy_asset_class = False, sy_currency = False, sy_cash = False, sy_code = [], sy_provisional = False,
      sy_referential = False, sy_instrument_type = 0, sy_expired = False, sy_multiplier = None, sy_debt = None\<rparr>"

record member_view =
  mv_order_id :: string
  mv_account_id :: string
  mv_instrument_id :: string
  mv_side :: int
  mv_state :: int
  mv_idle :: exact
  mv_instructed :: "string list"
  mv_in_block :: string
  mv_quote_currency :: string
  mv_value_key :: string

record affirmation =
  afm_zone_name :: string
  afm_zone :: encoded
  afm_minutes :: nat

record act_context =
  cx_message_id :: string
  cx_instance_id :: string
  cx_acting_for :: string
  cx_acting_through_delegation :: string
  cx_acting_through_client :: string
  cx_prepared_call_id :: string
  cx_acting_for_kind :: subject_kind
  cx_owner_subject :: string
  cx_algorithm_id :: string
  cx_correlation_id :: string
  cx_event_time_ns :: int
  cx_received_at_ns :: int
  cx_committed_at_ns :: int
  cx_reference_versions :: "(string, int) btree"
  cx_records :: "(string, record_says) btree"
  cx_reference_unavailable :: bool
  cx_control_sequence :: nat
  cx_account_scope :: "string bset option"
  cx_connectivity_allowed :: bool
  cx_account_marks :: "(string, account_attributes) btree"
  cx_members :: "(string, member_view) btree"
  cx_local_record_orders :: "bool option"
  cx_connectivity_demo :: bool
  cx_agent_orders_demo_only :: "bool option"
  cx_affirmation :: "affirmation option"
  cx_factor_taken :: "decimal option"
  cx_factor_row :: factor_row
  cx_factors_unavailable :: bool

subsection \<open>Who acts\<close>

definition is_agents :: "act_context \<Rightarrow> bool" where
  "is_agents cx \<longleftrightarrow> cx_acting_for cx \<noteq> []
     \<and> (cx_acting_through_delegation cx \<noteq> [] \<or> cx_acting_for_kind cx = ServiceAccountSubject)"

definition cx_actor :: "act_context \<Rightarrow> actor" where
  "cx_actor cx = \<lparr>at_kind = Some
     (if cx_acting_for cx = [] then BySystem \<lparr>sya_instance_id = cx_instance_id cx\<rparr>
      else if cx_acting_for_kind cx = ServiceAccountSubject
      then ByService \<lparr>sva_subject = cx_acting_for cx, sva_owner_subject = cx_owner_subject cx,
                      sva_algorithm_id = cx_algorithm_id cx\<rparr>
      else ByPerson \<lparr>pa_subject = cx_acting_for cx, pa_delegation_id = cx_acting_through_delegation cx,
                     pa_client_name = (if cx_acting_through_delegation cx = [] then [] else cx_acting_through_client cx),
                     pa_prepared_call_id = cx_prepared_call_id cx\<rparr>)\<rparr>"

definition cx_cause :: "act_context \<Rightarrow> change_cause" where
  "cx_cause cx =
     \<lparr>cc_instance_id = cx_instance_id cx, cc_acting_for_subject = cx_acting_for cx,
      cc_correlation_id = cx_correlation_id cx, cc_causation_id = cx_message_id cx,
      cc_committed_at_ns = cx_committed_at_ns cx\<rparr>"

definition cx_today :: "act_context \<Rightarrow> string" where
  "cx_today cx = show_date (of_utc_instant (cx_received_at_ns cx))"

definition justified :: "act_context \<Rightarrow> string \<Rightarrow> string \<Rightarrow> store_error + unit" where
  "justified cx reason what =
     (if cx_acting_for cx = [] then Inl (Refused ActorRequired [what] [])
      else if trim reason = [] then Inl (Refused ReasonRequired [what] [])
      else Inr ())"

subsection \<open>What the instruments' records say\<close>

definition references_answered :: "act_context \<Rightarrow> store_error + unit" where
  "references_answered cx = guard_r (Refused ReferenceUnavailable [] []) (\<not> cx_reference_unavailable cx)"

definition not_referential :: "act_context \<Rightarrow> string \<Rightarrow> string \<Rightarrow> store_error + unit" where
  "not_referential cx field instrument =
     (let path = (if field = [] then ''instrument_id'' else field @ ''.instrument_id'')
      in guard_r (Malformed [path] [path, instrument])
           (\<not> (case bt_get (cx_records cx) instrument of None \<Rightarrow> False | Some says \<Rightarrow> sy_referential says)))"

definition instrument_missing :: "act_context \<Rightarrow> string \<Rightarrow> string \<Rightarrow> string list" where
  "instrument_missing cx field instrument =
     (let says = (case bt_get (cx_records cx) instrument of None \<Rightarrow> record_says_default | Some s \<Rightarrow> s)
      in (if sy_asset_class says then [] else [field @ ''.instrument.asset_class''])
         @ (if sy_currency says then [] else [field @ ''.instrument.currency'']))"

definition cx_multiplier :: "act_context \<Rightarrow> string \<Rightarrow> exact" where
  "cx_multiplier cx instrument =
     (case Option.bind (bt_get (cx_records cx) instrument) sy_multiplier of None \<Rightarrow> ex_one | Some m \<Rightarrow> m)"

definition is_debt :: "act_context \<Rightarrow> string \<Rightarrow> bool" where
  "is_debt cx instrument \<longleftrightarrow>
     (case bt_get (cx_records cx) instrument of None \<Rightarrow> False | Some s \<Rightarrow> sy_debt s \<noteq> None)"

definition fill_multiplier :: "act_context \<Rightarrow> string \<Rightarrow> decimal option \<Rightarrow> exact" where
  "fill_multiplier cx instrument factor_used =
     (if \<not> is_debt cx instrument then cx_multiplier cx instrument
      else case read_wire factor_used of
             None \<Rightarrow> hundredth
           | Some factor \<Rightarrow> (case num_multiply ''factor'' hundredth factor of Inl _ \<Rightarrow> hundredth | Inr m \<Rightarrow> m))"

subsection \<open>An entry made\<close>

record draft =
  dr_entry_id :: string
  dr_kind :: string
  dr_effective_date :: string
  dr_reason :: string
  dr_break_ids :: "string list"
  dr_idempotency_key :: string
  dr_actor :: actor
  dr_body :: entry_body

record made_act =
  md_entry :: book_entry
  md_book :: account_book
  md_changes :: book_changes
  md_refusal :: "store_error option"

definition break_instrument :: "break_record \<Rightarrow> string option" where
  "break_instrument r =
     (case brk_subject r of
        None \<Rightarrow> None
      | Some (OnPosition k) \<Rightarrow> Some (pky_instrument_id k)
      | Some (OnFigure k) \<Rightarrow> if fky_instrument_id k = [] then None else Some (fky_instrument_id k))"

definition opened_instrument :: "act \<Rightarrow> string option" where
  "opened_instrument a = (case a of Opened t _ \<Rightarrow> Some (or_instrument_id t) | _ \<Rightarrow> None)"

definition instruments_in :: "entry_body \<Rightarrow> string list" where
  "instruments_in body =
     map ml_instrument_id (by_lines body) @ List.map_filter break_instrument (by_breaks body)
       @ List.map_filter opened_instrument (by_acts body)"

definition drafted :: "account_book \<Rightarrow> nat \<Rightarrow> act_context \<Rightarrow> draft \<Rightarrow> book_entry" where
  "drafted b head cx d =
     \<lparr>et_entry_id = dr_entry_id d, et_account_id = ab_account_id b, et_partition = ab_partition b,
      et_first_sequence = head + 1, et_last_sequence = 0, et_message_id = cx_message_id cx,
      et_idempotency_key = dr_idempotency_key d,
      et_meta = \<lparr>em_entry_id = dr_entry_id d, em_kind = dr_kind d, em_actor = Some (dr_actor d),
        em_event_time_ns = cx_event_time_ns cx, em_received_at_ns = cx_received_at_ns cx,
        em_effective_date = dr_effective_date d, em_control_sequence = cx_control_sequence cx,
        em_reference_versions = map (\<lambda>(i, v). \<lparr>rv_instrument_id = i, rv_version = v\<rparr>)
          (filter (\<lambda>(i, _). List.member (instruments_in (dr_body d)) i) (cx_reference_versions cx)),
        em_reason = dr_reason d, em_break_ids = dr_break_ids d, em_idempotency_key = dr_idempotency_key d\<rparr>,
      et_cause = cx_cause cx, et_body = dr_body d\<rparr>"

definition made :: "known \<Rightarrow> account_book \<Rightarrow> nat \<Rightarrow> act_context \<Rightarrow> draft \<Rightarrow> store_error + made_act" where
  "made kn b head cx d =
     (let e = drafted b head cx d in
      rbind (apply_entry kn e False b) (\<lambda>(b', cs).
      rbind (check_book kn (et_body e) b') (\<lambda>_.
        Inr \<lparr>md_entry = e\<lparr>et_last_sequence := cs_last_sequence cs\<rparr>, md_book = b', md_changes = cs,
             md_refusal = None\<rparr>)))"

end
