(* ===== verification/Book_Balance.thy ===== *)
theory Book_Balance
  imports Book_Context
begin

section \<open>Lots sum to the quantity\<close>

text \<open>
  W9's sixth invariant (\<open>Book::check\<close> of \<open>crates/bor/src/book.rs\<close>): a position's open lots sum to its
  trade-date quantity, and each is on the position's side. \<open>check\<close> looks at the positions an entry
  touches only; here it is an invariant of the book, over every run of the acts \<open>made\<close> makes.
\<close>

text \<open>The books the acts make, where no instrument but some was ever the account's base currency:
  the base currency alone is a balance with no lots to sum.\<close>

inductive made_book :: "known \<Rightarrow> (string \<Rightarrow> bool) \<Rightarrow> account_book \<Rightarrow> bool" for kn base where
  entered: "made_book kn base (book_new account part)"
| act: "made_book kn base b \<Longrightarrow> made kn b head cx d = Inr m \<Longrightarrow> (\<And>i. is_base kn (md_book m) i \<Longrightarrow> base i)
    \<Longrightarrow> made_book kn base (md_book m)"

definition quantity_on_side :: "int \<Rightarrow> rat \<Rightarrow> bool" where
  "quantity_on_side side q \<longleftrightarrow> (if side = holding_side_no HSLong then 0 \<le> q else q \<le> 0)"

definition sides_ok :: "position_state \<Rightarrow> bool" where
  "sides_ok p \<longleftrightarrow> (\<forall>q \<in> set (open_quantities p). quantity_on_side (pn_side p) (wire_val q))"

definition lots_balanced :: "position_state \<Rightarrow> bool" where
  "lots_balanced p \<longleftrightarrow> (has_open_lots p \<longrightarrow> lots_val p = trade_val p)"

lemma has_open_lots_quantities: "has_open_lots p \<longleftrightarrow> list_ex (\<lambda>q. \<not> wire_is_zero q) (open_quantities p)"
  by (auto simp: has_open_lots_def open_quantities_def list_ex_iff)

lemma lots_val_quantities: "lots_val p = (\<Sum>q\<leftarrow>open_quantities p. wire_val q)"
  by (simp add: lots_val_def open_val_def open_quantities_def o_def)

lemma gist_balanced:
  assumes "gist p = gist q"
  shows "sides_ok p = sides_ok q" "lots_balanced p = lots_balanced q"
  using assms by (simp_all add: gist_def sides_ok_def lots_balanced_def has_open_lots_quantities lots_val_quantities)

lemma on_its_side_val: "on_its_side side q \<longleftrightarrow> quantity_on_side side (ex_val q)"
  by (simp add: on_its_side_def quantity_on_side_def is_negative_val not_less)

lemma trade_date_ok: "trade_date p = Inr t \<Longrightarrow> exact_ok t"
  unfolding trade_date_def
  by (auto simp: rbind_eq_Inr intro: num_add_ok elim!: rfold_invariant [where P = exact_ok])

lemma lots_open_ok: "lots_open p = Inr t \<Longrightarrow> exact_ok t"
  unfolding lots_open_def
  by (erule rfold_invariant [where P = exact_ok]) (auto simp: rbind_eq_Inr intro: num_add_ok)

lemma trade_date_both: "trade_date p = Inr t \<Longrightarrow> exact_ok t \<and> trade_val p = ex_val t"
  by (simp add: trade_date_ok trade_date_val)

lemma lots_open_both: "lots_open p = Inr t \<Longrightarrow> exact_ok t \<and> lots_val p = ex_val t"
  by (simp add: lots_open_ok lots_open_val)

text \<open>What a checked position holds.\<close>

lemma check_position_balanced:
  assumes "check_position kn b body k p = Inr u"
  shows "sides_ok p" "\<not> is_base kn b (fst k) \<Longrightarrow> lots_balanced p"
proof -
  from assms have sides: "rfold (\<lambda>s _. rbind (required ''lots.open_quantity'' (lx_open_quantity (ls_lot s)))
        (\<lambda>q. guard_r (Invalid [lx_lot_id (ls_lot s)]) (on_its_side (pn_side p) q))) (bt_values (pn_lots p)) () = Inr ()"
    by (auto simp: check_position_def rbind_eq_Inr Let_def)
  have "\<forall>s \<in> set ss. quantity_on_side (pn_side p) (wire_val (lx_open_quantity (ls_lot s)))"
    if "rfold (\<lambda>s _. rbind (required ''lots.open_quantity'' (lx_open_quantity (ls_lot s)))
        (\<lambda>q. guard_r (Invalid [lx_lot_id (ls_lot s)]) (on_its_side (pn_side p) q))) ss () = Inr ()" for ss
    using that by (induction ss) (auto simp: rbind_eq_Inr guard_r_eq_Inr on_its_side_val dest!: required_val)
  from this [OF sides] show "sides_ok p" by (simp add: sides_ok_def open_quantities_def)
  assume "\<not> is_base kn b (fst k)"
  with assms show "lots_balanced p"
    by (auto simp: check_position_def lots_balanced_def rbind_eq_Inr guard_r_eq_Inr Let_def ex_eq_val
        dest!: trade_date_both lots_open_both)
qed

lemma check_book_position:
  assumes "check_book kn body b = Inr ()" "k \<in> set (book_touched b body)" "bt_get (ab_positions b) k = Some p" "\<not> pn_removed p"
  shows "check_position kn b body k p = Inr ()"
proof -
  have "case bt_get (ab_positions b) k of None \<Rightarrow> True
      | Some p \<Rightarrow> pn_removed p \<or> check_position kn b body k p = Inr ()"
    if "rfold (\<lambda>k _. case bt_get (ab_positions b) k of None \<Rightarrow> Inr ()
        | Some p \<Rightarrow> if pn_removed p then Inr () else check_position kn b body k p) ks () = Inr ()" "k \<in> set ks" for ks
    using that by (induction ks) (auto simp: rbind_eq_Inr split: option.splits if_splits)
  from this [OF assms(1) [unfolded check_book_def] assms(2)] assms(3,4) show ?thesis by simp
qed

lemma made_stages:
  assumes "made kn b head cx d = Inr m"
  shows "apply_entry kn (drafted b head cx d) False b = Inr (md_book m, md_changes m)"
    "check_book kn (dr_body d) (md_book m) = Inr ()" "md_refusal m = None"
    "md_entry m = (drafted b head cx d)\<lparr>et_last_sequence := cs_last_sequence (md_changes m)\<rparr>"
  using assms by (auto simp: made_def rbind_eq_Inr drafted_def split: prod.splits)

lemma drafted_body [simp]: "et_body (drafted b head cx d) = dr_body d"
  by (simp add: drafted_def)

text \<open>What every position not removed keeps.\<close>

definition kept_balanced :: "(string \<Rightarrow> bool) \<Rightarrow> account_book \<Rightarrow> bool" where
  "kept_balanced base b \<longleftrightarrow> (\<forall>k. \<not> pn_removed (position_at b k) \<longrightarrow>
     sides_ok (position_at b k) \<and> (\<not> base (fst k) \<longrightarrow> lots_balanced (position_at b k)))"

lemma new_balanced [simp]: "sides_ok (position_new k)" "lots_balanced (position_new k)" "\<not> pn_removed (position_new k)"
  by (cases k; simp add: sides_ok_def open_quantities_def lots_balanced_def has_open_lots_def position_new_def)+

lemma made_book_balanced: "made_book kn base b \<Longrightarrow> book_ok b \<and> kept_balanced base b"
proof (induction rule: made_book.induct)
  case (entered account part)
  have "position_at (book_new account part) k = position_new k" for k by (simp add: position_at_def book_new_def)
  then show ?case by (simp add: kept_balanced_def)
next
  case (act b head cx d m)
  note s = made_stages [OF act.hyps(2)]
  note moves = apply_entry_moves [OF s(1)]
  have "sides_ok (position_at (md_book m) k) \<and> (\<not> base (fst k) \<longrightarrow> lots_balanced (position_at (md_book m) k))"
    if kept: "\<not> pn_removed (position_at (md_book m) k)" for k
  proof (cases "k \<in> moved_keys (dr_body d)")
    case False
    with moves(3) [of k] act.IH have "gist (position_at (md_book m) k) = gist (position_at b k)"
      "pn_removed (position_at (md_book m) k) = pn_removed (position_at b k)" by simp_all
    with gist_balanced [OF this(1)] act.IH kept show ?thesis by (simp add: kept_balanced_def del: split_paired_All)
  next
    case True
    show ?thesis
    proof (cases "bt_get (ab_positions (md_book m)) k")
      case None
      then show ?thesis by (simp add: position_at_def)
    next
      case (Some p)
      with kept have p: "position_at (md_book m) k = p" "\<not> pn_removed p" by (simp_all add: position_at_def)
      from True moved_keys_touched have "k \<in> set (book_touched (md_book m) (dr_body d))" by blast
      from check_position_balanced [OF check_book_position [OF s(2) this Some p(2)]] act.hyps(3) show ?thesis
        by (auto simp: p(1))
    qed
  qed
  with moves(1) act.IH show ?case by (simp add: kept_balanced_def del: split_paired_All)
qed

section \<open>Properties\<close>

text \<open>C6: Over every run of the book's acts a position's open lots sum to its trade-date quantity,
  to the last digit, and each is on the position's side: whichever positions an act named, and
  though what it checks is only those. A merged record's tombstone excepted, and an instrument that
  was the account's base currency.\<close>

theorem open_lots_sum_to_the_quantity:
  assumes "made_book kn base b" and "\<not> pn_removed (position_at b k)"
  shows "(\<forall>q \<in> set (open_quantities (position_at b k)). quantity_on_side (pn_side (position_at b k)) (wire_val q))
    \<and> (\<not> base (fst k) \<and> has_open_lots (position_at b k) \<longrightarrow> lots_val (position_at b k) = trade_val (position_at b k))"
proof -
  from made_book_balanced [OF assms(1)] assms(2)
  have "sides_ok (position_at b k)" "\<not> base (fst k) \<longrightarrow> lots_balanced (position_at b k)"
    by (simp_all add: kept_balanced_def del: split_paired_All)
  then show ?thesis by (simp add: sides_ok_def lots_balanced_def)
qed


definition plain_context :: act_context where
  "plain_context =
     \<lparr>cx_message_id = ''m1'', cx_instance_id = ''oms-1'', cx_acting_for = ''alice'', cx_acting_through_delegation = [],
      cx_acting_through_client = [], cx_prepared_call_id = [], cx_acting_for_kind = UserSubject, cx_owner_subject = [],
      cx_algorithm_id = [], cx_correlation_id = [], cx_event_time_ns = 0, cx_received_at_ns = 0, cx_committed_at_ns = 0,
      cx_reference_versions = [], cx_records = [], cx_reference_unavailable = False, cx_control_sequence = 0,
      cx_account_scope = None, cx_connectivity_allowed = False, cx_account_marks = [], cx_members = [],
      cx_local_record_orders = None, cx_connectivity_demo = False, cx_agent_orders_demo_only = None,
      cx_affirmation = None, cx_factor_taken = None, cx_factor_row = factor_row_default, cx_factors_unavailable = False\<rparr>"

definition lot_draft :: draft where
  "lot_draft =
     \<lparr>dr_entry_id = ''ENT-1'', dr_kind = ''adjustment'', dr_effective_date = ''2026-10-14'', dr_reason = ''found'',
      dr_break_ids = [], dr_idempotency_key = [], dr_actor = \<lparr>at_kind = None\<rparr>,
      dr_body = entry_body_default\<lparr>by_lines := [sample_line]\<rparr>\<rparr>"

theorem open_lots_sum_to_the_quantity_witness:
  "\<exists>m. made knows_nothing (book_new ''a1'' ''P0'') 0 plain_context lot_draft = Inr m
    \<and> lots_val (position_at (md_book m) (''INS-1'', 1, [])) = trade_val (position_at (md_book m) (''INS-1'', 1, []))"
proof -
  have "(case made knows_nothing (book_new ''a1'' ''P0'') 0 plain_context lot_draft of Inl _ \<Rightarrow> False
     | Inr m \<Rightarrow> \<not> pn_removed (position_at (md_book m) (''INS-1'', 1, [])) \<and> has_open_lots (position_at (md_book m) (''INS-1'', 1, []))
         \<and> (\<forall>i. \<not> is_base knows_nothing (md_book m) i))"
    by (simp add: entry_evals made_def drafted_def lot_draft_def plain_context_def sample_line_def instruments_in_def
      cx_cause_def wire_is_zero_def check_book_def check_position_def has_open_lots_def is_base_def on_its_side_def
      is_negative_def negated_def lots_open_def lot_keys_def guard_r_def ex_eq_val position_at_def holding_side_no.simps)
  then obtain m where m: "made knows_nothing (book_new ''a1'' ''P0'') 0 plain_context lot_draft = Inr m"
    "\<not> pn_removed (position_at (md_book m) (''INS-1'', 1, []))" "has_open_lots (position_at (md_book m) (''INS-1'', 1, []))"
    "\<forall>i. \<not> is_base knows_nothing (md_book m) i" by (auto split: sum.splits)
  have "made_book knows_nothing (\<lambda>_. False) (md_book m)"
    by (rule made_book.act [OF made_book.entered m(1)]) (use m(4) in simp)
  from open_lots_sum_to_the_quantity [OF this m(2)] m(1,3) show ?thesis by blast
qed

end
