(* ===== verification/Book_Opening.thy ===== *)
theory Book_Opening
  imports Book_Balance
begin

section \<open>The opening balance\<close>

text \<open>
  \<open>opening_balance\<close> of \<open>crates/bor/src/decide.rs\<close>: what it requires of the balance
  (\<open>opening_missing\<close>), the lines each position's buckets and lots are opened by (\<open>opening_lines\<close>,
  whose two cursors are walked together here as the two lists left), and the entry. The
  identifiers it mints come from a supply \<open>mints\<close>, by prefix and how many were drawn before.
\<close>

type_synonym minting = "string \<Rightarrow> nat \<Rightarrow> string"

definition MINT_ENTRY :: string where "MINT_ENTRY = ''ENT''"
definition MINT_LOT :: string where "MINT_LOT = ''LOT''"
definition MINT_BREAK :: string where "MINT_BREAK = ''BRK''"

subsection \<open>What every act checks\<close>

definition at_index :: "string \<Rightarrow> nat \<Rightarrow> string" where
  "at_index name i = name @ ''['' @ show_uint (int i) @ '']''"

definition date_field :: "string \<Rightarrow> string \<Rightarrow> store_error + unit" where
  "date_field field text = guard_r (Invalid [field, text]) (is_date text)"

definition side_field :: "string \<Rightarrow> int \<Rightarrow> store_error + holding_side" where
  "side_field field v =
     (case holding_side_of v of
        Some HSLong \<Rightarrow> Inr HSLong
      | Some HSShort \<Rightarrow> Inr HSShort
      | _ \<Rightarrow> Inl (Invalid [field]))"

definition side_admits :: "holding_side \<Rightarrow> exact \<Rightarrow> bool" where
  "side_admits side q = (if side = HSShort then \<not> is_negative (negated q) else \<not> is_negative q)"

definition opening_required :: "account_book \<Rightarrow> store_error + string \<times> string" where
  "opening_required b = ok_or (Refused NoOpeningBalance [ab_account_id b] []) (ab_opening b)"

definition attributes_of :: "account_book \<Rightarrow> account_attributes" where
  "attributes_of b =
     (case ab_attributes b of
        Some a \<Rightarrow> a
      | None \<Rightarrow> account_attributes_default\<lparr>aa_account_id := ab_account_id b, aa_waits_for_compliance := True\<rparr>)"

definition first_attributes :: "account_book \<Rightarrow> bool" where
  "first_attributes b \<longleftrightarrow> ab_attributes b = None"

definition incomplete :: "string \<Rightarrow> string list \<Rightarrow> store_error" where
  "incomplete what paths = Refused Incomplete [what] paths"

definition num_optional :: "string \<Rightarrow> decimal option \<Rightarrow> store_error + exact option" where
  "num_optional field wire =
     (case wire of None \<Rightarrow> Inr None | Some d \<Rightarrow> rbind (required field (Some d)) (\<lambda>x. Inr (Some x)))"

subsection \<open>What an opening balance leaves out\<close>

definition terms_missing :: "string \<Rightarrow> lot_terms option \<Rightarrow> string \<Rightarrow> string list" where
  "terms_missing field terms inside =
     (if Option.bind terms lt_cost = None then [field @ inside @ ''.cost''] else [])
     @ (if (case terms of None \<Rightarrow> True | Some t \<Rightarrow> trim (lt_acquired_date t) = [])
        then [field @ inside @ ''.acquired_date''] else [])"

definition ok_of :: "'e + 'a \<Rightarrow> 'a option" where
  "ok_of r = (case r of Inl _ \<Rightarrow> None | Inr a \<Rightarrow> Some a)"

definition rest_less :: "pending_settlement \<Rightarrow> exact option \<Rightarrow> exact option" where
  "rest_less p rest =
     Option.bind rest (\<lambda>r. Option.bind (read_wire (pse_quantity p)) (\<lambda>q. ok_of (checked_add r (negated q))))"

definition opening_rest :: "opening_position \<Rightarrow> exact option" where
  "opening_rest p =
     Option.bind (read_wire (opo_trade_date_quantity p)) (\<lambda>trade.
     Option.bind (read_wire (opo_settled_quantity p)) (\<lambda>settled.
       fold rest_less (opo_pending p) (ok_of (checked_add trade (negated settled)))))"

definition lots_apply :: "string \<Rightarrow> record_says option \<Rightarrow> bool" where
  "lots_apply base says \<longleftrightarrow>
     (case says of None \<Rightarrow> False
      | Some s \<Rightarrow> sy_asset_class s \<and> \<not> (sy_cash s \<and> base \<noteq> [] \<and> sy_code s = base))"

definition pending_missing :: "string \<Rightarrow> nat \<times> pending_settlement \<Rightarrow> string list" where
  "pending_missing field ip =
     (let (place, p) = ip; path = field @ ''.'' @ at_index ''pending'' place
      in (if pse_quantity p = None then [path @ ''.quantity''] else [])
         @ (if trim (pse_value_date p) = [] then [path @ ''.value_date''] else []))"

definition lot_missing :: "string \<Rightarrow> nat \<times> opening_lot \<Rightarrow> string list" where
  "lot_missing field il =
     (let (place, l) = il; path = field @ ''.'' @ at_index ''lots'' place
      in (if olt_quantity l = None then [path @ ''.quantity''] else [])
         @ terms_missing path (olt_terms l) ''.terms'')"

definition numbered_list :: "'a list \<Rightarrow> (nat \<times> 'a) list" where
  "numbered_list xs = zip [0..<length xs] xs"

definition position_missing :: "act_context \<Rightarrow> string \<Rightarrow> nat \<times> opening_position \<Rightarrow> string list" where
  "position_missing cx base ip =
     (let (index, p) = ip; field = at_index ''positions'' index
      in (if opo_instrument_id p = [] then [field @ ''.instrument_id'']
          else instrument_missing cx field (opo_instrument_id p))
         @ (if opo_side p = holding_side_no HSUnspecified then [field @ ''.side''] else [])
         @ (if opo_trade_date_quantity p = None then [field @ ''.trade_date_quantity''] else [])
         @ (if opo_settled_quantity p = None then [field @ ''.settled_quantity''] else [])
         @ concat (map (pending_missing field) (numbered_list (opo_pending p)))
         @ (case opening_rest p of None \<Rightarrow> [] | Some rest \<Rightarrow> if is_zero rest then [] else [field @ ''.pending''])
         @ (if opo_lots p = [] \<and> lots_apply base (bt_get (cx_records cx) (opo_instrument_id p))
            then [field @ ''.lots''] else [])
         @ concat (map (lot_missing field) (numbered_list (opo_lots p))))"

definition opening_missing :: "account_book \<Rightarrow> act_context \<Rightarrow> opening_request \<Rightarrow> string list" where
  "opening_missing b cx q =
     (let base = (case ab_attributes b of None \<Rightarrow> [] | Some a \<Rightarrow> aa_base_currency_code a)
      in (if trim (qob_as_of_date q) = [] then [''as_of_date''] else [])
         @ (if qob_sources q = [] then [''sources'']
            else if qob_positions q = [] then []
            else concat (map (\<lambda>(i, s). if trim (osr_name s) = [] then [at_index ''sources'' i @ ''.name''] else [])
                   (numbered_list (qob_sources q))))
         @ concat (map (position_missing cx base) (numbered_list (qob_positions q))))"

subsection \<open>A position's lines\<close>

record opening_bucket =
  bk_bucket :: bucket
  bk_value_date :: string
  bk_state :: "pending_state option"
  bk_quantity :: exact

type_synonym lot_opening = "string \<times> lot_terms \<times> exact"

definition add_pending ::
  "string \<Rightarrow> nat \<times> pending_settlement \<Rightarrow> opening_bucket list \<times> exact \<Rightarrow> store_error + opening_bucket list \<times> exact" where
  "add_pending field ip s =
     (let (index, p) = ip; (bs, rest) = s; path = field @ ''.'' @ at_index ''pending'' index
      in rbind (required (path @ ''.quantity'') (pse_quantity p)) (\<lambda>q.
         rbind (if pse_value_date p = [] then Inr () else date_field (path @ ''.value_date'') (pse_value_date p)) (\<lambda>_.
         rbind (num_add (field @ ''.pending'') rest (negated q)) (\<lambda>rest'.
           Inr (bs @ [\<lparr>bk_bucket = SBPending, bk_value_date = pse_value_date p, bk_state = pse_state p,
                       bk_quantity = q\<rparr>], rest')))))"

definition opening_buckets :: "string \<Rightarrow> exact \<Rightarrow> opening_position \<Rightarrow> store_error + opening_bucket list" where
  "opening_buckets field trade p =
     rbind (num_optional (field @ ''.settled_quantity'') (opo_settled_quantity p)) (\<lambda>settled.
     rbind (case settled of
              None \<Rightarrow> Inr ([], trade)
            | Some q \<Rightarrow> rbind (num_add (field @ ''.settled_quantity'') trade (negated q)) (\<lambda>rest.
                Inr ([\<lparr>bk_bucket = SBSettled, bk_value_date = [], bk_state = None, bk_quantity = q\<rparr>], rest))) (\<lambda>s.
     rbind (rfold (add_pending field) (numbered_list (opo_pending p)) s) (\<lambda>(bs, rest).
       if \<not> is_zero rest then Inl (incomplete ''the opening balance'' [field @ ''.pending''])
       else Inr (filter (\<lambda>b. \<not> is_zero (bk_quantity b)) bs))))"

definition add_opening_lot ::
  "minting \<Rightarrow> string \<Rightarrow> nat \<times> opening_lot \<Rightarrow> lot_opening list \<times> exact \<times> nat
    \<Rightarrow> store_error + lot_opening list \<times> exact \<times> nat" where
  "add_opening_lot mints field il s =
     (let (index, l) = il; (ls, total, drawn) = s
      in rbind (required (field @ ''.'' @ at_index ''lots'' index @ ''.quantity'') (olt_quantity l)) (\<lambda>q.
         rbind (num_add (field @ ''.lots'') total q) (\<lambda>total'.
           let terms = (case olt_terms l of None \<Rightarrow> lot_terms_default | Some t \<Rightarrow> t);
               terms' = (if lt_source terms = lot_source_no LSUnspecified
                         then terms\<lparr>lt_source := lot_source_no LSOpeningBalance\<rparr> else terms)
           in Inr (ls @ [(mints MINT_LOT drawn, terms', q)], total', drawn + 1))))"

definition opening_line :: "opening_position \<Rightarrow> holding_side \<Rightarrow> opening_bucket \<Rightarrow> exact \<Rightarrow> movement_line" where
  "opening_line p side b q =
     movement_line_default\<lparr>ml_instrument_id := opo_instrument_id p, ml_side := holding_side_no side,
       ml_bucket := bucket_no (bk_bucket b), ml_value_date := bk_value_date b, ml_quantity := num_wire q,
       ml_pending_state := bk_state b\<rparr>"

text \<open>A line naming a lot; its first line opens it.\<close>

definition push_line ::
  "opening_position \<Rightarrow> holding_side \<Rightarrow> opening_bucket \<times> lot_opening \<times> exact \<Rightarrow> movement_line list \<times> string bset
    \<Rightarrow> movement_line list \<times> string bset" where
  "push_line p side push s =
     (let (b, (i, terms, _), q) = push; (out, opened) = s;
          line = (opening_line p side b q)\<lparr>ml_lot_id := i\<rparr>
      in (out @ [if List.member opened i then line else line\<lparr>ml_opens_lot := Some terms\<rparr>], bs_insert i opened))"

definition ex_min :: "exact \<Rightarrow> exact \<Rightarrow> exact" where
  "ex_min a b = (if ex_le a b then a else b)"

text \<open>The buckets and the lots walked together, what is left of the first of each beside it; with
  the lots none of whose quantity was left to place.\<close>

lemma num_add_negated_zero:
  assumes "num_add field x (negated y) = Inr r" "ex_val x = ex_val y"
  shows "is_zero r"
  using num_add_val [OF assms(1)] assms(2) by (simp add: is_zero_val)

lemma ex_min_cases: "ex_min x y = x \<or> ex_min x y = y"
  by (simp add: ex_min_def)

function (sequential) opening_walk ::
  "string \<Rightarrow> (exact \<Rightarrow> exact) \<Rightarrow> (opening_bucket \<times> exact) list \<Rightarrow> (lot_opening \<times> exact) list
    \<Rightarrow> store_error + (opening_bucket \<times> lot_opening \<times> exact) list \<times> lot_opening list" where
  "opening_walk field resign ((b, bucket_left) # bs) ((l, lot_left) # ls) =
     (let taken = ex_min bucket_left lot_left in
      rbind (num_add field bucket_left (negated taken)) (\<lambda>bucket_rest.
      rbind (num_add field lot_left (negated taken)) (\<lambda>lot_rest.
      rbind (opening_walk field resign
               (if is_zero bucket_rest then bs else (b, bucket_rest) # bs)
               (if is_zero lot_rest then ls else (l, lot_rest) # ls)) (\<lambda>(pushes, unplaced).
        Inr ((if is_zero taken then [] else [(b, l, resign taken)]) @ pushes, unplaced)))))"
| "opening_walk field resign bs ls = Inr ([], map fst ls)"
  by pat_completeness auto
termination
  by (relation "measure (\<lambda>(field, resign, bs, ls). length bs + length ls)")
     (auto dest: num_add_negated_zero simp: ex_min_def split: if_splits)


definition place_across :: "opening_bucket list \<Rightarrow> lot_opening list \<Rightarrow> (opening_bucket \<times> lot_opening \<times> exact) list" where
  "place_across bs ls =
     (case (bs, ls) of
        (first # _, l0 # rest) \<Rightarrow>
          map (\<lambda>b. (b, l0, bk_quantity b)) bs
          @ concat (map (\<lambda>l. [(first, l, snd (snd l)), (first, l0, negated (snd (snd l)))]) rest)
      | _ \<Rightarrow> [])"

definition opening_pushes ::
  "string \<Rightarrow> holding_side \<Rightarrow> opening_bucket list \<Rightarrow> lot_opening list
    \<Rightarrow> store_error + (opening_bucket \<times> lot_opening \<times> exact) list" where
  "opening_pushes field side bs ls =
     (if list_all (\<lambda>b. side_admits side (bk_quantity b)) bs \<and> list_all (\<lambda>(_, _, q). side_admits side q) ls
      then rbind (opening_walk field (\<lambda>q. if side = HSShort then negated q else q)
                    (map (\<lambda>b. (b, magnitude (bk_quantity b))) bs)
                    (map (\<lambda>(i, terms, q). ((i, terms, q), magnitude q)) ls)) (\<lambda>(pushes, unplaced).
             Inr (pushes @ (case bs of [] \<Rightarrow> [] | b # _ \<Rightarrow> map (\<lambda>l. (b, l, ex_zero)) unplaced)))
      else Inr (place_across bs ls))"

definition opening_lines ::
  "minting \<Rightarrow> string \<Rightarrow> holding_side \<Rightarrow> opening_position \<Rightarrow> nat \<Rightarrow> store_error + movement_line list \<times> nat" where
  "opening_lines mints field side p drawn =
     rbind (required (field @ ''.trade_date_quantity'') (opo_trade_date_quantity p)) (\<lambda>trade.
     rbind (guard_r (Invalid [field]) (side_admits side trade)) (\<lambda>_.
     rbind (opening_buckets field trade p) (\<lambda>bs.
     rbind (rfold (add_opening_lot mints field) (numbered_list (opo_lots p)) ([], ex_zero, drawn)) (\<lambda>(ls, total, drawn').
     rbind (guard_r (Refused LotsUnbalanced [field] []) (ls = [] \<or> ex_eq total trade)) (\<lambda>_.
       if ls = [] then Inr (map (\<lambda>b. opening_line p side b (bk_quantity b)) bs, drawn')
       else rbind (opening_pushes field side bs ls) (\<lambda>pushes.
              Inr (fst (fold (push_line p side) pushes ([], [])), drawn')))))))"

definition open_position ::
  "minting \<Rightarrow> nat \<times> opening_position \<Rightarrow> movement_line list \<times> pos_key bset \<times> nat
    \<Rightarrow> store_error + movement_line list \<times> pos_key bset \<times> nat" where
  "open_position mints ip s =
     (let (index, p) = ip; (out, seen, drawn) = s; field = at_index ''positions'' index;
          k = (opo_instrument_id p, opo_side p, [])
      in rbind (guard_r (Invalid [field]) (opo_instrument_id p \<noteq> [])) (\<lambda>_.
         rbind (side_field (field @ ''.side'') (opo_side p)) (\<lambda>side.
         rbind (guard_r (Invalid [field, opo_instrument_id p]) (\<not> List.member seen k)) (\<lambda>_.
         rbind (opening_lines mints field side p drawn) (\<lambda>(more_lines, drawn').
           Inr (out @ more_lines, bs_insert k seen, drawn'))))))"

definition replaces_check :: "account_book \<Rightarrow> string \<Rightarrow> store_error + unit" where
  "replaces_check b named =
     (if ab_reversed_openings b = [] then guard_r (Invalid [named, ab_account_id b]) (named = [])
      else guard_r (Invalid [last (ab_reversed_openings b), ab_account_id b]) (named = last (ab_reversed_openings b)))"

definition opening_draft ::
  "account_book \<Rightarrow> act_context \<Rightarrow> opening_request \<Rightarrow> string \<Rightarrow> movement_line list \<Rightarrow> draft" where
  "opening_draft b cx q i lines =
     (let opening = \<lparr>ob_entry_id = i, ob_as_of_date = qob_as_of_date q, ob_sources = qob_sources q,
            ob_recorded_by = Some (cx_actor cx), ob_journal = None, ob_reason = qob_reason q\<rparr>
      in \<lparr>dr_entry_id = i, dr_kind = ''opening-balance'', dr_effective_date = qob_as_of_date q,
          dr_reason = qob_reason q, dr_break_ids = [], dr_idempotency_key = qob_idempotency_key q,
          dr_actor = cx_actor cx,
          dr_body = entry_body_default\<lparr>by_states_waits := first_attributes b, by_lines := lines,
            by_sources := qob_sources q, by_opening := Some opening,
            by_attributes := Some ((attributes_of b)\<lparr>aa_opening_balance := Some opening\<rparr>)\<rparr>\<rparr>)"

definition record_opening_balance ::
  "known \<Rightarrow> minting \<Rightarrow> account_book \<Rightarrow> nat \<Rightarrow> act_context \<Rightarrow> opening_request \<Rightarrow> store_error + made_act" where
  "record_opening_balance kn mints b head cx q =
     rbind (justified cx (qob_reason q) ''an opening balance'') (\<lambda>_.
     rbind (case ab_opening b of
              Some (standing, since) \<Rightarrow> Inl (Refused OpeningBalanceRecorded [ab_account_id b, standing, since] [])
            | None \<Rightarrow> Inr ()) (\<lambda>_.
     rbind (replaces_check b (qob_replaces_entry_id q)) (\<lambda>_.
     rbind (references_answered cx) (\<lambda>_.
     rbind (rfold (\<lambda>(i, p) _. not_referential cx (at_index ''positions'' i) (opo_instrument_id p))
              (numbered_list (qob_positions q)) ()) (\<lambda>_.
     rbind (guard_r (incomplete ''the opening balance'' (opening_missing b cx q)) (opening_missing b cx q = [])) (\<lambda>_.
     rbind (date_field ''as_of_date'' (qob_as_of_date q)) (\<lambda>_.
     rbind (rfold (open_position mints) (numbered_list (qob_positions q)) ([], [], 0)) (\<lambda>(lines, seen, drawn).
       made kn b head cx (opening_draft b cx q (mints MINT_ENTRY 0) lines)))))))))"


section \<open>Facts\<close>

subsection \<open>The walk\<close>

text \<open>What a list of parts comes to, over those of its parts that count.\<close>

abbreviation parts_val :: "('a \<Rightarrow> bool) \<Rightarrow> ('a \<times> exact) list \<Rightarrow> rat" where
  "parts_val P xs \<equiv> (\<Sum>(a, x)\<leftarrow>xs. of_bool (P a) * ex_val x)"

definition parts_ok :: "('a \<times> exact) list \<Rightarrow> bool" where
  "parts_ok xs \<longleftrightarrow> (\<forall>(a, x) \<in> set xs. 0 \<le> ex_val x \<and> exact_ok x)"

lemma parts_ok_simps [simp]:
  "parts_ok []" "parts_ok ((a, x) # xs) \<longleftrightarrow> 0 \<le> ex_val x \<and> exact_ok x \<and> parts_ok xs"
  by (auto simp: parts_ok_def)

lemma parts_val_nonneg: "parts_ok xs \<Longrightarrow> 0 \<le> parts_val P xs"
  by (induction xs) (auto simp: parts_ok_def)

lemma parts_val_zero:
  assumes "parts_ok xs" "parts_val (\<lambda>_. True) xs = 0"
  shows "parts_val P xs = 0"
  using assms
proof (induction xs)
  case (Cons x xs)
  obtain a q where x: "x = (a, q)" by force
  from Cons.prems x have "0 \<le> ex_val q" "parts_ok xs" by simp_all
  with parts_val_nonneg [of xs "\<lambda>_. True"] Cons.prems(2) x have "ex_val q = 0" "parts_val (\<lambda>_. True) xs = 0" by auto
  with Cons.IH \<open>parts_ok xs\<close> show ?case by (simp add: x)
qed simp

lemma ex_min_val: "exact_ok a \<Longrightarrow> exact_ok b \<Longrightarrow> ex_val (ex_min a b) = min (ex_val a) (ex_val b)"
  by (auto simp: ex_min_def ex_le_def ex_cmp_val exact_ok_def cmp_def min_def)

lemma drop_zero:
  assumes "exact_ok x" "0 \<le> ex_val x" "parts_ok xs"
  shows "parts_ok (if is_zero x then xs else (a, x) # xs)"
    "parts_val P (if is_zero x then xs else (a, x) # xs) = of_bool (P a) * ex_val x + parts_val P xs"
  using assms by (simp_all add: is_zero_val)

lemma opening_walk_sums:
  assumes "opening_walk field f bs ls = Inr (pushes, unplaced)" "parts_ok bs" "parts_ok ls"
    and "parts_val (\<lambda>_. True) bs = parts_val (\<lambda>_. True) ls"
    and "\<And>x. ex_val (f x) = c * ex_val x" "\<And>x. exact_ok x \<Longrightarrow> exact_ok (f x)"
  shows "(\<Sum>(b, l, q)\<leftarrow>pushes. of_bool (P b) * ex_val q) = c * parts_val P bs
    \<and> (\<Sum>(b, l, q)\<leftarrow>pushes. of_bool (Q l) * ex_val q) = c * parts_val Q ls
    \<and> (\<forall>(b, l, q) \<in> set pushes. exact_ok q \<and> l \<in> fst ` set ls \<and> b \<in> fst ` set bs)
    \<and> set unplaced \<subseteq> fst ` set ls"
  using assms
proof (induction field f bs ls arbitrary: pushes unplaced rule: opening_walk.induct)
  case (1 field f b x bs l y ls)
  note sign = 1(6,7)
  define t where "t = ex_min x y"
  from 1(2) obtain x' y' more where s: "num_add field x (negated t) = Inr x'" "num_add field y (negated t) = Inr y'"
    "opening_walk field f (if is_zero x' then bs else (b, x') # bs) (if is_zero y' then ls else (l, y') # ls) = Inr (more, unplaced)"
    and p: "pushes = (if is_zero t then [] else [(b, l, f t)]) @ more"
    by (auto simp: rbind_eq_Inr Let_def t_def)
  from 1(3,4) have ok: "exact_ok x" "exact_ok y" "0 \<le> ex_val x" "0 \<le> ex_val y" "parts_ok bs" "parts_ok ls" by simp_all
  have t: "exact_ok t" "ex_val t = min (ex_val x) (ex_val y)"
    using ok ex_min_cases [of x y] by (auto simp: t_def ex_min_val)
  have v: "ex_val x' = ex_val x - ex_val t" "ex_val y' = ex_val y - ex_val t" "exact_ok x'" "exact_ok y'"
    using num_add_both [OF s(1)] num_add_both [OF s(2)] by simp_all
  with t ok have nonneg: "0 \<le> ex_val x'" "0 \<le> ex_val y'" by auto
  note db = drop_zero [OF v(3) nonneg(1) ok(5), where a = b] and dl = drop_zero [OF v(4) nonneg(2) ok(6), where a = l]
  have sum: "parts_val (\<lambda>_. True) (if is_zero x' then bs else (b, x') # bs)
      = parts_val (\<lambda>_. True) (if is_zero y' then ls else (l, y') # ls)"
    using 1(5) v by (simp only: db dl) simp
  note ih = 1(1) [OF t_def s(1) s(2) s(3) db(1) dl(1) sum sign]
  have zero: "is_zero t \<Longrightarrow> ex_val t = 0" by (simp add: is_zero_val)
  have "(\<Sum>(b, l, q)\<leftarrow>pushes. of_bool (P b) * ex_val q) = of_bool (P b) * (c * ex_val t) + (\<Sum>(b, l, q)\<leftarrow>more. of_bool (P b) * ex_val q)"
    using zero by (simp add: p sign(1))
  moreover have "(\<Sum>(b, l, q)\<leftarrow>pushes. of_bool (Q l) * ex_val q) = of_bool (Q l) * (c * ex_val t) + (\<Sum>(b, l, q)\<leftarrow>more. of_bool (Q l) * ex_val q)"
    using zero by (simp add: p sign(1))
  moreover have "(\<Sum>(b, l, q)\<leftarrow>more. of_bool (P b) * ex_val q) = c * (of_bool (P b) * ex_val x' + parts_val P bs)"
    "(\<Sum>(b, l, q)\<leftarrow>more. of_bool (Q l) * ex_val q) = c * (of_bool (Q l) * ex_val y' + parts_val Q ls)"
    using ih by (simp_all only: db(2) dl(2))
  ultimately have "(\<Sum>(b, l, q)\<leftarrow>pushes. of_bool (P b) * ex_val q) = c * parts_val P ((b, x) # bs)"
    "(\<Sum>(b, l, q)\<leftarrow>pushes. of_bool (Q l) * ex_val q) = c * parts_val Q ((l, y) # ls)"
    using v by (simp_all add: algebra_simps)
  moreover have "\<forall>(b', l', q) \<in> set pushes. exact_ok q \<and> l' \<in> fst ` set ((l, y) # ls) \<and> b' \<in> fst ` set ((b, x) # bs)"
    using ih t(1) sign(2) by (auto simp: p split: if_splits)
  moreover have "set unplaced \<subseteq> fst ` set ((l, y) # ls)" using ih by (auto split: if_splits)
  ultimately show ?case by blast
qed (auto simp: parts_val_zero dest!: parts_val_zero)


subsection \<open>The pushes\<close>

abbreviation buckets_val :: "(opening_bucket \<Rightarrow> bool) \<Rightarrow> opening_bucket list \<Rightarrow> rat" where
  "buckets_val P bs \<equiv> (\<Sum>b\<leftarrow>bs. of_bool (P b) * ex_val (bk_quantity b))"

abbreviation lots_part :: "(lot_opening \<Rightarrow> bool) \<Rightarrow> lot_opening list \<Rightarrow> rat" where
  "lots_part Q ls \<equiv> (\<Sum>l\<leftarrow>ls. of_bool (Q l) * ex_val (snd (snd l)))"

lemma side_admits_val:
  assumes "side_admits side q"
  shows "ex_val (magnitude q) = (if side = HSShort then - ex_val q else ex_val q)" "0 \<le> ex_val (magnitude q)"
  using assms by (auto simp: side_admits_def magnitude_def is_negative_val split: if_splits)

lemma exact_ok_magnitude [simp]: "exact_ok (magnitude q) = exact_ok q"
  by (simp add: magnitude_def)

lemma opening_pushes_sums:
  assumes "opening_pushes field side bs ls = Inr pushes" "bs \<noteq> []" "ls \<noteq> []"
    and ok: "\<forall>b \<in> set bs. exact_ok (bk_quantity b)" "\<forall>l \<in> set ls. exact_ok (snd (snd l))"
    and total: "buckets_val (\<lambda>_. True) bs = lots_part (\<lambda>_. True) ls"
  shows "(\<Sum>(b, l, q)\<leftarrow>pushes. of_bool (P b) * ex_val q) = buckets_val P bs
    \<and> (\<Sum>(b, l, q)\<leftarrow>pushes. of_bool (Q l) * ex_val q) = lots_part Q ls
    \<and> (\<forall>(b, l, q) \<in> set pushes. exact_ok q \<and> l \<in> set ls \<and> b \<in> set bs)"
proof (cases "list_all (\<lambda>b. side_admits side (bk_quantity b)) bs \<and> list_all (\<lambda>(_, _, q). side_admits side q) ls")
  case True
  define c :: rat where "c = (if side = HSShort then - 1 else 1)"
  let ?f = "\<lambda>q. if side = HSShort then negated q else q"
  let ?bs = "map (\<lambda>b. (b, magnitude (bk_quantity b))) bs" and ?ls = "map (\<lambda>(i, terms, q). ((i, terms, q), magnitude q)) ls"
  from True assms(1) obtain more unplaced where w: "opening_walk field ?f ?bs ?ls = Inr (more, unplaced)"
    and p: "pushes = more @ (case bs of [] \<Rightarrow> [] | b # _ \<Rightarrow> map (\<lambda>l. (b, l, ex_zero)) unplaced)"
    by (auto simp: opening_pushes_def rbind_eq_Inr)
  have parts: "parts_ok ?bs" "parts_ok ?ls"
    using True ok by (auto simp: parts_ok_def list_all_iff dest: side_admits_val(2))
  have bv: "parts_val R ?bs = c * buckets_val R bs" for R
    using True by (induction bs) (auto simp: c_def side_admits_val algebra_simps)
  have lv: "parts_val R ?ls = c * lots_part R ls" for R
    using True by (induction ls) (auto simp: c_def side_admits_val algebra_simps)
  have sets: "fst ` set ?ls = set ls" "fst ` set ?bs = set bs" by force+
  have cc: "c * (c * v) = v" for v by (simp add: c_def)
  have walk: "(\<Sum>(b, l, q)\<leftarrow>more. of_bool (P b) * ex_val q) = c * parts_val P ?bs
    \<and> (\<Sum>(b, l, q)\<leftarrow>more. of_bool (Q l) * ex_val q) = c * parts_val Q ?ls
    \<and> (\<forall>(b, l, q) \<in> set more. exact_ok q \<and> l \<in> fst ` set ?ls \<and> b \<in> fst ` set ?bs)
    \<and> set unplaced \<subseteq> fst ` set ?ls"
  proof (rule opening_walk_sums [OF w parts])
    show "parts_val (\<lambda>_. True) ?bs = parts_val (\<lambda>_. True) ?ls"
      by (simp only: bv [of "\<lambda>_. True"] lv [of "\<lambda>_. True"] total)
    show "ex_val (?f x) = c * ex_val x" for x by (simp add: c_def)
    show "exact_ok x \<Longrightarrow> exact_ok (?f x)" for x by simp
  qed
  obtain first others where bs: "bs = first # others" using assms(2) by (cases bs) auto
  define tail where "tail = map (\<lambda>l. (first, l, ex_zero)) unplaced"
  have t: "pushes = more @ tail" by (simp add: p bs tail_def)
  have zeros: "(\<Sum>(b, l, q)\<leftarrow>tail. of_bool (P b) * ex_val q) = 0" "(\<Sum>(b, l, q)\<leftarrow>tail. of_bool (Q l) * ex_val q) = 0"
    by (simp_all add: tail_def o_def)
  from walk have unplaced: "set unplaced \<subseteq> set ls" unfolding sets by blast
  have parts_in: "\<forall>(b, l, q) \<in> set tail. exact_ok q \<and> l \<in> set ls \<and> b \<in> set bs"
    using unplaced by (auto simp: tail_def bs)
  from walk have "(\<Sum>(b, l, q)\<leftarrow>more. of_bool (P b) * ex_val q) = buckets_val P bs"
    "(\<Sum>(b, l, q)\<leftarrow>more. of_bool (Q l) * ex_val q) = lots_part Q ls"
    "\<forall>(b, l, q) \<in> set more. exact_ok q \<and> l \<in> set ls \<and> b \<in> set bs"
    unfolding sets bv lv cc by simp_all
  with parts_in zeros show ?thesis unfolding t by (simp add: ball_Un)
next
  case False
  obtain b0 others where bs: "bs = b0 # others" using assms(2) by (cases bs) auto
  from False assms(1) have p: "pushes = place_across bs ls" by (auto simp: opening_pushes_def split: if_split_asm)
  obtain l0 rest where Cons: "ls = l0 # rest" using assms(3) by (cases ls) auto
  let ?across = "concat (map (\<lambda>l. [(b0, l, snd (snd l)), (b0, l0, negated (snd (snd l)))]) rest)"
  have a: "(\<Sum>(b, l, q)\<leftarrow>?across. of_bool (P b) * ex_val q) = 0" by (induction rest) auto
  have b: "(\<Sum>(b, l, q)\<leftarrow>?across. of_bool (Q l) * ex_val q) = lots_part Q rest - of_bool (Q l0) * lots_part (\<lambda>_. True) rest"
    by (induction rest) (auto simp: algebra_simps)
  have "(\<Sum>(b, l, q)\<leftarrow>map (\<lambda>b. (b, l0, bk_quantity b)) bs. of_bool (Q l) * ex_val q)
      = of_bool (Q l0) * buckets_val (\<lambda>_. True) bs" by (induction bs) (auto simp: algebra_simps)
  moreover have "(\<Sum>(b, l, q)\<leftarrow>map (\<lambda>b. (b, l0, bk_quantity b)) bs. of_bool (P b) * ex_val q) = buckets_val P bs"
    by (simp add: o_def)
  moreover have "pushes = map (\<lambda>b. (b, l0, bk_quantity b)) bs @ ?across" by (simp add: p place_across_def bs Cons)
  ultimately show ?thesis using a b total ok bs Cons by (auto simp: algebra_simps)
qed


subsection \<open>The buckets and the lots\<close>

definition stated_settled :: "opening_position \<Rightarrow> rat" where
  "stated_settled p = wire_val (opo_settled_quantity p)"

abbreviation pending_val :: "(string \<Rightarrow> bool) \<Rightarrow> pending_settlement list \<Rightarrow> rat" where
  "pending_val D ps \<equiv> (\<Sum>x\<leftarrow>ps. of_bool (D (pse_value_date x)) * wire_val (pse_quantity x))"

lemma add_pending_step:
  assumes "add_pending field (i, p) (bs, rest) = Inr s"
  obtains q rest1 where "required (field @ ''.'' @ at_index ''pending'' i @ ''.quantity'') (pse_quantity p) = Inr q"
    "num_add (field @ ''.pending'') rest (negated q) = Inr rest1"
    "s = (bs @ [\<lparr>bk_bucket = SBPending, bk_value_date = pse_value_date p, bk_state = pse_state p, bk_quantity = q\<rparr>], rest1)"
  using assms by (fastforce simp: add_pending_def rbind_eq_Inr Let_def split: if_splits)

lemma add_opening_lot_step:
  assumes "add_opening_lot mints field (i, l) (ls, came, n) = Inr s"
  obtains q came1 terms where "required (field @ ''.'' @ at_index ''lots'' i @ ''.quantity'') (olt_quantity l) = Inr q"
    "num_add (field @ ''.lots'') came q = Inr came1" "s = (ls @ [(mints MINT_LOT n, terms, q)], came1, n + 1)"
  using assms by (fastforce simp: add_opening_lot_def rbind_eq_Inr Let_def)

lemma add_pending_fold:
  assumes "rfold (add_pending field) xs (bs, rest) = Inr (bs', rest')"
  shows "\<exists>more. bs' = bs @ more \<and> (\<forall>b \<in> set more. exact_ok (bk_quantity b) \<and> bk_bucket b = SBPending)
    \<and> (\<forall>D. buckets_val (\<lambda>b. D (bk_value_date b)) more = pending_val D (map snd xs))
    \<and> ex_val rest' = ex_val rest - pending_val (\<lambda>_. True) (map snd xs)"
  using assms
proof (induction xs arbitrary: bs rest)
  case (Cons x xs)
  obtain i p where x: "x = (i, p)" by force
  from Cons.prems obtain q rest1 where q: "required (field @ ''.'' @ at_index ''pending'' i @ ''.quantity'') (pse_quantity p) = Inr q"
    and r: "num_add (field @ ''.pending'') rest (negated q) = Inr rest1"
    and f: "rfold (add_pending field) xs (bs @ [\<lparr>bk_bucket = SBPending, bk_value_date = pse_value_date p,
       bk_state = pse_state p, bk_quantity = q\<rparr>], rest1) = Inr (bs', rest')"
    by (auto simp: x rbind_eq_Inr elim!: add_pending_step)
  from Cons.IH [OF f] obtain more where m: "bs' = (bs @ [\<lparr>bk_bucket = SBPending, bk_value_date = pse_value_date p,
       bk_state = pse_state p, bk_quantity = q\<rparr>]) @ more" "\<forall>b \<in> set more. exact_ok (bk_quantity b) \<and> bk_bucket b = SBPending"
    "\<forall>D. buckets_val (\<lambda>b. D (bk_value_date b)) more = pending_val D (map snd xs)"
    "ex_val rest' = ex_val rest1 - pending_val (\<lambda>_. True) (map snd xs)" by blast
  show ?case
    by (rule exI [of _ "\<lparr>bk_bucket = SBPending, bk_value_date = pse_value_date p, bk_state = pse_state p, bk_quantity = q\<rparr> # more"])
      (use m required_val [OF q] num_add_val [OF r] in \<open>simp add: x\<close>)
qed simp

lemma nonzero_sum:
  "(\<Sum>b\<leftarrow>filter (\<lambda>b. \<not> is_zero (bk_quantity b)) bs. of_bool (P b) * ex_val (bk_quantity b)) = buckets_val P bs"
  by (induction bs) (auto simp: is_zero_val)

lemma numbered_list_snd [simp]: "map snd (numbered_list xs) = xs"
  by (simp add: numbered_list_def)

lemma num_optional_val: "num_optional field w = Inr r \<Longrightarrow> (case r of None \<Rightarrow> w = None | Some q \<Rightarrow> wire_val w = ex_val q \<and> exact_ok q)"
  by (auto simp: num_optional_def rbind_eq_Inr dest: required_val split: option.splits)

lemma wire_val_None [simp]: "wire_val None = 0"
  by (simp add: wire_val_def wire_or_zero_def)

lemma opening_buckets_sums:
  assumes "opening_buckets field trade p = Inr bs"
  shows "buckets_val (\<lambda>b. bk_bucket b = SBSettled) bs = stated_settled p"
    and "buckets_val (\<lambda>b. bk_bucket b = SBPending \<and> bk_value_date b = d) bs = pending_val (\<lambda>x. x = d) (opo_pending p)"
    and "buckets_val (\<lambda>_. True) bs = ex_val trade"
    and "\<forall>b \<in> set bs. exact_ok (bk_quantity b) \<and> bk_bucket b \<in> {SBSettled, SBPending}"
proof -
  from assms obtain settled bs0 rest0 bs1 rest1 where
    o: "num_optional (field @ ''.settled_quantity'') (opo_settled_quantity p) = Inr settled" and
    c: "(case settled of None \<Rightarrow> Inr ([], trade)
         | Some q \<Rightarrow> rbind (num_add (field @ ''.settled_quantity'') trade (negated q)) (\<lambda>rest.
             Inr ([\<lparr>bk_bucket = SBSettled, bk_value_date = [], bk_state = None, bk_quantity = q\<rparr>], rest))) = Inr (bs0, rest0)" and
    f: "rfold (add_pending field) (numbered_list (opo_pending p)) (bs0, rest0) = Inr (bs1, rest1)" and
    z: "is_zero rest1" and bs: "bs = filter (\<lambda>b. \<not> is_zero (bk_quantity b)) bs1"
    unfolding opening_buckets_def by (force simp: rbind_eq_Inr split: if_splits)
  have b0: "buckets_val (\<lambda>b. bk_bucket b = SBSettled) bs0 = stated_settled p"
    "buckets_val (\<lambda>b. bk_bucket b = SBPending \<and> bk_value_date b = d) bs0 = 0"
    "buckets_val (\<lambda>_. True) bs0 = ex_val trade - ex_val rest0"
    "\<forall>b \<in> set bs0. exact_ok (bk_quantity b) \<and> bk_bucket b \<in> {SBSettled, SBPending}"
    using c num_optional_val [OF o]
    by (auto simp: stated_settled_def rbind_eq_Inr dest!: num_add_val split: option.splits)
  from add_pending_fold [OF f] obtain more where m: "bs1 = bs0 @ more"
    "\<forall>b \<in> set more. exact_ok (bk_quantity b) \<and> bk_bucket b = SBPending"
    "\<And>D. buckets_val (\<lambda>b. D (bk_value_date b)) more = pending_val D (opo_pending p)"
    "ex_val rest1 = ex_val rest0 - pending_val (\<lambda>_. True) (opo_pending p)" by auto
  have "buckets_val (\<lambda>b. bk_bucket b = SBSettled) more = 0"
    "buckets_val (\<lambda>b. bk_bucket b = SBPending \<and> bk_value_date b = d) more = buckets_val (\<lambda>b. bk_value_date b = d) more"
    using m(2) by (induction more) auto
  with b0 m(3) [of "\<lambda>x. x = d"] m(3) [of "\<lambda>_. True"] m(4) z
  show "buckets_val (\<lambda>b. bk_bucket b = SBSettled) bs = stated_settled p"
    "buckets_val (\<lambda>b. bk_bucket b = SBPending \<and> bk_value_date b = d) bs = pending_val (\<lambda>x. x = d) (opo_pending p)"
    "buckets_val (\<lambda>_. True) bs = ex_val trade"
    unfolding bs nonzero_sum m(1) by (simp_all add: is_zero_val)
  show "\<forall>b \<in> set bs. exact_ok (bk_quantity b) \<and> bk_bucket b \<in> {SBSettled, SBPending}"
    using b0(4) m(1,2) bs by auto
qed

lemma add_lots_fold:
  assumes "rfold (add_opening_lot mints field) xs (ls, came, n) = Inr (ls', came', n')"
  shows "\<exists>more. ls' = ls @ more \<and> map fst more = map (mints MINT_LOT) [n..<n + length xs]
    \<and> (\<forall>l \<in> set more. exact_ok (snd (snd l)))
    \<and> map (\<lambda>l. ex_val (snd (snd l))) more = map (\<lambda>x. wire_val (olt_quantity (snd x))) xs
    \<and> ex_val came' = ex_val came + lots_part (\<lambda>_. True) more \<and> (exact_ok came \<longrightarrow> exact_ok came')"
  using assms
proof (induction xs arbitrary: ls came n)
  case (Cons x xs)
  obtain i l where x: "x = (i, l)" by force
  from Cons.prems obtain q came1 terms where
    q: "required (field @ ''.'' @ at_index ''lots'' i @ ''.quantity'') (olt_quantity l) = Inr q" and
    t: "num_add (field @ ''.lots'') came q = Inr came1" and
    f: "rfold (add_opening_lot mints field) xs (ls @ [(mints MINT_LOT n, terms, q)], came1, n + 1) = Inr (ls', came', n')"
    by (auto simp: x rbind_eq_Inr elim!: add_opening_lot_step)
  from Cons.IH [OF f] obtain more where m: "ls' = (ls @ [(mints MINT_LOT n, terms, q)]) @ more"
    "map fst more = map (mints MINT_LOT) [n + 1..<n + 1 + length xs]" "\<forall>l \<in> set more. exact_ok (snd (snd l))"
    "map (\<lambda>l. ex_val (snd (snd l))) more = map (\<lambda>x. wire_val (olt_quantity (snd x))) xs"
    "ex_val came' = ex_val came1 + lots_part (\<lambda>_. True) more" "exact_ok came'" using num_add_ok [OF t] by blast
  show ?case
    by (rule exI [of _ "(mints MINT_LOT n, terms, q) # more"])
      (use m required_val [OF q] num_add_val [OF t] in \<open>simp add: x upt_conv_Cons del: upt_Suc\<close>)
qed simp

subsection \<open>The lines\<close>

definition unopened :: "movement_line \<Rightarrow> movement_line" where
  "unopened line = line\<lparr>ml_opens_lot := None\<rparr>"

definition lot_line :: "opening_position \<Rightarrow> holding_side \<Rightarrow> opening_bucket \<times> lot_opening \<times> exact \<Rightarrow> movement_line" where
  "lot_line p side push = (let (b, (i, _, _), q) = push in (opening_line p side b q)\<lparr>ml_lot_id := i\<rparr>)"

lemma push_lines:
  "map unopened (fst (fold (push_line p side) pushes (out, opened))) = map unopened out @ map (lot_line p side) pushes"
  by (induction pushes arbitrary: out opened)
    (auto simp: push_line_def lot_line_def unopened_def opening_line_def movement_line_default_def Let_def split: prod.splits)

definition each_opened_once :: "movement_line list \<Rightarrow> bool" where
  "each_opened_once lines \<longleftrightarrow> (\<forall>k < length lines.
     ml_opens_lot (lines ! k) \<noteq> None \<longleftrightarrow> ml_lot_id (lines ! k) \<notin> ml_lot_id ` set (take k lines))"

lemma each_opened_once_snoc:
  "each_opened_once (lines @ [line]) \<longleftrightarrow> each_opened_once lines \<and> (ml_opens_lot line \<noteq> None \<longleftrightarrow> ml_lot_id line \<notin> ml_lot_id ` set lines)"
  by (auto simp: each_opened_once_def nth_append less_Suc_eq)

lemma opening_line_fields [simp]:
  "line_key (opening_line p side b q) = (opo_instrument_id p, holding_side_no side, [])"
  "ml_bucket (opening_line p side b q) = bucket_no (bk_bucket b)"
  "ml_value_date (opening_line p side b q) = bk_value_date b"
  "ml_quantity (opening_line p side b q) = num_wire q"
  "ml_opens_lot (opening_line p side b q) = None"
  "ml_lot_id (opening_line p side b q) = []"
  by (simp_all add: opening_line_def line_key_def movement_line_default_def)

lemma push_lines_open:
  assumes "each_opened_once out" "set opened = ml_lot_id ` set out"
  shows "each_opened_once (fst (fold (push_line p side) pushes (out, opened)))"
  using assms
proof (induction pushes arbitrary: out opened)
  case (Cons push pushes)
  obtain b i terms x q where push: "push = (b, (i, terms, x), q)" by (metis surj_pair)
  define line where "line = (let made = (opening_line p side b q)\<lparr>ml_lot_id := i\<rparr>
    in if i \<in> set opened then made else made\<lparr>ml_opens_lot := Some terms\<rparr>)"
  have s: "push_line p side push (out, opened) = (out @ [line], bs_insert i opened)"
    by (simp add: push push_line_def line_def Let_def)
  have l: "ml_lot_id line = i" "ml_opens_lot line \<noteq> None \<longleftrightarrow> i \<notin> set opened"
    by (simp_all add: line_def Let_def)
  have "each_opened_once (out @ [line])" using Cons.prems l(2) unfolding each_opened_once_snoc l(1) by simp
  then show ?case using Cons.IH [of "out @ [line]" "bs_insert i opened"] Cons.prems(2) l(1) by (simp add: s)
qed simp

abbreviation lines_val :: "(movement_line \<Rightarrow> bool) \<Rightarrow> movement_line list \<Rightarrow> rat" where
  "lines_val P lines \<equiv> (\<Sum>line\<leftarrow>lines. of_bool (P line) * wire_val (ml_quantity line))"

lemma lines_val_unopened: "(\<And>line. P (unopened line) = P line) \<Longrightarrow> lines_val P (map unopened lines) = lines_val P lines"
  by (simp add: o_def unopened_def)


lemma lot_line_fields:
  "line_key (lot_line p side (b, l, q)) = (opo_instrument_id p, holding_side_no side, [])"
  "ml_bucket (lot_line p side (b, l, q)) = bucket_no (bk_bucket b)"
  "ml_value_date (lot_line p side (b, l, q)) = bk_value_date b"
  "ml_quantity (lot_line p side (b, l, q)) = num_wire q"
  "ml_lot_id (lot_line p side (b, l, q)) = fst l"
  by (simp_all add: lot_line_def line_key_def split: prod.splits) (simp_all add: opening_line_def movement_line_default_def)

text \<open>A position's lines by what its buckets and its lots come to.\<close>

lemma lot_lines_val:
  assumes "\<forall>(b, l, q) \<in> set pushes. exact_ok q" "\<And>b l q. P (lot_line p side (b, l, q)) = R b l"
  shows "lines_val P (map (lot_line p side) pushes) = (\<Sum>(b, l, q)\<leftarrow>pushes. of_bool (R b l) * ex_val q)"
  using assms(1) by (induction pushes) (auto simp: lot_line_fields assms(2))

lemma others_sum: "a \<notin> fst ` set ls \<Longrightarrow> lots_part (\<lambda>l. fst l = a) ls = 0"
  by (induction ls) auto

lemma lot_sum:
  "distinct (map fst ls) \<Longrightarrow> i < length ls \<Longrightarrow> lots_part (\<lambda>l. fst l = fst (ls ! i)) ls = ex_val (snd (snd (ls ! i)))"
proof (induction ls arbitrary: i)
  case (Cons l ls)
  then show ?case
  proof (cases i)
    case (Suc j)
    with Cons.prems have "j < length ls" "fst l \<noteq> fst (ls ! j)" by (auto simp: image_iff)
    with Cons Suc show ?thesis by simp
  qed (use others_sum [of "fst l" ls] in simp)
qed simp


lemma bucket_no_eq: "bucket_no a = bucket_no b \<longleftrightarrow> a = b"
  by (cases a; cases b) simp_all

section \<open>Properties\<close>

lemma opening_lines_stages:
  assumes "opening_lines mints field side p drawn = Inr (lines, drawn')"
  obtains trade bs ls came where
    "required (field @ ''.trade_date_quantity'') (opo_trade_date_quantity p) = Inr trade"
    "opening_buckets field trade p = Inr bs"
    "rfold (add_opening_lot mints field) (numbered_list (opo_lots p)) ([], ex_zero, drawn) = Inr (ls, came, drawn')"
    "ls = [] \<or> ex_eq came trade"
    "if ls = [] then lines = map (\<lambda>b. opening_line p side b (bk_quantity b)) bs
     else \<exists>pushes. opening_pushes field side bs ls = Inr pushes \<and> lines = fst (fold (push_line p side) pushes ([], []))"
  using assms unfolding opening_lines_def
  by (auto simp: rbind_eq_Inr guard_r_eq_Inr split: if_splits prod.splits)

lemma no_buckets_no_lines: "opening_pushes field side [] ls = Inr pushes \<Longrightarrow> pushes = []"
  by (auto simp: opening_pushes_def place_across_def rbind_eq_Inr split: if_splits)

text \<open>The lines, whichever way the position was walked: parts of its buckets, each in a lot.\<close>

lemma opening_lines_pushes:
  assumes "opening_lines mints field side p drawn = Inr (lines, drawn')"
  obtains trade bs ls pushes where
    "ex_val trade = wire_val (opo_trade_date_quantity p)" "opening_buckets field trade p = Inr bs"
    "map fst ls = map (mints MINT_LOT) [drawn..<drawn + length (opo_lots p)]"
    "map (\<lambda>l. ex_val (snd (snd l))) ls = map (\<lambda>x. wire_val (olt_quantity x)) (opo_lots p)"
    "map unopened lines = map (lot_line p side) pushes"
    "\<And>P. (\<Sum>(b, l, q)\<leftarrow>pushes. of_bool (P b) * ex_val q) = buckets_val P bs"
    "\<And>Q. ls \<noteq> [] \<Longrightarrow> bs \<noteq> [] \<Longrightarrow> (\<Sum>(b, l, q)\<leftarrow>pushes. of_bool (Q l) * ex_val q) = lots_part Q ls"
    "\<forall>(b, l, q) \<in> set pushes. exact_ok q" "bs = [] \<Longrightarrow> pushes = []" "ls \<noteq> [] \<Longrightarrow> each_opened_once lines"
proof -
  from opening_lines_stages [OF assms] obtain trade bs ls came where
    s: "required (field @ ''.trade_date_quantity'') (opo_trade_date_quantity p) = Inr trade"
    "opening_buckets field trade p = Inr bs"
    "rfold (add_opening_lot mints field) (numbered_list (opo_lots p)) ([], ex_zero, drawn) = Inr (ls, came, drawn')"
    "ls = [] \<or> ex_eq came trade"
    "if ls = [] then lines = map (\<lambda>b. opening_line p side b (bk_quantity b)) bs
     else \<exists>pushes. opening_pushes field side bs ls = Inr pushes \<and> lines = fst (fold (push_line p side) pushes ([], []))" .
  have len: "length (numbered_list xs) = length xs" for xs :: "opening_lot list" by (simp add: numbered_list_def)
  have snds: "map (\<lambda>x. wire_val (olt_quantity (snd x))) (numbered_list xs) = map (\<lambda>x. wire_val (olt_quantity x)) xs" for xs
    by (metis (no_types, lifting) map_map comp_apply map_eq_conv numbered_list_snd)
  from add_lots_fold [OF s(3)] have l: "map fst ls = map (mints MINT_LOT) [drawn..<drawn + length (opo_lots p)]"
    "\<forall>l \<in> set ls. exact_ok (snd (snd l))" "map (\<lambda>l. ex_val (snd (snd l))) ls = map (\<lambda>x. wire_val (olt_quantity x)) (opo_lots p)"
    "ex_val came = lots_part (\<lambda>_. True) ls" "exact_ok came" by (auto simp: len snds)
  note b = opening_buckets_sums [OF s(2)]
  have t: "ex_val trade = wire_val (opo_trade_date_quantity p)" "exact_ok trade" using required_val [OF s(1)] by simp_all
  show thesis
  proof (cases "ls = []")
    case True
    let ?pushes = "map (\<lambda>b. (b, ([], lot_terms_default, ex_zero), bk_quantity b)) bs"
    from True s(5) have "map unopened lines = map (lot_line p side) ?pushes"
      by (simp add: unopened_def lot_line_def opening_line_def movement_line_default_def)
    with True b(4) show thesis by (intro that [OF t(1) s(2) l(1,3), of ?pushes]) (auto simp: o_def)
  next
    case False
    with s(5) obtain pushes where p: "opening_pushes field side bs ls = Inr pushes" "lines = fst (fold (push_line p side) pushes ([], []))"
      by auto
    have u: "map unopened lines = map (lot_line p side) pushes" by (simp add: p(2) push_lines)
    have o: "each_opened_once lines" unfolding p(2) by (rule push_lines_open) (simp_all add: each_opened_once_def)
    show thesis
    proof (cases "bs = []")
      case True
      with no_buckets_no_lines p(1) have "pushes = []" by blast
      with True show thesis by (intro that [OF t(1) s(2) l(1,3) u _ _ _ _ o]) auto
    next
      case bs: False
      from s(4) False have "ex_eq came trade" by simp
      then have "buckets_val (\<lambda>_. True) bs = lots_part (\<lambda>_. True) ls" using l(4,5) t b(3) by (simp add: ex_eq_val)
      from opening_pushes_sums [OF p(1) bs False _ l(2) this] b(4)
      have "(\<Sum>(b, l, q)\<leftarrow>pushes. of_bool (P b) * ex_val q) = buckets_val P bs"
        "(\<Sum>(b, l, q)\<leftarrow>pushes. of_bool (Q l) * ex_val q) = lots_part Q ls"
        "\<forall>(b, l, q) \<in> set pushes. exact_ok q" for P Q by blast+
      with bs show thesis by (intro that [OF t(1) s(2) l(1,3) u _ _ _ _ o]) auto
    qed
  qed
qed


text \<open>C12: The lines an opening position is opened by are all on its instrument and side, come to
  its trade-date quantity, to its settled quantity in the settled bucket and, on each value date, to
  what is pending then; where it states lots and any line is made, each lot's lines come to the
  lot's own quantity, and a lot is opened by its first line and no other: whichever way the buckets
  and the lots were walked, on a short position as on a long one.\<close>

theorem an_opening_position_is_opened_whole:
  assumes "opening_lines mints field side p drawn = Inr (lines, drawn')"
  shows "(\<forall>line \<in> set lines. line_key line = (opo_instrument_id p, holding_side_no side, []))
    \<and> lines_val (\<lambda>_. True) lines = wire_val (opo_trade_date_quantity p)
    \<and> lines_val (\<lambda>line. ml_bucket line = bucket_no SBSettled) lines = wire_val (opo_settled_quantity p)
    \<and> (\<forall>d. lines_val (\<lambda>line. ml_bucket line = bucket_no SBPending \<and> ml_value_date line = d) lines
        = pending_val (\<lambda>x. x = d) (opo_pending p))
    \<and> (opo_lots p \<noteq> [] \<and> lines \<noteq> [] \<and> inj (mints MINT_LOT) \<longrightarrow>
        each_opened_once lines \<and> (\<forall>i < length (opo_lots p).
          lines_val (\<lambda>line. ml_lot_id line = mints MINT_LOT (drawn + i)) lines = wire_val (olt_quantity (opo_lots p ! i))))"
proof -
  from opening_lines_pushes [OF assms] obtain trade bs ls pushes where
    t: "ex_val trade = wire_val (opo_trade_date_quantity p)" and bs: "opening_buckets field trade p = Inr bs" and
    ids: "map fst ls = map (mints MINT_LOT) [drawn..<drawn + length (opo_lots p)]" and
    qs: "map (\<lambda>l. ex_val (snd (snd l))) ls = map (\<lambda>x. wire_val (olt_quantity x)) (opo_lots p)" and
    u: "map unopened lines = map (lot_line p side) pushes" and
    bsum: "\<And>P. (\<Sum>(b, l, q)\<leftarrow>pushes. of_bool (P b) * ex_val q) = buckets_val P bs" and
    lsum: "\<And>Q. ls \<noteq> [] \<Longrightarrow> bs \<noteq> [] \<Longrightarrow> (\<Sum>(b, l, q)\<leftarrow>pushes. of_bool (Q l) * ex_val q) = lots_part Q ls" and
    ok: "\<forall>(b, l, q) \<in> set pushes. exact_ok q" and none: "bs = [] \<Longrightarrow> pushes = []" and
    once: "ls \<noteq> [] \<Longrightarrow> each_opened_once lines" by blast
  note b = opening_buckets_sums [OF bs]
  have val: "lines_val P lines = (\<Sum>(b, l, q)\<leftarrow>pushes. of_bool (R b l) * ex_val q)"
    if "\<And>x. P (unopened x) = P x" "\<And>b l q. P (lot_line p side (b, l, q)) = R b l" for P R
    using lines_val_unopened [of P lines, OF that(1)] lot_lines_val [OF ok, of P, OF that(2)] by (simp only: u)
  have keys: "\<forall>line \<in> set lines. line_key line = (opo_instrument_id p, holding_side_no side, [])"
  proof
    fix line assume "line \<in> set lines"
    then have "unopened line \<in> set (map (lot_line p side) pushes)" by (metis u image_eqI set_map)
    then have "line_key (unopened line) = (opo_instrument_id p, holding_side_no side, [])" by (auto simp: lot_line_fields)
    then show "line_key line = (opo_instrument_id p, holding_side_no side, [])" by (simp add: line_key_def unopened_def)
  qed
  have "lines_val (\<lambda>_. True) lines = buckets_val (\<lambda>_. True) bs" by (subst val [where R = "\<lambda>_ _. True"]) (simp_all only: bsum [of "\<lambda>_. True"])
  moreover have "lines_val (\<lambda>line. ml_bucket line = bucket_no SBSettled) lines = buckets_val (\<lambda>b. bk_bucket b = SBSettled) bs"
    by (subst val [where R = "\<lambda>b _. bk_bucket b = SBSettled"]) (simp_all add: bsum unopened_def lot_line_fields bucket_no_eq del: bucket_no.simps)
  moreover have "lines_val (\<lambda>line. ml_bucket line = bucket_no SBPending \<and> ml_value_date line = d) lines
      = buckets_val (\<lambda>b. bk_bucket b = SBPending \<and> bk_value_date b = d) bs" for d
    by (subst val [where R = "\<lambda>b _. bk_bucket b = SBPending \<and> bk_value_date b = d"])
      (simp_all add: bsum unopened_def lot_line_fields bucket_no_eq del: bucket_no.simps)
  moreover have "each_opened_once lines \<and> (\<forall>i < length (opo_lots p).
          lines_val (\<lambda>line. ml_lot_id line = mints MINT_LOT (drawn + i)) lines = wire_val (olt_quantity (opo_lots p ! i)))"
    if "opo_lots p \<noteq> []" "lines \<noteq> []" "inj (mints MINT_LOT)"
  proof -
    have len: "length ls = length (opo_lots p)" using qs by (rule map_eq_imp_length_eq)
    with that(1) have ls: "ls \<noteq> []" by auto
    from that(2) u none have nb: "bs \<noteq> []" by auto
    have d: "distinct (map fst ls)" unfolding ids using that(3) by (simp add: distinct_map inj_on_def inj_def)
    have "lines_val (\<lambda>line. ml_lot_id line = mints MINT_LOT (drawn + i)) lines = wire_val (olt_quantity (opo_lots p ! i))"
      if i: "i < length (opo_lots p)" for i
    proof -
      have "fst (ls ! i) = map fst ls ! i" using i len by simp
      then have m: "mints MINT_LOT (drawn + i) = fst (ls ! i)" using i by (simp add: ids)
      have "ex_val (snd (snd (ls ! i))) = map (\<lambda>l. ex_val (snd (snd l))) ls ! i" using i len by simp
      also have "\<dots> = wire_val (olt_quantity (opo_lots p ! i))" using i by (simp add: qs)
      finally have q: "ex_val (snd (snd (ls ! i))) = wire_val (olt_quantity (opo_lots p ! i))" .
      have "lines_val (\<lambda>line. ml_lot_id line = fst (ls ! i)) lines = lots_part (\<lambda>l. fst l = fst (ls ! i)) ls"
        by (subst val [where R = "\<lambda>_ l. fst l = fst (ls ! i)"]) (simp_all add: lsum [OF ls nb] unopened_def lot_line_fields)
      then show ?thesis using lot_sum [OF d, of i] i len by (simp add: m q)
    qed
    with once [OF ls] show ?thesis by blast
  qed
  ultimately show ?thesis using keys b t by (simp add: stated_settled_def)
qed


definition plain_mints :: minting where
  "plain_mints prefix n = prefix @ replicate n (CHR ''I'')"

definition plain_lot :: "int \<Rightarrow> opening_lot" where
  "plain_lot n = \<lparr>olt_quantity = num_wire (mk n 0), olt_terms = None\<rparr>"

definition plain_position :: "int \<Rightarrow> int \<Rightarrow> int \<Rightarrow> int list \<Rightarrow> opening_position" where
  "plain_position n settled due lots =
     \<lparr>opo_instrument_id = ''INS-1'', opo_side = holding_side_no HSShort,
      opo_trade_date_quantity = num_wire (mk n 0), opo_settled_quantity = num_wire (mk settled 0),
      opo_pending = [\<lparr>pse_value_date = [], pse_quantity = num_wire (mk due 0), pse_state = None\<rparr>],
      opo_lots = map plain_lot lots\<rparr>"

lemmas opening_evals =
  opening_lines_def plain_position_def plain_lot_def numbered_list_def opening_buckets_def num_optional_def
  add_pending_def add_opening_lot_def required_def num_wire_def from_to_wire whole_number_ok whole_numbers_add
  side_admits_def is_negative_def negated_def is_zero_def ex_eq_val guard_r_def ex_zero_def opening_pushes_def
  magnitude_def ex_min_def ex_le_def ex_cmp_val place_across_def push_line_def opening_line_def
  movement_line_default_def Let_def plain_mints_def cmp_def ex_val_def PLACES_def exact_ok_def LIMIT_def DIGITS_def

lemma short_position_opens:
  "\<exists>lines. opening_lines plain_mints [] HSShort (plain_position (- 10) (- 4) (- 6) [- 7, - 3]) 0 = Inr (lines, 2)
    \<and> map (\<lambda>line. (ml_lot_id line, ml_bucket line, ml_quantity line, ml_opens_lot line \<noteq> None)) lines =
      [(''LOT'', 1, num_wire (mk (- 4) 0), True), (''LOT'', 2, num_wire (mk (- 3) 0), False),
       (''LOTI'', 2, num_wire (mk (- 3) 0), True)]"
  by (simp add: opening_evals MINT_LOT_def)


lemma plain_mints_inj: "inj (plain_mints prefix)"
  by (auto simp: inj_def plain_mints_def dest: arg_cong [where f = length])

theorem an_opening_position_is_opened_whole_witness:
  "\<exists>lines. opening_lines plain_mints [] HSShort (plain_position (- 10) (- 4) (- 6) [- 7, - 3]) 0 = Inr (lines, 2)
    \<and> lines_val (\<lambda>_. True) lines = - 10
    \<and> lines_val (\<lambda>line. ml_lot_id line = ''LOTI'') lines = - 3"
proof -
  obtain lines where lines: "opening_lines plain_mints [] HSShort (plain_position (- 10) (- 4) (- 6) [- 7, - 3]) 0 = Inr (lines, 2)"
    "map (\<lambda>line. (ml_lot_id line, ml_bucket line, ml_quantity line, ml_opens_lot line \<noteq> None)) lines =
      [(''LOT'', 1, num_wire (mk (- 4) 0), True), (''LOT'', 2, num_wire (mk (- 3) 0), False),
       (''LOTI'', 2, num_wire (mk (- 3) 0), True)]"
    by (rule exE [OF short_position_opens]) (erule conjE, rule that)
  have val: "wire_val (num_wire (mk n 0)) = of_int n" if "\<bar>n\<bar> < 100" for n
    using that by (simp add: exact_ok_def LIMIT_def DIGITS_def ex_val_def)
  have lot: "opo_lots (plain_position (- 10) (- 4) (- 6) [- 7, - 3]) = [plain_lot (- 7), plain_lot (- 3)]"
    "opo_trade_date_quantity (plain_position (- 10) (- 4) (- 6) [- 7, - 3]) = num_wire (mk (- 10) 0)"
    by (simp_all add: plain_position_def)
  from lines(2) have "lines \<noteq> []" by auto
  with an_opening_position_is_opened_whole [OF lines(1)] plain_mints_inj
  have "lines_val (\<lambda>_. True) lines = wire_val (num_wire (mk (- 10) 0))"
    "\<forall>i < 2. lines_val (\<lambda>line. ml_lot_id line = plain_mints MINT_LOT (0 + i)) lines
       = wire_val (olt_quantity ([plain_lot (- 7), plain_lot (- 3)] ! i))"
    unfolding lot by (simp_all add: numeral_2_eq_2)
  from this(1) this(2) [rule_format, of 1] lines(1) show ?thesis
    by (intro exI [of _ lines]) (simp add: val plain_lot_def plain_mints_def MINT_LOT_def)
qed

section \<open>Where the code and its comment part\<close>

text \<open>A lot of zero quantity ahead of another is opened by no line, though the code says it is opened
  all the same; and a position of zero quantity opens none of its lots.\<close>

lemma a_zero_lot_ahead_is_not_opened:
  "\<exists>lines. opening_lines plain_mints [] HSShort (plain_position (- 3) 0 (- 3) [0, - 3]) 0 = Inr (lines, 2)
    \<and> map ml_lot_id lines = [''LOTI'']"
  by (simp add: opening_evals MINT_LOT_def)

lemma a_zero_lot_behind_is_opened:
  "\<exists>lines. opening_lines plain_mints [] HSShort (plain_position (- 3) 0 (- 3) [- 3, 0]) 0 = Inr (lines, 2)
    \<and> map (\<lambda>line. (ml_lot_id line, ml_opens_lot line \<noteq> None)) lines = [(''LOT'', True), (''LOTI'', True)]"
  by (simp add: opening_evals MINT_LOT_def)

lemma a_zero_positions_lots_are_not_opened:
  "opening_lines plain_mints [] HSShort (plain_position 0 0 0 [- 3, 3]) 0 = Inr ([], 2)"
  by (simp add: opening_evals MINT_LOT_def)

end
