(* ===== verification/Order_Plan.thy ===== *)
theory Order_Plan
  imports Order_Table Order_Requests Order_Status Book_Opening
begin

section \<open>What an act of the order path is decided by\<close>

text \<open>
  What every command of \<open>crates/bor/src/order_decide.rs\<close> shares: who may send it, whether a claim
  lets it through, the plan it becomes, and \<open>finish\<close>, which settles the plan's consequences
  (\<open>Order_Settle\<close>), lands its lines and makes the entry (\<open>Book_Context\<close>). Settling may in principle
  run for ever, so a command's answer is an option, \<open>None\<close> where it does not return.
\<close>

definition MINT_ORDER :: string where "MINT_ORDER = ''ORD''"
definition MINT_PLACEMENT :: string where "MINT_PLACEMENT = ''PLC''"
definition MINT_LOCATE :: string where "MINT_LOCATE = ''LOC''"
definition MINT_CHANGE :: string where "MINT_CHANGE = ''CRQ''"
definition MINT_QUOTE :: string where "MINT_QUOTE = ''PQT''"

subsection \<open>An answer that may not return\<close>

definition and_then :: "'e + 'a \<Rightarrow> ('a \<Rightarrow> ('e + 'b) option) \<Rightarrow> ('e + 'b) option" where
  "and_then r f = (case r of Inl e \<Rightarrow> Some (Inl e) | Inr a \<Rightarrow> f a)"

definition once_made :: "('e + 'a) option \<Rightarrow> ('a \<Rightarrow> 'e + 'b) \<Rightarrow> ('e + 'b) option" where
  "once_made r f = map_option (\<lambda>s. rbind s f) r"

lemma and_then_Inr: "and_then r f = Some (Inr b) \<longleftrightarrow> (\<exists>a. r = Inr a \<and> f a = Some (Inr b))"
  by (auto simp: and_then_def split: sum.splits)

lemma once_made_Inr: "once_made r f = Some (Inr b) \<longleftrightarrow> (\<exists>a. r = Some (Inr a) \<and> f a = Inr b)"
  by (auto simp: once_made_def rbind_eq_Inr)

lemma and_then_simps [simp]: "and_then (Inl e) f = Some (Inl e)" "and_then (Inr a) f = f a"
  by (simp_all add: and_then_def)

subsection \<open>Who, and what may be named\<close>

definition user_required :: "act_context \<Rightarrow> string \<Rightarrow> store_error + unit" where
  "user_required cx what = guard_r (Refused ActorRequired [what] []) (cx_acting_for cx \<noteq> [])"

definition person_required :: "act_context \<Rightarrow> string \<Rightarrow> store_error + unit" where
  "person_required cx what =
     guard_r (Refused ActorRequired [what] [])
       (\<not> (cx_acting_for cx = [] \<or> cx_acting_for_kind cx = ServiceAccountSubject))"

definition fact_in_scope :: "act_context \<Rightarrow> string \<Rightarrow> bool" where
  "fact_in_scope cx account \<longleftrightarrow>
     (case cx_account_scope cx of None \<Rightarrow> True | Some scope \<Rightarrow> List.member scope account)"

definition in_scope :: "act_context \<Rightarrow> string \<Rightarrow> store_error + unit" where
  "in_scope cx account =
     (case cx_account_scope cx of
        Some scope \<Rightarrow> guard_r (Denied [account]) (List.member scope account)
      | None \<Rightarrow> Inr ())"

definition listed_derivative :: "act_context \<Rightarrow> string \<Rightarrow> bool" where
  "listed_derivative cx instrument \<longleftrightarrow>
     (case bt_get (cx_records cx) instrument of
        None \<Rightarrow> False
      | Some says \<Rightarrow> instrument_type_of (sy_instrument_type says) \<in> {Some ITListedOption, Some ITFutureOption, Some ITFuture})"

definition malformed :: "string \<Rightarrow> store_error" where "malformed field = Malformed [field] []"

definition venue_actor :: "act_context \<Rightarrow> actor" where
  "venue_actor cx = \<lparr>at_kind = Some (ByVenue \<lparr>va_instance_id = cx_instance_id cx, va_venue_id = []\<rparr>)\<rparr>"

definition fact_actor :: "act_context \<Rightarrow> actor" where
  "fact_actor cx = (if cx_acting_for cx = [] then venue_actor cx else cx_actor cx)"

definition standing_of :: "act_context \<Rightarrow> order_condition \<Rightarrow> string \<Rightarrow> order_standing" where
  "standing_of cx c reason =
     order_standing_default\<lparr>oc_condition := order_condition_no c, oc_reason := reason, oc_actor := Some (cx_actor cx)\<rparr>"

definition condition_act :: "string \<Rightarrow> bool \<Rightarrow> order_standing \<Rightarrow> act" where
  "condition_act i on standing = Condition i (oc_condition standing) on standing"

definition held_order :: "account_book \<Rightarrow> string \<Rightarrow> store_error + order_held" where
  "held_order b i = ok_or (Invalid [ab_account_id b, i]) (bt_get (l_orders (ab_ledger b)) i)"

definition placed_at :: "account_book \<Rightarrow> string \<Rightarrow> store_error + placement_held" where
  "placed_at b i = ok_or (Invalid [ab_account_id b, i]) (bt_get (l_placements (ab_ledger b)) i)"

definition has_condition :: "order_held \<Rightarrow> order_condition \<Rightarrow> bool" where
  "has_condition h c \<longleftrightarrow> bt_has (h_conditions h) (order_condition_no c)"

definition claim_standing :: "order_held \<Rightarrow> claimant option" where
  "claim_standing h = Option.bind (bt_get (h_conditions h) (order_condition_no CClaimed)) oc_claimant"

definition claim_user_named :: "claimant \<Rightarrow> string" where
  "claim_user_named c =
     (case cl_user c of
        Some (ClaimPerson p) \<Rightarrow> pa_subject p | Some (ClaimService s) \<Rightarrow> sva_subject s | None \<Rightarrow> [])"

definition claim_allows :: "order_held \<Rightarrow> act_context \<Rightarrow> bool" where
  "claim_allows h cx \<longleftrightarrow>
     (case claim_standing h of
        None \<Rightarrow> True
      | Some c \<Rightarrow> cl_instance_id c = cx_instance_id cx \<and> claim_user_named c = cx_acting_for cx)"

definition claim_refused :: "order_held \<Rightarrow> store_error" where
  "claim_refused h =
     Refused Claimed [or_order_id (h_order h), case claim_standing h of None \<Rightarrow> [] | Some c \<Rightarrow> cl_instance_id c] []"

definition decimal_field :: "string \<Rightarrow> decimal option \<Rightarrow> store_error + exact option" where
  "decimal_field field wire =
     (case wire of
        None \<Rightarrow> Inr None
      | Some d \<Rightarrow> (case from_wire d of Inl _ \<Rightarrow> Inl (malformed field) | Inr x \<Rightarrow> Inr (Some x)))"

definition positive_field :: "string \<Rightarrow> decimal option \<Rightarrow> store_error + exact" where
  "positive_field field wire =
     rbind (decimal_field field wire) (\<lambda>q.
       case q of
         Some x \<Rightarrow> if \<not> is_zero x \<and> \<not> is_negative x then Inr x else Inl (malformed field)
       | None \<Rightarrow> Inl (malformed field))"

definition amount_of :: "money option \<Rightarrow> exact option" where
  "amount_of m = read_wire (Option.bind m mo_amount)"

definition opt_date_field :: "string \<Rightarrow> string \<Rightarrow> store_error + unit" where
  "opt_date_field field text = guard_r (malformed field) (text = [] \<or> is_date text)"

definition cash_instrument :: "known \<Rightarrow> money \<Rightarrow> store_error + string" where
  "cash_instrument kn m =
     (if mo_instrument_id m \<noteq> [] then Inr (mo_instrument_id m)
      else ok_or (Refused ReferenceUnavailable [mo_currency_code m] []) (money_known kn (mo_currency_code m)))"

definition agent_live_refused :: "act_context \<Rightarrow> bool" where
  "agent_live_refused cx \<longleftrightarrow>
     (case cx_agent_orders_demo_only cx of None \<Rightarrow> True | Some on \<Rightarrow> on) \<and> is_agents cx \<and> \<not> cx_connectivity_demo cx"

definition local_record_allowed :: "act_context \<Rightarrow> string \<Rightarrow> string \<Rightarrow> store_error + unit" where
  "local_record_allowed cx instrument what =
     (let provisional = (case bt_get (cx_records cx) instrument of None \<Rightarrow> False | Some says \<Rightarrow> sy_provisional says);
          allowed = (case cx_local_record_orders cx of None \<Rightarrow> True | Some on \<Rightarrow> on)
      in guard_r (Refused LocalRecordNotAllowed [what, instrument] []) (\<not> (provisional \<and> \<not> allowed)))"

subsection \<open>A plan made an entry\<close>

record plan =
  pln_kind :: string
  pln_actor :: actor
  pln_acts :: "act list"
  pln_lines :: "movement_line list"
  pln_reason :: string
  pln_idempotency_key :: string
  pln_effective_date :: string

definition plan_new :: "string \<Rightarrow> actor \<Rightarrow> act list \<Rightarrow> plan" where
  "plan_new kind a acts =
     \<lparr>pln_kind = kind, pln_actor = a, pln_acts = acts, pln_lines = [], pln_reason = [], pln_idempotency_key = [],
      pln_effective_date = []\<rparr>"

definition landing :: "known \<Rightarrow> account_book \<Rightarrow> string \<Rightarrow> string" where
  "landing kn b instrument =
     (let became = became_current kn instrument in
      if became = instrument then became
      else if list_ex (\<lambda>(k, p). fst k = instrument \<and> \<not> pn_removed p) (ab_positions b) then instrument
      else became)"

definition landed :: "known \<Rightarrow> account_book \<Rightarrow> movement_line list \<Rightarrow> movement_line list" where
  "landed kn b = map (\<lambda>line. line\<lparr>ml_instrument_id := landing kn b (ml_instrument_id line)\<rparr>)"

definition finish_draft :: "known \<Rightarrow> minting \<Rightarrow> account_book \<Rightarrow> act_context \<Rightarrow> plan \<Rightarrow> act list \<Rightarrow> draft" where
  "finish_draft kn mints b cx p acts =
     (let lines = landed kn b (pln_lines p);
          first = (first_attributes b \<and> is_account (ab_account_id b))
      in \<lparr>dr_entry_id = mints MINT_ENTRY 0, dr_kind = pln_kind p,
          dr_effective_date = (if pln_effective_date p = [] then cx_today cx else pln_effective_date p),
          dr_reason = pln_reason p, dr_break_ids = [], dr_idempotency_key = pln_idempotency_key p,
          dr_actor = pln_actor p,
          dr_body = entry_body_default\<lparr>by_acts := acts, by_lines := lines, by_trade := (lines \<noteq> []),
            by_attributes := (if first then Some (attributes_of b) else None), by_states_waits := first\<rparr>\<rparr>)"

definition finish ::
  "known \<Rightarrow> minting \<Rightarrow> account_book \<Rightarrow> nat \<Rightarrow> act_context \<Rightarrow> plan \<Rightarrow> (store_error + made_act) option" where
  "finish kn mints b head cx p =
     once_made (settle (ab_ledger b) (pln_acts p)) (\<lambda>acts. made kn b head cx (finish_draft kn mints b cx p acts))"

definition state_of :: "account_book \<Rightarrow> string \<Rightarrow> store_error + order_state" where
  "state_of b i = order_state_at (ab_ledger b) i"

definition check_reached :: "string \<Rightarrow> string \<Rightarrow> order_state \<Rightarrow> made_act \<Rightarrow> store_error + made_act" where
  "check_reached i row_id from_state m =
     rbind (order_row row_id) (\<lambda>r.
     rbind (state_of (md_book m) i) (\<lambda>to_state.
       if admits r (Some from_state) to_state then Inr m
       else Inl (state_refused r from_state
              (''this change, which would leave order '' @ i @ '' '' @ state_named to_state))))"

end
