(* ===== verification/Order_Commands.thy ===== *)
theory Order_Commands
  imports Order_Plan
begin

section \<open>Commands on an order\<close>

text \<open>
  \<open>crates/bor/src/order_decide.rs\<close>, its commands on an order already in the book: a change asked
  for (a cancel with everything under it, a withdrawal, a recall, an amendment, a quantity), a check
  recorded, an approval decided, a release through the gate, a claim, hold or pause set, a time in
  force ended and a flag acknowledged. No command sets a state: each is a plan of acts, and the fold
  says what state they leave, held to the row of the transition table the command names.
  The walk down an order's children is bounded as the fold's own (\<open>Order_Fold\<close>).
\<close>

subsection \<open>A cancel, with everything under it\<close>

definition cancel_pending_on :: "ledger \<Rightarrow> placement_held \<Rightarrow> bool" where
  "cancel_pending_on l p \<longleftrightarrow>
     list_ex (\<lambda>i. case bt_get (l_changes l) i of
         None \<Rightarrow> False
       | Some r \<Rightarrow> cr_outcome r = change_outcome_no RPending
           \<and> (case cr_change r of Some (OfPlacement c) \<Rightarrow> pch_kind c = placement_change_kind_no PKCancel | _ \<Rightarrow> False))
       (pd_change_requests p)"

definition cancel_placement ::
  "minting \<Rightarrow> ledger \<Rightarrow> string \<Rightarrow> string \<Rightarrow> string \<Rightarrow> act list \<times> nat \<Rightarrow> store_error + act list \<times> nat" where
  "cancel_placement mints l reason i p s =
     (let (acts, drawn) = s in
      case bt_get (l_placements l) p of
        None \<Rightarrow> Inl Panicked
      | Some h \<Rightarrow>
          if cancel_pending_on l h then Inr s
          else Inr (acts @ [ChangeOpened (change_request_default\<lparr>cr_change_request_id := mints MINT_CHANGE drawn,
                     cr_order_id := i, cr_placement_id := p,
                     cr_change := Some (OfPlacement (placement_change_default\<lparr>pch_kind := placement_change_kind_no PKCancel\<rparr>)),
                     cr_reason := reason, cr_outcome := change_outcome_no RPending\<rparr>)], drawn + 1))"

definition cancel_child :: "minting \<Rightarrow> string \<Rightarrow> string \<Rightarrow> act list \<times> nat \<Rightarrow> act list \<times> nat" where
  "cancel_child mints reason c s =
     (let (acts, drawn) = s
      in (acts @ [ChangeOpened (change_request_default\<lparr>cr_change_request_id := mints MINT_CHANGE drawn,
            cr_order_id := c, cr_change := Some (OfOrder (order_change_default\<lparr>och_kind := order_change_kind_no OKCancel\<rparr>)),
            cr_reason := reason, cr_outcome := change_outcome_no RPending\<rparr>)], drawn + 1))"

primrec cancel_parts_in ::
  "nat \<Rightarrow> minting \<Rightarrow> ledger \<Rightarrow> order_state \<Rightarrow> string \<Rightarrow> string \<Rightarrow> act list \<times> nat \<Rightarrow> store_error + act list \<times> nat" where
  "cancel_parts_in 0 mints l ending reason i s = Inl Panicked"
| "cancel_parts_in (Suc n) mints l ending reason i s =
     rbind (live_parts l i) (\<lambda>(ps, cs).
     rbind (rfold (cancel_placement mints l reason i) ps s) (\<lambda>s1.
       rfold (\<lambda>c s. rbind (cancel_parts_in n mints l ending reason c (cancel_child mints reason c s)) (\<lambda>(acts, drawn).
                Inr (acts @ [Ending c (order_state_no ending)], drawn))) cs s1))"

definition cancel_parts ::
  "minting \<Rightarrow> account_book \<Rightarrow> order_state \<Rightarrow> string \<Rightarrow> string \<Rightarrow> act list \<times> nat \<Rightarrow> store_error + act list \<times> nat" where
  "cancel_parts mints b ending reason i s =
     cancel_parts_in (depth (ab_ledger b)) mints (ab_ledger b) ending reason i s"

subsection \<open>The gate\<close>

fun allocation_sums :: "allocation_line list \<Rightarrow> exact \<Rightarrow> exact \<Rightarrow> store_error + (exact \<times> exact) option" where
  "allocation_sums [] amounts weights = Inr (Some (amounts, weights))"
| "allocation_sums (line # lines) amounts weights =
     rbind (decimal_field ''allocation_instruction.lines.quantity'' (aln_quantity line)) (\<lambda>q.
       case q of
         Some v \<Rightarrow> rbind (num_add ''allocation'' amounts v) (\<lambda>a. allocation_sums lines a weights)
       | None \<Rightarrow>
           rbind (decimal_field ''allocation_instruction.lines.weight'' (aln_weight line)) (\<lambda>w.
             case w of
               Some v \<Rightarrow> rbind (num_add ''allocation'' weights v) (\<lambda>w'. allocation_sums lines amounts w')
             | None \<Rightarrow> Inr None))"

definition allocation_balanced :: "order_held \<Rightarrow> store_error + bool" where
  "allocation_balanced h =
     (case or_allocation_instruction (h_order h) of
        None \<Rightarrow> Inr True
      | Some instruction \<Rightarrow>
          if ai_lines instruction = [] then Inr True
          else rbind (allocation_sums (ai_lines instruction) ex_zero ex_zero) (\<lambda>s.
                 case s of
                   None \<Rightarrow> Inr False
                 | Some (amounts, weights) \<Rightarrow>
                     rbind (num_multiply ''allocation'' weights (ordered h)) (\<lambda>weighted.
                     rbind (num_add ''allocation'' amounts weighted) (\<lambda>total. Inr (ex_eq total (ordered h))))))"

definition verdict_on_version :: "order_held \<Rightarrow> bool" where
  "verdict_on_version h \<longleftrightarrow> list_ex (\<lambda>c. ck_order_version c = h_version h \<and> ck_placement_id c = []) (h_checks h)"

definition block_stands :: "order_held \<Rightarrow> bool" where
  "block_stands h \<longleftrightarrow> h_overridden_version h \<noteq> Some (h_version h)
     \<and> list_ex (\<lambda>c. ck_placement_id c = [] \<and> ck_order_version c = h_version h \<and> ck_verdict c = verdict_no CVBlock) (h_checks h)"

definition gate :: "order_held \<Rightarrow> store_error + unit" where
  "gate h =
     rbind (allocation_balanced h) (\<lambda>balanced.
     rbind (guard_r (Refused AllocationUnbalanced [or_order_id (h_order h)] []) balanced) (\<lambda>_.
     rbind (guard_r (Refused CheckBlocks [or_order_id (h_order h)] []) (\<not> block_stands h)) (\<lambda>_.
       guard_r (Refused ApprovalRequired [or_order_id (h_order h)] []) (\<not> has_condition h CApprovalRequired))))"

subsection \<open>A change asked for\<close>

definition change_quote_currency_holds :: "known \<Rightarrow> order_terms \<Rightarrow> order_change \<Rightarrow> store_error + unit" where
  "change_quote_currency_holds kn t c =
     (if or_quote_currency t = [] then Inr ()
      else case och_limit_price c of
             None \<Rightarrow> Inr ()
           | Some price \<Rightarrow>
               rbind (cash_instrument kn price) (\<lambda>priced_in.
                 guard_r (malformed ''change.limit_price'') (priced_in = or_quote_currency t)))"

definition own_request :: "minting \<Rightarrow> order_change_request \<Rightarrow> order_change \<Rightarrow> change_outcome \<Rightarrow> act" where
  "own_request mints q c outcome =
     ChangeOpened (change_request_default\<lparr>cr_change_request_id := mints MINT_CHANGE 0, cr_order_id := qoc_order_id q,
       cr_change := Some (OfOrder c), cr_reason := qoc_reason q, cr_outcome := change_outcome_no outcome\<rparr>)"

definition nothing_in :: "decimal option \<Rightarrow> bool" where
  "nothing_in w \<longleftrightarrow> (case read_wire w of None \<Rightarrow> True | Some x \<Rightarrow> is_zero x)"

definition recall_acts ::
  "minting \<Rightarrow> account_book \<Rightarrow> act_context \<Rightarrow> order_held \<Rightarrow> order_state \<Rightarrow> order_change_request \<Rightarrow> order_change
    \<Rightarrow> store_error + act list" where
  "recall_acts mints b cx h state q c =
     rbind (command_from ''5'' state ''a recall'') (\<lambda>_.
     rbind (guard_r (claim_refused h) (claim_allows h cx)) (\<lambda>_.
     rbind (quantities (ab_ledger b) (qoc_order_id q)) (\<lambda>qs.
       if \<not> nothing_in (oq_committed qs) \<or> \<not> nothing_in (oq_reported_filled qs)
       then row_refused ''5'' state ''a recall of an order with quantity committed or filled''
       else Inr [own_request mints q c RApplied, Recalled (qoc_order_id q)])))"

definition amended :: "order_change \<Rightarrow> order_terms \<Rightarrow> order_terms" where
  "amended c t =
     t\<lparr>or_limit_price := (if och_limit_price c = None then or_limit_price t else och_limit_price c),
       or_time_in_force := (if och_time_in_force c = time_in_force_no IUnspecified then or_time_in_force t
                            else och_time_in_force c),
       or_execution_instructions := (if och_execution_instructions c = [] then or_execution_instructions t
                                     else och_execution_instructions c)\<rparr>"

definition replace_requests ::
  "minting \<Rightarrow> order_change_request \<Rightarrow> order_change \<Rightarrow> string list \<Rightarrow> act list" where
  "replace_requests mints q c ps =
     map (\<lambda>(n, p). ChangeOpened (change_request_default\<lparr>cr_change_request_id := mints MINT_CHANGE (Suc n),
            cr_order_id := qoc_order_id q, cr_placement_id := p,
            cr_change := Some (OfPlacement (placement_change_default\<lparr>pch_kind := placement_change_kind_no PKReplace,
              pch_limit_price := och_limit_price c, pch_time_in_force := och_time_in_force c, pch_quantity := None\<rparr>)),
            cr_reason := qoc_reason q, cr_outcome := change_outcome_no RPending\<rparr>))
       (numbered_list ps)"

definition amend_acts ::
  "minting \<Rightarrow> account_book \<Rightarrow> act_context \<Rightarrow> order_held \<Rightarrow> order_state \<Rightarrow> order_change_request \<Rightarrow> order_change
    \<Rightarrow> store_error + act list" where
  "amend_acts mints b cx h state q c =
     (if state_ended state \<or> state = OFilled then row_refused ''15'' state ''an amendment''
      else
        rbind (guard_r (claim_refused h) (claim_allows h cx)) (\<lambda>_.
        rbind (if state = OProposed then Inr []
               else rbind (live_parts (ab_ledger b) (qoc_order_id q)) (\<lambda>(ps, cs). Inr ps)) (\<lambda>ps.
          Inr ([own_request mints q c RApplied, Terms (amended c (h_order h))] @ replace_requests mints q c ps))))"

definition resized :: "order_change \<Rightarrow> exact \<Rightarrow> order_terms \<Rightarrow> order_terms" where
  "resized c quantity t =
     (let t1 = (if or_quantity t \<noteq> None \<or> or_cash_quantity t = None then t\<lparr>or_quantity := num_wire quantity\<rparr>
                else t\<lparr>or_cash_quantity := map_option (\<lambda>m. m\<lparr>mo_amount := num_wire quantity\<rparr>) (or_cash_quantity t)\<rparr>)
      in (case och_allocation_instruction c of
            None \<Rightarrow> t1 | Some instruction \<Rightarrow> t1\<lparr>or_allocation_instruction := Some instruction\<rparr>))"

definition quantity_conditions ::
  "act_context \<Rightarrow> order_held \<Rightarrow> string \<Rightarrow> bool \<Rightarrow> exact \<Rightarrow> bool \<Rightarrow> act list" where
  "quantity_conditions cx h i gated quantity alignment =
     (if ex_cmp quantity (ordered h) = Greater \<and> gated \<and> h_released h
      then [condition_act i True
              (standing_of cx CAwaitingCheck ''an increase waits for compliance on the new version'')]
      else [])
     @ (if alignment \<and> has_condition h CDoesNotTieOut
        then [condition_act i False (standing_of cx CDoesNotTieOut ''aligned'')]
        else [])"

definition quantity_acts ::
  "minting \<Rightarrow> account_book \<Rightarrow> act_context \<Rightarrow> order_held \<Rightarrow> order_state \<Rightarrow> order_change_request \<Rightarrow> order_change
    \<Rightarrow> store_error + act list" where
  "quantity_acts mints b cx h state q c =
     (if state_ended state then row_refused ''18'' state ''a quantity change''
      else
        rbind (decimal_field ''change.quantity'' (och_quantity c)) (\<lambda>asked.
        rbind (ok_or (malformed ''change.quantity'') asked) (\<lambda>quantity.
        rbind (guard_r (malformed ''change.quantity'') (\<not> is_negative quantity)) (\<lambda>_.
        rbind (filled (ab_ledger b) (qoc_order_id q)) (\<lambda>(f, _, _).
          let own = (h_opened_by h \<noteq> [] \<and> h_opened_by h = cx_instance_id cx);
              alignment = ex_eq quantity f;
              gated = aa_waits_for_compliance (attributes_of b)
          in rbind (if own then Inr ()
                    else if \<not> alignment
                    then row_refused ''18'' state
                           ''a quantity change by other than the order's own proposer that is not an alignment bringing ordered to what was transacted''
                    else guard_r (Refused ReasonRequired [] []) (trim (qoc_reason q) \<noteq> [])) (\<lambda>_.
             rbind (guard_r (claim_refused h) (claim_allows h cx \<or> own)) (\<lambda>_.
               Inr ([own_request mints q c RApplied, Terms (resized c quantity (h_order h))]
                    @ quantity_conditions cx h (qoc_order_id q) gated quantity alignment))))))))"

definition order_change_acts ::
  "minting \<Rightarrow> account_book \<Rightarrow> act_context \<Rightarrow> order_held \<Rightarrow> order_state \<Rightarrow> order_change_request \<Rightarrow> order_change
    \<Rightarrow> store_error + string \<times> string \<times> act list" where
  "order_change_acts mints b cx h state q c =
     (let i = qoc_order_id q in
      case order_change_kind_of (och_kind c) of
        Some OKCancel \<Rightarrow>
          rbind (command_from ''i3'' state ''a cancel'') (\<lambda>_.
          rbind (cancel_parts mints b OCancelled (qoc_reason q) i ([own_request mints q c RPending], 1)) (\<lambda>(acts, _).
            Inr (''i3'', ''order-cancel-requested'', acts @ [Ending i (order_state_no OCancelled)])))
      | Some OKWithdraw \<Rightarrow>
          rbind (command_from ''i1'' state ''a withdrawal'') (\<lambda>_.
            Inr (''i1'', ''order-withdrawn'', [own_request mints q c RApplied, Ended i (order_state_no OCancelled)]))
      | Some OKRecall \<Rightarrow>
          rbind (recall_acts mints b cx h state q c) (\<lambda>acts. Inr (''5'', ''order-recalled'', acts))
      | Some OKAmend \<Rightarrow>
          rbind (amend_acts mints b cx h state q c) (\<lambda>acts.
            Inr (if state = OProposed then [] else ''15'', ''order-amended'', acts))
      | Some OKQuantity \<Rightarrow>
          rbind (quantity_acts mints b cx h state q c) (\<lambda>acts. Inr ([], ''order-quantity-changed'', acts))
      | _ \<Rightarrow> Inl (malformed ''change.kind''))"

definition order_change_decided ::
  "known \<Rightarrow> minting \<Rightarrow> account_book \<Rightarrow> act_context \<Rightarrow> order_change_request
    \<Rightarrow> store_error + order_state \<times> string \<times> string \<times> act list" where
  "order_change_decided kn mints b cx q =
     rbind (held_order b (qoc_order_id q)) (\<lambda>h.
     rbind (in_scope cx (or_account_id (h_order h))) (\<lambda>_.
     rbind (user_required cx ''asking for a change to an order'') (\<lambda>_.
     rbind (ok_or (malformed ''change'') (qoc_change q)) (\<lambda>c.
     rbind (change_quote_currency_holds kn (h_order h) c) (\<lambda>_.
     rbind (state_of b (qoc_order_id q)) (\<lambda>state.
     rbind (order_change_acts mints b cx h state q c) (\<lambda>s. Inr (state, s))))))))"

definition request_order_change ::
  "known \<Rightarrow> minting \<Rightarrow> account_book \<Rightarrow> nat \<Rightarrow> act_context \<Rightarrow> order_change_request
    \<Rightarrow> (store_error + made_act \<times> string) option" where
  "request_order_change kn mints b head cx q =
     and_then (order_change_decided kn mints b cx q) (\<lambda>(state, row_id, kind, acts).
       once_made (finish kn mints b head cx
          ((plan_new kind (cx_actor cx) acts)\<lparr>pln_reason := qoc_reason q, pln_idempotency_key := qoc_idempotency_key q\<rparr>))
         (\<lambda>m. rbind (if row_id = [] then Inr m else check_reached (qoc_order_id q) row_id state m) (\<lambda>m.
            Inr (m, mints MINT_CHANGE 0))))"

subsection \<open>A check recorded\<close>

definition checked_order :: "account_book \<Rightarrow> check_request \<Rightarrow> store_error + string" where
  "checked_order b q =
     (if qck_placement_id q = [] then Inr (qck_order_id q)
      else rbind (placed_at b (qck_placement_id q)) (\<lambda>p. Inr (pl_order_id (pd_placement p))))"

definition check_of :: "act_context \<Rightarrow> order_held \<Rightarrow> check_request \<Rightarrow> check_verdict" where
  "check_of cx h q =
     \<lparr>ck_verdict = qck_verdict q,
      ck_order_version = (if qck_placement_id q \<noteq> [] then 0
                          else if qck_order_version q = 0 then h_version h else qck_order_version q),
      ck_placement_id = qck_placement_id q, ck_rule = qck_rule q, ck_note = qck_note q,
      ck_instance_id = cx_instance_id cx, ck_recorded_by = Some (cx_actor cx)\<rparr>"

definition check_acts ::
  "act_context \<Rightarrow> string \<Rightarrow> order_held \<Rightarrow> order_state \<Rightarrow> check_verdict \<Rightarrow> string \<times> act list" where
  "check_acts cx i h state c =
     (if ck_placement_id c \<noteq> [] then ([], [Checked i c])
      else if ck_verdict c = verdict_no CVRefuse \<and> state = OProposed
      then (''4'', [Checked i c, Ended i (order_state_no ORefused)])
      else if ck_order_version c = h_version h \<and> has_condition h CAwaitingCheck
      then let answered = [Checked i c, condition_act i False (standing_of cx CAwaitingCheck ''answered'')]
           in if h_release_requested h \<and> state = OProposed \<and> gate (h\<lparr>h_checks := h_checks h @ [c]\<rparr>) = Inr ()
              then (''1'', answered @ [Released i])
              else ([], answered)
      else ([], [Checked i c]))"

definition check_decided ::
  "account_book \<Rightarrow> act_context \<Rightarrow> check_request \<Rightarrow> store_error + string \<times> order_state \<times> string \<times> act list" where
  "check_decided b cx q =
     rbind (checked_order b q) (\<lambda>i.
     rbind (held_order b i) (\<lambda>h.
     rbind (in_scope cx (or_account_id (h_order h))) (\<lambda>_.
     rbind (user_required cx ''recording a check'') (\<lambda>_.
     rbind (guard_r (malformed ''verdict'')
              (\<not> (qck_verdict q = verdict_no CVUnspecified \<or> verdict_of (qck_verdict q) = None))) (\<lambda>_.
     rbind (state_of b i) (\<lambda>state.
       Inr (i, state, check_acts cx i h state (check_of cx h q))))))))"

definition record_check ::
  "known \<Rightarrow> minting \<Rightarrow> account_book \<Rightarrow> nat \<Rightarrow> act_context \<Rightarrow> check_request \<Rightarrow> (store_error + made_act) option" where
  "record_check kn mints b head cx q =
     and_then (check_decided b cx q) (\<lambda>(i, state, row_id, acts).
       once_made (finish kn mints b head cx
          ((plan_new ''check-recorded'' (cx_actor cx) acts)\<lparr>pln_idempotency_key := qck_idempotency_key q\<rparr>))
         (\<lambda>m. if row_id = [] then Inr m else check_reached i row_id state m))"

subsection \<open>An approval decided\<close>

definition approval_acts ::
  "act_context \<Rightarrow> order_state \<Rightarrow> approval_request \<Rightarrow> store_error + string \<times> act list" where
  "approval_acts cx state q =
     (let i = qap_order_id q;
          required = (\<lambda>on. [condition_act i on (standing_of cx CApprovalRequired (qap_reason q))])
      in case approval_of (qap_decision q) of
        Some APRequire \<Rightarrow>
          rbind (user_required cx ''requiring approval'') (\<lambda>_.
          rbind (command_from ''2'' state ''requiring approval'') (\<lambda>_. Inr (''2'', required True)))
      | Some APApprove \<Rightarrow>
          rbind (person_required cx ''an approval'') (\<lambda>_.
          rbind (command_from ''2'' state ''an approval'') (\<lambda>_. Inr (''2'', required False)))
      | Some APOverride \<Rightarrow>
          rbind (person_required cx ''an override'') (\<lambda>_.
          rbind (guard_r (Refused ReasonRequired [] []) (trim (qap_reason q) \<noteq> [])) (\<lambda>_.
          rbind (command_from ''3'' state ''an override'') (\<lambda>_. Inr (''3'', [Overridden i]))))
      | Some APReject \<Rightarrow>
          rbind (user_required cx ''a rejection'') (\<lambda>_.
          rbind (command_from ''4'' state ''a rejection'') (\<lambda>_. Inr (''4'', [Ended i (order_state_no ORefused)])))
      | _ \<Rightarrow> Inl (malformed ''decision''))"

definition approval_decided ::
  "account_book \<Rightarrow> act_context \<Rightarrow> approval_request \<Rightarrow> store_error + order_state \<times> string \<times> act list" where
  "approval_decided b cx q =
     rbind (held_order b (qap_order_id q)) (\<lambda>h.
     rbind (in_scope cx (or_account_id (h_order h))) (\<lambda>_.
     rbind (state_of b (qap_order_id q)) (\<lambda>state.
     rbind (approval_acts cx state q) (\<lambda>s. Inr (state, s)))))"

definition decide_approval ::
  "known \<Rightarrow> minting \<Rightarrow> account_book \<Rightarrow> nat \<Rightarrow> act_context \<Rightarrow> approval_request \<Rightarrow> (store_error + made_act) option" where
  "decide_approval kn mints b head cx q =
     and_then (approval_decided b cx q) (\<lambda>(state, row_id, acts).
       once_made (finish kn mints b head cx
          ((plan_new ''approval-decided'' (cx_actor cx) acts)\<lparr>pln_reason := qap_reason q,
             pln_idempotency_key := qap_idempotency_key q\<rparr>))
         (check_reached (qap_order_id q) row_id state))"

subsection \<open>A release\<close>

definition release_acts :: "account_book \<Rightarrow> act_context \<Rightarrow> string \<Rightarrow> order_held \<Rightarrow> act list" where
  "release_acts b cx i h =
     (if aa_waits_for_compliance (attributes_of b) \<and> \<not> verdict_on_version h
      then [ReleaseRequested i,
            condition_act i True (standing_of cx CAwaitingCheck
              ''the account waits for compliance, which has not answered on this version'')]
      else [Released i])"

definition release_decided ::
  "account_book \<Rightarrow> act_context \<Rightarrow> release_request \<Rightarrow> store_error + order_state \<times> act list" where
  "release_decided b cx q =
     rbind (held_order b (qre_order_id q)) (\<lambda>h.
     rbind (in_scope cx (or_account_id (h_order h))) (\<lambda>_.
     rbind (user_required cx ''releasing an order'') (\<lambda>_.
     rbind (state_of b (qre_order_id q)) (\<lambda>state.
     rbind (command_from ''1'' state ''a release'') (\<lambda>_.
     rbind (gate h) (\<lambda>_.
       Inr (state, release_acts b cx (qre_order_id q) h)))))))"

definition release_order ::
  "known \<Rightarrow> minting \<Rightarrow> account_book \<Rightarrow> nat \<Rightarrow> act_context \<Rightarrow> release_request \<Rightarrow> (store_error + made_act) option" where
  "release_order kn mints b head cx q =
     and_then (release_decided b cx q) (\<lambda>(state, acts).
       once_made (finish kn mints b head cx
          ((plan_new ''order-released'' (cx_actor cx) acts)\<lparr>pln_idempotency_key := qre_idempotency_key q\<rparr>))
         (check_reached (qre_order_id q) ''1'' state))"

subsection \<open>Claim, hold and pause\<close>

definition claimant_of :: "act_context \<Rightarrow> claimant" where
  "claimant_of cx =
     \<lparr>cl_instance_id = cx_instance_id cx,
      cl_user = (case at_kind (cx_actor cx) of
                   Some (ByPerson p) \<Rightarrow> Some (ClaimPerson p)
                 | Some (ByService s) \<Rightarrow> Some (ClaimService s)
                 | _ \<Rightarrow> None)\<rparr>"

definition with_cause :: "order_condition \<Rightarrow> working_request \<Rightarrow> order_standing \<Rightarrow> store_error + order_standing" where
  "with_cause kind q c =
     rbind (ok_or (malformed ''hold_cause'') (hold_cause_of (qwc_hold_cause q))) (\<lambda>cause.
       if cause \<noteq> HCUnspecified then
         rbind (guard_r (malformed ''hold_cause'') (\<not> (kind \<noteq> CHeld \<or> \<not> qwc_set q))) (\<lambda>_.
         rbind (ok_or (malformed ''stale_reference'')
                  (Option.bind (qwc_stale_reference q) (\<lambda>s. if sr_dataset s \<noteq> [] then Some s else None))) (\<lambda>stale.
         rbind (guard_r (malformed ''stale_reference'') (\<not> (sr_age_ns stale < 0 \<or> sr_ceiling_ns stale < 0))) (\<lambda>_.
           Inr (c\<lparr>oc_hold_cause := qwc_hold_cause q, oc_stale_reference := Some stale\<rparr>))))
       else rbind (guard_r (malformed ''stale_reference'') (qwc_stale_reference q = None)) (\<lambda>_. Inr c))"

definition condition_kind :: "int \<Rightarrow> order_condition" where
  "condition_kind no = (case order_condition_of no of None \<Rightarrow> CUnspecified | Some c \<Rightarrow> c)"

definition working_decided ::
  "account_book \<Rightarrow> act_context \<Rightarrow> working_request \<Rightarrow> store_error + act list" where
  "working_decided b cx q =
     rbind (held_order b (qwc_order_id q)) (\<lambda>h.
     rbind (in_scope cx (or_account_id (h_order h))) (\<lambda>_.
     rbind (user_required cx ''claiming, holding or pausing an order'') (\<lambda>_.
     rbind (state_of b (qwc_order_id q)) (\<lambda>state.
       let kind = condition_kind (qwc_condition q) in
       if kind \<notin> {CClaimed, CHeld, CPaused} then Inl (malformed ''condition'')
       else if state_ended state \<or> state = OFilled then row_refused ''9'' state ''a working condition''
       else
         rbind (if kind = CPaused then command_from ''9'' state ''a pause or a resume'' else Inr ()) (\<lambda>_.
         rbind (guard_r (claim_refused h)
                  (\<not> (has_condition h CClaimed \<and> \<not> (kind = CClaimed \<and> \<not> qwc_set q) \<and> \<not> claim_allows h cx))) (\<lambda>_.
         rbind (with_cause kind q (standing_of cx kind (qwc_reason q))) (\<lambda>c.
           Inr [condition_act (qwc_order_id q) (qwc_set q)
                  (if kind = CClaimed then c\<lparr>oc_claimant := Some (claimant_of cx)\<rparr> else c)])))))))"

definition set_working_condition ::
  "known \<Rightarrow> minting \<Rightarrow> account_book \<Rightarrow> nat \<Rightarrow> act_context \<Rightarrow> working_request \<Rightarrow> (store_error + made_act) option" where
  "set_working_condition kn mints b head cx q =
     and_then (working_decided b cx q) (\<lambda>acts.
       finish kn mints b head cx
         ((plan_new ''working-condition-set'' (cx_actor cx) acts)\<lparr>pln_reason := qwc_reason q,
            pln_idempotency_key := qwc_idempotency_key q\<rparr>))"

subsection \<open>A time in force ended\<close>

definition expire_plan ::
  "minting \<Rightarrow> account_book \<Rightarrow> act_context \<Rightarrow> string \<Rightarrow> store_error + plan option" where
  "expire_plan mints b cx i =
     (case bt_get (l_orders (ab_ledger b)) i of
        None \<Rightarrow> Inr None
      | Some h \<Rightarrow>
          rbind (state_of b i) (\<lambda>state.
            if due_at h = None then Inr None
            else
              rbind (order_row ''i7'') (\<lambda>never_released.
                if state = OProposed \<and> starts_from never_released (Some state)
                then Inr (Some ((plan_new ''order-expired'' (cx_actor cx) [Ended i (order_state_no OExpired)])
                       \<lparr>pln_reason := ''a day order never released: its day ended by the deployment's clock''\<rparr>))
                else rbind (order_row ''i4'') (\<lambda>expiring.
                  if \<not> starts_from expiring (Some state) then Inr None
                  else rbind (cancel_parts mints b OExpired ''its time in force ended'' i ([], 0)) (\<lambda>(acts, _).
                         Inr (Some ((plan_new ''order-expiring'' (cx_actor cx)
                                       (acts @ [Ending i (order_state_no OExpired)]))
                                \<lparr>pln_reason := ''its time in force ended by the deployment's clock''\<rparr>)))))))"

definition expire ::
  "known \<Rightarrow> minting \<Rightarrow> account_book \<Rightarrow> nat \<Rightarrow> act_context \<Rightarrow> string \<Rightarrow> (store_error + made_act option) option" where
  "expire kn mints b head cx i =
     and_then (expire_plan mints b cx i) (\<lambda>p.
       case p of
         None \<Rightarrow> Some (Inr None)
       | Some p \<Rightarrow> once_made (finish kn mints b head cx p) (\<lambda>m. Inr (Some m)))"

subsection \<open>A flag acknowledged\<close>

definition acknowledge_decided ::
  "account_book \<Rightarrow> act_context \<Rightarrow> acknowledge_request \<Rightarrow> store_error + act list" where
  "acknowledge_decided b cx q =
     rbind (held_order b (qaf_order_id q)) (\<lambda>h.
     rbind (in_scope cx (or_account_id (h_order h))) (\<lambda>_.
     rbind (user_required cx ''acknowledging a flag'') (\<lambda>_.
     rbind (state_of b (qaf_order_id q)) (\<lambda>state.
       case order_condition_of (qaf_condition q) of
         Some CLateFact \<Rightarrow>
           rbind (guard_r (Refused OrderStateRefused [qaf_order_id q, state_named state] []) (has_condition h CLateFact)) (\<lambda>_.
             Inr [condition_act (qaf_order_id q) False (standing_of cx CLateFact (qaf_reason q))])
       | Some CDoesNotTieOut \<Rightarrow> Inl (Refused OrderStateRefused [] [])
       | _ \<Rightarrow> Inl (malformed ''condition'')))))"

definition acknowledge_flag ::
  "known \<Rightarrow> minting \<Rightarrow> account_book \<Rightarrow> nat \<Rightarrow> act_context \<Rightarrow> acknowledge_request \<Rightarrow> (store_error + made_act) option" where
  "acknowledge_flag kn mints b head cx q =
     and_then (acknowledge_decided b cx q) (\<lambda>acts.
       finish kn mints b head cx
         ((plan_new ''flag-acknowledged'' (cx_actor cx) acts)\<lparr>pln_reason := qaf_reason q,
            pln_idempotency_key := qaf_idempotency_key q\<rparr>))"

end
