(* ===== verification/Order_Placing.thy ===== *)
theory Order_Placing
  imports Order_Plan
begin

section \<open>Placements and their quotes\<close>

text \<open>
  \<open>crates/bor/src/order_decide.rs\<close>, its commands on a placement: one created, refused and recorded
  where the connection may not be routed through; a dealer's quote on it recorded or picked; a
  change to it asked for; the venue's report of its progress, kept as an unplaced fact where the
  book holds no such placement. What a report does to the placement is the fold's (\<open>Order_Ledger\<close>).
\<close>

definition MINT_UNPLACED :: string where "MINT_UNPLACED = ''UNP''"
definition UNKNOWN_PLACEMENT :: int where "UNKNOWN_PLACEMENT = 1"
definition UNMAPPED_VENUE_ACCOUNT :: int where "UNMAPPED_VENUE_ACCOUNT = 2"

subsection \<open>A placement created\<close>

definition saturating_sub :: "int \<Rightarrow> int \<Rightarrow> int" where
  "saturating_sub a b = max (- (2 ^ 63)) (min (2 ^ 63 - 1) (a - b))"

definition words_ns :: "int \<Rightarrow> string" where
  "words_ns ns =
     (let ms = max ns 0 div 1000000
      in show_uint (ms div 1000) @ ''.'' @ show_uint (ms mod 1000 div 100) @ '' s'')"

definition manual_details :: "placement_request \<Rightarrow> (string \<times> bool) list" where
  "manual_details q =
     [(''counterparty_contact'', qpl_counterparty_contact q \<noteq> []),
      (''agreed_at_ns'', qpl_agreed_at_ns q \<noteq> 0),
      (''agreed_precision'', qpl_agreed_precision q \<noteq> 0)]"

definition strategy_holds :: "placement_type \<Rightarrow> placement_request \<Rightarrow> store_error + unit" where
  "strategy_holds kind q =
     (if kind = PTAlgo \<and> qpl_strategy q = None then Inl (malformed ''strategy'')
      else if kind \<in> {PTDma, PTCare, PTManual} \<and> qpl_strategy q \<noteq> None then Inl (malformed ''strategy'')
      else Inr ())"

definition placement_type_holds :: "order_held \<Rightarrow> placement_request \<Rightarrow> store_error + bool" where
  "placement_type_holds h q =
     rbind (ok_or (malformed ''placement_type'') (placement_type_of (qpl_placement_type q))) (\<lambda>kind.
       if kind = PTUnspecified then Inr False
       else
         rbind (guard_r (malformed ''placement_type'')
                  (\<not> (or_order_type (h_order h) = order_type_no TRequestForQuote \<and> kind \<noteq> PTRfq))) (\<lambda>_.
         rbind (strategy_holds kind q) (\<lambda>_.
           if kind = PTManual then
             rbind (guard_r (malformed ''connectivity_instance_id'') (qpl_connectivity_instance_id q = [])) (\<lambda>_.
             rbind (guard_r (malformed ''venue_account_code'') (qpl_venue_account_code q = [])) (\<lambda>_.
             rbind (guard_r (malformed ''destination'') (qpl_destination q \<noteq> [])) (\<lambda>_. Inr True)))
           else
             rbind (guard_r (malformed ''connectivity_instance_id'') (qpl_connectivity_instance_id q \<noteq> [])) (\<lambda>_.
               case filter snd (manual_details q) of
                 (field, _) # _ \<Rightarrow> Inl (malformed field)
               | [] \<Rightarrow> Inr False))))"

definition placing_ems :: "act_context \<Rightarrow> placement_request \<Rightarrow> string" where
  "placing_ems cx q = (if qpl_ems_instance_id q = [] then cx_instance_id cx else qpl_ems_instance_id q)"

definition connection_of :: "placement_request \<Rightarrow> string" where
  "connection_of q =
     (if qpl_connectivity_instance_id q = [] then ''no connectivity plugin'' else qpl_connectivity_instance_id q)"

definition stale_holds :: "stale_reference option \<Rightarrow> store_error + unit" where
  "stale_holds s =
     (case s of
        None \<Rightarrow> Inr ()
      | Some stale \<Rightarrow>
          guard_r (malformed ''stale_reference'')
            (\<not> (sr_dataset stale = [] \<or> sr_age_ns stale < 0 \<or> sr_ceiling_ns stale < 0)))"

definition stale_status :: "act_context \<Rightarrow> stale_reference \<Rightarrow> placement_status" where
  "stale_status cx stale =
     \<lparr>ps_state = 0,
      ps_conditions = [placement_standing_default\<lparr>pc_condition := placement_condition_no PCSentOnStaleReference,
        pc_reason := ''sent on '' @ sr_dataset stale @ '''s reference price, ''
          @ words_ns (saturating_sub (sr_age_ns stale) (sr_ceiling_ns stale)) @ '' past its ceiling'',
        pc_actor := Some (cx_actor cx), pc_stale_reference := Some stale\<rparr>]\<rparr>"

definition new_placement ::
  "minting \<Rightarrow> act_context \<Rightarrow> order_held \<Rightarrow> placement_request \<Rightarrow> placement" where
  "new_placement mints cx h q =
     placement_default
       \<lparr>pl_placement_id := mints MINT_PLACEMENT 0, pl_order_id := qpl_order_id q,
        pl_account_id := or_account_id (h_order h), pl_ems_instance_id := placing_ems cx q,
        pl_connectivity_instance_id := qpl_connectivity_instance_id q,
        pl_venue_account_code := qpl_venue_account_code q, pl_quantity := qpl_quantity q,
        pl_limit_price := qpl_limit_price q,
        pl_time_in_force := (if qpl_time_in_force q = time_in_force_no IUnspecified
                             then or_time_in_force (h_order h) else qpl_time_in_force q),
        pl_strategy := qpl_strategy q, pl_destination := qpl_destination q, pl_route_type := qpl_route_type q,
        pl_handling_instructions := qpl_handling_instructions q, pl_rfq_id := qpl_rfq_id q, pl_axe_id := qpl_axe_id q,
        pl_person_roles := Some (person_roles_default\<lparr>pr_executed_by := Some (cx_actor cx)\<rparr>),
        pl_placement_type := qpl_placement_type q, pl_counterparty_contact := qpl_counterparty_contact q,
        pl_agreed_at_ns := qpl_agreed_at_ns q, pl_agreed_precision := qpl_agreed_precision q,
        pl_status := map_option (stale_status cx) (qpl_stale_reference q)\<rparr>"

definition refused_plan :: "act_context \<Rightarrow> string \<Rightarrow> string \<Rightarrow> string \<Rightarrow> string \<Rightarrow> plan" where
  "refused_plan cx kind i reason key =
     (plan_new kind (cx_actor cx) [PlacementRefused i])\<lparr>pln_reason := reason, pln_idempotency_key := key\<rparr>"

text \<open>What is decided of a placement asked for: a refusal the book records, or the placement.\<close>

datatype placing = PlacementRecordedRefused store_error plan | PlacementPlanned order_state plan

definition placement_opening ::
  "minting \<Rightarrow> account_book \<Rightarrow> act_context \<Rightarrow> order_held \<Rightarrow> placement_request \<Rightarrow> store_error + placing" where
  "placement_opening mints b cx h q =
     rbind (guard_r (claim_refused h) (claim_allows h cx)) (\<lambda>_.
     rbind (state_of b (qpl_order_id q)) (\<lambda>state.
       if state \<noteq> OReleased \<and> state \<noteq> OWorking then row_refused ''6'' state ''a placement''
       else
         rbind (positive_field ''quantity'' (qpl_quantity q)) (\<lambda>_.
         rbind (stale_holds (qpl_stale_reference q)) (\<lambda>_.
           Inr (PlacementPlanned state
             ((plan_new ''placement-created'' (cx_actor cx) [PlacementOpened (new_placement mints cx h q)])
                \<lparr>pln_idempotency_key := qpl_idempotency_key q\<rparr>))))))"

definition placement_decided ::
  "minting \<Rightarrow> account_book \<Rightarrow> act_context \<Rightarrow> placement_request \<Rightarrow> store_error + placing" where
  "placement_decided mints b cx q =
     rbind (held_order b (qpl_order_id q)) (\<lambda>h.
     rbind (in_scope cx (or_account_id (h_order h))) (\<lambda>_.
     rbind (user_required cx ''creating a placement'') (\<lambda>_.
     rbind (placement_type_holds h q) (\<lambda>manual.
       if \<not> manual \<and> \<not> cx_connectivity_allowed cx
       then Inr (PlacementRecordedRefused
              (Refused ConnectivityNotAllowed [qpl_order_id q, placing_ems cx q, connection_of q] [])
              (refused_plan cx ''placement-refused'' (qpl_order_id q)
                 (''REFUSAL_REASON_CONNECTIVITY_NOT_ALLOWED: ems '' @ placing_ems cx q @ '', connectivity ''
                    @ qpl_connectivity_instance_id q) (qpl_idempotency_key q)))
       else if agent_live_refused cx
       then Inr (PlacementRecordedRefused
              (Refused AgentLiveOrder [connection_of q, qpl_order_id q, placing_ems cx q] [])
              (refused_plan cx ''placement-refused'' (qpl_order_id q)
                 (''REFUSAL_REASON_AGENT_LIVE_ORDER: ems '' @ placing_ems cx q @ '', connectivity ''
                    @ qpl_connectivity_instance_id q) (qpl_idempotency_key q)))
       else placement_opening mints b cx h q))))"

definition reached_either :: "string \<Rightarrow> order_state \<Rightarrow> made_act \<Rightarrow> store_error + made_act" where
  "reached_either i state m =
     (case check_reached i ''6'' state m of Inr m' \<Rightarrow> Inr m' | Inl _ \<Rightarrow> check_reached i ''8'' state m)"

definition create_placement ::
  "known \<Rightarrow> minting \<Rightarrow> account_book \<Rightarrow> nat \<Rightarrow> act_context \<Rightarrow> placement_request \<Rightarrow> (store_error + made_act) option" where
  "create_placement kn mints b head cx q =
     and_then (placement_decided mints b cx q) (\<lambda>d.
       case d of
         PlacementRecordedRefused refusal p \<Rightarrow>
           once_made (finish kn mints b head cx p) (\<lambda>m. Inr (m\<lparr>md_refusal := Some refusal\<rparr>))
       | PlacementPlanned state p \<Rightarrow>
           once_made (finish kn mints b head cx p) (reached_either (qpl_order_id q) state))"

subsection \<open>Quotes on a placement\<close>

primrec quote_rank :: "quote_outcome \<Rightarrow> nat" where
  "quote_rank QUnspecified = 0"
| "quote_rank QOpen = 0"
| "quote_rank QPicked = 1"
| "quote_rank QAccepted = 2"
| "quote_rank QExpired = 2"
| "quote_rank QWithdrawn = 2"
| "quote_rank QNotPicked = 2"

definition outcome_or_open :: "int \<Rightarrow> quote_outcome" where
  "outcome_or_open no = (case quote_outcome_of no of None \<Rightarrow> QOpen | Some o' \<Rightarrow> o')"

definition quote_held :: "placement \<Rightarrow> string \<Rightarrow> store_error + placement_quote" where
  "quote_held p i = ok_or (malformed ''quote_id'') (List.find (\<lambda>quote. pq_quote_id quote = i) (pl_quotes p))"

definition quote_missing :: "quote_report \<Rightarrow> string list" where
  "quote_missing q =
     (if qpq_dealer_id q = [] then [''dealer_id''] else [])
       @ (if qpq_side q = side_no SDUnspecified then [''side''] else [])
       @ (if amount_of (qpq_price q) = None then [''price''] else [])"

definition new_quote ::
  "minting \<Rightarrow> act_context \<Rightarrow> quote_report \<Rightarrow> quote_outcome \<Rightarrow> store_error + placement_quote" where
  "new_quote mints cx q outcome =
     rbind (guard_r (Malformed (quote_missing q) []) (quote_missing q = [])) (\<lambda>_.
     rbind (decimal_field ''quantity'' (qpq_quantity q)) (\<lambda>quantity.
     rbind (guard_r (malformed ''quantity'')
              (case quantity of None \<Rightarrow> True | Some x \<Rightarrow> \<not> (is_zero x \<or> is_negative x))) (\<lambda>_.
       Inr \<lparr>pq_quote_id = mints MINT_QUOTE 0, pq_dealer_id = qpq_dealer_id q,
            pq_dealer_quote_id = qpq_dealer_quote_id q, pq_side = qpq_side q, pq_price = qpq_price q,
            pq_quantity = qpq_quantity q,
            pq_received_at_ns = (if qpq_received_at_ns q = 0 then cx_received_at_ns cx else qpq_received_at_ns q),
            pq_valid_until_ns = qpq_valid_until_ns q,
            pq_outcome = quote_outcome_no (if outcome = QUnspecified then QOpen else outcome),
            pq_raw_record = qpq_raw_record q\<rparr>)))"

definition moved_quote ::
  "quote_report \<Rightarrow> placement_held \<Rightarrow> quote_outcome \<Rightarrow> store_error + placement_quote" where
  "moved_quote q p outcome =
     rbind (quote_held (pd_placement p) (qpq_quote_id q)) (\<lambda>held.
     rbind (guard_r (Refused OrderStateRefused [qpq_quote_id q] [])
              (\<not> (outcome = QUnspecified \<or> quote_rank outcome \<le> quote_rank (outcome_or_open (pq_outcome held))))) (\<lambda>_.
       Inr (held\<lparr>pq_outcome := quote_outcome_no outcome,
                 pq_raw_record := (case qpq_raw_record q of Some r \<Rightarrow> Some r | None \<Rightarrow> pq_raw_record held)\<rparr>)))"

definition quote_reported ::
  "minting \<Rightarrow> account_book \<Rightarrow> act_context \<Rightarrow> quote_report \<Rightarrow> store_error + placement_quote" where
  "quote_reported mints b cx q =
     rbind (placed_at b (qpq_placement_id q)) (\<lambda>p.
     rbind (state_of b (pl_order_id (pd_placement p))) (\<lambda>state.
     rbind (if pl_placement_type (pd_placement p) \<noteq> placement_type_no PTRfq
            then row_refused ''8'' state ''a quote on a placement which is not an RFQ placement'' else Inr ()) (\<lambda>_.
     rbind (if pl_connectivity_instance_id (pd_placement p) \<noteq> cx_instance_id cx
            then row_refused ''8'' state ''a quote on a placement which names another'' else Inr ()) (\<lambda>_.
     rbind (guard_r (Denied [qpq_placement_id q, cx_instance_id cx])
              (fact_in_scope cx (pl_account_id (pd_placement p)))) (\<lambda>_.
     rbind (ok_or (malformed ''outcome'') (quote_outcome_of (qpq_outcome q))) (\<lambda>outcome.
     rbind (guard_r (malformed ''outcome'') (outcome \<noteq> QPicked)) (\<lambda>_.
       if qpq_quote_id q = [] then new_quote mints cx q outcome else moved_quote q p outcome)))))))"

definition report_placement_quote ::
  "known \<Rightarrow> minting \<Rightarrow> account_book \<Rightarrow> nat \<Rightarrow> act_context \<Rightarrow> quote_report \<Rightarrow> (store_error + made_act) option" where
  "report_placement_quote kn mints b head cx q =
     and_then (quote_reported mints b cx q) (\<lambda>quote.
       finish kn mints b head cx
         ((plan_new ''placement-quote-recorded'' (venue_actor cx) [PlacementQuoted (qpq_placement_id q) quote])
            \<lparr>pln_idempotency_key := qpq_idempotency_key q\<rparr>))"

definition picked_already :: "placement \<Rightarrow> bool" where
  "picked_already p \<longleftrightarrow>
     list_ex (\<lambda>held. pq_quote_id held = pl_picked_quote_id p \<and> pq_outcome held = quote_outcome_no QPicked) (pl_quotes p)"

definition pick_acts ::
  "account_book \<Rightarrow> act_context \<Rightarrow> order_held \<Rightarrow> placement_held \<Rightarrow> pick_request \<Rightarrow> store_error + act list" where
  "pick_acts b cx h p q =
     rbind (guard_r (claim_refused h) (claim_allows h cx)) (\<lambda>_.
     rbind (placement_live (ab_ledger b) (qpp_placement_id q)) (\<lambda>live.
     rbind (guard_r (Refused OrderStateRefused [qpp_placement_id q] []) live) (\<lambda>_.
     rbind (quote_held (pd_placement p) (qpp_quote_id q)) (\<lambda>quote.
     rbind (guard_r (Refused OrderStateRefused [qpp_placement_id q] []) (\<not> picked_already (pd_placement p))) (\<lambda>_.
     rbind (guard_r (Refused OrderStateRefused [qpp_quote_id q] [])
              (quote_rank (outcome_or_open (pq_outcome quote)) = 0)) (\<lambda>_.
     rbind (guard_r (Refused OrderStateRefused [qpp_quote_id q] [])
              (\<not> (pq_valid_until_ns quote \<noteq> 0 \<and> cx_received_at_ns cx > pq_valid_until_ns quote))) (\<lambda>_.
       Inr [QuotePicked (qpp_placement_id q) (qpp_quote_id q)])))))))"

definition pick_decided ::
  "account_book \<Rightarrow> act_context \<Rightarrow> pick_request \<Rightarrow> store_error + store_error option \<times> plan" where
  "pick_decided b cx q =
     rbind (placed_at b (qpp_placement_id q)) (\<lambda>p.
     rbind (held_order b (pl_order_id (pd_placement p))) (\<lambda>h.
     rbind (in_scope cx (or_account_id (h_order h))) (\<lambda>_.
     rbind (guard_r (Denied [qpp_placement_id q, cx_instance_id cx])
              (pl_ems_instance_id (pd_placement p) = cx_instance_id cx)) (\<lambda>_.
     rbind (user_required cx ''picking a quote'') (\<lambda>_.
       if agent_live_refused cx
       then Inr (Some (Refused AgentLiveOrder [pl_connectivity_instance_id (pd_placement p), qpp_placement_id q] []),
              refused_plan cx ''placement-quote-pick-refused'' (or_order_id (h_order h))
                (''REFUSAL_REASON_AGENT_LIVE_ORDER: ems '' @ cx_instance_id cx @ '', connectivity ''
                   @ pl_connectivity_instance_id (pd_placement p) @ '', quote '' @ qpp_quote_id q)
                (qpp_idempotency_key q))
       else rbind (pick_acts b cx h p q) (\<lambda>acts.
              Inr (None, (plan_new ''placement-quote-picked'' (cx_actor cx) acts)
                     \<lparr>pln_reason := qpp_reason q, pln_idempotency_key := qpp_idempotency_key q\<rparr>)))))))"

definition pick_placement_quote ::
  "known \<Rightarrow> minting \<Rightarrow> account_book \<Rightarrow> nat \<Rightarrow> act_context \<Rightarrow> pick_request \<Rightarrow> (store_error + made_act) option" where
  "pick_placement_quote kn mints b head cx q =
     and_then (pick_decided b cx q) (\<lambda>(refusal, p).
       once_made (finish kn mints b head cx p) (\<lambda>m.
         Inr (case refusal of None \<Rightarrow> m | Some r \<Rightarrow> m\<lparr>md_refusal := Some r\<rparr>)))"

subsection \<open>A change to a placement asked for\<close>

definition change_under ::
  "account_book \<Rightarrow> act_context \<Rightarrow> order_held \<Rightarrow> placement_held \<Rightarrow> order_state \<Rightarrow> placement_change_kind
    \<Rightarrow> placement_change_request \<Rightarrow> store_error + actor \<times> string \<times> string" where
  "change_under b cx h p state kind q =
     (if pl_connectivity_instance_id (pd_placement p) = cx_instance_id cx then
        let cause = (case qpc_cause q of None \<Rightarrow> [] | Some c \<Rightarrow> em_entry_id c) in
        if kind \<noteq> PKCancel \<or> cause = []
        then row_refused ''i6'' state
               ''a connectivity plugin's placement change other than a cancel it sent under a stop''
        else Inr (venue_actor cx,
               (if qpc_reason q = []
                then ''cancelled at the venue under the trading instruction of entry '' @ cause
                else qpc_reason q @ '' (under the trading instruction of entry '' @ cause @ '')''),
               ''placement-cancel-reported'')
      else
        rbind (user_required cx ''asking for a change to a placement'') (\<lambda>_.
        rbind (guard_r (claim_refused h) (claim_allows h cx)) (\<lambda>_.
        rbind (placement_live (ab_ledger b) (qpc_placement_id q)) (\<lambda>live.
          if live then Inr (cx_actor cx, qpc_reason q, ''placement-change-requested'')
          else row_refused ''16'' state (''a change of placement '' @ qpc_placement_id q @ '', which has ended,'')))))"

definition placement_change_plan ::
  "minting \<Rightarrow> account_book \<Rightarrow> act_context \<Rightarrow> placement_change_request \<Rightarrow> store_error + plan" where
  "placement_change_plan mints b cx q =
     rbind (placed_at b (qpc_placement_id q)) (\<lambda>p.
     rbind (held_order b (pl_order_id (pd_placement p))) (\<lambda>h.
     rbind (in_scope cx (or_account_id (h_order h))) (\<lambda>_.
     rbind (ok_or (malformed ''change'') (qpc_change q)) (\<lambda>c.
       let kind = (case placement_change_kind_of (pch_kind c) of None \<Rightarrow> PKUnspecified | Some k \<Rightarrow> k) in
       rbind (guard_r (malformed ''change.kind'') (kind \<noteq> PKUnspecified)) (\<lambda>_.
       rbind (state_of b (or_order_id (h_order h))) (\<lambda>state.
       rbind (change_under b cx h p state kind q) (\<lambda>(a, reason, name).
         Inr ((plan_new name a [ChangeOpened (change_request_default\<lparr>cr_change_request_id := mints MINT_CHANGE 0,
                 cr_order_id := or_order_id (h_order h), cr_placement_id := qpc_placement_id q,
                 cr_change := Some (OfPlacement c), cr_reason := reason,
                 cr_outcome := change_outcome_no RPending\<rparr>)])
              \<lparr>pln_reason := reason, pln_idempotency_key := qpc_idempotency_key q\<rparr>))))))))"

definition request_placement_change ::
  "known \<Rightarrow> minting \<Rightarrow> account_book \<Rightarrow> nat \<Rightarrow> act_context \<Rightarrow> placement_change_request
    \<Rightarrow> (store_error + made_act \<times> string) option" where
  "request_placement_change kn mints b head cx q =
     and_then (placement_change_plan mints b cx q) (\<lambda>p.
       once_made (finish kn mints b head cx p) (\<lambda>m. Inr (m, mints MINT_CHANGE 0)))"

subsection \<open>A fact the book can place nowhere\<close>

primrec fact_kind :: "placed_fact \<Rightarrow> string" where
  "fact_kind (FactExecution x) = ''execution''"
| "fact_kind (FactPlacement x) = ''placement''"
| "fact_kind (FactCharge x) = ''charge''"
| "fact_kind (FactLocate x) = ''locate''"
| "fact_kind (FactValueDateRoll x) = ''value-date-roll''"
| "fact_kind (FactGiveUp x) = ''give-up''"

definition kept_before :: "account_book \<Rightarrow> act_context \<Rightarrow> placed_fact \<Rightarrow> store_error + unit" where
  "kept_before b cx told =
     (case told of
        FactExecution x \<Rightarrow>
          if rx_venue_execution_id x = [] then Inr ()
          else (case bt_get (l_unplaced_executions (ab_ledger b)) (key_of [cx_instance_id cx, rx_venue_execution_id x]) of
                  None \<Rightarrow> Inr ()
                | Some i \<Rightarrow>
                    rbind (ok_or Panicked (bt_get (l_unplaced (ab_ledger b)) i)) (\<lambda>kept.
                      Inl (Repeated (uf_unplaced_id kept))))
      | _ \<Rightarrow> Inr ())"

definition unplaced_of ::
  "minting \<Rightarrow> account_book \<Rightarrow> placed_fact \<Rightarrow> int \<Rightarrow> string \<Rightarrow> encoded option \<Rightarrow> unplaced_fact" where
  "unplaced_of mints b told reason code raw =
     \<lparr>uf_unplaced_id = mints MINT_UNPLACED 0,
      uf_account_id = (if is_account (ab_account_id b) then ab_account_id b else []),
      uf_fact_kind = fact_kind told, uf_reason = reason, uf_raw_record = raw, uf_venue_account_code = code,
      uf_placed_by = None, uf_last_change = None, uf_fact = Some told\<rparr>"

definition kept_unplaced ::
  "minting \<Rightarrow> account_book \<Rightarrow> act_context \<Rightarrow> placed_fact \<Rightarrow> int \<Rightarrow> string \<Rightarrow> encoded option \<Rightarrow> string
    \<Rightarrow> store_error + plan" where
  "kept_unplaced mints b cx told reason code raw key =
     rbind (kept_before b cx told) (\<lambda>_.
       Inr ((plan_new ''unplaced-fact-recorded'' (fact_actor cx)
               [Unplaced (unplaced_of mints b told reason code raw) (cx_instance_id cx)])
              \<lparr>pln_idempotency_key := key\<rparr>))"

subsection \<open>The venue's report of a placement\<close>

definition past_intent :: "order_held \<Rightarrow> placement_report \<Rightarrow> bool" where
  "past_intent h rp \<longleftrightarrow>
     (case read_wire (rp_quantity rp) of None \<Rightarrow> False | Some q \<Rightarrow> ex_cmp q (ordered h) = Greater)
     \<or> (case (amount_of (rp_limit_price rp), amount_of (or_limit_price (h_order h))) of
          (Some restated, Some limit) \<Rightarrow>
            if or_side (h_order h) = side_no SDBuy then ex_cmp restated limit = Greater
            else ex_cmp restated limit = Less
        | _ \<Rightarrow> False)"

definition restated_acts ::
  "act_context \<Rightarrow> string \<Rightarrow> order_held \<Rightarrow> placement_event \<Rightarrow> placement_report \<Rightarrow> act list" where
  "restated_acts cx i h event rp =
     (if event = VRestated \<and> past_intent h rp
      then [condition_act i True
              (order_standing_default\<lparr>oc_condition := order_condition_no CLateFact,
                 oc_reason := ''placement '' @ rp_placement_id rp @ '' restated past the order's intent'',
                 oc_actor := Some (venue_actor cx)\<rparr>),
            condition_act i True
              (order_standing_default\<lparr>oc_condition := order_condition_no CDoesNotTieOut,
                 oc_reason := ''a restatement past the order's intent'',
                 oc_actor := Some (venue_actor cx), oc_tie_out_reason := tie_out_no ERestatement\<rparr>)]
      else [])"

definition is_immediate :: "int \<Rightarrow> bool" where
  "is_immediate tif \<longleftrightarrow> tif = time_in_force_no IImmediateOrCancel \<or> tif = time_in_force_no IFillOrKill"

definition ends_unfilled :: "ledger \<Rightarrow> placement_event \<Rightarrow> string \<Rightarrow> store_error + bool" where
  "ends_unfilled l event i =
     (if event \<in> {VCancelled, VExpired, VRejected}
      then rbind (placement_filled l i) (\<lambda>f. Inr (is_zero f)) else Inr False)"

definition killed_acts ::
  "ledger \<Rightarrow> string \<Rightarrow> order_held \<Rightarrow> placement_held \<Rightarrow> order_state \<Rightarrow> placement_event \<Rightarrow> placement_report
    \<Rightarrow> store_error + act list" where
  "killed_acts l i h p from_state event rp =
     rbind (ends_unfilled l event (rp_placement_id rp)) (\<lambda>unfilled.
       if unfilled \<and> is_immediate (pl_time_in_force (pd_placement p)) \<and> is_immediate (or_time_in_force (h_order h))
          \<and> from_state \<in> {OReleased, OWorking}
       then rbind (live_parts (apply_act (PlacementReported rp) [] [] l) i) (\<lambda>(ps, cs).
              Inr (if ps = [] \<and> cs = [] then [Ended i (order_state_no OCancelled)] else []))
       else Inr [])"

definition report_plan ::
  "minting \<Rightarrow> account_book \<Rightarrow> act_context \<Rightarrow> placement_report \<Rightarrow> store_error + plan" where
  "report_plan mints b cx rp =
     (let event = (case placement_event_of (rp_event rp) of None \<Rightarrow> VUnspecified | Some e \<Rightarrow> e) in
      if event = VUnspecified then Inl (malformed ''event'')
      else case bt_get (l_placements (ab_ledger b)) (rp_placement_id rp) of
        None \<Rightarrow> kept_unplaced mints b cx (FactPlacement rp) UNKNOWN_PLACEMENT [] (rp_raw_record rp) []
      | Some p \<Rightarrow>
          rbind (guard_r (Unplace UNKNOWN_PLACEMENT [rp_placement_id rp, cx_instance_id cx])
                   (pl_connectivity_instance_id (pd_placement p) = cx_instance_id cx)) (\<lambda>_.
          rbind (guard_r (Unplace UNMAPPED_VENUE_ACCOUNT [rp_placement_id rp, cx_instance_id cx])
                   (fact_in_scope cx (pl_account_id (pd_placement p)))) (\<lambda>_.
          let i = pl_order_id (pd_placement p) in
          rbind (held_order b i) (\<lambda>h.
          rbind (state_of b i) (\<lambda>from_state.
          rbind (killed_acts (ab_ledger b) i h p from_state event rp) (\<lambda>killed.
            Inr (plan_new ''placement-reported'' (venue_actor cx)
                   (PlacementReported rp # restated_acts cx i h event rp @ killed))))))))"

definition report_placement ::
  "known \<Rightarrow> minting \<Rightarrow> account_book \<Rightarrow> nat \<Rightarrow> act_context \<Rightarrow> placement_report \<Rightarrow> (store_error + made_act) option" where
  "report_placement kn mints b head cx rp =
     and_then (report_plan mints b cx rp) (finish kn mints b head cx)"

end
