(* ===== verification/Order_Propose.thy ===== *)
theory Order_Propose
  imports Order_Plan
begin

section \<open>Orders proposed and recorded\<close>

text \<open>
  \<open>crates/bor/src/order_decide.rs\<close>, how an order comes into the book: proposed, alone or as a
  child split from a released order; as a block of released orders, or a net of FX orders of both
  sides, whose quantity is its members' (\<open>crates/bor/src/booking.rs\<close>); or recorded, an order given
  outside. A member of a net is then linked to it in its own account. A package's legs, a debt
  order's price basis and denominations and an FX order's quote currency are held to their rules
  first. The members' views of other accounts' orders come with the act's context.
\<close>

subsection \<open>What a proposal states\<close>

definition side_named :: "string \<Rightarrow> int \<Rightarrow> store_error + unit" where
  "side_named field v = guard_r (malformed field) (\<not> (v = side_no SDUnspecified \<or> side_of v = None))"

definition position_effect_refused :: "act_context \<Rightarrow> string \<Rightarrow> string \<Rightarrow> int \<Rightarrow> store_error + unit" where
  "position_effect_refused cx at_path instrument effect =
     (let path = at_path @ ''position_effect'';
          stated = (effect \<noteq> position_effect_no PEUnspecified)
      in rbind (guard_r (malformed path) (position_effect_of effect \<noteq> None)) (\<lambda>_.
           guard_r (malformed path) (listed_derivative cx instrument = stated)))"

definition quantity_stated :: "propose_request \<Rightarrow> store_error + unit" where
  "quantity_stated q =
     rbind (guard_r (Malformed [''quantity'', ''cash_quantity''] [])
              ((qpo_quantity q \<noteq> None) \<noteq> (qpo_cash_quantity q \<noteq> None))) (\<lambda>_.
     rbind (decimal_field ''quantity'' (qpo_quantity q)) (\<lambda>quantity.
     rbind (guard_r (malformed ''quantity'')
              (case quantity of None \<Rightarrow> True | Some x \<Rightarrow> \<not> is_zero x \<and> \<not> is_negative x)) (\<lambda>_.
       guard_r (malformed ''cash_quantity'')
         (case qpo_cash_quantity q of
            None \<Rightarrow> True
          | Some cash \<Rightarrow> (case amount_of (Some cash) of
                None \<Rightarrow> False | Some amount \<Rightarrow> \<not> is_zero amount \<and> \<not> is_negative amount)))))"

subsection \<open>A package\<close>

definition checked_i128 :: "int \<Rightarrow> int option" where
  "checked_i128 n = (if - (2 ^ 127) \<le> n \<and> n < 2 ^ 127 then Some n else None)"

definition whole_ratio :: "exact \<Rightarrow> int option" where
  "whole_ratio r =
     (if scale r > 0 \<and> integer r mod 10 ^ scale r \<noteq> 0 then None else Some (integer r div 10 ^ scale r))"

fun gcd_i :: "int \<Rightarrow> int \<Rightarrow> int" where
  "gcd_i a b = (if b \<le> 0 then a else gcd_i b (a mod b))"

declare gcd_i.simps [simp del]

definition leg_path :: "nat \<Rightarrow> string" where
  "leg_path n = ''legs['' @ show_uint (int n) @ ''].''"

definition leg_held :: "act_context \<Rightarrow> nat \<times> order_leg \<Rightarrow> int list \<times> nat \<Rightarrow> store_error + int list \<times> nat" where
  "leg_held cx nl s =
     (let (n, leg) = nl; (ratios, plain) = s; at_path = leg_path n in
      rbind (guard_r (malformed (at_path @ ''instrument_id'')) (starts_with ''INS-'' (lg_instrument_id leg))) (\<lambda>_.
      rbind (guard_r (malformed (at_path @ ''instrument_id''))
               (\<not> (case bt_get (cx_records cx) (lg_instrument_id leg) of None \<Rightarrow> False | Some says \<Rightarrow> sy_expired says))) (\<lambda>_.
      rbind (not_referential cx (''legs['' @ show_uint (int n) @ '']'') (lg_instrument_id leg)) (\<lambda>_.
      rbind (side_named (at_path @ ''side'') (lg_side leg)) (\<lambda>_.
      rbind (decimal_field (at_path @ ''ratio'') (lg_ratio leg)) (\<lambda>stated.
      rbind (ok_or (malformed (at_path @ ''ratio'')) stated) (\<lambda>ratio.
      rbind (ok_or (malformed (at_path @ ''ratio'')) (whole_ratio ratio)) (\<lambda>whole.
      rbind (guard_r (malformed (at_path @ ''ratio'')) (whole > 0)) (\<lambda>_.
      rbind (position_effect_refused cx at_path (lg_instrument_id leg) (lg_position_effect leg)) (\<lambda>_.
        Inr (ratios @ [whole], if listed_derivative cx (lg_instrument_id leg) then plain else plain + 1)))))))))))"

fun above_one :: "nat \<Rightarrow> int list \<Rightarrow> nat" where
  "above_one n [] = 0"
| "above_one n (r # rs) = (if r > 1 then n else above_one (Suc n) rs)"

definition package_refused :: "act_context \<Rightarrow> propose_request \<Rightarrow> store_error + unit" where
  "package_refused cx q =
     rbind (guard_r (malformed ''instrument_id'') (qpo_instrument_id q = [])) (\<lambda>_.
     rbind (guard_r (malformed ''legs'') (2 \<le> length (qpo_legs q) \<and> length (qpo_legs q) \<le> 16)) (\<lambda>_.
     rbind (references_answered cx) (\<lambda>_.
     rbind (rfold (leg_held cx) (numbered_list (qpo_legs q)) ([], 0)) (\<lambda>(ratios, plain).
     rbind (guard_r (malformed ''legs'') (plain \<le> 1)) (\<lambda>_.
       guard_r (malformed (leg_path (above_one 0 ratios) @ ''ratio'')) (\<not> fold (\<lambda>r c. gcd_i c r) ratios 0 > 1))))))"

subsection \<open>A debt order\<close>

definition multiple_of :: "exact \<Rightarrow> exact \<Rightarrow> bool" where
  "multiple_of v step =
     (let s = max (scale v) (scale step);
          scaled = (\<lambda>e. Option.bind (checked_i128 (10 ^ (s - scale e))) (\<lambda>p. checked_i128 (integer e * p)))
      in case (scaled v, scaled step) of
           (Some a, Some b) \<Rightarrow> b \<noteq> 0 \<and> b dvd a
         | _ \<Rightarrow> False)"

definition wanted :: "bool \<Rightarrow> string \<Rightarrow> store_error + unit" where
  "wanted given field = guard_r (malformed field) given"

definition unwanted :: "bool \<Rightarrow> string \<Rightarrow> store_error + unit" where
  "unwanted given field = guard_r (malformed field) (\<not> given)"

definition basis_held :: "price_basis \<Rightarrow> propose_request \<Rightarrow> store_error + unit" where
  "basis_held basis q =
     (let yields = (qpo_limit_yield q \<noteq> None); spread = (qpo_limit_spread_bps q \<noteq> None);
          benchmark = (qpo_benchmark_instrument_id q \<noteq> []); price = (qpo_limit_price q \<noteq> None)
      in case basis of
        YBPercentOfPar \<Rightarrow>
          rbind (wanted price ''limit_price'') (\<lambda>_. rbind (unwanted yields ''limit_yield'') (\<lambda>_.
          rbind (unwanted spread ''limit_spread_bps'') (\<lambda>_. unwanted benchmark ''benchmark_instrument_id'')))
      | YBYield \<Rightarrow>
          rbind (wanted yields ''limit_yield'') (\<lambda>_. rbind (unwanted price ''limit_price'') (\<lambda>_.
          rbind (unwanted spread ''limit_spread_bps'') (\<lambda>_. unwanted benchmark ''benchmark_instrument_id'')))
      | YBSpread \<Rightarrow>
          rbind (wanted spread ''limit_spread_bps'') (\<lambda>_. rbind (wanted benchmark ''benchmark_instrument_id'') (\<lambda>_.
          rbind (unwanted price ''limit_price'') (\<lambda>_. unwanted yields ''limit_yield'')))
      | _ \<Rightarrow>
          rbind (unwanted yields ''limit_yield'') (\<lambda>_. rbind (unwanted spread ''limit_spread_bps'') (\<lambda>_.
            unwanted benchmark ''benchmark_instrument_id'')))"

definition denomination_held :: "debt_says \<Rightarrow> exact \<Rightarrow> store_error + unit" where
  "denomination_held debt face =
     (case db_minimum_denomination debt of
        None \<Rightarrow> Inr ()
      | Some minimum \<Rightarrow>
          if is_zero minimum then Inr ()
          else
            rbind (guard_r (malformed ''quantity'') (ex_cmp face minimum \<noteq> Less)) (\<lambda>_.
              case db_denomination_increment debt of
                None \<Rightarrow> Inr ()
              | Some increment \<Rightarrow>
                  if is_zero increment then Inr ()
                  else rbind (num_add ''quantity'' face (negated minimum)) (\<lambda>above.
                         guard_r (malformed ''quantity'') (multiple_of above increment))))"

definition debt_order_holds :: "act_context \<Rightarrow> propose_request \<Rightarrow> store_error + unit" where
  "debt_order_holds cx q =
     (let basis = (case price_basis_of (qpo_price_basis q) of None \<Rightarrow> YBUnspecified | Some y \<Rightarrow> y);
          debt = Option.bind (bt_get (cx_records cx) (qpo_instrument_id q)) sy_debt
      in rbind (guard_r (malformed ''price_basis'') (\<not> (debt = None \<and> basis \<in> {YBPercentOfPar, YBYield, YBSpread}))) (\<lambda>_.
         rbind (basis_held basis q) (\<lambda>_.
           case debt of
             None \<Rightarrow> Inr ()
           | Some d \<Rightarrow>
               rbind (decimal_field ''quantity'' (qpo_quantity q)) (\<lambda>face.
                 case face of None \<Rightarrow> Inr () | Some x \<Rightarrow> denomination_held d x))))"

subsection \<open>An FX order\<close>

definition priced_in_quote :: "known \<Rightarrow> string \<Rightarrow> string \<times> money option \<Rightarrow> unit \<Rightarrow> store_error + unit" where
  "priced_in_quote kn quote fp s =
     (let (field, price) = fp in
      case price of
        None \<Rightarrow> Inr ()
      | Some m \<Rightarrow> rbind (cash_instrument kn m) (\<lambda>priced_in. guard_r (malformed field) (priced_in = quote)))"

definition quote_currency_holds :: "known \<Rightarrow> propose_request \<Rightarrow> store_error + unit" where
  "quote_currency_holds kn q =
     (if qpo_quote_currency q = [] then Inr ()
      else
        rbind (guard_r (malformed ''quote_currency'') (qpo_quote_currency q \<noteq> qpo_instrument_id q)) (\<lambda>_.
          rfold (priced_in_quote kn (qpo_quote_currency q))
            [(''limit_price'', qpo_limit_price q), (''stop_price'', qpo_stop_price q)] ()))"

subsection \<open>An order's instrument\<close>

definition instrument_held :: "act_context \<Rightarrow> string \<Rightarrow> store_error + unit" where
  "instrument_held cx instrument =
     (let missing = instrument_missing cx [] instrument
      in guard_r (incomplete ''the order's instrument'' (map (dropWhile (\<lambda>c. c = CHR ''.'')) missing)) (missing = []))"

subsection \<open>One order proposed\<close>

definition proposed_roles :: "act_context \<Rightarrow> propose_request \<Rightarrow> person_roles" where
  "proposed_roles cx q =
     \<lparr>pr_entered_by = Some (cx_actor cx), pr_executed_by = None, pr_decided_by = qpo_decided_by q\<rparr>"

definition proposed_order :: "minting \<Rightarrow> account_book \<Rightarrow> act_context \<Rightarrow> propose_request \<Rightarrow> order_terms" where
  "proposed_order mints b cx q =
     order_terms_default
       \<lparr>or_order_id := mints MINT_ORDER 0, or_account_id := ab_account_id b, or_instrument_id := qpo_instrument_id q,
        or_sleeve := qpo_sleeve q, or_side := qpo_side q, or_locate_id := qpo_locate_id q,
        or_quantity := qpo_quantity q, or_cash_quantity := qpo_cash_quantity q, or_order_type := qpo_order_type q,
        or_limit_price := qpo_limit_price q, or_stop_price := qpo_stop_price q,
        or_dealt_currency := qpo_dealt_currency q, or_quote_currency := qpo_quote_currency q,
        or_legs := qpo_legs q, or_allocation_instruction := qpo_allocation_instruction q,
        or_time_in_force := qpo_time_in_force q, or_expire_date := qpo_expire_date q,
        or_expire_time_ns := qpo_expire_time_ns q, or_execution_instructions := qpo_execution_instructions q,
        or_lot_relief_method := qpo_lot_relief_method q, or_relieve_lot_ids := qpo_relieve_lot_ids q,
        or_capacity := qpo_capacity q, or_direction := qpo_direction q, or_parties := qpo_parties q,
        or_person_roles := Some (proposed_roles cx q), or_customer_id := qpo_customer_id q,
        or_firm_designated_id := qpo_firm_designated_id q,
        or_handling_instructions := qpo_handling_instructions q, or_received_at_ns := qpo_received_at_ns q,
        or_received_precision := qpo_received_precision q, or_quote_at_receipt := qpo_quote_at_receipt q,
        or_represents_order_ids := qpo_represents_order_ids q, or_axe_source := qpo_axe_source q,
        or_axe_counterparty_id := qpo_axe_counterparty_id q, or_link := qpo_link q,
        or_value_date := qpo_value_date q, or_position_effect := qpo_position_effect q,
        or_price_basis := qpo_price_basis q, or_limit_yield := qpo_limit_yield q,
        or_limit_spread_bps := qpo_limit_spread_bps q,
        or_benchmark_instrument_id := qpo_benchmark_instrument_id q\<rparr>"

definition proposal_held :: "known \<Rightarrow> act_context \<Rightarrow> propose_request \<Rightarrow> store_error + unit" where
  "proposal_held kn cx q =
     (let package = (qpo_legs q \<noteq> []) in
      rbind (quantity_stated q) (\<lambda>_.
      rbind (if package then package_refused cx q
             else guard_r (malformed ''instrument_id'') (qpo_instrument_id q \<noteq> [])) (\<lambda>_.
      rbind (side_named ''side'' (qpo_side q)) (\<lambda>_.
      rbind (if package then Inr () else position_effect_refused cx [] (qpo_instrument_id q) (qpo_position_effect q)) (\<lambda>_.
      rbind (quote_currency_holds kn q) (\<lambda>_.
      rbind (guard_r (malformed ''link.kind'')
               (case qpo_link q of None \<Rightarrow> True | Some link \<Rightarrow> ol_kind link = order_link_kind_no LSplit)) (\<lambda>_.
      rbind (references_answered cx) (\<lambda>_.
      rbind (not_referential cx [] (qpo_instrument_id q)) (\<lambda>_.
      if package then Inr ()
      else rbind (debt_order_holds cx q) (\<lambda>_.
           rbind (instrument_held cx (qpo_instrument_id q)) (\<lambda>_.
             local_record_allowed cx (qpo_instrument_id q) ''the proposal'')))))))))))"

definition child_held ::
  "known \<Rightarrow> account_book \<Rightarrow> act_context \<Rightarrow> propose_request \<Rightarrow> string \<Rightarrow> store_error + order_held" where
  "child_held kn b cx q parent_id =
     rbind (held_order b parent_id) (\<lambda>parent.
     rbind (guard_r (malformed ''instrument_id'')
              (became_same kn (qpo_instrument_id q) (or_instrument_id (h_order parent)))) (\<lambda>_.
     rbind (guard_r (malformed ''side'') (qpo_side q = or_side (h_order parent))) (\<lambda>_.
     rbind (guard_r (malformed ''allocation_instruction'')
              (case qpo_allocation_instruction q of None \<Rightarrow> True | Some instruction \<Rightarrow> ai_lines instruction = [])) (\<lambda>_.
     rbind (state_of b parent_id) (\<lambda>parent_state.
     rbind (if parent_state \<noteq> OReleased \<and> parent_state \<noteq> OWorking
            then row_refused ''i2'' parent_state
                   (''a child order under order '' @ parent_id @ '', which is '' @ state_named parent_state @ '','')
            else Inr ()) (\<lambda>_.
     rbind (guard_r (claim_refused parent) (claim_allows parent cx)) (\<lambda>_. Inr parent)))))))"

definition proposed_plan :: "string \<Rightarrow> act_context \<Rightarrow> order_terms \<Rightarrow> bool \<Rightarrow> string \<Rightarrow> plan" where
  "proposed_plan kind cx t released key =
     (plan_new kind (cx_actor cx) [Opened t released])\<lparr>pln_idempotency_key := key\<rparr>"

definition single_plan ::
  "known \<Rightarrow> minting \<Rightarrow> account_book \<Rightarrow> act_context \<Rightarrow> propose_request \<Rightarrow> store_error + plan" where
  "single_plan kn mints b cx q =
     rbind (proposal_held kn cx q) (\<lambda>_.
       case qpo_link q of
         None \<Rightarrow> Inr (proposed_plan ''order-proposed'' cx (proposed_order mints b cx q) False (qpo_idempotency_key q))
       | Some link \<Rightarrow>
           rbind (child_held kn b cx q (ol_parent_order_id link)) (\<lambda>parent.
             Inr (proposed_plan ''order-proposed'' cx
                    ((proposed_order mints b cx q)\<lparr>or_sleeve := or_sleeve (h_order parent)\<rparr>)
                    True (qpo_idempotency_key q))))"

subsection \<open>A block\<close>

definition member_held ::
  "(act_context \<Rightarrow> string \<Rightarrow> member_view \<Rightarrow> 's \<Rightarrow> store_error + 's) \<Rightarrow> string \<Rightarrow> string \<Rightarrow> act_context
    \<Rightarrow> nat \<times> string \<Rightarrow> string list \<times> 's \<Rightarrow> store_error + string list \<times> 's" where
  "member_held rest named what cx nm s =
     (let (n, member) = nm; (seen, t) = s; field = named @ ''['' @ show_uint (int n) @ '']'' in
      rbind (guard_r (malformed field) (\<not> List.member seen member)) (\<lambda>_.
      rbind (ok_or (malformed field) (bt_get (cx_members cx) member)) (\<lambda>view.
        let state = (case order_state_of (mv_state view) of None \<Rightarrow> OUnspecified | Some s \<Rightarrow> s) in
        if state \<noteq> OReleased \<and> state \<noteq> OWorking
        then row_refused ''i2'' state (''naming order '' @ member @ '', which is not released, in a '' @ what)
        else rbind (rest cx field view t) (\<lambda>t'. Inr (member # seen, t')))))"

definition not_in_block :: "member_view \<Rightarrow> store_error + unit" where
  "not_in_block view = guard_r (Refused OrderStateRefused [mv_in_block view] []) (mv_in_block view = [])"

definition block_member ::
  "known \<Rightarrow> string \<Rightarrow> int \<Rightarrow> act_context \<Rightarrow> string \<Rightarrow> member_view \<Rightarrow> exact \<Rightarrow> store_error + exact" where
  "block_member kn instrument side cx field view idle =
     rbind (guard_r (malformed field) (became_same kn (mv_instrument_id view) instrument)) (\<lambda>_.
     rbind (guard_r (malformed field) (mv_side view = side)) (\<lambda>_.
     rbind (not_in_block view) (\<lambda>_.
       num_add ''block quantity'' idle (mv_idle view))))"

definition block_holds :: "known \<Rightarrow> act_context \<Rightarrow> string \<Rightarrow> int \<Rightarrow> string list \<Rightarrow> store_error + exact" where
  "block_holds kn cx instrument side members =
     rbind (rfold (member_held (block_member kn instrument side) ''block_member_order_ids'' ''block'' cx)
              (numbered_list members) ([], ex_zero)) (\<lambda>(seen, idle). Inr idle)"

definition joined_order :: "minting \<Rightarrow> account_book \<Rightarrow> act_context \<Rightarrow> propose_request \<Rightarrow> order_terms" where
  "joined_order mints b cx q =
     order_terms_default
       \<lparr>or_order_id := mints MINT_ORDER 0, or_account_id := ab_account_id b, or_sleeve := qpo_sleeve q,
        or_order_type := qpo_order_type q, or_limit_price := qpo_limit_price q, or_stop_price := qpo_stop_price q,
        or_time_in_force := qpo_time_in_force q, or_expire_date := qpo_expire_date q,
        or_expire_time_ns := qpo_expire_time_ns q, or_execution_instructions := qpo_execution_instructions q,
        or_lot_relief_method := qpo_lot_relief_method q, or_capacity := qpo_capacity q,
        or_direction := qpo_direction q, or_handling_instructions := qpo_handling_instructions q,
        or_person_roles := Some (proposed_roles cx q)\<rparr>"

definition stated_as :: "propose_request \<Rightarrow> exact \<Rightarrow> string \<Rightarrow> store_error + unit" where
  "stated_as q quantity members =
     rbind (decimal_field ''quantity'' (qpo_quantity q)) (\<lambda>stated.
     rbind (guard_r (malformed ''quantity'')
              (case stated of None \<Rightarrow> True | Some x \<Rightarrow> ex_eq x quantity)) (\<lambda>_.
       guard_r (malformed members) (\<not> is_zero quantity)))"

definition block_plan ::
  "known \<Rightarrow> minting \<Rightarrow> account_book \<Rightarrow> act_context \<Rightarrow> propose_request \<Rightarrow> store_error + plan" where
  "block_plan kn mints b cx q =
     rbind (guard_r (malformed ''instrument_id'') (qpo_instrument_id q \<noteq> [])) (\<lambda>_.
     rbind (side_named ''side'' (qpo_side q)) (\<lambda>_.
     rbind (guard_r (malformed ''cash_quantity'') (qpo_cash_quantity q = None)) (\<lambda>_.
     rbind (guard_r (malformed ''link'') (qpo_link q = None)) (\<lambda>_.
     rbind (references_answered cx) (\<lambda>_.
     rbind (local_record_allowed cx (qpo_instrument_id q) ''the block'') (\<lambda>_.
     rbind (block_holds kn cx (qpo_instrument_id q) (qpo_side q) (qpo_block_member_order_ids q)) (\<lambda>quantity.
     rbind (stated_as q quantity ''block_member_order_ids'') (\<lambda>_.
       Inr (proposed_plan ''order-proposed'' cx
              ((joined_order mints b cx q)\<lparr>or_instrument_id := qpo_instrument_id q, or_side := qpo_side q,
                 or_quantity := num_wire quantity, or_quote_currency := qpo_quote_currency q,
                 or_block_member_order_ids := qpo_block_member_order_ids q\<rparr>)
              True (qpo_idempotency_key q))))))))))"

subsection \<open>A net\<close>

record net_so_far =
  ns_buys :: exact
  ns_sells :: exact
  ns_first :: "member_view option"

definition net_member ::
  "known \<Rightarrow> act_context \<Rightarrow> string \<Rightarrow> member_view \<Rightarrow> net_so_far \<Rightarrow> store_error + net_so_far" where
  "net_member kn cx field view s =
     rbind (not_in_block view) (\<lambda>_.
     rbind (guard_r (malformed field) (mv_quote_currency view \<noteq> [])) (\<lambda>_.
     rbind (case ns_first s of
              None \<Rightarrow> Inr (s\<lparr>ns_first := Some view\<rparr>)
            | Some first \<Rightarrow>
                rbind (guard_r (malformed field)
                         (became_same kn (mv_instrument_id view) (mv_instrument_id first)
                          \<and> mv_quote_currency view = mv_quote_currency first)) (\<lambda>_.
                rbind (guard_r (malformed field) (mv_value_key view = mv_value_key first)) (\<lambda>_. Inr s))) (\<lambda>s1.
       if side_of (mv_side view) = Some SDBuy
       then rbind (num_add ''net quantity'' (ns_buys s1) (mv_idle view)) (\<lambda>t. Inr (s1\<lparr>ns_buys := t\<rparr>))
       else rbind (num_add ''net quantity'' (ns_sells s1) (mv_idle view)) (\<lambda>t. Inr (s1\<lparr>ns_sells := t\<rparr>)))))"

definition one_sided :: "act_context \<Rightarrow> member_view \<Rightarrow> string list \<Rightarrow> bool" where
  "one_sided cx first members \<longleftrightarrow>
     list_all (\<lambda>member. case bt_get (cx_members cx) member of
         None \<Rightarrow> False
       | Some view \<Rightarrow> (mv_side view = side_no SDBuy) = (mv_side first = side_no SDBuy)) members"

definition net_holds ::
  "known \<Rightarrow> act_context \<Rightarrow> string list \<Rightarrow> store_error + exact \<times> int \<times> string \<times> string \<times> string" where
  "net_holds kn cx members =
     rbind (rfold (member_held (net_member kn) ''net_member_order_ids'' ''net'' cx) (numbered_list members)
              ([], \<lparr>ns_buys = ex_zero, ns_sells = ex_zero, ns_first = None\<rparr>)) (\<lambda>(seen, s).
     rbind (ok_or (malformed ''net_member_order_ids'') (ns_first s)) (\<lambda>first.
     rbind (guard_r (malformed (''net_member_order_ids['' @ show_uint (int (length members) - 1) @ '']''))
              (\<not> one_sided cx first members)) (\<lambda>_.
     rbind (if ex_ge (ns_buys s) (ns_sells s)
            then rbind (num_add ''net quantity'' (ns_buys s) (negated (ns_sells s))) (\<lambda>t. Inr (t, side_no SDBuy))
            else rbind (num_add ''net quantity'' (ns_sells s) (negated (ns_buys s))) (\<lambda>t. Inr (t, side_no SDSell)))
       (\<lambda>(quantity, side).
         Inr (quantity, side, mv_instrument_id first, mv_quote_currency first, mv_value_key first)))))"

definition net_plan ::
  "known \<Rightarrow> minting \<Rightarrow> account_book \<Rightarrow> act_context \<Rightarrow> propose_request \<Rightarrow> store_error + plan" where
  "net_plan kn mints b cx q =
     rbind (guard_r (malformed ''cash_quantity'') (qpo_cash_quantity q = None)) (\<lambda>_.
     rbind (guard_r (malformed ''link'') (qpo_link q = None)) (\<lambda>_.
     rbind (net_holds kn cx (qpo_net_member_order_ids q)) (\<lambda>(quantity, side, instrument, quote, value_key).
     rbind (guard_r (malformed ''instrument_id'')
              (qpo_instrument_id q = [] \<or> became_same kn (qpo_instrument_id q) instrument)) (\<lambda>_.
     rbind (guard_r (malformed ''quote_currency'')
              (qpo_quote_currency q = [] \<or> qpo_quote_currency q = quote)) (\<lambda>_.
     rbind (guard_r (malformed ''side'') (qpo_side q = side_no SDUnspecified \<or> qpo_side q = side)) (\<lambda>_.
     rbind (stated_as q quantity ''net_member_order_ids'') (\<lambda>_.
     rbind (references_answered cx) (\<lambda>_.
     rbind (local_record_allowed cx instrument ''the net'') (\<lambda>_.
       let value_date = (if starts_with ''spot@'' value_key then [] else value_key) in
       rbind (guard_r (malformed ''value_date'') (qpo_value_date q = [] \<or> qpo_value_date q = value_date)) (\<lambda>_.
         Inr (proposed_plan ''order-proposed'' cx
                ((joined_order mints b cx q)\<lparr>or_instrument_id := instrument, or_side := side,
                   or_quantity := num_wire quantity, or_quote_currency := quote,
                   or_net_member_order_ids := qpo_net_member_order_ids q, or_value_date := value_date\<rparr>)
                True (qpo_idempotency_key q))))))))))))"

definition proposal_plan ::
  "known \<Rightarrow> minting \<Rightarrow> account_book \<Rightarrow> act_context \<Rightarrow> propose_request \<Rightarrow> store_error + plan" where
  "proposal_plan kn mints b cx q =
     rbind (user_required cx ''proposing an order'') (\<lambda>_.
     rbind (opt_date_field ''value_date'' (qpo_value_date q)) (\<lambda>_.
       if qpo_net_member_order_ids q \<noteq> [] then
         rbind (guard_r (Malformed [''block_member_order_ids'', ''net_member_order_ids''] [])
                  (qpo_block_member_order_ids q = [])) (\<lambda>_. net_plan kn mints b cx q)
       else if qpo_block_member_order_ids q \<noteq> [] then block_plan kn mints b cx q
       else single_plan kn mints b cx q))"

definition propose_order ::
  "known \<Rightarrow> minting \<Rightarrow> account_book \<Rightarrow> nat \<Rightarrow> act_context \<Rightarrow> propose_request \<Rightarrow> (store_error + made_act) option" where
  "propose_order kn mints b head cx q = and_then (proposal_plan kn mints b cx q) (finish kn mints b head cx)"

definition net_link_plan ::
  "account_book \<Rightarrow> act_context \<Rightarrow> string \<Rightarrow> string \<Rightarrow> string \<Rightarrow> store_error + plan option" where
  "net_link_plan b cx member net account =
     rbind (held_order b member) (\<lambda>h.
       if (case or_link (h_order h) of
             None \<Rightarrow> False
           | Some link \<Rightarrow> ol_kind link = order_link_kind_no LNet \<and> ol_parent_order_id link = net)
       then Inr None
       else Inr (Some ((plan_new ''net-member-linked'' (cx_actor cx) [NetLinked member net account])
              \<lparr>pln_reason := ''a member of net order '' @ net @ '' in account '' @ account\<rparr>)))"

definition link_net_member ::
  "known \<Rightarrow> minting \<Rightarrow> account_book \<Rightarrow> nat \<Rightarrow> act_context \<Rightarrow> string \<Rightarrow> string \<Rightarrow> string
    \<Rightarrow> (store_error + made_act option) option" where
  "link_net_member kn mints b head cx member net account =
     and_then (net_link_plan b cx member net account) (\<lambda>p.
       case p of
         None \<Rightarrow> Some (Inr None)
       | Some p \<Rightarrow> once_made (finish kn mints b head cx p) (\<lambda>m. Inr (Some m)))"

subsection \<open>An order recorded\<close>

definition recorded_order :: "minting \<Rightarrow> account_book \<Rightarrow> act_context \<Rightarrow> record_request \<Rightarrow> order_terms" where
  "recorded_order mints b cx q =
     order_terms_default
       \<lparr>or_order_id := mints MINT_ORDER 0, or_account_id := ab_account_id b, or_instrument_id := qro_instrument_id q,
        or_sleeve := qro_sleeve q, or_side := qro_side q, or_quantity := qro_quantity q,
        or_order_type := qro_order_type q, or_limit_price := qro_limit_price q,
        or_time_in_force := qro_time_in_force q, or_origin := order_origin_no GTelephoned,
        or_venue_order_id := qro_venue_order_id q,
        or_person_roles := Some (person_roles_default\<lparr>pr_entered_by := Some (cx_actor cx)\<rparr>)\<rparr>"

definition record_plan ::
  "minting \<Rightarrow> account_book \<Rightarrow> act_context \<Rightarrow> record_request \<Rightarrow> store_error + plan" where
  "record_plan mints b cx q =
     rbind (user_required cx ''recording an order'') (\<lambda>_.
     rbind (guard_r (malformed ''instrument_id'') (qro_instrument_id q \<noteq> [])) (\<lambda>_.
     rbind (side_named ''side'' (qro_side q)) (\<lambda>_.
     rbind (positive_field ''quantity'' (qro_quantity q)) (\<lambda>_.
     rbind (references_answered cx) (\<lambda>_.
     rbind (not_referential cx [] (qro_instrument_id q)) (\<lambda>_.
     rbind (instrument_held cx (qro_instrument_id q)) (\<lambda>_.
     rbind (case (if qro_venue_order_id q = [] then None
                  else bt_get (l_venue_facts (ab_ledger b)) (recorded_order_key (qro_venue_order_id q))) of
              None \<Rightarrow> Inr ()
            | Some i \<Rightarrow> Inl (Refused IdentifierInUse [qro_venue_order_id q, i] [])) (\<lambda>_.
       Inr (proposed_plan ''order-recorded'' cx (recorded_order mints b cx q) True (qro_idempotency_key q))))))))))"

definition record_order ::
  "known \<Rightarrow> minting \<Rightarrow> account_book \<Rightarrow> nat \<Rightarrow> act_context \<Rightarrow> record_request \<Rightarrow> (store_error + made_act) option" where
  "record_order kn mints b head cx q = and_then (record_plan mints b cx q) (finish kn mints b head cx)"

end
