(* ===== verification/Order_Instructions.thy ===== *)
theory Order_Instructions
  imports Order_Plan
begin

section \<open>Trading instructions and locates\<close>

text \<open>
  \<open>crates/bor/src/order_decide.rs\<close>, its commands that are on no order: a trading instruction set at
  its setter's level on one target, and a locate recorded, answered or used.
\<close>

subsection \<open>A trading instruction\<close>

definition target_none :: instruction_target where
  "target_none = \<lparr>itg_all_accounts = False, itg_account_id = [], itg_instance_id = [], itg_subject = [],
     itg_service_account_id = [], itg_user_group_id = []\<rparr>"

primrec setter_level_name :: "setter_level \<Rightarrow> string" where
  "setter_level_name SLUnspecified = ''SETTER_LEVEL_UNSPECIFIED''"
| "setter_level_name SLDeploymentAdmin = ''SETTER_LEVEL_DEPLOYMENT_ADMIN''"
| "setter_level_name SLPluginAdmin = ''SETTER_LEVEL_PLUGIN_ADMIN''"

definition setter_level_held :: "instruction_request \<Rightarrow> store_error + setter_level" where
  "setter_level_held q =
     (let level = (case setter_level_of (qti_setter_level q) of None \<Rightarrow> SLUnspecified | Some s \<Rightarrow> s);
          target = (case qti_target q of None \<Rightarrow> target_none | Some t \<Rightarrow> t)
      in if level = SLUnspecified then Inl (malformed ''setter_level'')
         else if level = SLPluginAdmin \<and> (itg_instance_id target = [] \<or> itg_all_accounts target)
         then Inl (malformed ''target'')
         else Inr level)"

definition instruction_key :: "instruction_target \<Rightarrow> setter_level \<Rightarrow> string" where
  "instruction_key t level =
     key_of [setter_level_name level, if itg_all_accounts t then ''all'' else [], itg_account_id t,
             itg_instance_id t, itg_subject t, itg_service_account_id t, itg_user_group_id t]"

definition check_target :: "instruction_target \<Rightarrow> store_error + unit" where
  "check_target t =
     (let primary = length (filter id [itg_all_accounts t, itg_user_group_id t \<noteq> []]);
          inside = length (filter id [itg_account_id t \<noteq> [], itg_subject t \<noteq> [], itg_service_account_id t \<noteq> []]);
          plugin = (itg_instance_id t \<noteq> [])
      in guard_r (malformed ''target'')
           (primary = 1 \<and> inside = 0 \<and> \<not> plugin \<or> primary = 0 \<and> inside = 1 \<or> primary = 0 \<and> inside = 0 \<and> plugin))"

definition instruction_plan :: "act_context \<Rightarrow> instruction_request \<Rightarrow> store_error + plan" where
  "instruction_plan cx q =
     rbind (user_required cx ''setting a trading instruction'') (\<lambda>_.
     rbind (guard_r (Refused ReasonRequired [] []) (trim (qti_reason q) \<noteq> [])) (\<lambda>_.
     rbind (ok_or (malformed ''target'') (qti_target q)) (\<lambda>t.
     rbind (check_target t) (\<lambda>_.
     rbind (guard_r (malformed ''target.user_group_id'') (itg_user_group_id t = [])) (\<lambda>_.
     rbind (guard_r (malformed ''value'')
              (\<not> (qti_value q = instruction_value_no IVUnspecified \<or> instruction_value_of (qti_value q) = None))) (\<lambda>_.
     rbind (setter_level_held q) (\<lambda>level.
       Inr ((plan_new ''trading-instruction-set'' (cx_actor cx)
               [Instructed (instruction_key t level)
                  \<lparr>ti_target = Some t, ti_value = qti_value q, ti_setter_level = setter_level_no level, ti_covers = [],
                   ti_reason = qti_reason q, ti_entry = None, ti_last_change = None\<rparr>])
              \<lparr>pln_reason := qti_reason q\<rparr>))))))))"

definition set_trading_instruction ::
  "known \<Rightarrow> minting \<Rightarrow> account_book \<Rightarrow> nat \<Rightarrow> act_context \<Rightarrow> instruction_request \<Rightarrow> (store_error + made_act) option" where
  "set_trading_instruction kn mints b head cx q = and_then (instruction_plan cx q) (finish kn mints b head cx)"

subsection \<open>Locates\<close>

definition new_locate :: "minting \<Rightarrow> account_book \<Rightarrow> locate_request \<Rightarrow> locate" where
  "new_locate mints b q =
     locate_default\<lparr>lo_locate_record_id := mints MINT_LOCATE 0, lo_account_id := ab_account_id b,
       lo_instrument_id := qlo_instrument_id q, lo_quantity_requested := qlo_quantity_requested q,
       lo_answer := qlo_answer q,
       lo_locate_id := (case qlo_answer q of None \<Rightarrow> [] | Some answer \<Rightarrow> la_locate_id answer),
       lo_raw_record := qlo_raw_record q\<rparr>"

definition locate_plan ::
  "minting \<Rightarrow> account_book \<Rightarrow> act_context \<Rightarrow> locate_request \<Rightarrow> store_error + plan" where
  "locate_plan mints b cx q =
     (if qlo_locate_record_id q \<noteq> [] then
        rbind (guard_r (Invalid [ab_account_id b, qlo_locate_record_id q])
                 (bt_has (l_locates (ab_ledger b)) (qlo_locate_record_id q))) (\<lambda>_.
        rbind (ok_or (malformed ''answer'') (qlo_answer q)) (\<lambda>answer.
          Inr ((plan_new ''locate-answered'' (fact_actor cx) [LocateAnswered (qlo_locate_record_id q) answer])
                 \<lparr>pln_idempotency_key := qlo_idempotency_key q\<rparr>)))
      else
        rbind (guard_r (malformed ''instrument_id'') (qlo_instrument_id q \<noteq> [])) (\<lambda>_.
        rbind (positive_field ''quantity_requested'' (qlo_quantity_requested q)) (\<lambda>_.
          Inr ((plan_new ''locate-recorded'' (fact_actor cx) [LocateOpened (new_locate mints b q)])
                 \<lparr>pln_idempotency_key := qlo_idempotency_key q\<rparr>))))"

definition record_locate ::
  "known \<Rightarrow> minting \<Rightarrow> account_book \<Rightarrow> nat \<Rightarrow> act_context \<Rightarrow> locate_request \<Rightarrow> (store_error + made_act) option" where
  "record_locate kn mints b head cx q = and_then (locate_plan mints b cx q) (finish kn mints b head cx)"

definition locate_expires :: "locate \<Rightarrow> int" where
  "locate_expires k = (case lo_answer k of None \<Rightarrow> 0 | Some answer \<Rightarrow> la_expires_at_ns answer)"

definition locate_use_plan :: "account_book \<Rightarrow> act_context \<Rightarrow> locate_use_request \<Rightarrow> store_error + plan" where
  "locate_use_plan b cx q =
     rbind (ok_or (Invalid [ab_account_id b, qlu_locate_record_id q])
              (bt_get (l_locates (ab_ledger b)) (qlu_locate_record_id q))) (\<lambda>h.
     rbind (in_scope cx (lo_account_id (ld_locate h))) (\<lambda>_.
     rbind (user_required cx ''recording a locate's use'') (\<lambda>_.
     rbind (ok_or (malformed ''use'') (qlu_use q)) (\<lambda>used.
     rbind (guard_r (malformed ''use.kind'')
              (\<not> (lu_kind used = locate_use_kind_no UUnspecified \<or> locate_use_kind_of (lu_kind used) = None))) (\<lambda>_.
     rbind (decimal_field ''use.quantity'' (lu_quantity used)) (\<lambda>quantity.
     rbind (guard_r (malformed ''use.quantity'')
              (case quantity of None \<Rightarrow> False | Some x \<Rightarrow> \<not> is_negative x)) (\<lambda>_.
     rbind (guard_r (Refused OrderStateRefused [qlu_locate_record_id q] [])
              (\<not> (locate_expires (ld_locate h) \<noteq> 0 \<and> locate_expires (ld_locate h) \<le> cx_received_at_ns cx))) (\<lambda>_.
       Inr ((plan_new ''locate-used'' (cx_actor cx) [LocateUsed (qlu_locate_record_id q) used])
              \<lparr>pln_idempotency_key := qlu_idempotency_key q\<rparr>)))))))))"

definition record_locate_use ::
  "known \<Rightarrow> minting \<Rightarrow> account_book \<Rightarrow> nat \<Rightarrow> act_context \<Rightarrow> locate_use_request \<Rightarrow> (store_error + made_act) option" where
  "record_locate_use kn mints b head cx q = and_then (locate_use_plan b cx q) (finish kn mints b head cx)"

end
