(* ===== verification/Order_Service.thy ===== *)
theory Order_Service
  imports Order_Commands Order_Placing Order_Propose Order_Instructions
begin

section \<open>The order path's commands, served\<close>

text \<open>
  \<open>crates/bor/src/order_service.rs\<close>, the act each command is given to on its account's book, and the
  book's own acts: an order's time in force ended, a net's member linked in its own account. The
  requests are decoded, the account found and the instruments' records asked for before; executions,
  charges and value-date rolls are not modelled.
\<close>

datatype order_command =
    ProposeOrder propose_request
  | RecordOrder record_request
  | RequestOrderChange order_change_request
  | RecordCheck check_request
  | DecideApproval approval_request
  | ReleaseOrder release_request
  | SetWorkingCondition working_request
  | CreatePlacement placement_request
  | RequestPlacementChange placement_change_request
  | ReportPlacement placement_report
  | ReportPlacementQuote quote_report
  | PickPlacementQuote pick_request
  | AcknowledgeFlag acknowledge_request
  | SetTradingInstruction instruction_request
  | RecordLocate locate_request
  | RecordLocateUse locate_use_request
  | ExpireOrder string
  | LinkNetMember string string string

definition one_made :: "(store_error + made_act) option \<Rightarrow> (store_error + made_act option) option" where
  "one_made r = once_made r (\<lambda>m. Inr (Some m))"

definition first_made :: "(store_error + made_act \<times> string) option \<Rightarrow> (store_error + made_act option) option" where
  "first_made r = once_made r (\<lambda>(m, _). Inr (Some m))"

primrec order_act ::
  "known \<Rightarrow> minting \<Rightarrow> account_book \<Rightarrow> nat \<Rightarrow> act_context \<Rightarrow> order_command
    \<Rightarrow> (store_error + made_act option) option" where
  "order_act kn mints b head cx (ProposeOrder q) = one_made (propose_order kn mints b head cx q)"
| "order_act kn mints b head cx (RecordOrder q) = one_made (record_order kn mints b head cx q)"
| "order_act kn mints b head cx (RequestOrderChange q) = first_made (request_order_change kn mints b head cx q)"
| "order_act kn mints b head cx (RecordCheck q) = one_made (record_check kn mints b head cx q)"
| "order_act kn mints b head cx (DecideApproval q) = one_made (decide_approval kn mints b head cx q)"
| "order_act kn mints b head cx (ReleaseOrder q) = one_made (release_order kn mints b head cx q)"
| "order_act kn mints b head cx (SetWorkingCondition q) = one_made (set_working_condition kn mints b head cx q)"
| "order_act kn mints b head cx (CreatePlacement q) = one_made (create_placement kn mints b head cx q)"
| "order_act kn mints b head cx (RequestPlacementChange q) = first_made (request_placement_change kn mints b head cx q)"
| "order_act kn mints b head cx (ReportPlacement rp) = one_made (report_placement kn mints b head cx rp)"
| "order_act kn mints b head cx (ReportPlacementQuote q) = one_made (report_placement_quote kn mints b head cx q)"
| "order_act kn mints b head cx (PickPlacementQuote q) = one_made (pick_placement_quote kn mints b head cx q)"
| "order_act kn mints b head cx (AcknowledgeFlag q) = one_made (acknowledge_flag kn mints b head cx q)"
| "order_act kn mints b head cx (SetTradingInstruction q) = one_made (set_trading_instruction kn mints b head cx q)"
| "order_act kn mints b head cx (RecordLocate q) = one_made (record_locate kn mints b head cx q)"
| "order_act kn mints b head cx (RecordLocateUse q) = one_made (record_locate_use kn mints b head cx q)"
| "order_act kn mints b head cx (ExpireOrder i) = expire kn mints b head cx i"
| "order_act kn mints b head cx (LinkNetMember member net account) =
     link_net_member kn mints b head cx member net account"

section \<open>Facts\<close>

text \<open>The acts a command decides on, before they are settled: each command is these acts, finished.\<close>

primrec acts_decided ::
  "known \<Rightarrow> minting \<Rightarrow> account_book \<Rightarrow> act_context \<Rightarrow> order_command \<Rightarrow> store_error + act list" where
  "acts_decided kn mints b cx (ProposeOrder q) = rbind (proposal_plan kn mints b cx q) (\<lambda>p. Inr (pln_acts p))"
| "acts_decided kn mints b cx (RecordOrder q) = rbind (record_plan mints b cx q) (\<lambda>p. Inr (pln_acts p))"
| "acts_decided kn mints b cx (RequestOrderChange q) =
     rbind (order_change_decided kn mints b cx q) (\<lambda>(_, _, _, acts). Inr acts)"
| "acts_decided kn mints b cx (RecordCheck q) = rbind (check_decided b cx q) (\<lambda>(_, _, _, acts). Inr acts)"
| "acts_decided kn mints b cx (DecideApproval q) = rbind (approval_decided b cx q) (\<lambda>(_, _, acts). Inr acts)"
| "acts_decided kn mints b cx (ReleaseOrder q) = rbind (release_decided b cx q) (\<lambda>(_, acts). Inr acts)"
| "acts_decided kn mints b cx (SetWorkingCondition q) = working_decided b cx q"
| "acts_decided kn mints b cx (CreatePlacement q) = rbind (placement_decided mints b cx q) (\<lambda>d.
     Inr (case d of PlacementRecordedRefused _ p \<Rightarrow> pln_acts p | PlacementPlanned _ p \<Rightarrow> pln_acts p))"
| "acts_decided kn mints b cx (RequestPlacementChange q) =
     rbind (placement_change_plan mints b cx q) (\<lambda>p. Inr (pln_acts p))"
| "acts_decided kn mints b cx (ReportPlacement rp) = rbind (report_plan mints b cx rp) (\<lambda>p. Inr (pln_acts p))"
| "acts_decided kn mints b cx (ReportPlacementQuote q) =
     rbind (quote_reported mints b cx q) (\<lambda>quote. Inr [PlacementQuoted (qpq_placement_id q) quote])"
| "acts_decided kn mints b cx (PickPlacementQuote q) = rbind (pick_decided b cx q) (\<lambda>(_, p). Inr (pln_acts p))"
| "acts_decided kn mints b cx (AcknowledgeFlag q) = acknowledge_decided b cx q"
| "acts_decided kn mints b cx (SetTradingInstruction q) = rbind (instruction_plan cx q) (\<lambda>p. Inr (pln_acts p))"
| "acts_decided kn mints b cx (RecordLocate q) = rbind (locate_plan mints b cx q) (\<lambda>p. Inr (pln_acts p))"
| "acts_decided kn mints b cx (RecordLocateUse q) = rbind (locate_use_plan b cx q) (\<lambda>p. Inr (pln_acts p))"
| "acts_decided kn mints b cx (ExpireOrder i) =
     rbind (expire_plan mints b cx i) (\<lambda>p. Inr (case p of None \<Rightarrow> [] | Some p \<Rightarrow> pln_acts p))"
| "acts_decided kn mints b cx (LinkNetMember member net account) =
     rbind (net_link_plan b cx member net account) (\<lambda>p. Inr (case p of None \<Rightarrow> [] | Some p \<Rightarrow> pln_acts p))"

lemma check_reached_same: "check_reached i r s m = Inr m' \<Longrightarrow> m' = m"
  by (auto simp: check_reached_def rbind_eq_Inr split: if_splits)

lemma reached_either_same: "reached_either i s m = Inr m' \<Longrightarrow> m' = m"
  by (auto simp: reached_either_def dest: check_reached_same split: sum.splits)

lemma plan_new_acts [simp]: "pln_acts (plan_new kind a acts) = acts"
  by (simp add: plan_new_def)

lemma finished_by:
  "finish kn mints b head cx p = Some (Inr m0) \<Longrightarrow> a = pln_acts p \<Longrightarrow>
     \<exists>p. a = pln_acts p \<and> (\<exists>m'. finish kn mints b head cx p = Some (Inr m') \<and> md_book m0 = md_book m' \<and> md_entry m0 = md_entry m')"
  by blast

lemma order_act_finished:
  assumes "order_act kn mints b head cx c = Some (Inr (Some m))"
  obtains p m0 where "acts_decided kn mints b cx c = Inr (pln_acts p)" "finish kn mints b head cx p = Some (Inr m0)"
    "md_book m = md_book m0" "md_entry m = md_entry m0"
proof -
  note made_defs = one_made_def first_made_def once_made_Inr and_then_Inr rbind_eq_Inr
  have "\<exists>p m0. acts_decided kn mints b cx c = Inr (pln_acts p) \<and> finish kn mints b head cx p = Some (Inr m0)
      \<and> md_book m = md_book m0 \<and> md_entry m = md_entry m0"
  proof (cases c)
    case (ProposeOrder q)
    with assms show ?thesis by (auto simp: made_defs propose_order_def)
  next
    case (RecordOrder q)
    with assms show ?thesis by (auto simp: made_defs record_order_def)
  next
    case (RequestOrderChange q)
    with assms obtain state r kind acts m0 m1 p where s: "order_change_decided kn mints b cx q = Inr (state, r, kind, acts)"
      "finish kn mints b head cx p = Some (Inr m0)" "pln_acts p = acts"
      "(if r = [] then Inr m0 else check_reached (qoc_order_id q) r state m0) = Inr m1" "m = m1"
      by (force simp: made_defs request_order_change_def split: prod.splits)
    from s(4,5) have "m = m0" by (auto dest: check_reached_same split: if_splits)
    with s RequestOrderChange show ?thesis by (intro exI [of _ p]) auto
  next
    case (RecordCheck q)
    with assms obtain i state r acts m0 p where s: "check_decided b cx q = Inr (i, state, r, acts)"
      "finish kn mints b head cx p = Some (Inr m0)" "pln_acts p = acts"
      "(if r = [] then Inr m0 else check_reached i r state m0) = Inr m"
      by (force simp: made_defs record_check_def split: prod.splits)
    from s(4) have "m = m0" by (auto dest: check_reached_same split: if_splits)
    with s RecordCheck show ?thesis by (intro exI [of _ p]) auto
  next
    case (DecideApproval q)
    with assms obtain state r acts m0 p where s: "approval_decided b cx q = Inr (state, r, acts)"
      "finish kn mints b head cx p = Some (Inr m0)" "pln_acts p = acts" "check_reached (qap_order_id q) r state m0 = Inr m"
      by (force simp: made_defs decide_approval_def split: prod.splits)
    from s(4) have "m = m0" by (rule check_reached_same)
    with s DecideApproval show ?thesis by (intro exI [of _ p]) auto
  next
    case (ReleaseOrder q)
    with assms obtain state acts m0 p where s: "release_decided b cx q = Inr (state, acts)"
      "finish kn mints b head cx p = Some (Inr m0)" "pln_acts p = acts" "check_reached (qre_order_id q) ''1'' state m0 = Inr m"
      by (force simp: made_defs release_order_def split: prod.splits)
    from s(4) have "m = m0" by (rule check_reached_same)
    with s ReleaseOrder show ?thesis by (intro exI [of _ p]) auto
  next
    case (SetWorkingCondition q)
    with assms show ?thesis by (auto simp: made_defs set_working_condition_def) (rule finished_by, assumption, simp)
  next
    case (ReportPlacementQuote q)
    with assms show ?thesis by (auto simp: made_defs report_placement_quote_def) (rule finished_by, assumption, simp)
  next
    case (AcknowledgeFlag q)
    with assms show ?thesis by (auto simp: made_defs acknowledge_flag_def) (rule finished_by, assumption, simp)
  next
    case (CreatePlacement q)
    with assms obtain d where d: "placement_decided mints b cx q = Inr d"
      "(case d of PlacementRecordedRefused refusal p \<Rightarrow>
           once_made (finish kn mints b head cx p) (\<lambda>m. Inr (m\<lparr>md_refusal := Some refusal\<rparr>))
         | PlacementPlanned state p \<Rightarrow>
           once_made (finish kn mints b head cx p) (reached_either (qpl_order_id q) state)) = Some (Inr m)"
      by (auto simp: made_defs create_placement_def)
    then show ?thesis
      by (cases d) (auto simp: CreatePlacement once_made_Inr dest: reached_either_same)
  next
    case (PickPlacementQuote q)
    with assms show ?thesis
      by (auto simp: made_defs pick_placement_quote_def split: prod.splits option.splits) blast+
  next
    case (ExpireOrder i)
    with assms obtain p where "expire_plan mints b cx i = Inr (Some p)" "finish kn mints b head cx p = Some (Inr m)"
      by (auto simp: made_defs expire_def split: option.splits)
    with ExpireOrder show ?thesis by (intro exI [of _ p]) auto
  next
    case (LinkNetMember x y z)
    with assms obtain p where "net_link_plan b cx x y z = Inr (Some p)" "finish kn mints b head cx p = Some (Inr m)"
      by (auto simp: made_defs link_net_member_def split: option.splits)
    with LinkNetMember show ?thesis by (intro exI [of _ p]) auto
  qed (use assms in \<open>auto simp: made_defs report_placement_def request_placement_change_def
      set_trading_instruction_def record_locate_def record_locate_use_def\<close>)
  with that show ?thesis by blast
qed

end
