(* ===== verification/Order_After.thy ===== *)
theory Order_After
  imports Order_Service Book_Balance
begin

section \<open>What an entry leaves of an order\<close>

text \<open>
  An order's own standing -- its terms, whether it is released, asked to be, ending or ended, its
  conditions, checks, versions and override -- followed through the acts of an entry, past the
  stamps and references the book puts on it, and past what settling adds.
\<close>

type_synonym order_gist = "(order_terms \<times> bool \<times> bool) \<times> (order_state option \<times> order_state option)
  \<times> ((int, order_standing) btree \<times> check_verdict list) \<times> nat \<times> nat option"

definition gist_of :: "order_held \<Rightarrow> order_gist" where
  "gist_of h = ((h_order h, h_released h, h_release_requested h), (h_ended h, h_ending h),
     (h_conditions h, h_checks h), h_version h, h_overridden_version h)"

abbreviation same_gist :: "order_held \<Rightarrow> order_held \<Rightarrow> bool" where
  "same_gist h k \<equiv> gist_of h = gist_of k"

lemma gist_of_other [simp]:
  "gist_of (h\<lparr>h_placements := a\<rparr>) = gist_of h" "gist_of (h\<lparr>h_executions := a\<rparr>) = gist_of h"
  "gist_of (h\<lparr>h_children := a\<rparr>) = gist_of h" "gist_of (h\<lparr>h_charges := a\<rparr>) = gist_of h"
  "gist_of (h\<lparr>h_change_requests := a\<rparr>) = gist_of h" "gist_of (h\<lparr>h_last_change := r\<rparr>) = gist_of h"
  "gist_of (h\<lparr>h_opened_by := s, h_opened_at_ns := n\<rparr>) = gist_of h"
  by (simp_all add: gist_of_def)

definition on_it :: "string \<Rightarrow> string \<Rightarrow> (order_held \<Rightarrow> order_held) \<Rightarrow> order_held \<Rightarrow> order_held" where
  "on_it i j f h = (if j = i then f h else h)"

definition order_after :: "(string, nat) btree \<Rightarrow> string \<Rightarrow> act \<Rightarrow> order_held \<Rightarrow> order_held" where
  "order_after vs i a h =
     (case a of
        Terms t \<Rightarrow> on_it i (or_order_id t) (\<lambda>h. h\<lparr>h_order := t, h_version := version_of vs i (h_version h)\<rparr>) h
      | Released j \<Rightarrow> on_it i j (\<lambda>h. h\<lparr>h_released := True, h_release_requested := False,
          h_conditions := bt_remove (order_condition_no CAwaitingCheck) (h_conditions h)\<rparr>) h
      | ReleaseRequested j \<Rightarrow> on_it i j (\<lambda>h. h\<lparr>h_release_requested := True\<rparr>) h
      | Recalled j \<Rightarrow> on_it i j (\<lambda>h. h\<lparr>h_released := False, h_release_requested := False\<rparr>) h
      | Ended j s \<Rightarrow> on_it i j (\<lambda>h. h\<lparr>h_ended := order_state_of s, h_ending := None, h_release_requested := False,
          h_conditions := fold (\<lambda>c. bt_remove (order_condition_no c))
            [CApprovalRequired, CAwaitingCheck, CClaimed, CHeld, CPaused] (h_conditions h)\<rparr>) h
      | Ending j s \<Rightarrow> on_it i j (\<lambda>h. h\<lparr>h_ending := order_state_of s\<rparr>) h
      | Condition j c on standing \<Rightarrow> on_it i j (\<lambda>h. h\<lparr>h_conditions :=
          (if on then bt_insert c standing (h_conditions h) else bt_remove c (h_conditions h))\<rparr>) h
      | Overridden j \<Rightarrow> on_it i j (\<lambda>h. h\<lparr>h_overridden_version := Some (h_version h)\<rparr>) h
      | Checked j v \<Rightarrow> if ck_placement_id v = [] then on_it i j (\<lambda>h. h\<lparr>h_checks := h_checks h @ [v]\<rparr>) h else h
      | NetLinked j net account \<Rightarrow> on_it i j (\<lambda>h. h\<lparr>h_order := (h_order h)
          \<lparr>or_link := Some \<lparr>ol_kind = order_link_kind_no LNet, ol_parent_order_id = net\<rparr>\<rparr>\<rparr>) h
      | _ \<Rightarrow> h)"

definition act_after :: "(string, nat) btree \<Rightarrow> string \<Rightarrow> act \<Rightarrow> order_held option \<Rightarrow> order_held option" where
  "act_after vs i a o' =
     (case a of
        Opened t r \<Rightarrow>
          if or_order_id t = i
          then let h = (case o' of None \<Rightarrow> order_held_default | Some h \<Rightarrow> h)
               in Some (h\<lparr>h_order := t, h_released := r, h_version := version_of vs i (h_version h)\<rparr>)
          else o'
      | _ \<Rightarrow> map_option (order_after vs i a) o')"

lemma same_gist_iff:
  "same_gist h k \<longleftrightarrow> h_order h = h_order k \<and> h_released h = h_released k
     \<and> h_release_requested h = h_release_requested k \<and> h_ended h = h_ended k \<and> h_ending h = h_ending k
     \<and> h_conditions h = h_conditions k \<and> h_checks h = h_checks k \<and> h_version h = h_version k
     \<and> h_overridden_version h = h_overridden_version k"
  by (auto simp: gist_of_def)

lemma gist_after_cong: "same_gist h k \<Longrightarrow> same_gist (order_after vs i a h) (order_after vs i a k)"
  unfolding same_gist_iff by (cases a) (simp_all add: order_after_def on_it_def)

lemma act_after_other [simp]: "\<nexists>t r. a = Opened t r \<Longrightarrow> act_after vs i a z = map_option (order_after vs i a) z"
  by (cases a) (auto simp: act_after_def)

definition opened_as :: "(string, nat) btree \<Rightarrow> string \<Rightarrow> order_terms \<Rightarrow> bool \<Rightarrow> order_held \<Rightarrow> order_held" where
  "opened_as vs i t r h = h\<lparr>h_order := t, h_released := r, h_version := version_of vs i (h_version h)\<rparr>"

lemma opened_as_cong: "same_gist h k \<Longrightarrow> same_gist (opened_as vs i t r h) (opened_as vs i t r k)"
  unfolding same_gist_iff by (simp add: opened_as_def)

lemma act_after_opened [simp]:
  "act_after vs i (Opened t r) z =
     (if or_order_id t = i then Some (opened_as vs i t r (case z of None \<Rightarrow> order_held_default | Some h \<Rightarrow> h)) else z)"
  by (simp add: act_after_def opened_as_def Let_def)

lemma act_after_cong:
  assumes "map_option gist_of x = map_option gist_of y"
  shows "map_option gist_of (act_after vs i a x) = map_option gist_of (act_after vs i a y)"
proof (cases "\<exists>t r. a = Opened t r")
  case True
  then obtain t r where a: "a = Opened t r" by blast
  from assms show ?thesis
    by (cases x; cases y) (auto simp: a intro: opened_as_cong)
next
  case False
  with assms show ?thesis by (cases x; cases y) (auto intro: gist_after_cong)
qed

text \<open>The sleeve crosses an order is in are kept on its terms and named by no command here.\<close>

definition crosses :: "act \<Rightarrow> bool" where
  "crosses a \<longleftrightarrow> (\<exists>c. a = SleeveCrossed c)"

lemma opened_after:
  "map_option gist_of (bt_get (l_orders (apply_opened t r vs l)) i) =
     map_option gist_of (act_after vs i (Opened t r) (bt_get (l_orders l) i))"
proof -
  define k where "k = (case or_link t of
      None \<Rightarrow> l | Some link \<Rightarrow> on_order (ol_parent_order_id link) (\<lambda>p. p\<lparr>h_children := push_new (h_children p) (or_order_id t)\<rparr>) l)"
  have k: "map_option gist_of (bt_get (l_orders k) j) = map_option gist_of (bt_get (l_orders l) j)" for j
    by (cases "bt_get (l_orders l) j") (auto simp: k_def split: option.split)
  have "bt_get (l_orders (apply_opened t r vs l)) i =
      (if or_order_id t = i then Some (opened_as vs i t r (case bt_get (l_orders k) i of None \<Rightarrow> order_held_default | Some h \<Rightarrow> h))
       else bt_get (l_orders k) i)"
    by (auto simp: apply_opened_def Let_def opened_as_def k_def [symmetric])
  with k [of i] show ?thesis
    by (cases "bt_get (l_orders k) i"; cases "bt_get (l_orders l) i") (auto intro: opened_as_cong)
qed

lemma apply_after:
  assumes "\<not> crosses a"
  shows "map_option gist_of (bt_get (l_orders (apply_act a entry vs l)) i) =
    map_option gist_of (act_after vs i a (bt_get (l_orders l) i))"
proof (cases "\<exists>t r. a = Opened t r")
  case True
  then show ?thesis by (auto simp: opened_after simp del: act_after_opened)
next
  case False
  with assms show ?thesis
    by (cases "bt_get (l_orders l) i"; cases a)
      (auto simp: crosses_def order_after_def on_it_def apply_defs accept_each_orders Let_def
        split: option.split placed_fact.split)
qed

subsection \<open>Past the stamps and the references\<close>

abbreviation gist_at :: "ledger \<Rightarrow> string \<Rightarrow> order_gist option" where
  "gist_at l i \<equiv> map_option gist_of (bt_get (l_orders l) i)"

lemma note_after: "gist_at (note_act e a l) i = gist_at l i"
  by (cases "bt_get (l_orders l) i"; cases a) (auto simp: note_act_def split: if_split)

lemma stamp_after [simp]: "act_after vs i (stamp_act e a) = act_after vs i a" "crosses (stamp_act e a) = crosses a"
  by (rule ext, cases a; simp add: stamp_act_def order_after_def [abs_def])
    (cases a; simp add: stamp_act_def crosses_def)

lemma play_after: "\<not> crosses a \<Longrightarrow> gist_at (play_act e vs a l) i = map_option gist_of (act_after vs i a (bt_get (l_orders l) i))"
  by (simp add: play_act_def Let_def note_after apply_after)

lemma plays_after:
  assumes "list_all (\<lambda>a. \<not> crosses a) acts" "gist_at l i = map_option gist_of x"
  shows "gist_at (fold (play_act e vs) acts l) i = map_option gist_of (fold (act_after vs i) acts x)"
  using assms
proof (induction acts arbitrary: l x)
  case (Cons a acts)
  then have "gist_at (play_act e vs a l) i = map_option gist_of (act_after vs i a x)"
    by (simp add: play_after del: act_after_other act_after_opened) (rule act_after_cong)
  with Cons show ?case by simp
qed simp

lemma applies_after:
  assumes "list_all (\<lambda>a. \<not> crosses a) acts" "gist_at l i = map_option gist_of x"
  shows "gist_at (apply_acts acts entry vs l) i = map_option gist_of (fold (act_after vs i) acts x)"
  using assms unfolding apply_acts_def
proof (induction acts arbitrary: l x)
  case (Cons a acts)
  then have "gist_at (apply_act a entry vs l) i = map_option gist_of (act_after vs i a x)"
    by (simp add: apply_after del: act_after_other act_after_opened) (rule act_after_cong)
  with Cons show ?case by simp
qed simp

lemma on_order_gist: "(\<And>h. gist_of (f h) = gist_of h) \<Longrightarrow> gist_at (on_order j f l) i = gist_at l i"
  by (cases "bt_get (l_orders l) i") auto

lemma references_gist: "gist_at (reference_records e refs l) i = gist_at l i"
proof -
  have "gist_at (fold (\<lambda>(j, ref) l. if bt_has (l_orders l) j
          then (on_order j (\<lambda>h. h\<lparr>h_last_change := Some ref\<rparr>) l)\<lparr>l_order_entries := f j l\<rparr> else l) rs l) i = gist_at l i"
    for rs l and f :: "string \<Rightarrow> ledger \<Rightarrow> (string, string list) btree"
    by (rule fold_leaves [where g = "\<lambda>l. gist_at l i"]) (auto simp: on_order_gist simp del: on_order_other)
  moreover have "l_orders (fold (\<lambda>(j, ref). on_placement j (f ref)) rs k) = l_orders k" for f and rs :: "(string \<times> journal_ref) list" and k
    by (rule fold_leaves [where g = l_orders]) auto
  moreover have "l_orders (fold (\<lambda>(j, ref). on_execution j (f ref)) rs k) = l_orders k" for f and rs :: "(string \<times> journal_ref) list" and k
    by (rule fold_leaves [where g = l_orders]) auto
  ultimately show ?thesis by (simp add: reference_records_def Let_def)
qed

lemma others_orders: "reference_others e refs l cs = Inr (l', cs') \<Longrightarrow> l_orders l' = l_orders l"
  by (auto simp: reference_others_def Let_def rbind_eq_Inr fold_leaves [where g = l_orders] split_beta)

lemma order_path_after:
  assumes "apply_order_path e refs l cs = Inr (l', cs')" "list_all (\<lambda>a. \<not> crosses a) (by_acts (et_body e))"
  shows "\<exists>vs. \<forall>i. gist_at l' i = map_option gist_of (fold (act_after vs i) (by_acts (et_body e)) (bt_get (l_orders l) i))"
proof (cases "by_acts (et_body e) = []")
  case True
  with assms(1) show ?thesis by (auto simp: apply_order_path_def)
next
  case False
  with assms(1) obtain cs2 where "reference_others e refs (reference_records e refs (play_acts e refs l)) cs2 = Inr (l', cs')"
    by (auto simp: apply_order_path_def Let_def rbind_eq_Inr)
  then have "gist_at l' i = gist_at (play_acts e refs l) i" for i by (simp add: others_orders references_gist)
  with plays_after [OF assms(2) refl] show ?thesis unfolding play_acts_def by metis
qed

subsection \<open>An entry made\<close>

lemma numbered_ledger:
  assumes "apply_numbered kn e lenient previous refs first k b = Inr (b', cs')"
  shows "\<exists>cs. apply_order_path e refs (ab_ledger b) cs = Inr (ab_ledger b', cs')"
  using assms
proof (rule apply_numbered_stages)
  fix b1 b2 b3 b4 cs4 b5 cs5 l
  assume s: "rfold (apply_line kn (sales_of (et_body e) (em_effective_date (et_meta e)) (ab_account_id b) (ab_ledger b))
        refs (et_first_sequence e) lenient) (by_lines (et_body e)) b = Inr b1"
    "rfold (apply_adjustment (et_body e) refs lenient) (by_basis_adjustments (et_body e))
        (mark_awaited kn (et_body e) b1) = Inr b2"
    "rfold (apply_encumbrance refs) (by_encumbrances (et_body e)) b2 = Inr b3"
    "rfold (change_position e refs previous) (book_touched b (et_body e))
        (apply_sources (et_body e) b3, changes_of first k) = Inr (b4, cs4)"
    "set_records (et_body e) refs (b4, cs4) = (b5, cs5)"
    "apply_order_path e refs (ab_ledger b5) cs5 = Inr (l, cs')" "b' = close_entry e first (b5\<lparr>ab_ledger := l\<rparr>)"
  have "ab_ledger b1 = ab_ledger b" by (rule rfold_same [where g = ab_ledger, OF s(1)]) (use apply_line_chains in auto)
  moreover have "ab_ledger b2 = ab_ledger (mark_awaited kn (et_body e) b1)"
    by (rule rfold_same [where g = ab_ledger, OF s(2)]) (use apply_adjustment_chains in auto)
  moreover have "ab_ledger b3 = ab_ledger b2"
    by (rule rfold_same [where g = ab_ledger, OF s(3)]) (use apply_encumbrance_chains in auto)
  moreover have "(\<lambda>(b, cs). ab_ledger b) (b4, cs4) = (\<lambda>(b, cs). ab_ledger b) (apply_sources (et_body e) b3, changes_of first k)"
    by (rule rfold_same [where g = "\<lambda>(b, cs). ab_ledger b", OF s(4)]) (auto dest: change_position_chains)
  ultimately have "ab_ledger b5 = ab_ledger b"
    using set_records_chains [OF s(5)] mark_awaited_chains [of kn "et_body e" b1] by simp
  with s(6,7) show ?thesis by auto
qed

lemma made_after:
  assumes "made kn b head cx d = Inr m" "list_all (\<lambda>a. \<not> crosses a) (by_acts (dr_body d))"
  shows "\<exists>vs. \<forall>i. gist_at (ab_ledger (md_book m)) i =
    map_option gist_of (fold (act_after vs i) (by_acts (dr_body d)) (bt_get (l_orders (ab_ledger b)) i))"
proof -
  from made_stages(1) [OF assms(1)] obtain previous refs first k n where
    "apply_numbered kn (drafted b head cx d) False previous refs first k (b\<lparr>ab_chains := n\<rparr>) = Inr (md_book m, md_changes m)"
    by (rule apply_entry_stages) blast
  from numbered_ledger [OF this] obtain cs where
    "apply_order_path (drafted b head cx d) refs (ab_ledger b) cs = Inr (ab_ledger (md_book m), md_changes m)" by auto
  from order_path_after [OF this] assms(2) show ?thesis by simp
qed

subsection \<open>What settling adds\<close>

definition order_ended :: "ledger \<Rightarrow> string \<Rightarrow> bool" where
  "order_ended l i \<longleftrightarrow> (\<exists>h. bt_get (l_orders l) i = Some h \<and> h_ended h \<noteq> None)"

definition settling :: "ledger \<Rightarrow> act \<Rightarrow> bool" where
  "settling l a \<longleftrightarrow> (\<exists>c. a = ChangeOutcome c (change_outcome_no RApplied))
     \<or> (\<exists>i s. a = Ended i (order_state_no s) \<and> \<not> order_ended l i)"

lemma settles_settling: "settles l a \<Longrightarrow> maps_ok l \<Longrightarrow> settling l a"
  by (auto simp: settles_def settling_def order_ended_def maps_ok_def bt_get_mem [symmetric])

lemma settling_plain: "settling l a \<Longrightarrow> \<not> crosses a"
  by (auto simp: settling_def crosses_def)

lemma ended_stays_ended:
  "order_ended k i \<Longrightarrow> list_all (settling l) acts \<Longrightarrow> order_ended (apply_acts acts e vs k) i"
proof (induction acts arbitrary: k)
  case (Cons a acts)
  then have "order_ended (apply_act a e vs k) i"
    by (auto simp: settling_def order_ended_def apply_change_outcome_def apply_ended_def)
  with Cons show ?case by (simp add: apply_acts_def)
qed (simp add: apply_acts_def)

lemma acts_maps: "maps_ok l \<Longrightarrow> maps_ok (apply_acts acts e vs l)"
  unfolding apply_acts_def by (rule fold_keeps) (auto intro: act_maps)

lemma settle_loop_adds:
  assumes "settle_loop l out = Some r" "maps_ok l"
  shows "\<forall>all_acts. r = Inr all_acts \<longrightarrow> (\<exists>new. all_acts = out @ new \<and> list_all (settling l) new)"
  using assms
proof (induction l out r rule: settle_loop.raw_induct [rotated, consumes 1])
  case (1 settle_loop l out r)
  show ?case
  proof (cases "settle_pass l")
    case (Inr added)
    from settle_fold [OF Inr [unfolded settle_pass_def] subset_refl] 1(3)
    have adds: "list_all (settling l) added" by (auto simp: list_all_iff intro: settles_settling)
    show ?thesis
    proof (cases "added = []")
      case False
      with 1(2) Inr have "settle_loop (apply_acts added [] [] l) (out @ added) = Some r" by simp
      from 1(1) [OF this acts_maps [OF 1(3)]]
      have "\<exists>new. all_acts = out @ added @ new \<and> list_all (settling (apply_acts added [] [] l)) new"
        if "r = Inr all_acts" for all_acts using that by auto
      moreover have "settling (apply_acts added [] [] l) a \<Longrightarrow> settling l a" for a
        using ended_stays_ended [OF _ adds] by (auto simp: settling_def)
      ultimately show ?thesis using adds by (fastforce simp: list_all_iff)
    qed (use 1(2) Inr in auto)
  qed (use 1(2) in auto)
qed

lemma settle_adds:
  assumes "settle l acts = Some (Inr out)" "maps_ok l"
  obtains new where "out = acts @ new" "list_all (settling (apply_acts acts [] [] l)) new"
  using settle_loop_adds [OF assms(1) [unfolded settle_def] acts_maps [OF assms(2)]] by blast

text \<open>What a plan finished leaves of each order: its acts, and what settling them added.\<close>

lemma finish_after:
  assumes "finish kn mints b head cx p = Some (Inr m)" "maps_ok (ab_ledger b)" "list_all (\<lambda>a. \<not> crosses a) (pln_acts p)"
  obtains new vs where "list_all (settling (apply_acts (pln_acts p) [] [] (ab_ledger b))) new"
    "by_acts (et_body (md_entry m)) = pln_acts p @ new"
    "\<And>i. gist_at (ab_ledger (md_book m)) i =
       map_option gist_of (fold (act_after vs i) (pln_acts p @ new) (bt_get (l_orders (ab_ledger b)) i))"
proof -
  from assms(1) obtain acts where acts: "settle (ab_ledger b) (pln_acts p) = Some (Inr acts)"
    "made kn b head cx (finish_draft kn mints b cx p acts) = Inr m"
    by (auto simp: finish_def once_made_Inr)
  from settle_adds [OF acts(1) assms(2)] obtain new where new: "acts = pln_acts p @ new"
    "list_all (settling (apply_acts (pln_acts p) [] [] (ab_ledger b))) new" by blast
  have d: "by_acts (dr_body (finish_draft kn mints b cx p acts)) = acts"
    by (simp add: finish_draft_def Let_def entry_body_default_def)
  have "list_all (\<lambda>a. \<not> crosses a) acts"
    using assms(3) new by (auto simp: list_all_iff dest: settling_plain)
  with made_after [OF acts(2)] d obtain vs where "\<forall>i. gist_at (ab_ledger (md_book m)) i =
      map_option gist_of (fold (act_after vs i) acts (bt_get (l_orders (ab_ledger b)) i))" by auto
  moreover have "by_acts (et_body (md_entry m)) = acts" using made_stages(4) [OF acts(2)] d by simp
  ultimately show thesis using new by (intro that) auto
qed

end
