(* ===== verification/Order_Gate.thy ===== *)
theory Order_Gate
  imports Order_After
begin

section \<open>The gate, and what it keeps out\<close>

text \<open>
  What the order path's commands can do to an order, read from the acts they decide on and carried to
  the book the entry leaves. \<open>may_decide\<close> says which acts on an order a command may decide and what
  must hold of the order for it: how an order is released, and who lifts what holds it.
\<close>

declare order_condition_no.simps [simp del] order_state_no.simps [simp del]

subsection \<open>The acts of a cancel\<close>

definition cancelling :: "act \<Rightarrow> bool" where
  "cancelling a \<longleftrightarrow> (\<exists>r. a = ChangeOpened r) \<or> (\<exists>i s. a = Ending i s)"

lemma cancel_placement_adds:
  "cancel_placement mints l reason i p s = Inr t \<Longrightarrow> list_all cancelling (fst s) \<Longrightarrow> list_all cancelling (fst t)"
  by (cases s) (auto simp: cancel_placement_def cancelling_def split: option.splits if_splits)

lemma cancel_parts_in_adds:
  "cancel_parts_in n mints l ending reason i s = Inr t \<Longrightarrow> list_all cancelling (fst s) \<Longrightarrow> list_all cancelling (fst t)"
proof (induction n arbitrary: i s t)
  case (Suc n)
  from Suc.prems(1) obtain ps cs s1 where s: "live_parts l i = Inr (ps, cs)"
    "rfold (cancel_placement mints l reason i) ps s = Inr s1"
    "rfold (\<lambda>c s. rbind (cancel_parts_in n mints l ending reason c (cancel_child mints reason c s)) (\<lambda>(acts, drawn).
                Inr (acts @ [Ending c (order_state_no ending)], drawn))) cs s1 = Inr t"
    by (auto simp: rbind_eq_Inr)
  have "list_all cancelling (fst s1)"
    by (rule rfold_invariant [OF s(2), where P = "\<lambda>s. list_all cancelling (fst s)"])
      (use Suc.prems(2) cancel_placement_adds in auto)
  moreover have "list_all cancelling (fst (cancel_child mints reason c u))" if "list_all cancelling (fst u)" for c u
    using that by (cases u) (simp add: cancel_child_def cancelling_def)
  ultimately show ?case
    by (intro rfold_invariant [OF s(3), where P = "\<lambda>s. list_all cancelling (fst s)"])
      (auto simp: rbind_eq_Inr cancelling_def [of "Ending _ _"] dest!: Suc.IH)
qed simp

lemma cancel_parts_adds:
  "cancel_parts mints b ending reason i s = Inr (acts, n) \<Longrightarrow> list_all cancelling (fst s) \<Longrightarrow> list_all cancelling acts"
  unfolding cancel_parts_def by (drule cancel_parts_in_adds) auto

lemma cancelling_simps [simp]: "cancelling (ChangeOpened r)" "cancelling (Ending i s)"
    "cancelling (own_request mints q change outcome)"
  by (simp_all add: cancelling_def own_request_def)

lemma replace_requests_open: "\<forall>a \<in> set (replace_requests mints q change ps). cancelling a"
  by (auto simp: replace_requests_def cancelling_def)

subsection \<open>What a command may do\<close>

text \<open>Acts that leave an order's own standing as it is.\<close>

definition aside :: "act \<Rightarrow> bool" where
  "aside a \<longleftrightarrow> (case a of
      PlacementOpened p \<Rightarrow> True | PlacementQuoted i quote \<Rightarrow> True | QuotePicked i quote \<Rightarrow> True
    | PlacementRefused i \<Rightarrow> True | PlacementReported rp \<Rightarrow> True | Unplaced f sender \<Rightarrow> True
    | Instructed k t \<Rightarrow> True | LocateOpened k \<Rightarrow> True | LocateAnswered i answer \<Rightarrow> True
    | LocateUsed i used \<Rightarrow> True | _ \<Rightarrow> False)"

definition by_person :: "act_context \<Rightarrow> bool" where
  "by_person cx \<longleftrightarrow> cx_acting_for cx \<noteq> [] \<and> cx_acting_for_kind cx \<noteq> ServiceAccountSubject"

definition by_user :: "act_context \<Rightarrow> bool" where
  "by_user cx \<longleftrightarrow> cx_acting_for cx \<noteq> []"

text \<open>An order as a command finds it: held, in the caller's scope, in a state.\<close>

definition finds :: "account_book \<Rightarrow> string \<Rightarrow> order_held \<Rightarrow> order_state \<Rightarrow> bool" where
  "finds b i h s \<longleftrightarrow> bt_get (l_orders (ab_ledger b)) i = Some h \<and> order_state_at (ab_ledger b) i = Inr s"

text \<open>And as a user's command finds it: on an order of an account in the caller's scope.\<close>

definition user_finds :: "account_book \<Rightarrow> act_context \<Rightarrow> string \<Rightarrow> order_held \<Rightarrow> order_state \<Rightarrow> bool" where
  "user_finds b cx i h s \<longleftrightarrow> finds b i h s \<and> by_user cx \<and> in_scope cx (or_account_id (h_order h)) = Inr ()"

definition opens_order :: "act_context \<Rightarrow> order_command \<Rightarrow> bool" where
  "opens_order cx c \<longleftrightarrow> by_user cx \<and> ((\<exists>q. c = ProposeOrder q) \<or> (\<exists>q. c = RecordOrder q))"

text \<open>The policy of the order path: what each act an entry may carry of a command takes.\<close>

inductive may_decide :: "minting \<Rightarrow> account_book \<Rightarrow> act_context \<Rightarrow> order_command \<Rightarrow> act \<Rightarrow> bool"
  for mints b cx c where
  cancels: "cancelling a \<Longrightarrow> may_decide mints b cx c a"
| asides: "aside a \<Longrightarrow> may_decide mints b cx c a"
| opened: "opens_order cx c \<Longrightarrow> or_order_id t = mints MINT_ORDER 0 \<Longrightarrow> may_decide mints b cx c (Opened t r)"
| ended: "finds b i h s \<Longrightarrow> s \<in> {OProposed, OReleased, OWorking}
    \<Longrightarrow> may_decide mints b cx c (Ended i (order_state_no t))"
| released: "user_finds b cx i h OProposed \<Longrightarrow> (\<exists>q. c = ReleaseOrder q) \<or> (\<exists>q. c = RecordCheck q)
    \<Longrightarrow> may_decide mints b cx c (Released i)"
| asked: "user_finds b cx i h OProposed \<Longrightarrow> c = ReleaseOrder q \<Longrightarrow> may_decide mints b cx c (ReleaseRequested i)"
| recalled: "user_finds b cx i h OReleased \<Longrightarrow> claim_allows h cx \<Longrightarrow> c = RequestOrderChange q
    \<Longrightarrow> may_decide mints b cx c (Recalled i)"
| terms: "user_finds b cx i h s \<Longrightarrow> \<not> state_ended s
    \<Longrightarrow> claim_allows h cx \<or> och_kind change = order_change_kind_no OKQuantity \<and> h_opened_by h = cx_instance_id cx
    \<Longrightarrow> t = amended change (h_order h) \<or> t = resized change quantity (h_order h)
    \<Longrightarrow> c = RequestOrderChange q \<Longrightarrow> qoc_order_id q = i \<Longrightarrow> qoc_change q = Some change
    \<Longrightarrow> may_decide mints b cx c (Terms t)"
| condition: "cond \<noteq> CApprovalRequired
    \<Longrightarrow> may_decide mints b cx c (Condition i (order_condition_no cond) on standing)"
| required: "user_finds b cx i h OProposed \<Longrightarrow> c = DecideApproval q
    \<Longrightarrow> may_decide mints b cx c (Condition i (order_condition_no CApprovalRequired) True standing)"
| approved: "user_finds b cx i h OProposed \<Longrightarrow> c = DecideApproval q \<Longrightarrow> by_person cx
    \<Longrightarrow> may_decide mints b cx c (Condition i (order_condition_no CApprovalRequired) False standing)"
| overridden: "user_finds b cx i h OProposed \<Longrightarrow> c = DecideApproval q \<Longrightarrow> by_person cx \<Longrightarrow> trim (qap_reason q) \<noteq> []
    \<Longrightarrow> may_decide mints b cx c (Overridden i)"
| checked: "user_finds b cx i h s \<Longrightarrow> c = RecordCheck q \<Longrightarrow> may_decide mints b cx c (Checked i v)"
| linked: "may_decide mints b cx c (NetLinked i net account)"

inductive_cases may_decideE:
  "may_decide mints b cx c (Released i)" "may_decide mints b cx c (Recalled i)" "may_decide mints b cx c (Terms t)"
  "may_decide mints b cx c (Ended i n)" "may_decide mints b cx c (Overridden i)" "may_decide mints b cx c (Opened t r)"
  "may_decide mints b cx c (Condition i no False standing)" "may_decide mints b cx c (ReleaseRequested i)"
  "may_decide mints b cx c (Checked i v)"

lemma held_order_Inr: "held_order b i = Inr h \<longleftrightarrow> bt_get (l_orders (ab_ledger b)) i = Some h"
  by (simp add: held_order_def ok_or_eq_Inr)

lemma user_required_Inr: "user_required cx what = Inr u \<longleftrightarrow> by_user cx"
  by (simp add: user_required_def guard_r_eq_Inr by_user_def)

lemma person_required_Inr: "person_required cx what = Inr u \<longleftrightarrow> by_person cx"
  by (auto simp: person_required_def guard_r_eq_Inr by_person_def)

lemma row_refused_not: "row_refused i s what \<noteq> Inr x"
  by (auto simp: row_refused_def rbind_eq_Inr)

lemmas decide_simps = rbind_eq_Inr guard_r_eq_Inr ok_or_eq_Inr held_order_Inr user_required_Inr person_required_Inr
  row_refused_not command_from_rows state_of_def finds_def user_finds_def

lemma amend_decides:
  assumes "amend_acts mints b cx h state q change = Inr acts" "a \<in> set acts"
    "user_finds b cx (qoc_order_id q) h state" "qoc_change q = Some change"
  shows "may_decide mints b cx (RequestOrderChange q) a"
proof -
  from assms(1) have st: "\<not> state_ended state" and allowed: "claim_allows h cx"
    and acts: "\<exists>ps. acts = [own_request mints q change RApplied, Terms (amended change (h_order h))] @ replace_requests mints q change ps"
    by (auto simp: amend_acts_def decide_simps split: if_splits prod.splits)
  from acts assms(2) consider "cancelling a" | "a = Terms (amended change (h_order h))"
    using replace_requests_open by fastforce
  then show ?thesis
    by cases (auto intro: may_decide.cancels may_decide.terms [OF assms(3) st disjI1 [OF allowed] disjI1 [OF refl] refl refl assms(4)])
qed


lemma quantity_decides:
  assumes "quantity_acts mints b cx h state q change = Inr acts" "a \<in> set acts"
    "user_finds b cx (qoc_order_id q) h state" "qoc_change q = Some change"
    "och_kind change = order_change_kind_no OKQuantity"
  shows "may_decide mints b cx (RequestOrderChange q) a"
proof -
  from assms(1) have st: "\<not> state_ended state" by (auto simp: quantity_acts_def decide_simps split: if_splits)
  from assms(1) st have allowed: "claim_allows h cx \<or> och_kind change = order_change_kind_no OKQuantity \<and> h_opened_by h = cx_instance_id cx"
    by (clarsimp simp: quantity_acts_def decide_simps assms(5) Let_def)
  have conditions: "a \<in> set (quantity_conditions cx h i gated quantity alignment)
      \<Longrightarrow> \<exists>cond on standing. cond \<noteq> CApprovalRequired \<and> a = Condition i (order_condition_no cond) on standing"
    for i gated quantity alignment
    by (auto simp: quantity_conditions_def condition_act_def standing_of_def split: if_splits)
  from assms(1) st obtain quantity gated alignment where
    "acts = [own_request mints q change RApplied, Terms (resized change quantity (h_order h))]
       @ quantity_conditions cx h (qoc_order_id q) gated quantity alignment"
    by (auto simp: quantity_acts_def decide_simps Let_def)
  with assms(2) consider "cancelling a" | quantity where "a = Terms (resized change quantity (h_order h))"
    | cond on standing where "cond \<noteq> CApprovalRequired" "a = Condition (qoc_order_id q) (order_condition_no cond) on standing"
    by (auto dest!: conditions)
  then show ?thesis
    by cases (auto intro: may_decide.cancels may_decide.condition
        may_decide.terms [OF assms(3) st allowed disjI2 [OF refl] refl refl assms(4)])
qed

lemma change_decides:
  assumes "order_change_decided kn mints b cx q = Inr (state, r, kind, acts)" "a \<in> set acts"
  shows "may_decide mints b cx (RequestOrderChange q) a"
proof -
  from assms(1) obtain h change where f: "user_finds b cx (qoc_order_id q) h state" "qoc_change q = Some change"
    "order_change_acts mints b cx h state q change = Inr (r, kind, acts)"
    by (auto simp: order_change_decided_def decide_simps)
  from f(3) consider "amend_acts mints b cx h state q change = Inr acts"
    | "quantity_acts mints b cx h state q change = Inr acts" "order_change_kind_of (och_kind change) = Some OKQuantity"
    | "recall_acts mints b cx h state q change = Inr acts"
    | n cancels where "cancel_parts mints b OCancelled (qoc_reason q) (qoc_order_id q)
        ([own_request mints q change RPending], 1) = Inr (cancels, n)"
        "acts = cancels @ [Ending (qoc_order_id q) (order_state_no OCancelled)]"
    | "state = OProposed" "acts = [own_request mints q change RApplied, Ended (qoc_order_id q) (order_state_no OCancelled)]"
    by (auto simp: order_change_acts_def Let_def decide_simps split: option.splits order_change_kind.splits if_splits)
  then show ?thesis
  proof cases
    case 1
    then show ?thesis by (rule amend_decides [OF _ assms(2) f(1,2)])
  next
    case 2
    then have "och_kind change = order_change_kind_no OKQuantity"
      by (auto simp: order_change_kind_of_def enum_of_def split: if_splits)
    with 2(1) show ?thesis by (rule quantity_decides [OF _ assms(2) f(1,2)])
  next
    case 3
    then have "claim_allows h cx" "state = OReleased" "acts = [own_request mints q change RApplied, Recalled (qoc_order_id q)]"
      by (auto simp: recall_acts_def decide_simps split: if_splits)
    with assms(2) f(1) show ?thesis by (auto intro: may_decide.cancels may_decide.recalled)
  next
    case 4
    from cancel_parts_adds [OF 4(1)] 4(2) assms(2) have "cancelling a" by (auto simp: list_all_iff)
    then show ?thesis by (rule may_decide.cancels)
  next
    case 5
    with assms(2) f(1) show ?thesis by (auto simp: user_finds_def intro: may_decide.cancels may_decide.ended)
  qed
qed


lemma check_decides:
  assumes "check_decided b cx q = Inr (i, state, r, acts)" "a \<in> set acts"
  shows "may_decide mints b cx (RecordCheck q) a"
proof -
  from assms(1) obtain h where f: "user_finds b cx i h state" "acts = snd (check_acts cx i h state (check_of cx h q))"
    by (auto simp: check_decided_def decide_simps)
  from f(2) assms(2) consider v where "a = Checked i v"
    | t where "a = Ended i (order_state_no t)" "state = OProposed"
    | standing where "a = Condition i (order_condition_no CAwaitingCheck) False standing"
    | "a = Released i" "state = OProposed"
    by (auto simp: check_acts_def Let_def condition_act_def standing_of_def
        split: if_splits)
  then show ?thesis
    using f(1) by cases (auto simp: user_finds_def
        intro: may_decide.checked may_decide.ended may_decide.condition may_decide.released)
qed

lemma approval_decides:
  assumes "approval_decided b cx q = Inr (state, r, acts)" "a \<in> set acts"
  shows "may_decide mints b cx (DecideApproval q) a"
proof -
  from assms(1) obtain h where f: "finds b (qap_order_id q) h state" "in_scope cx (or_account_id (h_order h)) = Inr ()"
    "approval_acts cx state q = Inr (r, acts)"
    by (auto simp: approval_decided_def decide_simps)
  have person: "by_person cx \<Longrightarrow> by_user cx" by (simp add: by_person_def by_user_def)
  from f(3) assms(2) have "state = OProposed" and "by_user cx"
    and "(\<exists>standing. a = Condition (qap_order_id q) (order_condition_no CApprovalRequired) True standing)
    \<or> by_person cx \<and> (\<exists>standing. a = Condition (qap_order_id q) (order_condition_no CApprovalRequired) False standing)
    \<or> by_person cx \<and> trim (qap_reason q) \<noteq> [] \<and> a = Overridden (qap_order_id q)
    \<or> a = Ended (qap_order_id q) (order_state_no ORefused)"
    by (auto simp: approval_acts_def Let_def decide_simps condition_act_def standing_of_def person
        split: option.splits approval.splits if_splits)
  moreover from this f have "user_finds b cx (qap_order_id q) h OProposed" by (simp add: user_finds_def)
  ultimately show ?thesis using f(1)
    by (auto intro: may_decide.required may_decide.approved may_decide.overridden may_decide.ended)
qed

lemma release_decides:
  assumes "release_decided b cx q = Inr (state, acts)" "a \<in> set acts"
  shows "may_decide mints b cx (ReleaseOrder q) a"
proof -
  from assms(1) obtain h where f: "user_finds b cx (qre_order_id q) h OProposed"
    "acts = release_acts b cx (qre_order_id q) h"
    by (auto simp: release_decided_def decide_simps split: if_splits)
  from f(2) assms(2) consider "a = ReleaseRequested (qre_order_id q)" | "a = Released (qre_order_id q)"
    | standing where "a = Condition (qre_order_id q) (order_condition_no CAwaitingCheck) True standing"
    by (auto simp: release_acts_def condition_act_def standing_of_def split: if_splits)
  then show ?thesis
    using f(1) by cases (auto intro: may_decide.asked may_decide.condition may_decide.released)
qed

lemma working_decides:
  assumes "working_decided b cx q = Inr acts" "a \<in> set acts"
  shows "may_decide mints b cx (SetWorkingCondition q) a"
proof -
  let ?kind = "condition_kind (qwc_condition q)"
  have kept: "with_cause kind q st = Inr st' \<Longrightarrow> oc_condition st' = oc_condition st" for kind st st'
    by (auto simp: with_cause_def decide_simps split: if_splits)
  from assms obtain standing where "?kind \<in> {CClaimed, CHeld, CPaused}"
    "a = Condition (qwc_order_id q) (order_condition_no ?kind) (qwc_set q) standing"
    by (auto simp: working_decided_def decide_simps Let_def condition_act_def standing_of_def
        split: if_splits dest!: kept)
  then show ?thesis by (auto intro!: may_decide.condition)
qed

lemma aside_simps [simp]:
  "aside (PlacementOpened p)" "aside (PlacementQuoted i quote)" "aside (QuotePicked i qi)" "aside (PlacementRefused i)"
  "aside (PlacementReported rp)" "aside (Unplaced f sender)" "aside (Instructed k t)" "aside (LocateOpened kk)"
  "aside (LocateAnswered i answer)" "aside (LocateUsed i used)"
  by (simp_all add: aside_def)

lemma order_ids [simp]:
  "or_order_id (proposed_order mints b cx q) = mints MINT_ORDER 0" "or_order_id (joined_order mints b cx q) = mints MINT_ORDER 0"
  "or_order_id (recorded_order mints b cx rq) = mints MINT_ORDER 0"
  by (simp_all add: proposed_order_def joined_order_def recorded_order_def)

lemma proposed_plan_acts [simp]: "pln_acts (proposed_plan kind cx t r key) = [Opened t r]"
  by (simp add: proposed_plan_def)

lemma joined_opens:
  assumes "net_plan kn mints b cx q = Inr p \<or> block_plan kn mints b cx q = Inr p"
  shows "\<exists>t. pln_acts p = [Opened t True] \<and> or_order_id t = mints MINT_ORDER 0"
  using assms
proof
  assume "net_plan kn mints b cx q = Inr p"
  then show ?thesis by (clarsimp simp: net_plan_def Let_def rbind_eq_Inr)
next
  assume "block_plan kn mints b cx q = Inr p"
  then show ?thesis by (clarsimp simp: block_plan_def rbind_eq_Inr)
qed

lemma single_opens:
  assumes "single_plan kn mints b cx q = Inr p"
  shows "\<exists>t r. pln_acts p = [Opened t r] \<and> or_order_id t = mints MINT_ORDER 0 \<and> (r \<longrightarrow> (\<exists>link parent.
      qpo_link q = Some link \<and> child_held kn b cx q (ol_parent_order_id link) = Inr parent))"
  using assms by (auto simp: single_plan_def rbind_eq_Inr split: option.splits)

lemma proposal_opens:
  assumes "proposal_plan kn mints b cx q = Inr p"
  shows "by_user cx \<and> (\<exists>t r. pln_acts p = [Opened t r] \<and> or_order_id t = mints MINT_ORDER 0)"
proof -
  from assms have "by_user cx" and
    "net_plan kn mints b cx q = Inr p \<or> block_plan kn mints b cx q = Inr p \<or> single_plan kn mints b cx q = Inr p"
    by (auto simp: proposal_plan_def rbind_eq_Inr user_required_Inr split: if_splits)
  with joined_opens [of kn mints b cx q p] single_opens [of kn mints b cx q p] show ?thesis by blast
qed

lemma recording_opens:
  assumes "record_plan mints b cx q = Inr p"
  shows "by_user cx \<and> pln_acts p = [Opened (recorded_order mints b cx q) True]"
  using assms by (auto simp: record_plan_def decide_simps)

lemma refused_plan_acts [simp]: "pln_acts (refused_plan cx kind i reason key) = [PlacementRefused i]"
  by (simp add: refused_plan_def)

lemma placement_asides:
  assumes "placement_decided mints b cx q = Inr d"
  shows "list_all aside (case d of PlacementRecordedRefused _ p \<Rightarrow> pln_acts p | PlacementPlanned _ p \<Rightarrow> pln_acts p)"
  using assms by (auto simp: placement_decided_def placement_opening_def decide_simps split: if_splits)

lemma pick_asides: "pick_decided b cx q = Inr (refusal, p) \<Longrightarrow> list_all aside (pln_acts p)"
  by (auto simp: pick_decided_def pick_acts_def decide_simps split: if_splits)

lemma report_decides:
  assumes "report_plan mints b cx rp = Inr p" "a \<in> set (pln_acts p)"
  shows "may_decide mints b cx (ReportPlacement rp) a"
proof -
  have kept: "list_all aside (pln_acts p)" if "kept_unplaced mints b cx told reason code raw key = Inr p" for told reason code raw key
    using that by (auto simp: kept_unplaced_def decide_simps)
  have restated: "x \<in> set (restated_acts cx i h event rp)
      \<Longrightarrow> \<exists>cond on standing. cond \<noteq> CApprovalRequired \<and> x = Condition i (order_condition_no cond) on standing"
    for x i h event
    by (auto simp: restated_acts_def condition_act_def split: if_splits)
  have killed: "\<exists>t. x = Ended i (order_state_no t) \<and> finds b i h s \<and> (s = OReleased \<or> s = OWorking)"
    if "killed_acts (ab_ledger b) i h pl s event rp = Inr ks" "x \<in> set ks" "finds b i h s" for x i h pl s event ks
    using that by (auto simp: killed_acts_def rbind_eq_Inr split: if_splits prod.splits)
  from assms(1) consider told reason code raw key where "kept_unplaced mints b cx told reason code raw key = Inr p"
    | i h s event pl ks where "finds b i h s" "killed_acts (ab_ledger b) i h pl s event rp = Inr ks"
        "pln_acts p = PlacementReported rp # restated_acts cx i h event rp @ ks"
    by (auto simp: report_plan_def Let_def decide_simps split: if_splits option.splits)
  then show ?thesis
  proof cases
    case 1
    with kept assms(2) show ?thesis by (auto simp: list_all_iff intro: may_decide.asides)
  next
    case 2
    from 2(3) assms(2) consider "aside a" | "a \<in> set (restated_acts cx i h event rp)" | "a \<in> set ks" by auto
    then show ?thesis
    proof cases
      case 3
      from killed [OF 2(2) this 2(1)] 2(1) show ?thesis by (auto intro: may_decide.ended)
    qed (auto dest!: restated intro: may_decide.asides may_decide.condition)
  qed
qed

lemma expire_decides:
  assumes "expire_plan mints b cx i = Inr (Some p)" "a \<in> set (pln_acts p)"
  shows "may_decide mints b cx (ExpireOrder i) a"
proof -
  from assms(1) obtain h s where "finds b i h s"
    "s = OProposed \<and> pln_acts p = [Ended i (order_state_no OExpired)]
      \<or> (\<exists>acts n. cancel_parts mints b OExpired ''its time in force ended'' i ([], 0) = Inr (acts, n)
           \<and> pln_acts p = acts @ [Ending i (order_state_no OExpired)])"
    by (auto simp: expire_plan_def decide_simps split: option.splits if_splits prod.splits)
  with assms(2) consider t where "a = Ended i (order_state_no t)" "finds b i h s" "s = OProposed" | "cancelling a"
    by (auto simp: list_all_iff dest!: cancel_parts_adds)
  then show ?thesis by cases (auto intro: may_decide.ended may_decide.cancels)
qed

lemma acknowledge_acts:
  assumes "acknowledge_decided b cx q = Inr acts"
  shows "acts = [condition_act (qaf_order_id q) False (standing_of cx CLateFact (qaf_reason q))]"
proof (cases "order_condition_of (qaf_condition q)")
  case None
  with assms show ?thesis by (simp add: acknowledge_decided_def rbind_eq_Inr)
next
  case (Some cond)
  with assms show ?thesis by (cases cond) (auto simp: acknowledge_decided_def rbind_eq_Inr)
qed

lemma net_link_acts: "net_link_plan b cx x y z = Inr (Some p) \<Longrightarrow> pln_acts p = [NetLinked x y z]"
  by (auto simp: net_link_plan_def rbind_eq_Inr split: if_split_asm)

text \<open>Every command keeps to the policy.\<close>

lemma commands_decide:
  assumes "acts_decided kn mints b cx c = Inr acts" "a \<in> set acts"
  shows "may_decide mints b cx c a"
proof (cases c)
  case (ProposeOrder q)
  with assms show ?thesis by (auto simp: rbind_eq_Inr opens_order_def dest!: proposal_opens intro!: may_decide.opened)
next
  case (RecordOrder q)
  with assms show ?thesis by (auto simp: rbind_eq_Inr opens_order_def dest!: recording_opens intro!: may_decide.opened)
next
  case (RequestOrderChange q)
  with assms show ?thesis by (auto simp: rbind_eq_Inr intro: change_decides)
next
  case (RecordCheck q)
  with assms show ?thesis by (auto simp: rbind_eq_Inr intro: check_decides)
next
  case (DecideApproval q)
  with assms show ?thesis by (auto simp: rbind_eq_Inr intro: approval_decides)
next
  case (ReleaseOrder q)
  with assms show ?thesis by (auto simp: rbind_eq_Inr intro: release_decides)
next
  case (SetWorkingCondition q)
  with assms show ?thesis by (auto intro: working_decides)
next
  case (CreatePlacement q)
  with assms show ?thesis by (auto simp: rbind_eq_Inr list_all_iff dest!: placement_asides intro: may_decide.asides)
next
  case (RequestPlacementChange q)
  with assms show ?thesis
    by (auto simp: placement_change_plan_def Let_def decide_simps split: prod.splits intro: may_decide.cancels)
next
  case (ReportPlacement rp)
  with assms show ?thesis by (auto simp: rbind_eq_Inr intro: report_decides)
next
  case (PickPlacementQuote q)
  with assms show ?thesis by (auto simp: rbind_eq_Inr list_all_iff dest!: pick_asides intro: may_decide.asides)
next
  case (AcknowledgeFlag q)
  with assms(1) have "acknowledge_decided b cx q = Inr acts" by simp
  then have "acts = [condition_act (qaf_order_id q) False (standing_of cx CLateFact (qaf_reason q))]"
    by (rule acknowledge_acts)
  with assms(2) have "\<exists>standing. a = Condition (qaf_order_id q) (order_condition_no CLateFact) False standing"
    by (simp add: condition_act_def standing_of_def)
  moreover have "CLateFact \<noteq> CApprovalRequired" by simp
  ultimately show ?thesis by (blast intro: may_decide.condition)
next
  case (SetTradingInstruction q)
  with assms show ?thesis by (auto simp: instruction_plan_def decide_simps intro: may_decide.asides)
next
  case (RecordLocate q)
  with assms show ?thesis by (auto simp: locate_plan_def decide_simps split: if_splits intro: may_decide.asides)
next
  case (RecordLocateUse q)
  with assms show ?thesis by (auto simp: locate_use_plan_def decide_simps intro: may_decide.asides)
next
  case (ExpireOrder i)
  with assms show ?thesis by (auto simp: rbind_eq_Inr split: option.splits intro: expire_decides)
next
  case (LinkNetMember x y z)
  with assms show ?thesis by (auto simp: rbind_eq_Inr split: option.splits dest!: net_link_acts intro!: may_decide.linked)
qed (use assms in \<open>auto simp: rbind_eq_Inr intro: may_decide.asides\<close>)

subsection \<open>Carried to the book\<close>

lemma may_decide_plain: "may_decide mints b cx c a \<Longrightarrow> \<not> crosses a"
  by (induction rule: may_decide.induct) (auto simp: crosses_def cancelling_def aside_def)

lemma may_decide_opens:
  assumes "may_decide mints b cx c (Opened t r)" shows "or_order_id t = mints MINT_ORDER 0"
  using assms by cases (auto simp: cancelling_def aside_def)

lemma order_act_after:
  assumes "order_act kn mints b head cx c = Some (Inr (Some m))" "maps_ok (ab_ledger b)"
  obtains acts new vs where "acts_decided kn mints b cx c = Inr acts"
    "list_all (settling (apply_acts acts [] [] (ab_ledger b))) new"
    "by_acts (et_body (md_entry m)) = acts @ new"
    "\<forall>i. gist_at (ab_ledger (md_book m)) i =
       map_option gist_of (fold (act_after vs i) (acts @ new) (bt_get (l_orders (ab_ledger b)) i))"
proof -
  from order_act_finished [OF assms(1)] obtain p m0 where p: "acts_decided kn mints b cx c = Inr (pln_acts p)"
    "finish kn mints b head cx p = Some (Inr m0)" "md_book m = md_book m0" "md_entry m = md_entry m0" .
  have "list_all (\<lambda>a. \<not> crosses a) (pln_acts p)"
    using commands_decide [OF p(1)] by (auto simp: list_all_iff dest: may_decide_plain)
  from finish_after [OF p(2) assms(2) this] p show thesis by (metis that)
qed

text \<open>One order followed through acts that do not open it.\<close>

lemma fold_after:
  assumes "\<And>t r. Opened t r \<in> set acts \<Longrightarrow> or_order_id t \<noteq> i" "P h"
    "\<And>a k. a \<in> set acts \<Longrightarrow> P k \<Longrightarrow> P (order_after vs i a k)"
  shows "\<exists>k. fold (act_after vs i) acts (Some h) = Some k \<and> P k"
  using assms
proof (induction acts arbitrary: h)
  case (Cons a acts)
  show ?case
  proof (cases "\<exists>t r. a = Opened t r")
    case True
    then obtain t r where a: "a = Opened t r" by blast
    with Cons.prems(1) [of t r] have "act_after vs i a (Some h) = Some h" by simp
    then show ?thesis using Cons.prems by simp (rule Cons.IH, blast+)
  next
    case False
    then have "act_after vs i a (Some h) = Some (order_after vs i a h)" by simp
    then show ?thesis using Cons.prems by simp (rule Cons.IH, blast+)
  qed
qed auto

lemma order_after_released:
  "h_released (order_after vs i a k) \<Longrightarrow> h_released k \<or> a = Released i"
  by (cases a) (auto simp: order_after_def on_it_def split: if_splits)

lemma settling_cases:
  assumes "settling l a"
  obtains "order_after vs i a = (\<lambda>h. h)" | s where "a = Ended i (order_state_no s)" "\<not> order_ended l i"
proof -
  from assms consider x where "a = ChangeOutcome x (change_outcome_no RApplied)"
    | j s where "a = Ended j (order_state_no s)" "\<not> order_ended l j" by (auto simp: settling_def)
  then show thesis
  proof cases
    case 1
    then have "order_after vs i a = (\<lambda>h. h)" by (simp add: order_after_def fun_eq_iff)
    then show thesis by (rule that(1))
  next
    case (2 j s)
    show thesis
    proof (cases "j = i")
      case False
      with 2 have "order_after vs i a = (\<lambda>h. h)" by (simp add: order_after_def on_it_def fun_eq_iff)
      then show thesis by (rule that(1))
    qed (use 2 that(2) in blast)
  qed
qed

lemma settling_opens: "settling l a \<Longrightarrow> a \<noteq> Opened t r" by (auto simp: settling_def)

lemma decided_not_opened:
  assumes "acts_decided kn mints b cx c = Inr acts" "\<not> bt_has (l_orders (ab_ledger b)) (mints MINT_ORDER 0)"
    "bt_get (l_orders (ab_ledger b)) i = Some h" "list_all (settling l) new" "Opened t r \<in> set (acts @ new)"
  shows "or_order_id t \<noteq> i"
proof -
  from assms(4,5) have "Opened t r \<in> set acts" by (auto simp: list_all_iff dest: settling_opens)
  with commands_decide [OF assms(1)] have "or_order_id t = mints MINT_ORDER 0"
    by (auto dest: may_decide_opens)
  with assms(2,3) show ?thesis by (auto simp: bt_has_def)
qed

text \<open>What the gate reads of an order, kept.\<close>

definition gated_as :: "order_held \<Rightarrow> order_held \<Rightarrow> bool" where
  "gated_as h k \<longleftrightarrow> h_order k = h_order h \<and> h_checks k = h_checks h \<and> h_version k = h_version h
     \<and> h_overridden_version k = h_overridden_version h \<and> bt_wf (h_conditions k)
     \<and> (has_condition k CApprovalRequired \<longrightarrow> has_condition h CApprovalRequired)"

lemma ordered_cong: "h_order k = h_order h \<Longrightarrow> ordered k = ordered h"
  by (simp add: ordered_def cong: option.case_cong)

lemma gate_kept:
  assumes "gated_as h k" "gate h = Inr ()"
  shows "gate k = Inr ()"
proof -
  from assms(1) have t: "h_order k = h_order h" by (simp add: gated_as_def)
  have "allocation_balanced k = allocation_balanced h" unfolding allocation_balanced_def t ordered_cong [OF t] ..
  moreover have "block_stands k = block_stands h" using assms(1) by (simp add: gated_as_def block_stands_def)
  ultimately show ?thesis using assms by (auto simp: gate_def gated_as_def rbind_eq_Inr guard_r_eq_Inr)
qed

lemma verdict_kept: "gated_as h k \<Longrightarrow> verdict_on_version h \<Longrightarrow> verdict_on_version k"
  by (simp add: gated_as_def verdict_on_version_def)


lemma has_condition_removed:
  "bt_wf (h_conditions h) \<Longrightarrow> has_condition (h\<lparr>h_conditions := bt_remove n (h_conditions h)\<rparr>) c
     \<longleftrightarrow> n \<noteq> order_condition_no c \<and> has_condition h c"
  by (auto simp: has_condition_def bt_has_def bt_get_remove)

lemma settling_gated:
  assumes "settling l a" "gated_as h k"
  shows "gated_as h (order_after vs i a k)"
  using assms(1)
proof (cases rule: settling_cases [of l a vs i])
  case (2 s)
  with assms(2) show ?thesis
    by (auto simp: gated_as_def order_after_def on_it_def has_condition_def bt_has_def bt_get_remove)
qed (use assms(2) in simp)

end
