(* ===== verification/Order_Samples.thy ===== *)
theory Order_Samples
  imports Order_Gate
begin

section \<open>A book of one order\<close>

text \<open>
  What evaluating a command of the order path on a concrete book unfolds, and three such books and
  commands: an order proposed and released, the same order's block overridden, and an order refused
  whose late fact is acknowledged.
\<close>

definition lone_held :: order_held where
  "lone_held = order_held_default\<lparr>h_order := order_terms_default\<lparr>or_order_id := ''O''\<rparr>\<rparr>"

definition late_standing :: order_standing where
  "late_standing = order_standing_default\<lparr>oc_condition := order_condition_no CLateFact\<rparr>"

definition refused_held :: order_held where
  "refused_held = lone_held\<lparr>h_ended := Some ORefused, h_conditions := [(order_condition_no CLateFact, late_standing)]\<rparr>"

definition lone_ledger :: "order_held \<Rightarrow> ledger" where
  "lone_ledger h = ledger_new\<lparr>l_orders := [(''O'', h)]\<rparr>"

definition lone_book :: "order_held \<Rightarrow> account_book" where
  "lone_book h = (book_new ''a'' ''P'')\<lparr>ab_ledger := lone_ledger h, ab_attributes := Some account_attributes_default\<rparr>"

definition person_context :: act_context where
  "person_context = plain_context\<lparr>cx_acting_for := ''u''\<rparr>"

lemmas lone_evals = lone_held_def lone_ledger_def lone_book_def order_held_default_def order_terms_default_def
  account_attributes_default_def order_state_at_def committed_def committed_in.simps state_with_def filled_def filled_in.simps depth_def also_filled_def
  ordered_def wire_or_zero_def opening_evals entry_evals orders_before_def placements_before_def order_record_def
  order_conditions_def pending_changes_def quantities_def error_booked_def num_sub_def zero_floor_def ex_ge_def
  tell_order_def tell_placement_def reference_others_def reference_records_def play_acts_def play_act_def stamp_act_def note_act_def
  requests_opened_def apply_acts_def apply_released_def apply_overridden_def apply_condition_def refused_held_def late_standing_def on_order_def num_wire_def
  add_order_def push_once_def due_at_def

lemmas lone_entry = finish_draft_def
     plan_new_def landed_def first_attributes_def made_def drafted_def person_context_def plain_context_def instruments_in_def 
      cx_cause_def wire_is_zero_def check_book_def touched_parent_def climb.simps [of _ _ 0] climb.simps [of _ _ "Suc 0"] opened_parents_def note_parent_def opened_terms_def opened_instrument_def MINT_ENTRY_def

lemma z: "num_sub f (mk 0 0) (mk 0 0) = Inr (mk 0 0)" by code_simp





lemmas lone_finish = lone_evals lone_entry finish_def once_made_def settle_def settle_loop.simps settle_pass_def settle_one_def z
  marks_in_def clear_awaited_def state_of_def attributes_of_def

lemmas lone_decide = held_order_def in_scope_def user_required_def person_required_def gate_def has_condition_def
    allocation_balanced_def block_stands_def command_from_rows


lemma reached_row:
  assumes "state_of (md_book m) i = Inr t" "t \<in> {OProposed, OReleased}"
  shows "check_reached i ''1'' OProposed m = Inr m" "check_reached i ''3'' OProposed m = Inr m"
proof -
  obtain r where r: "order_row ''1'' = Inr r" by (rule row_found [OF row_ends_rows(1)])
  obtain r' where r': "order_row ''3'' = Inr r'" by (rule row_found [OF row_ends_rows(3)])
  from assms r r' row_admits(1) [OF r] row_admits(3) [OF r']
  show "check_reached i ''1'' OProposed m = Inr m" "check_reached i ''3'' OProposed m = Inr m"
    by (auto simp: check_reached_def)
qed

lemma lone_ledgers_ok: "ledger_ok (lone_ledger lone_held)" "ledger_ok (lone_ledger refused_held)"
proof -
  have "lone_ledger lone_held = apply_acts [Opened (h_order lone_held) False] [] [] ledger_new"
    by (simp add: lone_evals apply_opened_def version_of_def bt_entry_def)
  moreover have "ledger_ok \<dots>"
    by (rule acts_ledger_ok [of _ "[]"]) (simp, code_simp, simp add: ledger_new_def bt_has_def)
  ultimately show ok: "ledger_ok (lone_ledger lone_held)" by simp
  have "lone_ledger refused_held = apply_acts [Condition ''O'' (order_condition_no CLateFact) True late_standing,
      Ended ''O'' (order_state_no ORefused)] [] [] (lone_ledger lone_held)"
    by (simp add: lone_evals apply_ended_def order_condition_no.simps)
  moreover have "ledger_ok \<dots>"
    by (rule acts_ledger_ok [OF ok, of "[''O'']"]) (simp add: opens_def, auto simp: lone_ledger_def bt_has_def split: if_splits)
  ultimately show "ledger_ok (lone_ledger refused_held)" by simp
qed

lemma lone_found: "bt_get (l_orders (ab_ledger (lone_book h))) ''O'' = Some h"
  by (simp add: lone_book_def lone_ledger_def)

lemma lone_fresh: "\<not> bt_has (l_orders (ab_ledger (lone_book h))) (plain_mints MINT_ORDER 0)"
  by (simp add: lone_book_def lone_ledger_def bt_has_def plain_mints_def MINT_ORDER_def)

subsection \<open>The order released\<close>

definition release_asked :: release_request where
  "release_asked = \<lparr>qre_order_id = ''O'', qre_idempotency_key = []\<rparr>"

lemma release_made:
  "\<exists>m h'. finish knows_nothing plain_mints (lone_book lone_held) 1 person_context (plan_new ''order-released'' (cx_actor person_context) [Released ''O'']) = Some (Inr m)
    \<and> state_of (md_book m) ''O'' = Inr OReleased
    \<and> bt_get (l_orders (ab_ledger (md_book m))) ''O'' = Some h' \<and> h_released h'"
  by (simp add: lone_finish)

lemma sample_release_decides: "release_decided (lone_book lone_held) person_context release_asked = Inr (OProposed, [Released ''O''])"
  by (simp add: lone_finish lone_decide release_asked_def release_decided_def release_acts_def)


lemma sample_release:
  "\<exists>m h'. order_act knows_nothing plain_mints (lone_book lone_held) 1 person_context (ReleaseOrder release_asked) = Some (Inr (Some m))
    \<and> bt_get (l_orders (ab_ledger (md_book m))) ''O'' = Some h' \<and> h_released h'"
proof -
  from release_made obtain m h' where m: "finish knows_nothing plain_mints (lone_book lone_held) 1 person_context
      (plan_new ''order-released'' (cx_actor person_context) [Released ''O'']) = Some (Inr m)"
    "state_of (md_book m) ''O'' = Inr OReleased"
    "bt_get (l_orders (ab_ledger (md_book m))) ''O'' = Some h'" "h_released h'" by blast
  have "(plan_new k a acts)\<lparr>pln_idempotency_key := []\<rparr> = plan_new k a acts" for k a acts by (simp add: plan_new_def)
  with m reached_row(1) [OF m(2)] have "release_order knows_nothing plain_mints (lone_book lone_held) 1 person_context release_asked = Some (Inr m)"
    by (simp add: release_order_def sample_release_decides once_made_def) (simp add: release_asked_def)
  with m(3,4) show ?thesis by (auto simp: one_made_def once_made_def)
qed

subsection \<open>Its block overridden\<close>

definition override_asked :: approval_request where
  "override_asked = \<lparr>qap_order_id = ''O'', qap_decision = approval_no APOverride, qap_reason = ''r'', qap_idempotency_key = []\<rparr>"

definition override_plan :: plan where
  "override_plan = (plan_new ''approval-decided'' (cx_actor person_context) [Overridden ''O''])\<lparr>pln_reason := ''r''\<rparr>"

lemma override_made:
  "\<exists>m h'. finish knows_nothing plain_mints (lone_book lone_held) 1 person_context override_plan = Some (Inr m)
    \<and> state_of (md_book m) ''O'' = Inr OProposed
    \<and> bt_get (l_orders (ab_ledger (md_book m))) ''O'' = Some h' \<and> h_overridden_version h' \<noteq> h_overridden_version lone_held"
  by (simp add: lone_finish override_plan_def)

lemma sample_override_decides: "approval_decided (lone_book lone_held) person_context override_asked = Inr (OProposed, ''3'', [Overridden ''O''])"
  by (simp add: lone_finish lone_decide override_asked_def approval_decided_def approval_acts_def approval_of_def enum_of_def
      trim_def is_space_def)

lemma sample_override:
  "\<exists>m h'. order_act knows_nothing plain_mints (lone_book lone_held) 1 person_context (DecideApproval override_asked) = Some (Inr (Some m))
    \<and> bt_get (l_orders (ab_ledger (md_book m))) ''O'' = Some h' \<and> h_overridden_version h' \<noteq> h_overridden_version lone_held"
proof -
  from override_made obtain m h' where m: "finish knows_nothing plain_mints (lone_book lone_held) 1 person_context override_plan = Some (Inr m)"
    "state_of (md_book m) ''O'' = Inr OProposed"
    "bt_get (l_orders (ab_ledger (md_book m))) ''O'' = Some h'" "h_overridden_version h' \<noteq> h_overridden_version lone_held" by blast
  have "(plan_new ''approval-decided'' (cx_actor person_context) [Overridden ''O''])
      \<lparr>pln_reason := ''r'', pln_idempotency_key := []\<rparr> = override_plan" by (simp add: plan_new_def override_plan_def)
  with m(1) reached_row(2) [OF m(2)]
  have "decide_approval knows_nothing plain_mints (lone_book lone_held) 1 person_context override_asked = Some (Inr m)"
    by (simp add: decide_approval_def sample_override_decides once_made_def) (simp add: override_asked_def)
  with m(3,4) show ?thesis by (auto simp: one_made_def once_made_def)
qed

subsection \<open>A refused order's flag\<close>

definition flag_named :: acknowledge_request where
  "flag_named = \<lparr>qaf_order_id = ''O'', qaf_condition = order_condition_no CLateFact, qaf_reason = ''r'', qaf_idempotency_key = []\<rparr>"

lemma late_fact_no [simp]: "order_condition_of (order_condition_no CLateFact) = Some CLateFact"
  by code_simp

lemma sample_acknowledge_decides:
  "\<exists>standing. acknowledge_decided (lone_book refused_held) person_context flag_named =
     Inr [Condition ''O'' (order_condition_no CLateFact) False standing]"
  by (simp add: lone_finish lone_decide flag_named_def acknowledge_decided_def condition_act_def standing_of_def bt_has_def)

lemma sample_acknowledgement:
  "\<exists>m. order_act knows_nothing plain_mints (lone_book refused_held) 1 person_context (AcknowledgeFlag flag_named) = Some (Inr (Some m))"
proof -
  from sample_acknowledge_decides obtain standing where d: "acknowledge_decided (lone_book refused_held) person_context flag_named =
     Inr [Condition ''O'' (order_condition_no CLateFact) False standing]" by blast
  have "\<exists>m. finish knows_nothing plain_mints (lone_book refused_held) 1 person_context
      ((plan_new ''flag-acknowledged'' (cx_actor person_context) [Condition ''O'' (order_condition_no CLateFact) False standing])
         \<lparr>pln_reason := ''r'', pln_idempotency_key := []\<rparr>) = Some (Inr m)"
    by (simp add: lone_finish)
  then show ?thesis by (auto simp: acknowledge_flag_def d one_made_def once_made_def) (simp add: flag_named_def)
qed

end
