(* ===== verification/Order_Policy.thy ===== *)
theory Order_Policy
  imports Order_Samples
begin

section \<open>The order path's policy kept\<close>

text \<open>
  What the commands leave of an order in the book: it is released only through the gate, what holds
  it is lifted only by a person, and once ended it stays as it ended.
\<close>

text \<open>An order held, and a command served that does not open it.\<close>

lemma order_act_on:
  assumes "order_act kn mints b head cx c = Some (Inr (Some m))" "ledger_ok (ab_ledger b)"
    "\<not> bt_has (l_orders (ab_ledger b)) (mints MINT_ORDER 0)" "bt_get (l_orders (ab_ledger b)) i = Some h"
  obtains acts new vs where "acts_decided kn mints b cx c = Inr acts"
    "list_all (settling (apply_acts acts [] [] (ab_ledger b))) new"
    "\<forall>t r. Opened t r \<in> set (acts @ new) \<longrightarrow> or_order_id t \<noteq> i"
    "gist_at (ab_ledger (md_book m)) i = map_option gist_of (fold (act_after vs i) (acts @ new) (Some h))"
proof -
  from assms(2) have "maps_ok (ab_ledger b)" by (simp add: ledger_ok_def)
  with assms(1) obtain acts new vs where d: "acts_decided kn mints b cx c = Inr acts"
    and new: "list_all (settling (apply_acts acts [] [] (ab_ledger b))) new"
    and after: "\<forall>i. gist_at (ab_ledger (md_book m)) i =
       map_option gist_of (fold (act_after vs i) (acts @ new) (bt_get (l_orders (ab_ledger b)) i))"
    by (rule order_act_after)
  from that [OF d new] decided_not_opened [OF d assms(3,4) new] after assms(4) show thesis by simp
qed

subsection \<open>Released through the gate\<close>

lemma gate_passes:
  "gate h = Inr () \<longleftrightarrow> allocation_balanced h = Inr True \<and> \<not> block_stands h \<and> \<not> has_condition h CApprovalRequired"
  by (auto simp: gate_def rbind_eq_Inr guard_r_eq_Inr)

lemma released_acts:
  assumes "release_decided b cx q = Inr (state, acts)" "Released i \<in> set acts"
  shows "i = qre_order_id q \<and> acts = [Released i] \<and> state = OProposed \<and> (\<exists>h. finds b i h OProposed \<and> gate h = Inr ()
    \<and> (aa_waits_for_compliance (attributes_of b) \<longrightarrow> verdict_on_version h))"
  using assms
  by (auto simp: release_decided_def decide_simps release_acts_def condition_act_def split: if_splits)

definition answered_by :: "string \<Rightarrow> check_verdict \<Rightarrow> order_standing \<Rightarrow> act list" where
  "answered_by i v standing =
     [Checked i v, Condition i (order_condition_no CAwaitingCheck) False standing, Released i]"

lemma checked_acts:
  assumes "check_decided b cx q = Inr (j, state, r, acts)" "Released i \<in> set acts"
  shows "i = j \<and> checked_order b q = Inr i \<and> state = OProposed
    \<and> (\<exists>h v standing. finds b i h OProposed \<and> h_release_requested h \<and> acts = answered_by i v standing
         \<and> ck_placement_id v = [] \<and> ck_order_version v = h_version h
         \<and> gate (h\<lparr>h_checks := h_checks h @ [v]\<rparr>) = Inr ())"
  using assms
  by (auto simp: check_decided_def decide_simps check_acts_def answered_by_def condition_act_def standing_of_def Let_def
      split: if_splits)

lemma answered_after:
  assumes "bt_wf (h_conditions h)" "ck_placement_id v = []"
  shows "\<exists>k. fold (act_after vs i) (answered_by i v standing) (Some h) = Some k
    \<and> gated_as (h\<lparr>h_checks := h_checks h @ [v]\<rparr>) k \<and> h_released k"
  using assms
  by (simp add: answered_by_def order_after_def on_it_def gated_as_def has_condition_def bt_has_def bt_get_remove)

lemma ledger_ok_conditions:
  "ledger_ok l \<Longrightarrow> bt_get (l_orders l) i = Some h \<Longrightarrow> bt_wf (h_conditions h) \<and> or_order_id (h_order h) = i"
  by (auto simp: ledger_ok_def records_ok_def order_ok_def dest: bt_allD)

lemma settled_gated:
  assumes "list_all (settling l) new" "gated_as h k"
  shows "\<exists>k'. fold (act_after vs i) new (Some k) = Some k' \<and> gated_as h k'"
  by (rule fold_after)
    (use assms in \<open>auto simp: list_all_iff dest: settling_opens intro: settling_gated\<close>)

lemma gist_gated: "same_gist k k' \<Longrightarrow> gated_as h k \<Longrightarrow> gated_as h k'"
  by (simp add: same_gist_iff gated_as_def has_condition_def)

lemma released_by_a_release:
  assumes "release_decided b cx q = Inr (state, acts)" "Released i \<in> set acts"
    "list_all (settling l) new" "ledger_ok (ab_ledger b)" "bt_get (l_orders (ab_ledger b)) i = Some h"
    "map_option gist_of (fold (act_after vs i) (acts @ new) (Some h)) = Some (gist_of h')"
  shows "gate h' = Inr () \<and> (aa_waits_for_compliance (attributes_of b) \<longrightarrow> verdict_on_version h')"
proof -
  from released_acts [OF assms(1,2)] assms(5) have h: "acts = [Released i]" "gate h = Inr ()"
    "aa_waits_for_compliance (attributes_of b) \<longrightarrow> verdict_on_version h" by (auto simp: finds_def)
  let ?k = "order_after vs i (Released i) h"
  from ledger_ok_conditions [OF assms(4,5)] have "gated_as h ?k"
    by (simp add: order_after_def on_it_def gated_as_def has_condition_def bt_has_def bt_get_remove)
  from settled_gated [OF assms(3) this] obtain k' where
    k: "fold (act_after vs i) new (Some ?k) = Some k'" "gated_as h k'" by blast
  with assms(6) h(1) have "same_gist k' h'" by simp
  from gist_gated [OF this k(2)] show ?thesis using gate_kept verdict_kept h by blast
qed

lemma released_by_a_check:
  assumes "check_decided b cx q = Inr (j, state, r, acts)" "Released i \<in> set acts"
    "list_all (settling l) new" "ledger_ok (ab_ledger b)" "bt_get (l_orders (ab_ledger b)) i = Some h"
    "map_option gist_of (fold (act_after vs i) (acts @ new) (Some h)) = Some (gist_of h')"
  shows "gate h' = Inr () \<and> verdict_on_version h' \<and> h_release_requested h"
proof -
  from checked_acts [OF assms(1,2)] assms(5) obtain v standing where h: "acts = answered_by i v standing"
    "h_release_requested h" "ck_placement_id v = []" "ck_order_version v = h_version h"
    "gate (h\<lparr>h_checks := h_checks h @ [v]\<rparr>) = Inr ()" by (auto simp: finds_def)
  let ?g = "h\<lparr>h_checks := h_checks h @ [v]\<rparr>"
  from ledger_ok_conditions [OF assms(4,5)] have "bt_wf (h_conditions h)" ..
  from answered_after [OF this h(3), of vs i standing] obtain k where
    k: "fold (act_after vs i) acts (Some h) = Some k" "gated_as ?g k" unfolding h(1) by blast
  from settled_gated [OF assms(3) k(2)] obtain k' where
    k': "fold (act_after vs i) new (Some k) = Some k'" "gated_as ?g k'" by blast
  with assms(6) k(1) have "same_gist k' h'" by simp
  from gist_gated [OF this k'(2)] have g: "gated_as ?g h'" .
  moreover have "verdict_on_version ?g" using h(3,4) by (simp add: verdict_on_version_def)
  ultimately show ?thesis using gate_kept [OF g h(5)] verdict_kept [OF g] h(2) by blast
qed

text \<open>C2: An order is released only through the gate. Whatever command the order path serves, if an
  order held unreleased is released in the book its entry leaves, then it was proposed; it was a
  release that was asked, or the check a release already asked was waiting for; and the order as it
  now stands passes the gate -- its allocation balanced, no block standing on its version, no approval
  required -- with a verdict on its version where the account waits for compliance.\<close>

theorem an_order_is_released_through_the_gate:
  assumes "order_act kn mints b head cx c = Some (Inr (Some m))" and "ledger_ok (ab_ledger b)"
    and "\<not> bt_has (l_orders (ab_ledger b)) (mints MINT_ORDER 0)"
    and "bt_get (l_orders (ab_ledger b)) i = Some h" and "\<not> h_released h"
    and "bt_get (l_orders (ab_ledger (md_book m))) i = Some h'" and "h_released h'"
  shows "state_of b i = Inr OProposed
    \<and> allocation_balanced h' = Inr True \<and> \<not> block_stands h' \<and> \<not> has_condition h' CApprovalRequired
    \<and> (aa_waits_for_compliance (attributes_of b) \<longrightarrow> verdict_on_version h')
    \<and> ((\<exists>q. c = ReleaseOrder q \<and> qre_order_id q = i)
       \<or> (\<exists>q. c = RecordCheck q \<and> checked_order b q = Inr i \<and> h_release_requested h))"
proof -
  obtain acts new vs where d: "acts_decided kn mints b cx c = Inr acts"
    and new: "list_all (settling (apply_acts acts [] [] (ab_ledger b))) new"
    and opened: "\<forall>t r. Opened t r \<in> set (acts @ new) \<longrightarrow> or_order_id t \<noteq> i"
    and after: "gist_at (ab_ledger (md_book m)) i = map_option gist_of (fold (act_after vs i) (acts @ new) (Some h))"
    by (rule order_act_on [OF assms(1-4)])
  note unopened = opened [rule_format]
  from after assms(6) have g: "map_option gist_of (fold (act_after vs i) (acts @ new) (Some h)) = Some (gist_of h')" by simp
  have "Released i \<in> set acts"
  proof (rule ccontr)
    assume "Released i \<notin> set acts"
    then have none: "Released i \<notin> set (acts @ new)" using new by (auto simp: list_all_iff settling_def)
    have "\<exists>k. fold (act_after vs i) (acts @ new) (Some h) = Some k \<and> \<not> h_released k"
      by (rule fold_after) (use unopened none assms(5) order_after_released in blast)+
    with g assms(7) show False by (auto simp: same_gist_iff)
  qed
  with commands_decide [OF d] have "may_decide mints b cx c (Released i)" by blast
  then have st: "state_of b i = Inr OProposed"
    and "(\<exists>q. c = ReleaseOrder q) \<or> (\<exists>q. c = RecordCheck q)"
    by (auto elim!: may_decideE simp: cancelling_def aside_def user_finds_def finds_def state_of_def)
  from this(2) show ?thesis
  proof (elim disjE exE)
    fix q assume c: "c = ReleaseOrder q"
    with d obtain state where r: "release_decided b cx q = Inr (state, acts)" by (auto simp: rbind_eq_Inr)
    from released_by_a_release [OF r \<open>Released i \<in> set acts\<close> new assms(2,4) g]
      released_acts [OF r \<open>Released i \<in> set acts\<close>] st c show ?thesis by (auto simp: gate_passes)
  next
    fix q assume c: "c = RecordCheck q"
    with d obtain j state r where r: "check_decided b cx q = Inr (j, state, r, acts)" by (auto simp: rbind_eq_Inr)
    from released_by_a_check [OF r \<open>Released i \<in> set acts\<close> new assms(2,4) g]
      checked_acts [OF r \<open>Released i \<in> set acts\<close>] st c show ?thesis by (auto simp: gate_passes)
  qed
qed

theorem an_order_is_released_through_the_gate_witness:
  "\<exists>m h'. order_act knows_nothing plain_mints (lone_book lone_held) 1 person_context (ReleaseOrder release_asked) = Some (Inr (Some m))
    \<and> bt_get (l_orders (ab_ledger (md_book m))) ''O'' = Some h' \<and> h_released h' \<and> \<not> block_stands h'"
proof -
  from sample_release obtain m h' where
    m: "order_act knows_nothing plain_mints (lone_book lone_held) 1 person_context (ReleaseOrder release_asked) = Some (Inr (Some m))"
      "bt_get (l_orders (ab_ledger (md_book m))) ''O'' = Some h'" "h_released h'" by blast
  from an_order_is_released_through_the_gate [OF m(1) _ lone_fresh lone_found _ m(2,3)] lone_ledgers_ok(1) m
  show ?thesis by (simp add: lone_book_def lone_held_def order_held_default_def)
qed

subsection \<open>Lifted by a person\<close>

definition still_waits :: "order_held \<Rightarrow> bool" where
  "still_waits k \<longleftrightarrow> bt_wf (h_conditions k) \<and> (has_condition k CApprovalRequired \<or> h_ended k \<noteq> None)"

lemma condition_no_inj [simp]: "order_condition_no c = order_condition_no d \<longleftrightarrow> c = d"
  by (cases c; cases d) (simp_all add: order_condition_no.simps)

lemma waits_after:
  assumes "still_waits k" "may_decide mints b cx c a \<or> settling l a"
    "\<And>standing. a \<noteq> Condition i (order_condition_no CApprovalRequired) False standing"
  shows "still_waits (order_after vs i a k)"
proof -
  have ended: "\<exists>t. n = order_state_no t" if "a = Ended j n" for j n
    using assms(2) that by (auto elim!: may_decideE simp: cancelling_def aside_def settling_def)
  show ?thesis
  proof (cases a)
    case (Condition j n on standing)
    with assms(1,3) show ?thesis
      by (cases on) (auto simp: still_waits_def order_after_def on_it_def has_condition_def bt_has_def bt_get_remove)
  next
    case (Ended j n)
    with ended [OF this] assms(1) show ?thesis
      by (auto simp: still_waits_def order_after_def on_it_def intro!: bt_wf_remove)
  qed (use assms(1) in \<open>auto simp: still_waits_def order_after_def on_it_def has_condition_def bt_has_def bt_get_remove\<close>)
qed

lemma order_after_overridden:
  "h_overridden_version (order_after vs i a k) \<noteq> h_overridden_version k \<Longrightarrow> a = Overridden i"
  by (cases a) (auto simp: order_after_def on_it_def split: if_splits)

lemma lifted_by:
  assumes "\<forall>a \<in> set acts. may_decide mints b cx c a \<or> settling l a"
    "\<forall>t r. Opened t r \<in> set acts \<longrightarrow> or_order_id t \<noteq> i" "bt_wf (h_conditions h)"
    "map_option gist_of (fold (act_after vs i) acts (Some h)) = Some (gist_of h')"
    "has_condition h CApprovalRequired" "\<not> has_condition h' CApprovalRequired" "h_ended h' = None"
  shows "\<exists>standing. Condition i (order_condition_no CApprovalRequired) False standing \<in> set acts"
proof (rule ccontr)
  assume none: "\<not> ?thesis"
  have "\<exists>k. fold (act_after vs i) acts (Some h) = Some k \<and> still_waits k"
  proof (rule fold_after [OF assms(2) [rule_format]])
    fix a and k :: order_held assume a: "a \<in> set acts" and k: "still_waits k"
    from waits_after [OF k bspec [OF assms(1) a], of i vs] a none show "still_waits (order_after vs i a k)" by blast
  qed (use assms(3,5) in \<open>auto simp: still_waits_def\<close>)
  with assms(4-7) show False by (auto simp: still_waits_def same_gist_iff has_condition_def)
qed

lemma overridden_by:
  assumes "\<forall>t r. Opened t r \<in> set acts \<longrightarrow> or_order_id t \<noteq> i"
    "map_option gist_of (fold (act_after vs i) acts (Some h)) = Some (gist_of h')"
    "h_overridden_version h' \<noteq> h_overridden_version h"
  shows "Overridden i \<in> set acts"
proof (rule ccontr)
  assume none: "Overridden i \<notin> set acts"
  have "\<exists>k. fold (act_after vs i) acts (Some h) = Some k \<and> h_overridden_version k = h_overridden_version h"
  proof (rule fold_after [OF assms(1) [rule_format]])
    fix a and k :: order_held assume "a \<in> set acts" "h_overridden_version k = h_overridden_version h"
    with none show "h_overridden_version (order_after vs i a k) = h_overridden_version h"
      using order_after_overridden [of vs i a k] by auto
  qed simp_all
  with assms(2,3) show False by (auto simp: same_gist_iff)
qed

text \<open>C3: What holds an order is lifted by a person alone. If a command leaves an order that required
  approval neither requiring it nor ended, or changes the version its standing block is overridden on,
  then it was an approval decided by a person: no service account, no other command, nothing settled
  after it.\<close>

theorem only_a_person_lifts_what_holds_an_order:
  assumes "order_act kn mints b head cx c = Some (Inr (Some m))" and "ledger_ok (ab_ledger b)"
    and "\<not> bt_has (l_orders (ab_ledger b)) (mints MINT_ORDER 0)"
    and "bt_get (l_orders (ab_ledger b)) i = Some h"
    and "bt_get (l_orders (ab_ledger (md_book m))) i = Some h'"
    and "has_condition h CApprovalRequired \<and> \<not> has_condition h' CApprovalRequired \<and> h_ended h' = None
      \<or> h_overridden_version h' \<noteq> h_overridden_version h"
  shows "cx_acting_for cx \<noteq> [] \<and> cx_acting_for_kind cx \<noteq> ServiceAccountSubject \<and> (\<exists>q. c = DecideApproval q)"
proof -
  obtain acts new vs where d: "acts_decided kn mints b cx c = Inr acts"
    and new: "list_all (settling (apply_acts acts [] [] (ab_ledger b))) new"
    and opened: "\<forall>t r. Opened t r \<in> set (acts @ new) \<longrightarrow> or_order_id t \<noteq> i"
    and after: "gist_at (ab_ledger (md_book m)) i = map_option gist_of (fold (act_after vs i) (acts @ new) (Some h))"
    by (rule order_act_on [OF assms(1-4)])
  from after assms(5) have g: "map_option gist_of (fold (act_after vs i) (acts @ new) (Some h)) = Some (gist_of h')" by simp
  have kinds: "\<forall>a \<in> set (acts @ new). may_decide mints b cx c a \<or> settling (apply_acts acts [] [] (ab_ledger b)) a"
    using new commands_decide [OF d] by (auto simp: list_all_iff)
  have wf: "bt_wf (h_conditions h)" using ledger_ok_conditions [OF assms(2,4)] ..
  from assms(6) lifted_by [OF kinds opened wf g] overridden_by [OF opened g]
  consider standing where "Condition i (order_condition_no CApprovalRequired) False standing \<in> set (acts @ new)"
    | "Overridden i \<in> set (acts @ new)" by blast
  then have "by_person cx \<and> (\<exists>q. c = DecideApproval q)"
  proof cases
    case 1
    from bspec [OF kinds this] show ?thesis by (auto elim!: may_decideE simp: cancelling_def aside_def settling_def)
  next
    case 2
    from bspec [OF kinds this] show ?thesis by (auto elim!: may_decideE simp: cancelling_def aside_def settling_def)
  qed
  then show ?thesis by (auto simp: by_person_def)
qed

theorem only_a_person_lifts_what_holds_an_order_witness:
  "\<exists>m. order_act knows_nothing plain_mints (lone_book lone_held) 1 person_context (DecideApproval override_asked) = Some (Inr (Some m))
    \<and> cx_acting_for person_context \<noteq> [] \<and> cx_acting_for_kind person_context \<noteq> ServiceAccountSubject"
proof -
  from sample_override obtain m h' where
    m: "order_act knows_nothing plain_mints (lone_book lone_held) 1 person_context (DecideApproval override_asked) = Some (Inr (Some m))"
      "bt_get (l_orders (ab_ledger (md_book m))) ''O'' = Some h'" "h_overridden_version h' \<noteq> h_overridden_version lone_held" by blast
  from only_a_person_lifts_what_holds_an_order [OF m(1) _ lone_fresh lone_found m(2) disjI2 [OF m(3)]] lone_ledgers_ok(1) m(1)
  show ?thesis by (simp add: lone_book_def)
qed

subsection \<open>Ended for good\<close>



lemma terms_ids [simp]: "or_order_id (amended change t) = or_order_id t" "or_order_id (resized change quantity t) = or_order_id t"
  by (auto simp: amended_def resized_def Let_def split: option.split)




end
