(* ===== verification/Book_Breaks.thy ===== *)
theory Book_Breaks
  imports Book_Opening
begin

section \<open>Breaks, figures and encumbrances\<close>

text \<open>
  The street acts of \<open>crates/bor/src/decide.rs\<close>: a break recorded or brought up to date
  (\<open>record_break\<close>), its cause and handling set (\<open>handle_break\<close>), the figures a custodian states
  (\<open>account_figures\<close>) and a position's encumbrances (\<open>encumbrances\<close>). None of them moves a
  position. An unrecognized security's break is matched by the identifiers the custodian states.
\<close>

subsection \<open>An act's draft\<close>

definition plain_draft ::
  "minting \<Rightarrow> act_context \<Rightarrow> string \<Rightarrow> string \<Rightarrow> string \<Rightarrow> string list \<Rightarrow> string \<Rightarrow> entry_body \<Rightarrow> draft" where
  "plain_draft mints cx kind effective reason breaks key body =
     \<lparr>dr_entry_id = mints MINT_ENTRY 0, dr_kind = kind, dr_effective_date = effective, dr_reason = reason,
      dr_break_ids = breaks, dr_idempotency_key = key, dr_actor = cx_actor cx, dr_body = body\<rparr>"

subsection \<open>The identifiers a custodian states\<close>

definition insert_identifier ::
  "nat \<times> stated_identifier \<Rightarrow> (string \<times> string) bset \<Rightarrow> store_error + (string \<times> string) bset" where
  "insert_identifier ix stated =
     (let (i, x) = ix; scheme = trim (idn_scheme x); given = trim (idn_value x)
      in if scheme = [] \<or> given = [] then Inl (Malformed [at_index ''unresolved_identifiers'' i] [])
         else Inr (bs_insert (scheme, given) stated))"

fun split_at_text :: "string \<Rightarrow> string \<Rightarrow> (string \<times> string) option" where
  "split_at_text sep [] = (if sep = [] then Some ([], []) else None)"
| "split_at_text sep (c # s) =
     (if starts_with sep (c # s) then Some ([], drop (length sep) (c # s))
      else map_option (\<lambda>(a, b). (c # a, b)) (split_at_text sep s))"

definition strip_prefix :: "string \<Rightarrow> string \<Rightarrow> string option" where
  "strip_prefix p s = (if starts_with p s then Some (drop (length p) s) else None)"

definition street_text :: "break_difference \<Rightarrow> string option" where
  "street_text d =
     (case Option.bind (bdf_street d) bva_value of
        Some (TextValue t) \<Rightarrow> if trim t = [] then None else Some (trim t)
      | _ \<Rightarrow> None)"

type_synonym identifier_parts = "(string, string option \<times> string option) btree"

definition stated_part :: "nat \<times> break_difference \<Rightarrow> identifier_parts \<Rightarrow> store_error + identifier_parts" where
  "stated_part ix halves =
     (let (i, d) = ix in
      case strip_prefix ''unresolved_identifiers['' (bdf_field d) of
        None \<Rightarrow> Inr halves
      | Some rest \<Rightarrow>
          (let (place, part) = (case split_at_text ''].'' rest of None \<Rightarrow> (rest, []) | Some s \<Rightarrow> s) in
           case street_text d of
             None \<Rightarrow> Inl (Malformed [at_index ''differences'' i @ ''.street''] [])
           | Some t \<Rightarrow>
               if place = [] \<or> \<not> list_all is_digit place
               then Inl (Malformed [at_index ''differences'' i @ ''.field''] [])
               else (let held = (case bt_get halves place of None \<Rightarrow> (None, None) | Some h \<Rightarrow> h) in
                     if part = ''scheme'' then Inr (bt_insert place (Some t, snd held) halves)
                     else if part = ''value'' then Inr (bt_insert place (fst held, Some t) halves)
                     else Inl (Malformed [at_index ''differences'' i @ ''.field''] []))))"

definition whole_part ::
  "string \<times> string option \<times> string option \<Rightarrow> (string \<times> string) bset \<Rightarrow> store_error + (string \<times> string) bset" where
  "whole_part p stated =
     (case p of
        (place, Some scheme, Some given) \<Rightarrow> Inr (bs_insert (scheme, given) stated)
      | (place, _, _) \<Rightarrow> Inl (Malformed [''unresolved_identifiers['' @ place @ '']''] []))"

definition stated_identifiers :: "break_difference list \<Rightarrow> store_error + (string \<times> string) bset" where
  "stated_identifiers ds =
     rbind (rfold stated_part (numbered_list ds) []) (\<lambda>halves.
     rbind (rfold whole_part halves []) (\<lambda>stated.
       if stated = [] then Inl (Malformed [''differences''] []) else Inr stated))"

definition identifiers_stated ::
  "stated_identifier list \<Rightarrow> break_difference list \<Rightarrow> store_error + (string \<times> string) bset" where
  "identifiers_stated field ds =
     (if field = [] then stated_identifiers ds else rfold insert_identifier (numbered_list field) [])"

subsection \<open>What a break names\<close>

definition check_position_key :: "position_key \<Rightarrow> store_error + unit" where
  "check_position_key k =
     rbind (guard_r (Invalid [''position'']) (pky_instrument_id k \<noteq> [])) (\<lambda>_.
     rbind (side_field ''position.side'' (pky_side k)) (\<lambda>_. Inr ()))"

definition check_figure_key :: "figure_key \<Rightarrow> store_error + unit" where
  "check_figure_key k = guard_r (Invalid [''figure'']) (agreement_key (fky_agreement k) \<noteq> [] \<and> fky_figure k \<noteq> [])"

definition check_calendar :: "string \<Rightarrow> nat \<times> calendar_ref \<Rightarrow> unit \<Rightarrow> store_error + unit" where
  "check_calendar field ic u =
     (let (i, (calendar, version)) = ic
      in guard_r (Invalid [field @ ''.date_check.'' @ at_index ''calendars'' i]) (calendar \<noteq> [] \<and> 0 < version))"

definition check_date_check :: "string \<Rightarrow> date_check \<Rightarrow> store_error + unit" where
  "check_date_check field c =
     rbind (date_field (field @ ''.date_check.date'') (dck_date c)) (\<lambda>_.
     rbind (guard_r (Invalid [field @ ''.date_check'']) (dck_calendars c \<noteq> [])) (\<lambda>_.
     rbind (rfold (check_calendar field) (numbered_list (dck_calendars c)) ()) (\<lambda>_.
       guard_r (Invalid [field @ ''.date_check.reason''])
         (dck_reason c \<noteq> check_reason_no DRUnspecified \<and> check_reason_of (dck_reason c) \<noteq> None))))"

definition check_cause :: "string \<Rightarrow> break_cause \<Rightarrow> store_error + unit" where
  "check_cause field c =
     (let closed = bcs_category c = cause_category_no CCValueDateNotBusinessDay in
      rbind (guard_r (Invalid [field])
        (bcs_category c \<noteq> cause_category_no CCUnspecified \<and> cause_category_of (bcs_category c) \<noteq> None)) (\<lambda>_.
      rbind (case bcs_item c of
               Some (PendingItem p) \<Rightarrow> rbind (side_field (field @ ''.pending_settlement.side'') (psr_side p)) (\<lambda>_. Inr ())
             | _ \<Rightarrow> Inr ()) (\<lambda>_.
      case bcs_item c of
        Some (DateItem d) \<Rightarrow> rbind (guard_r (Invalid [field @ ''.date_check'']) closed) (\<lambda>_. check_date_check field d)
      | _ \<Rightarrow> guard_r (Invalid [field]) (\<not> closed))))"

definition held_break :: "account_book \<Rightarrow> string \<Rightarrow> store_error + break_record" where
  "held_break b i = ok_or (Invalid [ab_account_id b, i]) (bt_get (ab_breaks b) i)"

definition open_break :: "account_book \<Rightarrow> string \<Rightarrow> store_error + break_record" where
  "open_break b i =
     rbind (held_break b i) (\<lambda>r.
       if brk_state r \<noteq> break_state_no BSOpen then Inl (Refused BreakStateRefused [i] []) else Inr r)"

subsection \<open>A break recorded\<close>

definition break_names :: "break_request \<Rightarrow> bool \<Rightarrow> store_error + break_subject option" where
  "break_names q unrecognized =
     (case qbr_subject q of
        Some (OnPosition k) \<Rightarrow> rbind (check_position_key k) (\<lambda>_. Inr (Some (OnPosition k)))
      | Some (OnFigure k) \<Rightarrow> rbind (check_figure_key k) (\<lambda>_. Inr (Some (OnFigure k)))
      | None \<Rightarrow> if unrecognized
                then if qbr_street q = None then Inl (Malformed [''street''] []) else Inr None
                else Inl (Invalid [''subject'']))"

definition check_break_request :: "break_request \<Rightarrow> store_error + break_subject option" where
  "check_break_request q =
     (let unrecognized = qbr_category q = break_category_no BCUnrecognizedSecurity in
      rbind (date_field ''business_date'' (qbr_business_date q)) (\<lambda>_.
      rbind (break_names q unrecognized) (\<lambda>subject.
      rbind (guard_r (Malformed [''subject''] []) (\<not> (unrecognized \<and> subject \<noteq> None))) (\<lambda>_.
      rbind (guard_r (Invalid [''category''])
        (qbr_category q \<noteq> break_category_no BCUnspecified \<and> break_category_of (qbr_category q) \<noteq> None)) (\<lambda>_.
      rbind (guard_r (Invalid [''differences'']) (qbr_differences q \<noteq> [])) (\<lambda>_.
      rbind (guard_r (Malformed [''unresolved_identifiers''] []) (unrecognized \<or> qbr_unresolved_identifiers q = [])) (\<lambda>_.
      rbind (rfold (\<lambda>(i, c) _. check_cause (at_index ''candidate_causes'' i) c) (numbered_list (qbr_candidate_causes q)) ())
        (\<lambda>_. Inr subject))))))))"

definition same_security :: "break_request \<Rightarrow> (string \<times> string) bset \<Rightarrow> break_record \<Rightarrow> bool" where
  "same_security q stated r \<longleftrightarrow>
     brk_state r = break_state_no BSOpen \<and> brk_category r = qbr_category q \<and> brk_subject r = None
       \<and> ok_of (identifiers_stated (brk_unresolved_identifiers r) (brk_differences r)) = Some stated"

definition matched_break :: "account_book \<Rightarrow> break_request \<Rightarrow> (string \<times> string) bset option \<Rightarrow> string option" where
  "matched_break b q stated =
     (case stated of
        None \<Rightarrow> None
      | Some s \<Rightarrow> if qbr_break_id q \<noteq> [] then None
                  else map_option brk_break_id (find (same_security q s) (bt_values (ab_breaks b))))"

definition kept_identifiers :: "break_request \<Rightarrow> (string \<times> string) bset option \<Rightarrow> stated_identifier list" where
  "kept_identifiers q stated =
     (case stated of
        None \<Rightarrow> []
      | Some s \<Rightarrow>
          if qbr_unresolved_identifiers q \<noteq> []
          then map (\<lambda>x. stated_identifier_default\<lparr>idn_scheme := trim (idn_scheme x), idn_value := trim (idn_value x),
                 idn_source := trim (idn_source x)\<rparr>) (qbr_unresolved_identifiers q)
          else map (\<lambda>(scheme, given). stated_identifier_default\<lparr>idn_scheme := scheme, idn_value := given\<rparr>) s)"

definition new_break ::
  "minting \<Rightarrow> account_book \<Rightarrow> act_context \<Rightarrow> break_request \<Rightarrow> break_subject option \<Rightarrow> stated_identifier list \<Rightarrow> break_record" where
  "new_break mints b cx q subject ids =
     break_record_default\<lparr>brk_break_id := mints MINT_BREAK 0, brk_account_id := ab_account_id b, brk_subject := subject,
       brk_category := qbr_category q, brk_differences := qbr_differences q, brk_book_watermark := qbr_book_watermark q,
       brk_street := qbr_street q, brk_first_seen_date := qbr_business_date q, brk_last_seen_date := qbr_business_date q,
       brk_state := break_state_no BSOpen, brk_candidate_causes := qbr_candidate_causes q,
       brk_recorded_by := Some (cx_actor cx), brk_unresolved_identifiers := ids\<rparr>"

definition updated_break ::
  "account_book \<Rightarrow> break_request \<Rightarrow> string \<Rightarrow> break_subject option \<Rightarrow> stated_identifier list \<Rightarrow> store_error + break_record" where
  "updated_break b q i subject ids =
     rbind (open_break b i) (\<lambda>r.
     rbind (guard_r (Invalid [i]) (brk_subject r = subject \<and> brk_category r = qbr_category q)) (\<lambda>_.
       Inr (r\<lparr>brk_differences := qbr_differences q, brk_book_watermark := qbr_book_watermark q,
              brk_street := qbr_street q, brk_last_seen_date := qbr_business_date q,
              brk_candidate_causes := qbr_candidate_causes q,
              brk_unresolved_identifiers := (if ids = [] then brk_unresolved_identifiers r else ids)\<rparr>)))"

definition break_made ::
  "minting \<Rightarrow> account_book \<Rightarrow> act_context \<Rightarrow> break_request \<Rightarrow> store_error + break_record" where
  "break_made mints b cx q =
     rbind (check_break_request q) (\<lambda>subject.
     rbind (if qbr_category q = break_category_no BCUnrecognizedSecurity
            then rbind (identifiers_stated (qbr_unresolved_identifiers q) (qbr_differences q)) (\<lambda>s. Inr (Some s))
            else Inr None) (\<lambda>stated.
       let ids = kept_identifiers q stated;
           i = (case matched_break b q stated of Some i \<Rightarrow> i | None \<Rightarrow> qbr_break_id q)
       in if i = [] then Inr (new_break mints b cx q subject ids) else updated_break b q i subject ids))"

definition record_break ::
  "known \<Rightarrow> minting \<Rightarrow> account_book \<Rightarrow> nat \<Rightarrow> act_context \<Rightarrow> break_request \<Rightarrow> store_error + made_act" where
  "record_break kn mints b head cx q =
     rbind (opening_required b) (\<lambda>_.
     rbind (break_made mints b cx q) (\<lambda>r.
       made kn b head cx (plain_draft mints cx ''break-recorded'' (qbr_business_date q) [] [brk_break_id r]
         (qbr_idempotency_key q) (entry_body_default\<lparr>by_breaks := [r]\<rparr>))))"


subsection \<open>Cause and handling\<close>

definition handled_break :: "handle_request \<Rightarrow> break_record \<Rightarrow> break_record" where
  "handled_break q r =
     r\<lparr>brk_confirmed_cause := (if qhb_confirmed_cause q = None then brk_confirmed_cause r else qhb_confirmed_cause q),
       brk_handling := (if qhb_handling q = None then brk_handling r else qhb_handling q)\<rparr>"

definition handle_break ::
  "known \<Rightarrow> minting \<Rightarrow> account_book \<Rightarrow> nat \<Rightarrow> act_context \<Rightarrow> handle_request \<Rightarrow> store_error + made_act" where
  "handle_break kn mints b head cx q =
     rbind (justified cx (qhb_reason q) ''setting a break's cause or handling'') (\<lambda>_.
     rbind (open_break b (qhb_break_id q)) (\<lambda>r.
     rbind (guard_r (Invalid [qhb_break_id q]) (qhb_confirmed_cause q \<noteq> None \<or> qhb_handling q \<noteq> None)) (\<lambda>_.
     rbind (case qhb_confirmed_cause q of None \<Rightarrow> Inr () | Some c \<Rightarrow> check_cause ''confirmed_cause'' c) (\<lambda>_.
     rbind (case qhb_handling q of
              None \<Rightarrow> Inr ()
            | Some h \<Rightarrow> if bhd_due_date h = [] then Inr () else date_field ''handling.due_date'' (bhd_due_date h)) (\<lambda>_.
       made kn b head cx (plain_draft mints cx ''break-handled'' (brk_last_seen_date r) (qhb_reason q) [qhb_break_id q]
         (qhb_idempotency_key q) (entry_body_default\<lparr>by_breaks := [handled_break q r]\<rparr>)))))))"

subsection \<open>The figures\<close>

definition agreement_segment :: "margin_agreement option \<Rightarrow> string" where
  "agreement_segment a =
     (case Option.bind a mga_agreement of Some (StatementSegment s) \<Rightarrow> ssr_segment s | None \<Rightarrow> [])"

definition add_figures ::
  "account_book \<Rightarrow> figures_request \<Rightarrow> nat \<times> agreement_figures \<Rightarrow> string bset \<times> account_figures list
    \<Rightarrow> store_error + string bset \<times> account_figures list" where
  "add_figures b q ia s =
     (let (i, a) = ia; (keys, out) = s; field = at_index ''agreements'' i; k = agreement_key (agf_agreement a);
          segment = agreement_segment (agf_agreement a);
          said = (case agf_figures a of None \<Rightarrow> [] | Some f \<Rightarrow> sfg_segment f)
      in rbind (guard_r (Invalid [field]) (k \<noteq> [])) (\<lambda>_.
         rbind (guard_r (Invalid [field]) (\<not> List.member keys k)) (\<lambda>_.
         rbind (guard_r (Invalid [field, said, segment]) (said = segment)) (\<lambda>_.
         rbind (guard_r (Invalid [field, segment]) (segment = [] \<or> agf_position_values a = [])) (\<lambda>_.
           Inr (bs_insert k keys, out @ [\<lparr>af_account_id = ab_account_id b, af_business_date = qrf_business_date q,
             af_agreement = agf_agreement a, af_figures = agf_figures a, af_position_values = agf_position_values a,
             af_source = qrf_source q, af_last_change = None\<rparr>]))))))"

definition account_figures_act ::
  "known \<Rightarrow> minting \<Rightarrow> account_book \<Rightarrow> nat \<Rightarrow> act_context \<Rightarrow> figures_request \<Rightarrow> store_error + made_act" where
  "account_figures_act kn mints b head cx q =
     rbind (opening_required b) (\<lambda>_.
     rbind (date_field ''business_date'' (qrf_business_date q)) (\<lambda>_.
     rbind (guard_r (Invalid [''agreements'']) (qrf_agreements q \<noteq> [])) (\<lambda>_.
     rbind (rfold (add_figures b q) (numbered_list (qrf_agreements q)) ([], [])) (\<lambda>(keys, figures).
       made kn b head cx (plain_draft mints cx ''figures-recorded'' (qrf_business_date q) [] []
         (qrf_idempotency_key q) (entry_body_default\<lparr>by_figures := figures\<rparr>))))))"

subsection \<open>A position's encumbrances\<close>

definition book_kind :: "int \<Rightarrow> bool" where
  "book_kind n \<longleftrightarrow> (case encumbrance_kind_of n of
     None \<Rightarrow> False
   | Some k \<Rightarrow> k \<in> {EKPledged, EKPosted, EKOnLoan, EKBlocked, EKRestricted, EKInTransit, EKOther})"

definition encumbrance_key :: "encumbrance \<Rightarrow> int \<times> string \<times> string \<times> string" where
  "encumbrance_key e = (enc_kind e, enc_pledgee e, enc_held_at e, agreement_key (enc_agreement e))"

definition since_date :: "position_state \<Rightarrow> string \<Rightarrow> encumbrance \<Rightarrow> string" where
  "since_date p today e =
     (case find (\<lambda>x. encumbrance_key x = encumbrance_key e) (pn_encumbrances p) of
        Some x \<Rightarrow> enc_since_date x | None \<Rightarrow> today)"

definition add_encumbrance ::
  "encumbrances_request \<Rightarrow> position_state \<Rightarrow> string \<Rightarrow> nat \<times> encumbrance \<Rightarrow> encumbrance list
    \<Rightarrow> store_error + encumbrance list" where
  "add_encumbrance q p field ie out =
     (let (i, e) = ie; path = field @ ''.'' @ at_index ''encumbrances'' i
      in rbind (guard_r (Invalid [path @ ''.kind'']) (enc_kind e \<noteq> encumbrance_kind_no EKUnspecified)) (\<lambda>_.
         rbind (guard_r (Invalid [path @ ''.kind'']) (book_kind (enc_kind e))) (\<lambda>_.
         rbind (guard_r (Invalid [path @ ''.source_code''])
           (enc_kind e \<noteq> encumbrance_kind_no EKOther \<or> enc_source_code e \<noteq> [])) (\<lambda>_.
         rbind (required (path @ ''.quantity'') (enc_quantity e)) (\<lambda>_.
           Inr (out @ [e\<lparr>enc_source := qen_source q, enc_since_date := since_date p (qen_business_date q) e,
                         enc_set_by := None\<rparr>]))))))"

definition add_encumbrances ::
  "account_book \<Rightarrow> encumbrances_request \<Rightarrow> nat \<times> position_encumbrances
    \<Rightarrow> pos_key bset \<times> (string \<times> int \<times> encumbrance list) list
    \<Rightarrow> store_error + pos_key bset \<times> (string \<times> int \<times> encumbrance list) list" where
  "add_encumbrances b q ip s =
     (let (i, named) = ip; (seen, out) = s; field = at_index ''positions'' i;
          k = (pen_instrument_id named, pen_side named, [])
      in rbind (guard_r (Invalid [field, pen_instrument_id named]) (\<not> List.member seen k)) (\<lambda>_.
         case bt_get (ab_positions b) k of
           None \<Rightarrow> Inl (Invalid [field, pen_instrument_id named, ab_account_id b])
         | Some p \<Rightarrow>
             if pn_removed p then Inl (Invalid [field, pen_instrument_id named, ab_account_id b])
             else rbind (rfold (add_encumbrance q p field) (numbered_list (pen_encumbrances named)) []) (\<lambda>es.
               Inr (bs_insert k seen, out @ [(pen_instrument_id named, pen_side named, es)]))))"

definition encumbrances_act ::
  "known \<Rightarrow> minting \<Rightarrow> account_book \<Rightarrow> nat \<Rightarrow> act_context \<Rightarrow> encumbrances_request \<Rightarrow> store_error + made_act" where
  "encumbrances_act kn mints b head cx q =
     rbind (opening_required b) (\<lambda>_.
     rbind (date_field ''business_date'' (qen_business_date q)) (\<lambda>_.
     rbind (guard_r (Invalid [''positions'']) (qen_positions q \<noteq> [])) (\<lambda>_.
     rbind (rfold (add_encumbrances b q) (numbered_list (qen_positions q)) ([], [])) (\<lambda>(seen, recorded).
       made kn b head cx (plain_draft mints cx ''encumbrances-recorded'' (qen_business_date q) [] []
         (qen_idempotency_key q) (entry_body_default\<lparr>by_encumbrances := recorded\<rparr>))))))"

end
