(* ===== verification/Book_Resolve.thy ===== *)
theory Book_Resolve
  imports Book_Breaks
begin

section \<open>Breaks resolved, and an account's attributes\<close>

text \<open>
  \<open>resolve_break\<close> of \<open>crates/bor/src/decide.rs\<close> -- by an adjustment, by the reversal of an entry, by
  entries already made or by an explanation -- \<open>close_as_cleared\<close>, and \<open>set_attribute\<close>. The bodies
  of the entries the account's index names are the store's: those a caller loaded are the map
  \<open>bodies\<close>, and one not loaded is asked for (\<open>BodiesNeeded\<close>).
\<close>

type_synonym bodies = "string \<rightharpoonup> entry_body"

subsection \<open>An adjustment\<close>

definition adjustment_missing :: "act_context \<Rightarrow> nat \<times> movement_line \<Rightarrow> string list" where
  "adjustment_missing cx il =
     (let (i, line) = il; field = at_index ''adjustment.lines'' i
      in (if ml_instrument_id line = [] then [] else instrument_missing cx field (ml_instrument_id line))
         @ (if ml_opens_lot line = None then [] else terms_missing field (ml_opens_lot line) ''.opens_lot''))"

definition adjustment_bucket :: "string \<Rightarrow> movement_line \<Rightarrow> store_error + unit" where
  "adjustment_bucket field line =
     (case bucket_of (ml_bucket line) of
        Some SBSettled \<Rightarrow> Inr ()
      | Some SBPending \<Rightarrow>
          if ml_value_date line = [] then Inr () else date_field (field @ ''.value_date'') (ml_value_date line)
      | _ \<Rightarrow> Inl (Invalid [field]))"

definition holds_lot :: "account_book \<Rightarrow> pos_key \<Rightarrow> string \<Rightarrow> bool" where
  "holds_lot b k i \<longleftrightarrow> (case bt_get (ab_positions b) k of None \<Rightarrow> False | Some p \<Rightarrow> bt_has (pn_lots p) i)"

definition adjustment_line ::
  "minting \<Rightarrow> account_book \<Rightarrow> nat \<times> movement_line \<Rightarrow> movement_line list \<times> nat
    \<Rightarrow> store_error + movement_line list \<times> nat" where
  "adjustment_line mints b il s =
     (let (i, line) = il; (out, drawn) = s; field = at_index ''adjustment.lines'' i
      in rbind (guard_r (Invalid [field]) (ml_instrument_id line \<noteq> [])) (\<lambda>_.
         rbind (side_field (field @ ''.side'') (ml_side line)) (\<lambda>_.
         rbind (required (field @ ''.quantity'') (ml_quantity line)) (\<lambda>_.
         rbind (adjustment_bucket field line) (\<lambda>_.
           case ml_opens_lot line of
             Some terms \<Rightarrow>
               rbind (guard_r (Invalid [field, ml_lot_id line]) (ml_lot_id line = [])) (\<lambda>_.
                 let terms' = (if lt_source terms = lot_source_no LSUnspecified
                               then terms\<lparr>lt_source := lot_source_no LSAdjustment\<rparr> else terms)
                 in Inr (out @ [line\<lparr>ml_opens_lot := Some terms', ml_lot_id := mints MINT_LOT drawn\<rparr>], drawn + 1))
           | None \<Rightarrow>
               rbind (guard_r (Invalid [field, ml_lot_id line, ml_instrument_id line])
                 (ml_lot_id line = [] \<or> holds_lot b (line_key line) (ml_lot_id line))) (\<lambda>_.
                 Inr (out @ [line], drawn)))))))"

definition lot_held :: "account_book \<Rightarrow> string \<Rightarrow> lot option" where
  "lot_held b i =
     Option.bind (lot_owner b i) (\<lambda>k. Option.bind (bt_get (ab_positions b) k) (\<lambda>p.
       map_option ls_lot (bt_get (pn_lots p) i)))"

definition adjustment_basis ::
  "account_book \<Rightarrow> nat \<times> basis_adjustment \<Rightarrow> string list \<Rightarrow> store_error + string list" where
  "adjustment_basis b ia prior =
     (let (i, a) = ia; field = at_index ''adjustment.basis_adjustments'' i in
      rbind (ok_or (Invalid [field, ba_lot_id a, ab_account_id b]) (lot_held b (ba_lot_id a))) (\<lambda>x.
      rbind (case (ba_cost a, Option.bind (lx_terms x) lt_cost) of
               (Some (CostChange change), Some cost) \<Rightarrow> rbind (num_add_money (field @ ''.cost_change'') cost change) (\<lambda>_. Inr ())
             | (Some (CostChange _), None) \<Rightarrow> Inl (Invalid [field, ba_lot_id a])
             | (Some (StatedCost _), Some _) \<Rightarrow> Inl (Invalid [field, ba_lot_id a])
             | (Some (StatedCost stated), None) \<Rightarrow> rbind (required (field @ ''.stated_cost.amount'') (mo_amount stated)) (\<lambda>_. Inr ())
             | (None, _) \<Rightarrow> guard_r (Invalid [field]) (ba_holding_period_start a \<noteq> [])) (\<lambda>_.
      rbind (if ba_holding_period_start a = [] then Inr ()
             else date_field (field @ ''.holding_period_start'') (ba_holding_period_start a)) (\<lambda>_.
        Inr (prior @ [case lx_terms x of None \<Rightarrow> [] | Some t \<Rightarrow> lt_holding_period_start t])))))"

definition adjustment_body ::
  "minting \<Rightarrow> account_book \<Rightarrow> act_context \<Rightarrow> adjustment \<Rightarrow> store_error + entry_body" where
  "adjustment_body mints b cx a =
     (let missing = concat (map (adjustment_missing cx) (numbered_list (adj_lines a))) in
      rbind (guard_r (Invalid [''adjustment'']) (adj_lines a \<noteq> [] \<or> adj_basis_adjustments a \<noteq> [])) (\<lambda>_.
      rbind (references_answered cx) (\<lambda>_.
      rbind (rfold (\<lambda>(i, line) _. not_referential cx (at_index ''adjustment.lines'' i) (ml_instrument_id line))
               (numbered_list (adj_lines a)) ()) (\<lambda>_.
      rbind (guard_r (incomplete ''the adjustment'' missing) (missing = [])) (\<lambda>_.
      rbind (rfold (adjustment_line mints b) (numbered_list (adj_lines a)) ([], 0)) (\<lambda>(lines, drawn).
      rbind (rfold (adjustment_basis b) (numbered_list (adj_basis_adjustments a)) []) (\<lambda>prior.
        Inr (entry_body_default\<lparr>by_lines := lines, by_basis_adjustments := adj_basis_adjustments a,
          by_prior_holding_period_starts := prior, by_event_reference := adj_event_reference a\<rparr>))))))))"

subsection \<open>A reversal\<close>

definition negated_wire :: "decimal option \<Rightarrow> decimal option" where
  "negated_wire w =
     (case w of
        None \<Rightarrow> None
      | Some d \<Rightarrow> Some (case from_wire d of Inl _ \<Rightarrow> d | Inr x \<Rightarrow> to_wire (negated x)))"

definition reversed_line :: "movement_line \<Rightarrow> movement_line" where
  "reversed_line line = line\<lparr>ml_opens_lot := None, ml_quantity := negated_wire (ml_quantity line)\<rparr>"

definition reversed_basis :: "basis_adjustment \<times> string \<Rightarrow> basis_adjustment" where
  "reversed_basis ap =
     (let (a, prior) = ap
      in \<lparr>ba_lot_id = ba_lot_id a, ba_holding_period_start = prior,
          ba_cost = (case ba_cost a of
             Some (CostChange change) \<Rightarrow> Some (CostChange (change\<lparr>mo_amount := negated_wire (mo_amount change)\<rparr>))
           | _ \<Rightarrow> None)\<rparr>)"

definition states_cost :: "basis_adjustment \<Rightarrow> bool" where
  "states_cost a = (case ba_cost a of Some (StatedCost _) \<Rightarrow> True | _ \<Rightarrow> False)"

definition is_opening :: "account_book \<Rightarrow> string \<Rightarrow> bool" where
  "is_opening b i \<longleftrightarrow> (case ab_opening b of None \<Rightarrow> False | Some (standing, _) \<Rightarrow> standing = i)"

definition stands_later :: "entry_index \<Rightarrow> bool" where
  "stands_later e \<longleftrightarrow> ei_moves_positions e \<and> ei_reversed_by e = None \<and> ei_reverses e = []"

definition entries_after :: "account_book \<Rightarrow> string \<Rightarrow> entry_index list" where
  "entries_after b i = tl (dropWhile (\<lambda>e. ei_entry_id e \<noteq> i) (ab_entries b))"

definition reversal_of :: "account_book \<Rightarrow> string \<Rightarrow> entry_body \<Rightarrow> entry_body" where
  "reversal_of b i body =
     (let pairs = zip (by_basis_adjustments body) (by_prior_holding_period_starts body);
          reverse_body = entry_body_default\<lparr>by_lines := map reversed_line (by_lines body),
            by_basis_adjustments := map reversed_basis pairs,
            by_restored_unknown_costs := map (ba_lot_id \<circ> fst) (filter (states_cost \<circ> fst) pairs),
            by_reverses := i, by_clears_opening := is_opening b i\<rparr>
      in if is_opening b i
         then reverse_body\<lparr>by_attributes := Some ((attributes_of b)\<lparr>aa_opening_balance := None\<rparr>)\<rparr>
         else reverse_body)"

definition reversal_body :: "bodies \<Rightarrow> account_book \<Rightarrow> string \<Rightarrow> store_error + entry_body \<times> string" where
  "reversal_body bodies b i =
     rbind (ok_or (Invalid [ab_account_id b, i]) (book_entry_at b i)) (\<lambda>e.
     rbind (guard_r (Invalid [i]) (ei_reversed_by e = None)) (\<lambda>_.
     rbind (guard_r (Invalid [i, ei_kind e]) (ei_moves_positions e)) (\<lambda>_.
     rbind (guard_r (Invalid [i, ei_kind e]) (\<not> ei_acts e)) (\<lambda>_.
     rbind (case find stands_later (if is_opening b i then entries_after b i else []) of
              None \<Rightarrow> Inr ()
            | Some standing \<Rightarrow> Inl (Refused LaterEntriesStand [ei_entry_id standing, ab_account_id b] [])) (\<lambda>_.
     rbind (ok_or (BodiesNeeded [i]) (bodies i)) (\<lambda>body.
       Inr (reversal_of b i body, ei_effective_date e)))))))"

subsection \<open>A resolution\<close>

definition named_once :: "account_book \<Rightarrow> string \<Rightarrow> string bset \<times> break_record list \<Rightarrow> store_error + string bset \<times> break_record list" where
  "named_once b i s =
     (let (named, out) = s
      in rbind (guard_r (Invalid [i]) (\<not> List.member named i)) (\<lambda>_.
         rbind (open_break b i) (\<lambda>r. Inr (bs_insert i named, out @ [r]))))"

definition latest_seen :: "break_record list \<Rightarrow> string" where
  "latest_seen rs = fold max (map brk_last_seen_date rs) []"

definition resolution_of :: "act_context \<Rightarrow> string \<Rightarrow> journal_ref list \<Rightarrow> string \<Rightarrow> break_resolution" where
  "resolution_of cx reason refs explanation =
     \<lparr>brr_entries = refs, brr_explanation = explanation, brr_actor = Some (cx_actor cx), brr_reason = reason,
      brr_cleared_at = None\<rparr>"

record resolving =
  rsv_kind :: string
  rsv_effective :: string
  rsv_body :: entry_body
  rsv_state :: break_state
  rsv_entries :: "journal_ref list"
  rsv_explanation :: string
  rsv_by_this :: bool

definition resolving_by ::
  "minting \<Rightarrow> bodies \<Rightarrow> account_book \<Rightarrow> act_context \<Rightarrow> string \<Rightarrow> resolution \<Rightarrow> store_error + resolving" where
  "resolving_by mints bodies b cx latest how =
     (case how of
        ByAdjustment a \<Rightarrow>
          rbind (opening_required b) (\<lambda>(standing, since).
          rbind (date_field ''adjustment.effective_date'' (adj_effective_date a)) (\<lambda>_.
          rbind (guard_r (Refused BeforeOpeningBalance [adj_effective_date a, ab_account_id b, since] [])
                  (\<not> adj_effective_date a \<le> since)) (\<lambda>_.
          rbind (adjustment_body mints b cx a) (\<lambda>body.
            Inr \<lparr>rsv_kind = ''adjustment'', rsv_effective = adj_effective_date a, rsv_body = body, rsv_state = BSResolved,
                 rsv_entries = [], rsv_explanation = [], rsv_by_this = True\<rparr>))))
      | ByReversal r \<Rightarrow>
          rbind (reversal_body bodies b (rvs_entry_id r)) (\<lambda>(body, effective).
            Inr \<lparr>rsv_kind = ''reversal'', rsv_effective = effective, rsv_body = body, rsv_state = BSResolved,
                 rsv_entries = [], rsv_explanation = [], rsv_by_this = True\<rparr>)
      | ByEntries es \<Rightarrow>
          rbind (guard_r (Invalid [''entries'']) (rbe_entry_ids es \<noteq> [])) (\<lambda>_.
          rbind (rfold (\<lambda>i refs. rbind (ok_or (Invalid [ab_account_id b, i]) (book_entry_at b i)) (\<lambda>e.
                   Inr (refs @ [ei_first e]))) (rbe_entry_ids es) []) (\<lambda>refs.
            Inr \<lparr>rsv_kind = ''break-resolved'', rsv_effective = latest, rsv_body = entry_body_default,
                 rsv_state = BSResolved, rsv_entries = refs, rsv_explanation = [], rsv_by_this = False\<rparr>))
      | ByExplanation explanation \<Rightarrow>
          rbind (guard_r (Refused ReasonRequired [''explanation''] []) (trim explanation \<noteq> [])) (\<lambda>_.
            Inr \<lparr>rsv_kind = ''break-closed'', rsv_effective = latest, rsv_body = entry_body_default,
                 rsv_state = BSClosed, rsv_entries = [], rsv_explanation = explanation, rsv_by_this = False\<rparr>))"

definition resolved_break :: "break_state \<Rightarrow> break_resolution \<Rightarrow> break_record \<Rightarrow> break_record" where
  "resolved_break state how r = r\<lparr>brk_resolution := Some how, brk_state := break_state_no state\<rparr>"

definition resolve_break ::
  "known \<Rightarrow> minting \<Rightarrow> bodies \<Rightarrow> account_book \<Rightarrow> nat \<Rightarrow> act_context \<Rightarrow> resolve_request \<Rightarrow> store_error + made_act" where
  "resolve_break kn mints bodies b head cx q =
     rbind (justified cx (qrb_reason q) ''resolving or closing a break'') (\<lambda>_.
     rbind (guard_r (Invalid [''break_ids'']) (qrb_break_ids q \<noteq> [])) (\<lambda>_.
     rbind (rfold (named_once b) (qrb_break_ids q) ([], [])) (\<lambda>(named, held).
     rbind (ok_or (Invalid [''resolution'']) (qrb_resolution q)) (\<lambda>how.
     rbind (resolving_by mints bodies b cx (latest_seen held) how) (\<lambda>v.
       let outcome = resolution_of cx (qrb_reason q) (rsv_entries v) (rsv_explanation v);
           body = (rsv_body v)\<lparr>by_resolved_by_this := (if rsv_by_this v then qrb_break_ids q else by_resolved_by_this (rsv_body v)),
             by_breaks := map (resolved_break (rsv_state v) outcome) held\<rparr>
       in made kn b head cx (plain_draft mints cx (rsv_kind v) (rsv_effective v) (qrb_reason q) (qrb_break_ids q)
            (qrb_idempotency_key q) body))))))"

definition close_as_cleared ::
  "known \<Rightarrow> minting \<Rightarrow> account_book \<Rightarrow> nat \<Rightarrow> act_context \<Rightarrow> clear_request \<Rightarrow> store_error + made_act" where
  "close_as_cleared kn mints b head cx q =
     rbind (justified cx (qcb_reason q) ''closing a break as cleared'') (\<lambda>_.
     rbind (guard_r (Invalid [''break_ids'']) (qcb_break_ids q \<noteq> [])) (\<lambda>_.
     rbind (ok_or (Invalid [''cleared_at''])
       (case qcb_cleared_at q of Some s \<Rightarrow> if stf_statement_id s = [] then None else Some s | None \<Rightarrow> None)) (\<lambda>cleared.
     rbind (rfold (named_once b) (qcb_break_ids q) ([], [])) (\<lambda>(named, held).
       let how = (resolution_of cx (qcb_reason q) [] [])\<lparr>brr_cleared_at := Some cleared\<rparr>
       in made kn b head cx (plain_draft mints cx ''break-closed''
            (if is_date (stf_as_of_date cleared) then stf_as_of_date cleared else latest_seen held) (qcb_reason q)
            (qcb_break_ids q) (qcb_idempotency_key q)
            (entry_body_default\<lparr>by_breaks := map (resolved_break BSClosed how) held\<rparr>))))))"

subsection \<open>An attribute\<close>

definition is_upper :: "char \<Rightarrow> bool" where
  "is_upper c \<longleftrightarrow> 65 \<le> (of_char c :: int) \<and> (of_char c :: int) \<le> 90"

definition attribute_changed ::
  "known \<Rightarrow> account_attributes \<Rightarrow> attribute_set option \<Rightarrow> store_error + account_attributes" where
  "attribute_changed kn a s =
     (case s of
        Some (BaseCurrency code) \<Rightarrow>
          rbind (guard_r (Invalid [code]) (length code = 3 \<and> list_all is_upper code)) (\<lambda>_.
            Inr (a\<lparr>aa_base_cash_instrument_id := (case money_known kn code of None \<Rightarrow> [] | Some i \<Rightarrow> i),
                   aa_base_currency_code := code\<rparr>))
      | Some (LotReliefDefault how) \<Rightarrow>
          rbind (guard_r (Invalid [''lot_relief_default''])
            (how \<noteq> relief_method_no RMUnspecified \<and> relief_method_of how \<noteq> None)) (\<lambda>_.
            Inr (a\<lparr>aa_lot_relief_default := how\<rparr>))
      | Some (WaitsForCompliance waits) \<Rightarrow> Inr (a\<lparr>aa_waits_for_compliance := waits\<rparr>)
      | Some (ErrorAccount marked) \<Rightarrow> Inr (a\<lparr>aa_error_account := marked\<rparr>)
      | Some (AllocationAccount marked) \<Rightarrow> Inr (a\<lparr>aa_allocation_account := marked\<rparr>)
      | None \<Rightarrow> Inl (Invalid [''attribute'']))"

definition states_waits :: "account_book \<Rightarrow> attribute_set option \<Rightarrow> bool" where
  "states_waits b s \<longleftrightarrow> first_attributes b \<or> (case s of Some (WaitsForCompliance _) \<Rightarrow> True | _ \<Rightarrow> False)"

definition set_attribute ::
  "known \<Rightarrow> minting \<Rightarrow> account_book \<Rightarrow> nat \<Rightarrow> act_context \<Rightarrow> attribute_request \<Rightarrow> store_error + made_act" where
  "set_attribute kn mints b head cx q =
     rbind (justified cx (qsa_reason q) ''setting an account's attribute'') (\<lambda>_.
     rbind (attribute_changed kn (attributes_of b) (qsa_attribute q)) (\<lambda>a.
       made kn b head cx (plain_draft mints cx ''attribute-set'' (cx_today cx) (qsa_reason q) [] []
         (entry_body_default\<lparr>by_attributes := Some a, by_states_waits := states_waits b (qsa_attribute q)\<rparr>))))"

end
