(* ===== verification/Book_Frame.thy ===== *)
theory Book_Frame
  imports Book_Quantities
begin

section \<open>What an entry does to the rest of the book\<close>

text \<open>
  The lines, adjustments, encumbrances and sources of an entry change positions and nothing else;
  what an entry leaves of an account's breaks, attributes, opening balance and index of entries is
  then what its body says of them.
\<close>

definition unplaced_book :: "account_book \<Rightarrow> account_book" where
  "unplaced_book b = b\<lparr>ab_positions := []\<rparr>"

lemma unplaced_positions [simp]: "unplaced_book (b\<lparr>ab_positions := x\<rparr>) = unplaced_book b"
  by (simp add: unplaced_book_def)

lemma unplaced_chains [simp]: "unplaced_book (b\<lparr>ab_chains := x\<rparr>) = (unplaced_book b)\<lparr>ab_chains := x\<rparr>"
  by (simp add: unplaced_book_def)

lemma apply_line_unplaced: "apply_line kn sales refs n lenient line b = Inr c \<Longrightarrow> unplaced_book c = unplaced_book b"
  by (auto simp: apply_line_def rbind_eq_Inr Let_def)

lemma on_lot_unplaced [simp]: "unplaced_book (on_lot i f b) = unplaced_book b"
  by (simp add: on_lot_def split: option.split)

lemma mark_awaited_unplaced [simp]: "unplaced_book (mark_awaited kn body b) = unplaced_book b"
proof -
  have c: "unplaced_book (clear_awaited a b) = unplaced_book b" for a b
    unfolding clear_awaited_def by (cases a) (simp_all add: fold_same [where g = unplaced_book])
  have m: "unplaced_book (mark_line kn i month line b) = unplaced_book b" for i month line b by (simp add: mark_line_def)
  show ?thesis unfolding mark_awaited_def Let_def by (simp add: fold_same [where g = unplaced_book] c m split_beta)
qed

lemma apply_adjustment_unplaced: "apply_adjustment body refs lenient a b = Inr c \<Longrightarrow> unplaced_book c = unplaced_book b"
  by (cases "lot_owner b (ba_lot_id a)") (auto simp: apply_adjustment_def rbind_eq_Inr Let_def split: if_split_asm)

lemma apply_encumbrance_unplaced: "apply_encumbrance refs held b = Inr c \<Longrightarrow> unplaced_book c = unplaced_book b"
  by (cases held) (auto simp: apply_encumbrance_def rbind_eq_Inr Let_def)

lemma apply_sources_unplaced [simp]: "unplaced_book (apply_sources body b) = unplaced_book b"
  by (simp add: apply_sources_def)

lemma change_position_unplaced:
  "change_position e refs previous k s = Inr t \<Longrightarrow> unplaced_book (fst t) = unplaced_book (fst s)
     \<and> cs_first (snd t) = cs_first (snd s)"
  by (cases s; cases k) (auto simp: change_position_def rbind_eq_Inr Let_def)

text \<open>The records an entry numbers are the ones its body sets.\<close>

lemma numbered_records:
  assumes "numbered e b = (refs, n)"
  shows "map fst (rf_breaks refs) = by_breaks (et_body e)"
    "map fst (rf_attributes refs) = (case by_attributes (et_body e) of None \<Rightarrow> [] | Some a \<Rightarrow> [a])"
  using assms unfolding numbered_def take_all_def Let_def by (clarsimp split: prod.splits dest!: take_refs_runs)+

lemma apply_entry_unplaced:
  assumes "apply_entry kn e lenient b = Inr (b', cs)"
  obtains refs first l c and n :: numbering where
    "map fst (rf_breaks refs) = by_breaks (et_body e)"
    "map fst (rf_attributes refs) = (case by_attributes (et_body e) of None \<Rightarrow> [] | Some a \<Rightarrow> [a])"
    "unplaced_book c = (unplaced_book b)\<lparr>ab_chains := nb_chains n\<rparr>"
    "b' = close_entry e first (fst (set_records (et_body e) refs (c, changes_of first l))\<lparr>ab_ledger := ab_ledger b'\<rparr>)"
    "cs_first cs = first"
proof -
  from assms obtain previous refs first and n :: numbering where
    num: "numbered e b = (refs, n)" and
    a: "apply_numbered kn e lenient previous refs first (nb_sequence n - 1) (b\<lparr>ab_chains := nb_chains n\<rparr>) = Inr (b', cs)"
    by (rule apply_entry_stages)
  from a obtain b1 b2 b3 b4 cs4 b5 cs5 l where s:
    "rfold (apply_line kn (sales_of (et_body e) (em_effective_date (et_meta e)) (ab_account_id b) (ab_ledger b))
        refs (et_first_sequence e) lenient) (by_lines (et_body e)) (b\<lparr>ab_chains := nb_chains n\<rparr>) = Inr b1"
    "rfold (apply_adjustment (et_body e) refs lenient) (by_basis_adjustments (et_body e))
        (mark_awaited kn (et_body e) b1) = Inr b2"
    "rfold (apply_encumbrance refs) (by_encumbrances (et_body e)) b2 = Inr b3"
    "rfold (change_position e refs previous) (book_touched b (et_body e))
        (apply_sources (et_body e) b3, changes_of first (nb_sequence n - 1)) = Inr (b4, cs4)"
    "set_records (et_body e) refs (b4, cs4) = (b5, cs5)"
    "b' = close_entry e first (b5\<lparr>ab_ledger := l\<rparr>)"
    by (rule apply_numbered_stages) (simp_all add: sales_of_def)
  have "unplaced_book b1 = unplaced_book (b\<lparr>ab_chains := nb_chains n\<rparr>)"
    by (rule rfold_same [where g = unplaced_book, OF s(1)]) (rule apply_line_unplaced)
  moreover have "unplaced_book b2 = unplaced_book (mark_awaited kn (et_body e) b1)"
    by (rule rfold_same [where g = unplaced_book, OF s(2)]) (rule apply_adjustment_unplaced)
  moreover have "unplaced_book b3 = unplaced_book b2"
    by (rule rfold_same [where g = unplaced_book, OF s(3)]) (rule apply_encumbrance_unplaced)
  moreover have "(\<lambda>s. (unplaced_book (fst s), cs_first (snd s))) (b4, cs4)
      = (\<lambda>s. (unplaced_book (fst s), cs_first (snd s))) (apply_sources (et_body e) b3, changes_of first (nb_sequence n - 1))"
    by (rule rfold_same [OF s(4)]) (auto dest: change_position_unplaced)
  ultimately have u: "unplaced_book b4 = (unplaced_book b)\<lparr>ab_chains := nb_chains n\<rparr>" "cs_first cs4 = first"
    by (simp_all add: changes_of_def)
  have "fst (set_records (et_body e) refs (b4, cs4)) = fst (set_records (et_body e) refs (b4, changes_of first 0))"
    using u(2) by (simp add: set_records_def Let_def changes_of_def)
  with s(5,6) have "b' = close_entry e first (fst (set_records (et_body e) refs (b4, changes_of first 0))\<lparr>ab_ledger := ab_ledger b'\<rparr>)"
    by simp
  moreover have "cs_first cs = first" using apply_numbered_chains [OF a] by simp
  ultimately show thesis by (intro that [OF numbered_records [OF num] u(1)])
qed


lemma unplaced_fields:
  assumes "unplaced_book c = (unplaced_book b)\<lparr>ab_chains := x\<rparr>"
  shows "ab_breaks c = ab_breaks b" "ab_attributes c = ab_attributes b" "ab_opening c = ab_opening b"
    "ab_reversed_openings c = ab_reversed_openings b" "ab_entries c = ab_entries b" "ab_account_id c = ab_account_id b"
    "ab_partition c = ab_partition b" "ab_waits_stated c = ab_waits_stated b"
  using arg_cong [OF assms, of ab_breaks] arg_cong [OF assms, of ab_attributes] arg_cong [OF assms, of ab_opening]
    arg_cong [OF assms, of ab_reversed_openings] arg_cong [OF assms, of ab_entries]
    arg_cong [OF assms, of ab_account_id] arg_cong [OF assms, of ab_partition] arg_cong [OF assms, of ab_waits_stated]
  by (simp_all add: unplaced_book_def)

definition reversing :: "book_entry \<Rightarrow> entry_index list \<Rightarrow> entry_index list" where
  "reversing e es =
     (if by_reverses (et_body e) = [] then es
      else on_first (\<lambda>h. ei_entry_id h = by_reverses (et_body e)) (\<lambda>h. h\<lparr>ei_reversed_by := Some (et_entry_id e)\<rparr>) es)"

definition opened_by :: "entry_body \<Rightarrow> (string \<times> string) option \<Rightarrow> (string \<times> string) option" where
  "opened_by body standing =
     (case by_opening body of Some ob \<Rightarrow> Some (ob_entry_id ob, ob_as_of_date ob) | None \<Rightarrow> standing)"

text \<open>What an entry leaves of the book but its positions and its orders.\<close>

lemma apply_entry_rest:
  assumes "apply_entry kn e lenient b = Inr (b', cs)"
  shows "ab_entries b' = reversing e (ab_entries b) @ [entry_index_of e (cs_first cs)]"
    "ab_opening b' = (if by_clears_opening (et_body e) then None else opened_by (et_body e) (ab_opening b))"
    "ab_account_id b' = ab_account_id b" "ab_partition b' = ab_partition b"
    "ab_waits_stated b' \<longleftrightarrow> by_states_waits (et_body e) \<or> ab_waits_stated b"
    "\<exists>brs. map fst brs = by_breaks (et_body e) \<and> ab_breaks b' =
       fold (\<lambda>r. bt_insert (brk_break_id r) r) (map (break_set (et_body e) (cs_first cs)) brs) (ab_breaks b)"
    "\<exists>ref. ab_attributes b' = (case by_attributes (et_body e) of
       None \<Rightarrow> ab_attributes b | Some a \<Rightarrow> Some (attributes_set (et_body e) (cs_first cs) (a, ref)))"
proof -
  from assms obtain refs c first k and n :: numbering where s:
    "map fst (rf_breaks refs) = by_breaks (et_body e)"
    "map fst (rf_attributes refs) = (case by_attributes (et_body e) of None \<Rightarrow> [] | Some a \<Rightarrow> [a])"
    "unplaced_book c = (unplaced_book b)\<lparr>ab_chains := nb_chains n\<rparr>"
    "b' = close_entry e first (fst (set_records (et_body e) refs (c, changes_of first k))\<lparr>ab_ledger := ab_ledger b'\<rparr>)"
    "cs_first cs = first"
    by (rule apply_entry_unplaced)
  note c = unplaced_fields [OF s(3)] and defs = close_entry_def set_records_def changes_of_def Let_def reversing_def opened_by_def
  show "ab_entries b' = reversing e (ab_entries b) @ [entry_index_of e (cs_first cs)]"
    by (subst s(4)) (simp add: defs c s(5) split: prod.splits)
  show "ab_opening b' = (if by_clears_opening (et_body e) then None else opened_by (et_body e) (ab_opening b))"
    by (subst s(4)) (simp add: defs c split: prod.splits option.splits)
  show "ab_account_id b' = ab_account_id b" "ab_partition b' = ab_partition b"
    "ab_waits_stated b' \<longleftrightarrow> by_states_waits (et_body e) \<or> ab_waits_stated b"
    by (subst s(4), simp add: defs c split: prod.splits)+
  have "ab_breaks b' = fold (\<lambda>r. bt_insert (brk_break_id r) r) (map (break_set (et_body e) (cs_first cs)) (rf_breaks refs)) (ab_breaks b)"
    by (subst s(4)) (simp add: defs c s(5) split: prod.splits)
  with s(1) show "\<exists>brs. map fst brs = by_breaks (et_body e) \<and> ab_breaks b' =
       fold (\<lambda>r. bt_insert (brk_break_id r) r) (map (break_set (et_body e) (cs_first cs)) brs) (ab_breaks b)" by blast
  have "ab_attributes b' = (case map (attributes_set (et_body e) (cs_first cs)) (rf_attributes refs) of
       [] \<Rightarrow> ab_attributes b | a # _ \<Rightarrow> Some a)"
    by (subst s(4)) (simp add: defs c s(5) split: prod.splits list.splits)
  with s(2) show "\<exists>ref. ab_attributes b' = (case by_attributes (et_body e) of
       None \<Rightarrow> ab_attributes b | Some a \<Rightarrow> Some (attributes_set (et_body e) (cs_first cs) (a, ref)))"
    by (auto split: option.splits)
qed

end
