(* ===== verification/Book_Account.thy ===== *)
theory Book_Account
  imports Book_Resolve Book_Frame
begin

section \<open>An account's commands\<close>

text \<open>
  The account's commands as \<open>serve\<close> of \<open>crates/bor/src/service.rs\<close> gives each to its act, and a run of
  them: the book each leaves, and the bodies of the entries made so far, which the store gives a
  reversal back. An entry's identifier is the book's own mint, new and not empty.
\<close>

datatype account_command =
    RecordOpeningBalance opening_request
  | RecordBreak break_request
  | RecordAccountFigures figures_request
  | RecordEncumbrances encumbrances_request
  | HandleBreak handle_request
  | ResolveBreak resolve_request
  | CloseBreaksAsCleared clear_request
  | SetAccountAttribute attribute_request

definition account_act ::
  "known \<Rightarrow> minting \<Rightarrow> bodies \<Rightarrow> account_book \<Rightarrow> nat \<Rightarrow> act_context \<Rightarrow> account_command \<Rightarrow> store_error + made_act" where
  "account_act kn mints bodies b head cx c =
     (case c of
        RecordOpeningBalance q \<Rightarrow> record_opening_balance kn mints b head cx q
      | RecordBreak q \<Rightarrow> record_break kn mints b head cx q
      | RecordAccountFigures q \<Rightarrow> account_figures_act kn mints b head cx q
      | RecordEncumbrances q \<Rightarrow> encumbrances_act kn mints b head cx q
      | HandleBreak q \<Rightarrow> handle_break kn mints b head cx q
      | ResolveBreak q \<Rightarrow> resolve_break kn mints bodies b head cx q
      | CloseBreaksAsCleared q \<Rightarrow> close_as_cleared kn mints b head cx q
      | SetAccountAttribute q \<Rightarrow> set_attribute kn mints b head cx q)"

definition new_entry_id :: "account_book \<Rightarrow> string \<Rightarrow> bool" where
  "new_entry_id b i \<longleftrightarrow> i \<noteq> [] \<and> i \<notin> ei_entry_id ` set (ab_entries b)"

inductive account_run :: "known \<Rightarrow> (account_book \<Rightarrow> account_command \<Rightarrow> bool) \<Rightarrow> account_book \<Rightarrow> bodies \<Rightarrow> bool" for kn sent where
  entered: "account_run kn sent (book_new account part) Map.empty"
| act: "account_run kn sent b bodies \<Longrightarrow> sent b c \<Longrightarrow> account_act kn mints bodies b head cx c = Inr m
    \<Longrightarrow> new_entry_id b (mints MINT_ENTRY 0)
    \<Longrightarrow> account_run kn sent (md_book m) (bodies(mints MINT_ENTRY 0 \<mapsto> et_body (md_entry m)))"

text \<open>A command that does not reverse a reversal.\<close>

definition no_reversal_reversed :: "account_book \<Rightarrow> account_command \<Rightarrow> bool" where
  "no_reversal_reversed b c \<longleftrightarrow>
     (case c of
        ResolveBreak q \<Rightarrow>
          (case qrb_resolution q of
             Some (ByReversal r) \<Rightarrow>
               (case book_entry_at b (rvs_entry_id r) of None \<Rightarrow> True | Some e \<Rightarrow> ei_reverses e = [])
           | _ \<Rightarrow> True)
      | _ \<Rightarrow> True)"

section \<open>What each act writes\<close>

definition quiet_body :: "entry_body \<Rightarrow> bool" where
  "quiet_body body \<longleftrightarrow> by_lines body = [] \<and> by_basis_adjustments body = [] \<and> by_reverses body = []
     \<and> by_opening body = None \<and> \<not> by_clears_opening body"

datatype body_kind = Quiet | Opens | Adjusts | Reverses string

definition body_is :: "bodies \<Rightarrow> account_book \<Rightarrow> string \<Rightarrow> entry_body \<Rightarrow> body_kind \<Rightarrow> bool" where
  "body_is bodies b i body k \<longleftrightarrow>
     (case k of
        Quiet \<Rightarrow> quiet_body body
      | Opens \<Rightarrow> ab_opening b = None \<and> by_reverses body = [] \<and> \<not> by_clears_opening body
          \<and> (\<exists>ob. by_opening body = Some ob \<and> ob_entry_id ob = i)
      | Adjusts \<Rightarrow> ab_opening b \<noteq> None \<and> by_reverses body = [] \<and> \<not> by_clears_opening body \<and> by_opening body = None
      | Reverses r \<Rightarrow> \<exists>rbody effective. reversal_body bodies b r = Inr (rbody, effective)
          \<and> by_lines body = by_lines rbody \<and> by_basis_adjustments body = by_basis_adjustments rbody
          \<and> by_reverses body = r \<and> by_opening body = None \<and> by_clears_opening body = is_opening b r)"

lemma body_default [simp]:
  "by_lines entry_body_default = []" "by_basis_adjustments entry_body_default = []" "by_reverses entry_body_default = []"
  "by_opening entry_body_default = None" "\<not> by_clears_opening entry_body_default"
  "by_acts entry_body_default = []"
  by (simp_all add: entry_body_default_def)

lemma plain_draft_simps [simp]:
  "dr_entry_id (plain_draft mints cx kind effective reason breaks key body) = mints MINT_ENTRY 0"
  "dr_body (plain_draft mints cx kind effective reason breaks key body) = body"
  by (simp_all add: plain_draft_def)

lemma opening_act_body:
  assumes "record_opening_balance kn mints b head cx q = Inr m"
  shows "\<exists>d. made kn b head cx d = Inr m \<and> dr_entry_id d = mints MINT_ENTRY 0
    \<and> body_is bodies b (mints MINT_ENTRY 0) (dr_body d) Opens"
proof -
  from assms obtain lines where "made kn b head cx (opening_draft b cx q (mints MINT_ENTRY 0) lines) = Inr m" "ab_opening b = None"
    unfolding record_opening_balance_def by (auto simp: rbind_eq_Inr split: option.splits)
  moreover have "by_opening (dr_body (opening_draft b cx q (mints MINT_ENTRY 0) lines)) \<noteq> None"
    by (simp add: opening_draft_def Let_def)
  ultimately show ?thesis
    by (intro exI [of _ "opening_draft b cx q (mints MINT_ENTRY 0) lines"]) (simp add: opening_draft_def body_is_def Let_def)
qed

lemma adjustment_act_body:
  assumes "adjustment_body mints b cx a = Inr body"
  shows "by_reverses body = []" "\<not> by_clears_opening body" "by_opening body = None"
  using assms by (auto simp: adjustment_body_def rbind_eq_Inr Let_def split: prod.splits)

lemma reversal_act_body:
  assumes "reversal_body bodies b i = Inr (body, effective)"
  shows "by_reverses body = i" "by_opening body = None" "by_clears_opening body = is_opening b i"
  using assms by (auto simp: reversal_body_def rbind_eq_Inr reversal_of_def Let_def split: prod.splits if_splits)

lemma resolve_act_body:
  assumes "resolve_break kn mints bodies b head cx q = Inr m"
  shows "\<exists>d k. made kn b head cx d = Inr m \<and> dr_entry_id d = mints MINT_ENTRY 0
    \<and> body_is bodies b (mints MINT_ENTRY 0) (dr_body d) k
    \<and> (case k of Quiet \<Rightarrow> True | Adjusts \<Rightarrow> True | Opens \<Rightarrow> False
       | Reverses r \<Rightarrow> \<exists>x. qrb_resolution q = Some (ByReversal x) \<and> rvs_entry_id x = r)"
proof -
  from assms obtain how v body where how: "qrb_resolution q = Some how"
    and v: "\<exists>latest. resolving_by mints bodies b cx latest how = Inr v"
    and m: "\<exists>kind effective reason breaks key. made kn b head cx (plain_draft mints cx kind effective reason breaks key body) = Inr m"
    and body: "by_lines body = by_lines (rsv_body v)" "by_basis_adjustments body = by_basis_adjustments (rsv_body v)"
      "by_reverses body = by_reverses (rsv_body v)" "by_opening body = by_opening (rsv_body v)"
      "by_clears_opening body = by_clears_opening (rsv_body v)"
    unfolding resolve_break_def by (clarsimp simp: rbind_eq_Inr Let_def ok_or_eq_Inr split: prod.splits) fastforce
  from m obtain d where d: "made kn b head cx d = Inr m" "dr_entry_id d = mints MINT_ENTRY 0" "dr_body d = body"
    by (elim exE) (rule that, assumption, simp_all)
  show ?thesis
  proof (cases how)
    case (ByAdjustment a)
    with v have "ab_opening b \<noteq> None" "adjustment_body mints b cx a = Inr (rsv_body v)"
      by (auto simp: resolving_by_def rbind_eq_Inr opening_required_def ok_or_eq_Inr)
    with adjustment_act_body body have "body_is bodies b (mints MINT_ENTRY 0) body Adjusts" by (simp add: body_is_def)
    with d show ?thesis by (intro exI [of _ d] exI [of _ Adjusts]) simp
  next
    case (ByReversal r)
    with v obtain effective where "reversal_body bodies b (rvs_entry_id r) = Inr (rsv_body v, effective)"
      by (auto simp: resolving_by_def rbind_eq_Inr)
    with reversal_act_body [OF this] body have "body_is bodies b (mints MINT_ENTRY 0) body (Reverses (rvs_entry_id r))"
      by (auto simp: body_is_def)
    with d how ByReversal show ?thesis by (intro exI [of _ d] exI [of _ "Reverses (rvs_entry_id r)"]) simp
  next
    case (ByEntries es)
    with v body have "body_is bodies b (mints MINT_ENTRY 0) body Quiet"
      by (auto simp: resolving_by_def rbind_eq_Inr body_is_def quiet_body_def)
    with d show ?thesis by (intro exI [of _ d] exI [of _ Quiet]) simp
  next
    case (ByExplanation s)
    with v body have "body_is bodies b (mints MINT_ENTRY 0) body Quiet"
      by (auto simp: resolving_by_def rbind_eq_Inr body_is_def quiet_body_def)
    with d show ?thesis by (intro exI [of _ d] exI [of _ Quiet]) simp
  qed
qed


lemma account_act_body:
  assumes "account_act kn mints bodies b head cx c = Inr m"
  shows "\<exists>d k. made kn b head cx d = Inr m \<and> dr_entry_id d = mints MINT_ENTRY 0
    \<and> body_is bodies b (mints MINT_ENTRY 0) (dr_body d) k
    \<and> (\<forall>r. k = Reverses r \<longrightarrow>
         (\<exists>q x. c = ResolveBreak q \<and> qrb_resolution q = Some (ByReversal x) \<and> rvs_entry_id x = r))"
proof -
  let ?quiet = "\<exists>kind effective reason breaks key body.
     made kn b head cx (plain_draft mints cx kind effective reason breaks key body) = Inr m \<and> quiet_body body"
  have quiet: ?thesis if ?quiet
  proof -
    from that obtain kind effective reason breaks key body where
      "made kn b head cx (plain_draft mints cx kind effective reason breaks key body) = Inr m" "quiet_body body" by blast
    then show ?thesis
      by (intro exI [of _ "plain_draft mints cx kind effective reason breaks key body"] exI [of _ Quiet]) (simp add: body_is_def)
  qed
  show ?thesis
  proof (cases c)
    case (RecordOpeningBalance q)
    with assms opening_act_body show ?thesis by (fastforce simp: account_act_def)
  next
    case (ResolveBreak q)
    with assms have "resolve_break kn mints bodies b head cx q = Inr m" by (simp add: account_act_def)
    from resolve_act_body [OF this] ResolveBreak show ?thesis by fastforce
  next
    case (RecordBreak q)
    with assms have ?quiet
      by (auto simp: account_act_def record_break_def rbind_eq_Inr) (intro exI conjI, assumption, simp add: quiet_body_def)
    then show ?thesis by (rule quiet)
  next
    case (RecordAccountFigures q)
    with assms have ?quiet
      by (auto simp: account_act_def account_figures_act_def rbind_eq_Inr) (intro exI conjI, assumption, simp add: quiet_body_def)
    then show ?thesis by (rule quiet)
  next
    case (RecordEncumbrances q)
    with assms have ?quiet
      by (auto simp: account_act_def encumbrances_act_def rbind_eq_Inr) (intro exI conjI, assumption, simp add: quiet_body_def)
    then show ?thesis by (rule quiet)
  next
    case (HandleBreak q)
    with assms have ?quiet
      by (auto simp: account_act_def handle_break_def rbind_eq_Inr) (intro exI conjI, assumption, simp add: quiet_body_def)
    then show ?thesis by (rule quiet)
  next
    case (CloseBreaksAsCleared q)
    with assms have ?quiet
      by (auto simp: account_act_def close_as_cleared_def rbind_eq_Inr Let_def) (intro exI conjI, assumption, simp add: quiet_body_def)
    then show ?thesis by (rule quiet)
  next
    case (SetAccountAttribute q)
    with assms have ?quiet
      by (auto simp: account_act_def set_attribute_def rbind_eq_Inr) (intro exI conjI, assumption, simp add: quiet_body_def)
    then show ?thesis by (rule quiet)
  qed
qed

section \<open>What stands in an account\<close>

text \<open>The entries that move its positions and stand, and what their lines come to on a position.\<close>

definition standing_entries :: "account_book \<Rightarrow> entry_index list" where
  "standing_entries b = filter stands_later (ab_entries b)"

definition body_val :: "pos_key \<Rightarrow> entry_body \<Rightarrow> rat" where
  "body_val k body = (\<Sum>line\<leftarrow>by_lines body. line_val k line)"

definition stated_val :: "bodies \<Rightarrow> pos_key \<Rightarrow> entry_index \<Rightarrow> rat" where
  "stated_val bodies k e = (case bodies (ei_entry_id e) of None \<Rightarrow> 0 | Some body \<Rightarrow> body_val k body)"

lemma negated_wire_val [simp]: "wire_val (negated_wire w) = - wire_val w"
proof (cases w)
  case (Some d)
  show ?thesis
  proof (cases "from_wire d")
    case (Inl e)
    then show ?thesis by (simp add: Some negated_wire_def wire_val_def wire_or_zero_def)
  next
    case (Inr x)
    then have "exact_ok x" by (auto simp: from_wire_def dest: ex_new_ok)
    then show ?thesis
      using Inr by (simp add: Some negated_wire_def wire_val_def wire_or_zero_def from_to_wire)
  qed
qed (simp add: negated_wire_def)

lemma reversal_val:
  assumes "reversal_body bodies b i = Inr (rbody, effective)" "bodies i = Some body"
  shows "body_val k rbody = - body_val k body"
proof -
  from assms have "by_lines rbody = map reversed_line (by_lines body)"
    by (auto simp: reversal_body_def rbind_eq_Inr reversal_of_def Let_def ok_or_eq_Inr split: prod.splits if_splits)
  moreover have "line_val k (reversed_line line) = - line_val k line" for line
    by (simp add: reversed_line_def line_val_def line_key_def)
  then have "(\<Sum>line\<leftarrow>map reversed_line lines. line_val k line) = - (\<Sum>line\<leftarrow>lines. line_val k line)" for lines
    by (induction lines) simp_all
  ultimately show ?thesis by (simp add: body_val_def)
qed

lemma standing_reversed:
  assumes "distinct (map ei_entry_id es)"
  shows "filter stands_later (on_first (\<lambda>h. ei_entry_id h = i) (\<lambda>h. h\<lparr>ei_reversed_by := Some x\<rparr>) es)
    = filter (\<lambda>h. ei_entry_id h \<noteq> i) (filter stands_later es)"
  using assms
proof (induction es)
  case (Cons e es)
  then show ?case
    by (cases "ei_entry_id e = i") (auto simp: stands_later_def image_iff intro!: filter_cong)
qed simp

lemma ids_kept: "map ei_entry_id (on_first p (\<lambda>h. h\<lparr>ei_reversed_by := x\<rparr>) es) = map ei_entry_id es"
  by (induction es) auto

lemma others_val:
  assumes "distinct (map ei_entry_id es)" "e \<in> set es"
  shows "(\<Sum>h\<leftarrow>filter (\<lambda>h. ei_entry_id h \<noteq> ei_entry_id e) es. f h) = (\<Sum>h\<leftarrow>es. f h) - (f e :: rat)"
  using assms
proof (induction es)
  case (Cons h es)
  show ?case
  proof (cases "h = e")
    case True
    with Cons.prems(1) have "filter (\<lambda>h. ei_entry_id h \<noteq> ei_entry_id e) es = es"
      by (auto simp: filter_id_conv image_iff)
    with True show ?thesis by simp
  next
    case False
    with Cons have "e \<in> set es" "ei_entry_id h \<noteq> ei_entry_id e" by (auto simp: image_iff)
    with Cons show ?thesis by simp
  qed
qed simp


lemma made_effects:
  assumes "made kn b head cx d = Inr m" "book_ok b"
  shows "book_ok (md_book m)" "held_val (md_book m) k = held_val b k + body_val k (dr_body d)"
    "ab_opening (md_book m) = (if by_clears_opening (dr_body d) then None else opened_by (dr_body d) (ab_opening b))"
    "et_body (md_entry m) = dr_body d"
    "\<exists>x. ab_entries (md_book m) =
       (if by_reverses (dr_body d) = [] then ab_entries b
        else on_first (\<lambda>h. ei_entry_id h = by_reverses (dr_body d)) (\<lambda>h. h\<lparr>ei_reversed_by := Some (dr_entry_id d)\<rparr>) (ab_entries b))
       @ [x] \<and> ei_entry_id x = dr_entry_id d \<and> ei_reversed_by x = None
       \<and> ei_moves_positions x = moves_positions (dr_body d) \<and> ei_reverses x = by_reverses (dr_body d)"
proof -
  note s = made_stages [OF assms(1)]
  note m = apply_entry_moves [OF s(1) assms(2)] and r = apply_entry_rest [OF s(1)]
  show "book_ok (md_book m)" by (rule m(1))
  show "held_val (md_book m) k = held_val b k + body_val k (dr_body d)" using m(2) [of k] by (simp add: body_val_def)
  show "ab_opening (md_book m) = (if by_clears_opening (dr_body d) then None else opened_by (dr_body d) (ab_opening b))"
    using r(2) by simp
  show "et_body (md_entry m) = dr_body d" by (simp add: s(4))
  show "\<exists>x. ab_entries (md_book m) =
       (if by_reverses (dr_body d) = [] then ab_entries b
        else on_first (\<lambda>h. ei_entry_id h = by_reverses (dr_body d)) (\<lambda>h. h\<lparr>ei_reversed_by := Some (dr_entry_id d)\<rparr>) (ab_entries b))
       @ [x] \<and> ei_entry_id x = dr_entry_id d \<and> ei_reversed_by x = None
       \<and> ei_moves_positions x = moves_positions (dr_body d) \<and> ei_reverses x = by_reverses (dr_body d)"
    using r(1) by (intro exI [of _ "entry_index_of (drafted b head cx d) (cs_first (md_changes m))"])
      (simp add: reversing_def entry_index_of_def drafted_def)
qed

definition opening_first :: "account_book \<Rightarrow> bool" where
  "opening_first b \<longleftrightarrow>
     (case ab_opening b of
        None \<Rightarrow> standing_entries b = []
      | Some (i, _) \<Rightarrow> i \<in> ei_entry_id ` set (ab_entries b)
          \<and> (\<forall>e \<in> set (takeWhile (\<lambda>e. ei_entry_id e \<noteq> i) (ab_entries b)). \<not> stands_later e))"

definition accounted :: "account_book \<Rightarrow> bodies \<Rightarrow> bool" where
  "accounted b bodies \<longleftrightarrow> book_ok b \<and> distinct (map ei_entry_id (ab_entries b)) \<and> [] \<notin> ei_entry_id ` set (ab_entries b)
     \<and> (\<forall>e \<in> set (ab_entries b). bodies (ei_entry_id e) \<noteq> None)
     \<and> (\<forall>k. held_val b k = (\<Sum>e\<leftarrow>standing_entries b. stated_val bodies k e))
     \<and> opening_first b"

lemma stated_val_new:
  "i \<notin> ei_entry_id ` set es \<Longrightarrow> (\<Sum>e\<leftarrow>filter P es. stated_val (bodies(i \<mapsto> body)) k e) = (\<Sum>e\<leftarrow>filter P es. stated_val bodies k e)"
  by (rule arg_cong [where f = sum_list], rule map_cong [OF refl]) (auto simp: stated_val_def)

lemma before_reversed:
  assumes "\<And>h. ei_entry_id (f h) = ei_entry_id h" "\<And>h. \<not> stands_later (f h)"
    and "\<forall>e \<in> set (takeWhile (\<lambda>e. ei_entry_id e \<noteq> i) es). \<not> stands_later e"
  shows "\<forall>e \<in> set (takeWhile (\<lambda>e. ei_entry_id e \<noteq> i) (on_first p f es)). \<not> stands_later e"
  using assms(3) by (induction es) (auto simp: assms(1,2) split: if_splits)

lemma takeWhile_snoc: "i \<in> ei_entry_id ` set es \<Longrightarrow>
    takeWhile (\<lambda>e. ei_entry_id e \<noteq> i) (es @ fs) = takeWhile (\<lambda>e. ei_entry_id e \<noteq> i) es"
  by (auto simp: takeWhile_append)

text \<open>An entry that reverses nothing.\<close>

lemma forward_accounted:
  assumes acc: "accounted b bodies" and m: "made kn b head cx d = Inr m" and new: "new_entry_id b (dr_entry_id d)"
    and body: "by_reverses (dr_body d) = []" "\<not> by_clears_opening (dr_body d)"
    and opens: "ab_opening b = None \<Longrightarrow> (by_opening (dr_body d) = None \<longrightarrow> \<not> moves_positions (dr_body d))"
      "\<And>ob. by_opening (dr_body d) = Some ob \<Longrightarrow> ab_opening b = None \<and> ob_entry_id ob = dr_entry_id d"
  shows "accounted (md_book m) (bodies(dr_entry_id d \<mapsto> et_body (md_entry m)))"
proof -
  from acc have ok: "book_ok b" by (simp add: accounted_def)
  note e = made_effects [OF m ok]
  from e(5) body(1) obtain x where x: "ab_entries (md_book m) = ab_entries b @ [x]" "ei_entry_id x = dr_entry_id d"
    "ei_reversed_by x = None" "ei_moves_positions x = moves_positions (dr_body d)" "ei_reverses x = []" by auto
  let ?new = "if moves_positions (dr_body d) then [x] else []"
  have st: "standing_entries (md_book m) = standing_entries b @ ?new"
    by (simp add: standing_entries_def x stands_later_def)
  have val: "(\<Sum>h\<leftarrow>?new. stated_val (bodies(dr_entry_id d \<mapsto> et_body (md_entry m))) k h) = body_val k (dr_body d)" for k
    by (simp add: stated_val_def x e(4) body_val_def moves_positions_def)
  have fresh: "dr_entry_id d \<noteq> []" "dr_entry_id d \<notin> ei_entry_id ` set (ab_entries b)" using new by (simp_all add: new_entry_id_def)
  have "held_val (md_book m) k = (\<Sum>h\<leftarrow>standing_entries (md_book m). stated_val (bodies(dr_entry_id d \<mapsto> et_body (md_entry m))) k h)" for k
  proof -
    have "held_val b k = (\<Sum>h\<leftarrow>standing_entries b. stated_val bodies k h)"
      using acc by (simp add: accounted_def del: split_paired_All)
    moreover note stated_val_new [OF fresh(2), where P = stands_later, folded standing_entries_def]
    ultimately show ?thesis using e(2) [of k] val [of k] by (simp only: st map_append sum_list_append)
  qed
  moreover have "opening_first (md_book m)"
  proof (cases "by_opening (dr_body d)")
    case None
    with e(3) body have o: "ab_opening (md_book m) = ab_opening b" by (simp add: opened_by_def)
    show ?thesis
    proof (cases "ab_opening b")
      case none: None
      with acc opens(1) None show ?thesis by (simp add: accounted_def opening_first_def o st)
    next
      case (Some s)
      with acc show ?thesis by (cases s) (auto simp: accounted_def opening_first_def o x takeWhile_snoc)
    qed
  next
    case (Some ob)
    with e(3) body opens(2) have o: "ab_opening (md_book m) = Some (dr_entry_id d, ob_as_of_date ob)"
      and none: "standing_entries b = []"
      using acc by (auto simp: opened_by_def accounted_def opening_first_def)
    from none have "\<forall>e \<in> set (ab_entries b). \<not> stands_later e" by (simp add: standing_entries_def filter_empty_conv)
    with o x show ?thesis by (auto simp: opening_first_def dest!: set_takeWhileD)
  qed
  ultimately show ?thesis using acc e(1) fresh by (simp add: accounted_def x)
qed


text \<open>A reversal of an entry that is no reversal.\<close>

lemma reversal_accounted:
  assumes acc: "accounted b bodies" and m: "made kn b head cx d = Inr m" and new: "new_entry_id b (dr_entry_id d)"
    and rev: "reversal_body bodies b i = Inr (rbody, effective)"
    and body: "by_lines (dr_body d) = by_lines rbody" "by_reverses (dr_body d) = i" "by_opening (dr_body d) = None"
      "by_clears_opening (dr_body d) = is_opening b i"
    and forward: "\<And>e. book_entry_at b i = Some e \<Longrightarrow> ei_reverses e = []"
  shows "accounted (md_book m) (bodies(dr_entry_id d \<mapsto> et_body (md_entry m)))"
proof -
  from acc have ok: "book_ok b" by (simp add: accounted_def)
  note e = made_effects [OF m ok]
  from rev obtain h given where h: "book_entry_at b i = Some h" "ei_reversed_by h = None" "ei_moves_positions h"
    "bodies i = Some given" and stands: "is_opening b i \<Longrightarrow> find stands_later (entries_after b i) = None"
    by (auto simp: reversal_body_def rbind_eq_Inr ok_or_eq_Inr guard_r_eq_Inr split: option.splits if_splits)
  from h(1) have h': "h \<in> set (ab_entries b)" "ei_entry_id h = i" by (auto simp: book_entry_at_def find_Some_iff)
  have "[] \<notin> ei_entry_id ` set (ab_entries b)" using acc by (simp add: accounted_def)
  with h' have i: "i \<noteq> []" by force
  from acc have d: "distinct (map ei_entry_id (ab_entries b))" by (simp add: accounted_def)
  define f where "f = (\<lambda>h :: entry_index. h\<lparr>ei_reversed_by := Some (dr_entry_id d)\<rparr>)"
  from e(5) i body(2) obtain x where x: "ab_entries (md_book m) = on_first (\<lambda>h. ei_entry_id h = i) f (ab_entries b) @ [x]"
    "ei_entry_id x = dr_entry_id d" "ei_reverses x = i" by (auto simp: f_def)
  have hs: "h \<in> set (standing_entries b)"
    using h h' forward [OF h(1)] by (simp add: standing_entries_def stands_later_def)
  have ds: "distinct (map ei_entry_id (standing_entries b))" using d by (simp add: standing_entries_def distinct_map_filter)
  have st: "standing_entries (md_book m) = filter (\<lambda>g. ei_entry_id g \<noteq> i) (standing_entries b)"
    using i standing_reversed [OF d, of i "dr_entry_id d"]
    by (simp add: standing_entries_def x f_def stands_later_def)
  then have st': "standing_entries (md_book m) = filter (\<lambda>g. stands_later g \<and> ei_entry_id g \<noteq> i) (ab_entries b)"
    by (auto simp: standing_entries_def [of b] intro: filter_cong)
  have ids: "map ei_entry_id (ab_entries (md_book m)) = map ei_entry_id (ab_entries b) @ [dr_entry_id d]"
    by (simp add: x f_def ids_kept)
  have fresh: "dr_entry_id d \<noteq> []" "dr_entry_id d \<notin> ei_entry_id ` set (ab_entries b)" using new by (simp_all add: new_entry_id_def)
  have "held_val (md_book m) k = (\<Sum>g\<leftarrow>standing_entries (md_book m). stated_val (bodies(dr_entry_id d \<mapsto> et_body (md_entry m))) k g)" for k
  proof -
    have "held_val b k = (\<Sum>g\<leftarrow>standing_entries b. stated_val bodies k g)"
      using acc by (simp add: accounted_def del: split_paired_All)
    moreover have "stated_val bodies k h = body_val k given" by (simp add: stated_val_def h' h(4))
    moreover have "body_val k (dr_body d) = - body_val k given"
      using reversal_val [OF rev h(4)] by (simp add: body_val_def body(1))
    moreover have "(\<Sum>g\<leftarrow>standing_entries (md_book m). stated_val (bodies(dr_entry_id d \<mapsto> et_body (md_entry m))) k g)
        = (\<Sum>g\<leftarrow>standing_entries (md_book m). stated_val bodies k g)"
      unfolding st' by (rule stated_val_new [OF fresh(2)])
    ultimately show ?thesis using e(2) [of k] others_val [OF ds hs, of "stated_val bodies k"] by (simp add: st h')
  qed
  moreover have "opening_first (md_book m)"
  proof (cases "is_opening b i")
    case True
    with acc obtain since where o: "ab_opening b = Some (i, since)" by (auto simp: is_opening_def split: option.splits)
    have split: "ab_entries b = takeWhile (\<lambda>g. ei_entry_id g \<noteq> i) (ab_entries b) @ hd (dropWhile (\<lambda>g. ei_entry_id g \<noteq> i) (ab_entries b))
        # entries_after b i"
      using h' by (metis (mono_tags, lifting) dropWhile_eq_Nil_conv entries_after_def list.exhaust_sel takeWhile_dropWhile_id)
    have "ei_entry_id (hd (dropWhile (\<lambda>g. ei_entry_id g \<noteq> i) (ab_entries b))) = i"
      using h' by (metis (mono_tags, lifting) dropWhile_eq_Nil_conv hd_dropWhile)
    moreover have "\<forall>g \<in> set (entries_after b i). \<not> stands_later g" using stands [OF True] by (simp add: find_None_iff)
    moreover have "\<forall>g \<in> set (takeWhile (\<lambda>g. ei_entry_id g \<noteq> i) (ab_entries b)). \<not> stands_later g"
      using acc by (simp add: accounted_def opening_first_def o)
    ultimately have "\<forall>g \<in> set (ab_entries b). stands_later g \<longrightarrow> ei_entry_id g = i" by (subst split) auto
    then have "standing_entries (md_book m) = []" unfolding st' by (auto simp: filter_empty_conv)
    with e(3) body True show ?thesis by (simp add: opening_first_def)
  next
    case False
    with e(3) body have o: "ab_opening (md_book m) = ab_opening b" by (simp add: opened_by_def)
    show ?thesis
    proof (cases "ab_opening b")
      case None
      with acc hs show ?thesis by (simp add: accounted_def opening_first_def)
    next
      case (Some s)
      obtain j since where s: "s = (j, since)" by force
      from acc Some s have j: "j \<in> ei_entry_id ` set (ab_entries b)"
        "\<forall>e \<in> set (takeWhile (\<lambda>e. ei_entry_id e \<noteq> j) (ab_entries b)). \<not> stands_later e"
        by (simp_all add: accounted_def opening_first_def)
      have "j \<in> ei_entry_id ` set (on_first (\<lambda>h. ei_entry_id h = i) f (ab_entries b))"
        using j(1) ids_kept [of "\<lambda>h. ei_entry_id h = i" "Some (dr_entry_id d)" "ab_entries b"] unfolding f_def
        by (metis list.set_map)
      moreover have "\<forall>e \<in> set (takeWhile (\<lambda>e. ei_entry_id e \<noteq> j) (on_first (\<lambda>h. ei_entry_id h = i) f (ab_entries b))). \<not> stands_later e"
        by (rule before_reversed [OF _ _ j(2)]) (simp_all add: f_def stands_later_def)
      ultimately show ?thesis by (simp add: opening_first_def o Some s x takeWhile_snoc)
    qed
  qed
  moreover have "distinct (map ei_entry_id (ab_entries (md_book m)))" using d fresh by (simp add: ids)
  moreover have ids': "ei_entry_id ` set (ab_entries (md_book m)) = insert (dr_entry_id d) (ei_entry_id ` set (ab_entries b))"
    using arg_cong [OF ids, of set] by simp
  moreover have "bodies j \<noteq> None" if "j \<in> ei_entry_id ` set (ab_entries b)" for j using acc that by (auto simp: accounted_def)
  then have "\<forall>g \<in> set (ab_entries (md_book m)). (bodies(dr_entry_id d \<mapsto> et_body (md_entry m))) (ei_entry_id g) \<noteq> None"
    using ids' by (metis fun_upd_apply image_eqI insert_iff option.distinct(1))
  ultimately show ?thesis using acc e(1) fresh by (simp add: accounted_def)
qed


lemma entered_accounted: "accounted (book_new account part) bodies"
  by (simp add: accounted_def opening_first_def standing_entries_def book_new_def held_val_def position_at_def)
    (simp add: book_ok_def position_at_def)

text \<open>The account over every run in which no reversal is reversed.\<close>

lemma run_accounted: "account_run kn sent b bodies \<Longrightarrow> sent = no_reversal_reversed \<Longrightarrow> accounted b bodies"
proof (induction rule: account_run.induct)
  case (act b bodies c mints head cx m)
  from account_act_body [OF act.hyps(3)] obtain d k where d: "made kn b head cx d = Inr m" "dr_entry_id d = mints MINT_ENTRY 0"
    "body_is bodies b (mints MINT_ENTRY 0) (dr_body d) k"
    "\<forall>r. k = Reverses r \<longrightarrow> (\<exists>q x. c = ResolveBreak q \<and> qrb_resolution q = Some (ByReversal x) \<and> rvs_entry_id x = r)" by blast
  have acc: "accounted b bodies" and new: "new_entry_id b (dr_entry_id d)" using act by (simp_all add: d(2))
  show ?case
  proof (cases k)
    case (Reverses i)
    with d(3) obtain rbody effective where r: "reversal_body bodies b i = Inr (rbody, effective)"
      "by_lines (dr_body d) = by_lines rbody" "by_reverses (dr_body d) = i" "by_opening (dr_body d) = None"
      "by_clears_opening (dr_body d) = is_opening b i" by (auto simp: body_is_def)
    have "ei_reverses e = []" if "book_entry_at b i = Some e" for e
      using d(4) Reverses act.hyps(2) act.prems that by (auto simp: no_reversal_reversed_def)
    from reversal_accounted [OF acc d(1) new r this] show ?thesis by (simp only: d(2))
  next
    case Quiet
    with d(3) have "quiet_body (dr_body d)" by (simp add: body_is_def)
    then have "accounted (md_book m) (bodies(dr_entry_id d \<mapsto> et_body (md_entry m)))"
      by (intro forward_accounted [OF acc d(1) new]) (simp_all add: quiet_body_def moves_positions_def)
    then show ?thesis by (simp only: d(2))
  next
    case Opens
    with d(2,3) have "accounted (md_book m) (bodies(dr_entry_id d \<mapsto> et_body (md_entry m)))"
      by (intro forward_accounted [OF acc d(1) new]) (auto simp: body_is_def)
    then show ?thesis by (simp only: d(2))
  next
    case Adjusts
    with d(3) have "accounted (md_book m) (bodies(dr_entry_id d \<mapsto> et_body (md_entry m)))"
      by (intro forward_accounted [OF acc d(1) new]) (auto simp: body_is_def)
    then show ?thesis by (simp only: d(2))
  qed
qed (simp add: entered_accounted)


section \<open>Properties\<close>

text \<open>C1: Over every run of an account's commands in which no reversal is itself reversed, what it
  holds of a position is exactly what the lines of the entries that stand say: each reversed entry
  and its reversal count for nothing, to the last digit. And an account with no opening balance
  standing holds nothing: none is taken back while another entry that moved a position stands.\<close>

theorem an_account_holds_what_stands:
  assumes "account_run kn no_reversal_reversed b bodies"
  shows "held_val b k = (\<Sum>e\<leftarrow>standing_entries b. stated_val bodies k e)
    \<and> (ab_opening b = None \<longrightarrow> held_val b k = 0)"
proof -
  have "accounted b bodies" using run_accounted [OF assms] by simp
  then have "held_val b k = (\<Sum>e\<leftarrow>standing_entries b. stated_val bodies k e)" "ab_opening b = None \<longrightarrow> standing_entries b = []"
    by (auto simp: accounted_def opening_first_def simp del: split_paired_All)
  then show ?thesis by auto
qed

definition sample_terms :: lot_terms where
  "sample_terms = lot_terms_default\<lparr>lt_cost := Some \<lparr>mo_amount = num_wire (mk 900 0), mo_currency_code = ''USD'',
     mo_instrument_id = []\<rparr>, lt_acquired_date := ''2026-01-05''\<rparr>"

definition sample_opening :: opening_request where
  "sample_opening =
     \<lparr>qob_account_id = ''a1'', qob_as_of_date = ''2026-10-14'',
      qob_sources = [\<lparr>osr_kind = 1, osr_name = ''custodian'', osr_as_of_date = [], osr_basis = 0, osr_street_records = []\<rparr>],
      qob_positions = [\<lparr>opo_instrument_id = ''INS-1'', opo_side = 1, opo_trade_date_quantity = num_wire (mk 10 0),
        opo_settled_quantity = num_wire (mk 10 0), opo_pending = [],
        opo_lots = [\<lparr>olt_quantity = num_wire (mk 10 0), olt_terms = Some sample_terms\<rparr>]\<rparr>],
      qob_reason = ''onboarded'', qob_replaces_entry_id = [], qob_idempotency_key = []\<rparr>"

definition sample_context :: act_context where
  "sample_context = plain_context\<lparr>cx_records := [(''INS-1'', record_says_default\<lparr>sy_asset_class := True, sy_currency := True\<rparr>)]\<rparr>"

lemma whole_numbers_checked:
  "\<bar>a\<bar> < 10 ^ 30 \<Longrightarrow> \<bar>c\<bar> < 10 ^ 30 \<Longrightarrow> checked_add (mk a 0) (mk c 0) = Inr (mk (a + c) 0)"
  using whole_numbers_add [of a c "[]"] by (simp add: num_add_def split: sum.splits)

lemma sample_date: "is_date ''2026-10-14''"
  by code_simp

lemma sample_opens:
  "\<exists>m. record_opening_balance knows_nothing plain_mints (book_new ''a1'' ''P0'') 0 sample_context sample_opening = Inr m
    \<and> ab_opening (md_book m) = Some (''ENT'', ''2026-10-14'')"
  apply (simp add: record_opening_balance_def sample_opening_def sample_context_def plain_context_def justified_def trim_def is_space_def
    replaces_check_def references_answered_def numbered_list_def not_referential_def opening_missing_def position_missing_def
    sample_terms_def opening_rest_def lot_missing_def terms_missing_def instrument_missing_def record_says_default_def
    date_field_def at_index_def open_position_def side_field_def opening_evals MINT_LOT_def MINT_ENTRY_def
    holding_side_of_def enum_of_def entry_evals made_def drafted_def opening_draft_def sample_date
    wire_is_zero_def read_wire_def lot_terms_default_def ok_of_def whole_numbers_checked check_book_def check_position_def
    has_open_lots_def is_base_def on_its_side_def lots_open_def lot_keys_def attributes_of_def first_attributes_def opened_by_def)
  done


theorem an_account_holds_what_stands_witness:
  "\<exists>m. account_act knows_nothing plain_mints Map.empty (book_new ''a1'' ''P0'') 0 sample_context
       (RecordOpeningBalance sample_opening) = Inr m
    \<and> held_val (md_book m) (''INS-1'', 1, [])
      = (\<Sum>e\<leftarrow>standing_entries (md_book m). stated_val [''ENT'' \<mapsto> et_body (md_entry m)] (''INS-1'', 1, []) e)"
proof -
  obtain m where m: "record_opening_balance knows_nothing plain_mints (book_new ''a1'' ''P0'') 0 sample_context sample_opening = Inr m"
    using sample_opens by blast
  have e: "plain_mints MINT_ENTRY 0 = ''ENT''" by (simp add: plain_mints_def MINT_ENTRY_def)
  have "account_run knows_nothing no_reversal_reversed (md_book m) (Map.empty(plain_mints MINT_ENTRY 0 \<mapsto> et_body (md_entry m)))"
  proof (rule account_run.act [OF account_run.entered])
    show "no_reversal_reversed (book_new ''a1'' ''P0'') (RecordOpeningBalance sample_opening)"
      by (simp add: no_reversal_reversed_def)
    show "account_act knows_nothing plain_mints Map.empty (book_new ''a1'' ''P0'') 0 sample_context
        (RecordOpeningBalance sample_opening) = Inr m" by (simp add: account_act_def m)
    show "new_entry_id (book_new ''a1'' ''P0'') (plain_mints MINT_ENTRY 0)" by (simp add: new_entry_id_def e book_new_def)
  qed
  from an_account_holds_what_stands [OF this] m show ?thesis unfolding e by (auto simp: account_act_def)
qed

section \<open>A reversal reversed\<close>

text \<open>A reversal may itself be reversed, and the entry it first took back is then in force again; but
  that entry is still marked reversed, and the one that brought it back is a reversal: neither keeps
  the opening balance from being taken back under it. What it moved is then held with no opening
  balance, and counted twice by the next one.\<close>

lemma a_reversal_reversed_is_not_counted:
  assumes ok: "book_ok b" and ids: "ab_opening b = Some (i, since)" "ab_entries b = [e]" "ei_entry_id e = i"
    and a: "made kn b h1 cx1 d1 = Inr m1" "body_is bodies b j (dr_body d1) Adjusts" "dr_entry_id d1 = j"
    and r: "made kn (md_book m1) h2 cx2 d2 = Inr m2" "body_is bodies1 (md_book m1) n (dr_body d2) (Reverses j)" "dr_entry_id d2 = n"
      "bodies1 j = Some (dr_body d1)"
    and rr: "made kn (md_book m2) h3 cx3 d3 = Inr m3" "body_is bodies2 (md_book m2) x (dr_body d3) (Reverses n)"
      "bodies2 n = Some (dr_body d2)"
    and names: "i \<noteq> j" "i \<noteq> n" "j \<noteq> n" "i \<noteq> []" "j \<noteq> []" "n \<noteq> []"
  shows "find stands_later (entries_after (md_book m3) i) = None" "ab_opening (md_book m3) = Some (i, since)"
    "held_val (md_book m3) k = held_val b k + body_val k (dr_body d1)"
proof -
  note e1 = made_effects [OF a(1) ok]
  note e2 = made_effects [OF r(1) e1(1)]
  note e3 = made_effects [OF rr(1) e2(1)]
  from a(2) have f1: "by_reverses (dr_body d1) = []" "\<not> by_clears_opening (dr_body d1)" "by_opening (dr_body d1) = None"
    by (simp_all add: body_is_def)
  from e1(3) f1 ids have o1: "ab_opening (md_book m1) = Some (i, since)" by (simp add: opened_by_def)
  from r(2) names o1 have f2: "by_reverses (dr_body d2) = j" "\<not> by_clears_opening (dr_body d2)" "by_opening (dr_body d2) = None"
    and v2: "\<exists>rbody effective. reversal_body bodies1 (md_book m1) j = Inr (rbody, effective) \<and> by_lines (dr_body d2) = by_lines rbody"
    by (auto simp: body_is_def is_opening_def)
  from e2(3) f2 o1 have o2: "ab_opening (md_book m2) = Some (i, since)" by (simp add: opened_by_def)
  from rr(2) names o2 have f3: "by_reverses (dr_body d3) = n" "\<not> by_clears_opening (dr_body d3)" "by_opening (dr_body d3) = None"
    and v3: "\<exists>rbody effective. reversal_body bodies2 (md_book m2) n = Inr (rbody, effective) \<and> by_lines (dr_body d3) = by_lines rbody"
    by (auto simp: body_is_def is_opening_def)
  from e3(3) f3 o2 show "ab_opening (md_book m3) = Some (i, since)" by (simp add: opened_by_def)
  from e1(5) f1 ids obtain x1 where x1: "ab_entries (md_book m1) = [e, x1]" "ei_entry_id x1 = j" by (auto simp: a(3))
  from e2(5) f2 names ids x1 obtain x2 where x2: "ab_entries (md_book m2) = [e, x1\<lparr>ei_reversed_by := Some n\<rparr>, x2]"
    "ei_entry_id x2 = n" "ei_reverses x2 = j" by (auto simp: r(3))
  from e3(5) f3 names ids x1 x2 obtain x3 where x3: "ab_entries (md_book m3) =
      [e, x1\<lparr>ei_reversed_by := Some n\<rparr>, x2\<lparr>ei_reversed_by := Some (dr_entry_id d3)\<rparr>, x3]" "ei_reverses x3 = n" by auto
  show "find stands_later (entries_after (md_book m3) i) = None"
    using names ids by (simp add: entries_after_def x3 stands_later_def)
  have "body_val k (dr_body d2) = - body_val k (dr_body d1)" using v2 reversal_val [where k = k and bodies = bodies1 and i = j, OF _ r(4)] by (auto simp: body_val_def)
  moreover have "body_val k (dr_body d3) = - body_val k (dr_body d2)" using v3 reversal_val [where k = k and bodies = bodies2 and i = n, OF _ rr(3)] by (auto simp: body_val_def)
  ultimately show "held_val (md_book m3) k = held_val b k + body_val k (dr_body d1)"
    using e1(2) [of k] e2(2) [of k] e3(2) [of k] by simp
qed

end
