(* ===== verification/Book_Breaks_Kept.thy ===== *)
theory Book_Breaks_Kept
  imports Book_Account
begin

section \<open>What becomes of a break\<close>

text \<open>
  A break is held under its own identifier over every run of an account's commands; what resolving
  or closing breaks leaves of them; and which commands move a position at all.
\<close>

definition breaks_named :: "account_book \<Rightarrow> bool" where
  "breaks_named b \<longleftrightarrow> (\<forall>i r. bt_get (ab_breaks b) i = Some r \<longrightarrow> brk_break_id r = i)"

lemma break_set_fields [simp]:
  "brk_break_id (break_set body first br) = brk_break_id (fst br)"
  "brk_state (break_set body first br) = brk_state (fst br)"
  "brk_resolution (break_set body first br) = (if brk_break_id (fst br) \<in> set (by_resolved_by_this body)
     then Some ((case brk_resolution (fst br) of None \<Rightarrow> break_resolution_default | Some r \<Rightarrow> r)\<lparr>brr_entries := [first]\<rparr>)
     else brk_resolution (fst br))"
  by (simp_all add: break_set_def Let_def split: prod.split)

abbreviation insert_all :: "('r \<Rightarrow> string) \<Rightarrow> 'r list \<Rightarrow> (string, 'r) btree \<Rightarrow> (string, 'r) btree" where
  "insert_all f rs m \<equiv> fold (\<lambda>r. bt_insert (f r) r) rs m"

lemma insert_all_other: "j \<notin> f ` set rs \<Longrightarrow> bt_get (insert_all f rs m) j = bt_get m j"
  by (induction rs arbitrary: m) auto

lemma insert_all_get: "distinct (map f rs) \<Longrightarrow> r \<in> set rs \<Longrightarrow> bt_get (insert_all f rs m) (f r) = Some r"
  by (induction rs arbitrary: m) (auto simp: insert_all_other)

lemma insert_all_named:
  "\<forall>i r. bt_get m i = Some r \<longrightarrow> f r = i \<Longrightarrow> bt_get (insert_all f rs m) i = Some r \<Longrightarrow> f r = i"
proof (induction rs arbitrary: m)
  case (Cons x rs)
  show ?case
  proof (rule Cons.IH [of "bt_insert (f x) x m"])
    show "\<forall>i r. bt_get (bt_insert (f x) x m) i = Some r \<longrightarrow> f r = i" using Cons.prems(1) by simp
    show "bt_get (insert_all f rs (bt_insert (f x) x m)) i = Some r" using Cons.prems(2) by simp
  qed
qed simp

lemma run_breaks_named: "account_run kn sent b bodies \<Longrightarrow> breaks_named b"
proof (induction rule: account_run.induct)
  case (act b bodies c mints head cx m)
  from account_act_body [OF act.hyps(3)] obtain d where "made kn b head cx d = Inr m" by (elim exE conjE) (rule that)
  note s = made_stages [OF this]
  from apply_entry_rest(6) [OF s(1)] obtain brs where
    brs: "ab_breaks (md_book m) = insert_all brk_break_id (map (break_set (dr_body d) (cs_first (md_changes m))) brs) (ab_breaks b)"
    by auto
  have "\<forall>i r. bt_get (ab_breaks b) i = Some r \<longrightarrow> brk_break_id r = i" using act.IH by (simp add: breaks_named_def)
  note named = insert_all_named [OF this]
  show ?case unfolding breaks_named_def brs by (intro allI impI) (rule named)
qed (simp add: breaks_named_def book_new_def)

subsection \<open>Breaks named once, and resolved\<close>

lemma named_once_step:
  "named_once b i (named, out) = Inr s \<longleftrightarrow>
    i \<notin> set named \<and> (\<exists>r. open_break b i = Inr r \<and> s = (bs_insert i named, out @ [r]))"
  by (auto simp: named_once_def rbind_eq_Inr guard_r_eq_Inr)

lemma named_once_fold:
  assumes "rfold (named_once b) ids (named, out) = Inr (named', held)"
  shows "\<exists>rs. held = out @ rs \<and> length rs = length ids \<and> distinct ids \<and> set ids \<inter> set named = {}
    \<and> (\<forall>(i, r) \<in> set (zip ids rs). open_break b i = Inr r)"
  using assms
proof (induction ids arbitrary: named out)
  case (Cons i ids)
  from Cons.prems obtain r where r: "i \<notin> set named" "open_break b i = Inr r"
    "rfold (named_once b) ids (bs_insert i named, out @ [r]) = Inr (named', held)"
    by (auto simp: rbind_eq_Inr named_once_step)
  from Cons.IH [OF r(3)] obtain rs where "held = (out @ [r]) @ rs" "length rs = length ids" "distinct ids"
    "set ids \<inter> set (bs_insert i named) = {}" "\<forall>(i, r) \<in> set (zip ids rs). open_break b i = Inr r" by blast
  with r(1,2) show ?case by (intro exI [of _ "r # rs"]) auto
qed simp

lemma open_breakD: "open_break b i = Inr r \<Longrightarrow> bt_get (ab_breaks b) i = Some r \<and> brk_state r = break_state_no BSOpen"
  by (auto simp: open_break_def held_break_def rbind_eq_Inr ok_or_eq_Inr split: if_splits)

lemma named_once_held:
  assumes "rfold (named_once b) ids ([], []) = Inr (named, held)" "breaks_named b"
  shows "map brk_break_id held = ids" "distinct ids"
proof -
  from named_once_fold [OF assms(1)] obtain rs where rs: "held = rs" "length rs = length ids" "distinct ids"
    "\<forall>(i, r) \<in> set (zip ids rs). open_break b i = Inr r" by auto
  have "map brk_break_id rs = ids"
  proof (rule nth_equalityI)
    fix k assume "k < length (map brk_break_id rs)"
    then have "(ids ! k, rs ! k) \<in> set (zip ids rs)" using rs(2) by (metis in_set_zip length_map fst_conv snd_conv)
    with rs(4) have "open_break b (ids ! k) = Inr (rs ! k)" by auto
    with open_breakD assms(2) have "brk_break_id (rs ! k) = ids ! k" by (auto simp: breaks_named_def)
    then show "map brk_break_id rs ! k = ids ! k" using \<open>k < length (map brk_break_id rs)\<close> by simp
  qed (use rs(2) in simp)
  with rs show "map brk_break_id held = ids" "distinct ids" by simp_all
qed

text \<open>What an entry that sets breaks whole leaves of them.\<close>

lemma set_breaks:
  assumes m: "made kn b head cx d = Inr m" and b: "by_breaks (dr_body d) = rs" "distinct (map brk_break_id rs)"
  shows "j \<notin> brk_break_id ` set rs \<Longrightarrow> bt_get (ab_breaks (md_book m)) j = bt_get (ab_breaks b) j"
    and "r \<in> set rs \<Longrightarrow> \<exists>first ref. bt_get (ab_breaks (md_book m)) (brk_break_id r) = Some (break_set (dr_body d) first (r, ref))"
proof -
  note s = made_stages [OF m]
  let ?f = "break_set (dr_body d) (cs_first (md_changes m))"
  from apply_entry_rest(6) [OF s(1)] obtain brs where brs: "map fst brs = rs"
    "ab_breaks (md_book m) = insert_all brk_break_id (map ?f brs) (ab_breaks b)" by (auto simp: b(1))
  have ids: "map brk_break_id (map ?f brs) = map brk_break_id rs" by (simp add: brs(1) [symmetric])
  then have img: "brk_break_id ` set (map ?f brs) = brk_break_id ` set rs" by (metis list.set_map)
  show "j \<notin> brk_break_id ` set rs \<Longrightarrow> bt_get (ab_breaks (md_book m)) j = bt_get (ab_breaks b) j"
    unfolding brs(2) by (rule insert_all_other) (simp only: img not_False_eq_True)
  assume "r \<in> set rs"
  then obtain ref where ref: "(r, ref) \<in> set brs" unfolding brs(1) [symmetric] by auto
  then have mem: "?f (r, ref) \<in> set (map ?f brs)" by (metis image_eqI list.set_map)
  have "distinct (map brk_break_id (map ?f brs))" unfolding ids by (rule b(2))
  from insert_all_get [OF this mem] show "\<exists>first ref. bt_get (ab_breaks (md_book m)) (brk_break_id r) = Some (break_set (dr_body d) first (r, ref))"
    unfolding brs(2) by auto
qed


section \<open>Properties\<close>

text \<open>The breaks a command ends, by resolving or by closing them.\<close>

definition ends_breaks :: "account_command \<Rightarrow> string list" where
  "ends_breaks c =
     (case c of ResolveBreak q \<Rightarrow> qrb_break_ids q | CloseBreaksAsCleared q \<Rightarrow> qcb_break_ids q | _ \<Rightarrow> [])"

lemma ended_breaks:
  assumes m: "made kn b head cx d = Inr m" and b: "by_breaks (dr_body d) = map (resolved_break state how) held"
    and held: "rfold (named_once b) ids ([], []) = Inr (named, held)" and named: "breaks_named b" and state: "state \<noteq> BSOpen"
  shows "\<forall>i \<in> set ids. \<exists>r. bt_get (ab_breaks (md_book m)) i = Some r \<and> brk_state r \<noteq> break_state_no BSOpen
      \<and> (\<exists>x. brk_resolution r = Some x \<and> brr_actor x = brr_actor how \<and> brr_reason x = brr_reason how)"
    and "\<forall>i. i \<notin> set ids \<longrightarrow> bt_get (ab_breaks (md_book m)) i = bt_get (ab_breaks b) i"
proof -
  note ids = named_once_held [OF held named]
  have kept: "map brk_break_id (map (resolved_break state how) held) = ids"
    unfolding ids(1) [symmetric] by (simp add: resolved_break_def)
  have d: "distinct (map brk_break_id (map (resolved_break state how) held))" unfolding kept by (rule ids(2))
  note set_b = set_breaks [OF m b d]
  have img: "brk_break_id ` set (map (resolved_break state how) held) = set ids" using arg_cong [OF kept, of set] by (simp only: list.set_map)
  show "\<forall>i. i \<notin> set ids \<longrightarrow> bt_get (ab_breaks (md_book m)) i = bt_get (ab_breaks b) i"
    using set_b(1) unfolding img by blast
  show "\<forall>i \<in> set ids. \<exists>r. bt_get (ab_breaks (md_book m)) i = Some r \<and> brk_state r \<noteq> break_state_no BSOpen
      \<and> (\<exists>x. brk_resolution r = Some x \<and> brr_actor x = brr_actor how \<and> brr_reason x = brr_reason how)"
  proof
    fix i assume "i \<in> set ids"
    then obtain r where r: "r \<in> set (map (resolved_break state how) held)" "brk_break_id r = i" unfolding img [symmetric] by blast
    then have f: "brk_state r = break_state_no state" "brk_resolution r = Some how" by (auto simp: resolved_break_def)
    have "break_state_no state \<noteq> break_state_no BSOpen" using state by (cases state) simp_all
    with set_b(2) [OF r(1)] r(2) f
    show "\<exists>r. bt_get (ab_breaks (md_book m)) i = Some r \<and> brk_state r \<noteq> break_state_no BSOpen
      \<and> (\<exists>x. brk_resolution r = Some x \<and> brr_actor x = brr_actor how \<and> brr_reason x = brr_reason how)" by auto
  qed
qed

lemma resolve_break_stages:
  assumes "resolve_break kn mints bodies b head cx q = Inr m"
  obtains named held d and v :: resolving where "rfold (named_once b) (qrb_break_ids q) ([], []) = Inr (named, held)"
    "made kn b head cx d = Inr m" "rsv_state v \<noteq> BSOpen"
    "by_breaks (dr_body d) = map (resolved_break (rsv_state v) (resolution_of cx (qrb_reason q) (rsv_entries v) (rsv_explanation v))) held"
proof -
  from assms obtain named held how and v :: resolving where s: "rfold (named_once b) (qrb_break_ids q) ([], []) = Inr (named, held)"
    "resolving_by mints bodies b cx (latest_seen held) how = Inr v"
    "\<exists>d. made kn b head cx d = Inr m \<and>
      by_breaks (dr_body d) = map (resolved_break (rsv_state v) (resolution_of cx (qrb_reason q) (rsv_entries v) (rsv_explanation v))) held"
    unfolding resolve_break_def by (clarsimp simp: rbind_eq_Inr Let_def split: prod.splits) fastforce
  have "rsv_state v \<noteq> BSOpen" using s(2) by (auto simp: resolving_by_def rbind_eq_Inr split: resolution.splits)
  moreover from s(3) obtain d where "made kn b head cx d = Inr m"
    "by_breaks (dr_body d) = map (resolved_break (rsv_state v) (resolution_of cx (qrb_reason q) (rsv_entries v) (rsv_explanation v))) held"
    by (elim exE conjE) (rule that)
  ultimately show ?thesis using that [OF s(1)] by (metis (no_types))
qed

text \<open>C14: Resolving or closing breaks leaves each one named no longer open, with who did it, and every
  other break as it was; and a break so ended is refused, for the state it is in, to any act that
  would update, handle, resolve or close it again.\<close>

theorem a_break_is_ended_once:
  assumes run: "account_run kn sent b bodies" and act: "account_act kn mints bodies b head cx c = Inr m"
  shows "(\<forall>i \<in> set (ends_breaks c). \<exists>r. bt_get (ab_breaks (md_book m)) i = Some r \<and> brk_state r \<noteq> break_state_no BSOpen
       \<and> (\<exists>x. brk_resolution r = Some x \<and> brr_actor x = Some (cx_actor cx))
       \<and> open_break (md_book m) i = Inl (Refused BreakStateRefused [i] []))
    \<and> (ends_breaks c \<noteq> [] \<longrightarrow> (\<forall>i. i \<notin> set (ends_breaks c) \<longrightarrow> bt_get (ab_breaks (md_book m)) i = bt_get (ab_breaks b) i))"
proof -
  note named = run_breaks_named [OF run]
  have closed: "open_break b' i = Inl (Refused BreakStateRefused [i] [])"
    if "bt_get (ab_breaks b') i = Some r" "brk_state r \<noteq> break_state_no BSOpen" for b' i r
    using that by (simp add: open_break_def held_break_def ok_or_def)
  show ?thesis
  proof (cases "\<exists>q. c = ResolveBreak q")
    case True
    then obtain q where c: "c = ResolveBreak q" by blast
    with act have "resolve_break kn mints bodies b head cx q = Inr m" by (simp add: account_act_def)
    from resolve_break_stages [OF this] obtain ns held d and v :: resolving where
      s: "rfold (named_once b) (qrb_break_ids q) ([], []) = Inr (ns, held)" "made kn b head cx d = Inr m" "rsv_state v \<noteq> BSOpen"
      "by_breaks (dr_body d) = map (resolved_break (rsv_state v) (resolution_of cx (qrb_reason q) (rsv_entries v) (rsv_explanation v))) held"
      by blast
    from ended_breaks [OF s(2,4,1) named s(3)] closed show ?thesis
      by (simp add: c ends_breaks_def resolution_of_def) blast
  next
    case False
    show ?thesis
    proof (cases "\<exists>q. c = CloseBreaksAsCleared q")
      case True
      then obtain q where c: "c = CloseBreaksAsCleared q" by blast
      with act have "close_as_cleared kn mints b head cx q = Inr m" by (simp add: account_act_def)
      then obtain ns held d cleared where s: "rfold (named_once b) (qcb_break_ids q) ([], []) = Inr (ns, held)"
        "made kn b head cx d = Inr m"
        "by_breaks (dr_body d) = map (resolved_break BSClosed ((resolution_of cx (qcb_reason q) [] [])\<lparr>brr_cleared_at := Some cleared\<rparr>)) held"
        unfolding close_as_cleared_def by (clarsimp simp: rbind_eq_Inr Let_def split: prod.splits) fastforce
      from ended_breaks [OF s(2,3,1) named] closed show ?thesis
        by (simp add: c ends_breaks_def resolution_of_def) blast
    next
      case none: False
      with False show ?thesis by (cases c) (simp_all add: ends_breaks_def)
    qed
  qed
qed


definition empty_opening :: opening_request where
  "empty_opening = sample_opening\<lparr>qob_positions := []\<rparr>"

definition figure_break :: break_request where
  "figure_break =
     \<lparr>qbr_account_id = ''a1'', qbr_break_id = [], qbr_category = 7,
      qbr_differences = [\<lparr>bdf_field = ''figure'', bdf_book = None, bdf_street = None\<rparr>], qbr_book_watermark = None,
      qbr_street = None, qbr_business_date = ''2026-10-14'', qbr_candidate_causes = [], qbr_idempotency_key = [],
      qbr_unresolved_identifiers = [],
      qbr_subject = Some (OnPosition \<lparr>pky_instrument_id = ''INS-1'', pky_side = 1\<rparr>)\<rparr>"

definition clears_break :: clear_request where
  "clears_break =
     \<lparr>qcb_account_id = ''a1'', qcb_break_ids = [''BRK''],
      qcb_cleared_at = Some \<lparr>stf_statement_id = ''S1'', stf_change = None, stf_as_of_date = ''2026-10-14''\<rparr>,
      qcb_reason = ''gone'', qcb_idempotency_key = []\<rparr>"

definition later_mints :: "nat \<Rightarrow> minting" where
  "later_mints k prefix n = (if prefix = MINT_ENTRY then plain_mints prefix (k + n) else plain_mints prefix n)"

lemma sample_break_ended:
  "\<exists>m1 m2 m3.
     record_opening_balance knows_nothing (later_mints 0) (book_new ''a1'' ''P0'') 0 sample_context empty_opening = Inr m1
   \<and> record_break knows_nothing (later_mints 1) (md_book m1) 10 sample_context figure_break = Inr m2
   \<and> close_as_cleared knows_nothing (later_mints 2) (md_book m2) 20 sample_context clears_break = Inr m3
   \<and> map ei_entry_id (ab_entries (md_book m1)) = [''ENT''] \<and> map ei_entry_id (ab_entries (md_book m2)) = [''ENT'', ''ENTI'']"
  by (simp add: record_opening_balance_def sample_opening_def empty_opening_def sample_context_def plain_context_def justified_def
    trim_def is_space_def replaces_check_def references_answered_def numbered_list_def opening_missing_def
    record_says_default_def date_field_def at_index_def plain_mints_def later_mints_def MINT_LOT_def MINT_ENTRY_def MINT_BREAK_def
    guard_r_def holding_side_of_def enum_of_def entry_evals made_def drafted_def opening_draft_def sample_date check_book_def
    lot_keys_def attributes_of_def first_attributes_def
    record_break_def opening_required_def break_made_def check_break_request_def figure_break_def break_names_def
    check_position_key_def side_field_def break_category_of_def plain_draft_def matched_break_def kept_identifiers_def new_break_def break_record_default_def
    break_set_def close_as_cleared_def clears_break_def named_once_def open_break_def held_break_def resolved_break_def resolution_of_def)


theorem a_break_is_ended_once_witness:
  "\<exists>b m bodies. account_run knows_nothing (\<lambda>_ _. True) b bodies
    \<and> account_act knows_nothing (later_mints 2) bodies b 20 sample_context (CloseBreaksAsCleared clears_break) = Inr m
    \<and> open_break (md_book m) ''BRK'' = Inl (Refused BreakStateRefused [''BRK''] [])"
proof -
  obtain m1 m2 m3 where
    m1: "record_opening_balance knows_nothing (later_mints 0) (book_new ''a1'' ''P0'') 0 sample_context empty_opening = Inr m1" and
    m2: "record_break knows_nothing (later_mints 1) (md_book m1) 10 sample_context figure_break = Inr m2" and
    m3: "close_as_cleared knows_nothing (later_mints 2) (md_book m2) 20 sample_context clears_break = Inr m3" and
    ids: "map ei_entry_id (ab_entries (md_book m1)) = [''ENT'']" "map ei_entry_id (ab_entries (md_book m2)) = [''ENT'', ''ENTI'']"
    by (rule exE [OF sample_break_ended]) (elim exE conjE, rule that)
  let ?sent = "\<lambda>(_ :: account_book) (_ :: account_command). True"
  have e: "later_mints 0 MINT_ENTRY 0 = ''ENT''" "later_mints 1 MINT_ENTRY 0 = ''ENTI''"
    by (simp_all add: later_mints_def plain_mints_def MINT_ENTRY_def)
  have "account_run knows_nothing ?sent (md_book m1) (Map.empty(later_mints 0 MINT_ENTRY 0 \<mapsto> et_body (md_entry m1)))"
  proof (rule account_run.act [OF account_run.entered, where mints = "later_mints 0"])
    show "account_act knows_nothing (later_mints 0) Map.empty (book_new ''a1'' ''P0'') 0 sample_context
        (RecordOpeningBalance empty_opening) = Inr m1" by (simp add: account_act_def m1)
    show "new_entry_id (book_new ''a1'' ''P0'') (later_mints 0 MINT_ENTRY 0)" by (simp add: new_entry_id_def e book_new_def)
  qed simp
  note one = account_run.act [OF this, where c = "RecordBreak figure_break" and mints = "later_mints 1" and head = 10
      and cx = sample_context and m = m2]
  have "ei_entry_id ` set (ab_entries (md_book m1)) = {''ENT''}" using arg_cong [OF ids(1), of set] by simp
  then have "new_entry_id (md_book m1) (later_mints 1 MINT_ENTRY 0)" unfolding e by (simp add: new_entry_id_def)
  moreover have "account_act knows_nothing (later_mints 1) (Map.empty(later_mints 0 MINT_ENTRY 0 \<mapsto> et_body (md_entry m1)))
      (md_book m1) 10 sample_context (RecordBreak figure_break) = Inr m2" unfolding account_act_def using m2 by simp
  ultimately have run: "\<exists>bodies. account_run knows_nothing ?sent (md_book m2) bodies"
    by (intro exI) (rule one [OF TrueI])
  then obtain bodies where run: "account_run knows_nothing ?sent (md_book m2) bodies" ..
  have act: "account_act knows_nothing (later_mints 2) bodies (md_book m2) 20 sample_context (CloseBreaksAsCleared clears_break) = Inr m3"
    by (simp add: account_act_def m3)
  from a_break_is_ended_once [OF run act]
  have "open_break (md_book m3) ''BRK'' = Inl (Refused BreakStateRefused [''BRK''] [])"
    by (auto simp: ends_breaks_def clears_break_def)
  with run act show ?thesis by blast
qed

end
