(* ===== verification/Book_Merge.thy ===== *)
theory Book_Merge
  imports Book_Account
begin

section \<open>A merged record followed\<close>

text \<open>
  \<open>follow_replacement\<close> of \<open>crates/bor/src/decide.rs\<close>: what an account holds under a record merged into
  another is moved onto the one that stays, by lines that close each bucket and lot under the one
  and open it under the other; the replaced record's positions are kept as tombstones, and the open
  breaks naming it brought along. It is the book's own act, of no person and no instance.
\<close>

definition INSTRUMENT_MERGED :: string where "INSTRUMENT_MERGED = ''instrument-merged''"
definition INSTRUMENT_RESOLVED :: string where "INSTRUMENT_RESOLVED = ''instrument-resolved''"

type_synonym merge_bucket = "bucket \<times> string \<times> pending_state option \<times> exact"

definition merge_buckets :: "position_state \<Rightarrow> merge_bucket list" where
  "merge_buckets p =
     (if is_zero (pn_settled p) then [] else [(SBSettled, [], None, pn_settled p)])
     @ map (\<lambda>(d, q, s). (SBPending, d, s, q)) (pn_pending p)
     @ (if is_zero (pn_not_stated p) then [] else [(SBNotStated, [], None, pn_not_stated p)])"

definition merge_line :: "pos_key \<Rightarrow> string \<Rightarrow> merge_bucket \<Rightarrow> exact \<Rightarrow> movement_line" where
  "merge_line k to bu q =
     movement_line_default\<lparr>ml_instrument_id := to, ml_side := fst (snd k), ml_bucket := bucket_no (fst bu),
       ml_value_date := fst (snd bu), ml_quantity := num_wire q, ml_pending_state := fst (snd (snd bu)),
       ml_sleeve := snd (snd k)\<rparr>"

definition bucket_lines :: "pos_key \<Rightarrow> string \<Rightarrow> merge_bucket \<Rightarrow> movement_line list" where
  "bucket_lines k instrument bu =
     [merge_line k (fst k) bu (negated (snd (snd (snd bu)))), merge_line k instrument bu (snd (snd (snd bu)))]"

definition lot_lines :: "pos_key \<Rightarrow> string \<Rightarrow> merge_bucket \<Rightarrow> lot \<Rightarrow> store_error + movement_line list" where
  "lot_lines k instrument carrier x =
     rbind (required ''lots.open_quantity'' (lx_open_quantity x)) (\<lambda>q.
       if is_zero q then Inr []
       else Inr [(merge_line k instrument carrier q)\<lparr>ml_lot_id := lx_lot_id x,
                    ml_opens_lot := Some (case lx_terms x of None \<Rightarrow> lot_terms_default | Some t \<Rightarrow> t)\<rparr>,
                 (merge_line k (fst k) carrier (negated q))\<lparr>ml_lot_id := lx_lot_id x\<rparr>,
                 merge_line k instrument carrier (negated q),
                 merge_line k (fst k) carrier q])"

definition moved_position :: "string \<Rightarrow> pos_key \<times> position_state \<Rightarrow> store_error + movement_line list" where
  "moved_position instrument kp =
     (let (k, p) = kp; buckets = merge_buckets p;
          carrier = (case buckets of bu # _ \<Rightarrow> bu | [] \<Rightarrow> (SBSettled, [], None, ex_zero))
      in rfold (\<lambda>s out. rbind (lot_lines k instrument carrier (ls_lot s)) (\<lambda>more_lines. Inr (out @ more_lines)))
           (bt_values (pn_lots p)) (concat (map (bucket_lines k instrument) buckets)))"

definition renamed_break :: "string \<Rightarrow> string \<Rightarrow> break_record \<Rightarrow> break_record option" where
  "renamed_break old instrument r =
     (if brk_state r \<noteq> break_state_no BSOpen then None
      else case brk_subject r of
        Some (OnPosition k) \<Rightarrow>
          if pky_instrument_id k = old
          then Some (r\<lparr>brk_subject := Some (OnPosition (k\<lparr>pky_instrument_id := instrument\<rparr>))\<rparr>) else None
      | Some (OnFigure k) \<Rightarrow>
          if fky_instrument_id k = old
          then Some (r\<lparr>brk_subject := Some (OnFigure (k\<lparr>fky_instrument_id := instrument\<rparr>))\<rparr>) else None
      | None \<Rightarrow> None)"

definition held_under :: "account_book \<Rightarrow> string \<Rightarrow> (pos_key \<times> position_state) list" where
  "held_under b old = filter (\<lambda>(k, p). fst k = old \<and> \<not> pn_removed p) (ab_positions b)"

definition merge_body :: "account_book \<Rightarrow> string \<Rightarrow> string \<Rightarrow> store_error + entry_body" where
  "merge_body b old instrument =
     (let held = held_under b old in
      rbind (rfold (\<lambda>kp out. rbind (moved_position instrument kp) (\<lambda>more_lines. Inr (out @ more_lines))) held []) (\<lambda>lines.
        Inr (entry_body_default\<lparr>by_lines := lines,
          by_tombstones := map (\<lambda>(k, _). (fst k, fst (snd k))) (filter (\<lambda>(k, _). snd (snd k) = []) held),
          by_breaks := List.map_filter (renamed_break old instrument) (bt_values (ab_breaks b)),
          by_encumbrances := map (\<lambda>(k, p). (instrument, fst (snd k), pn_encumbrances p))
            (filter (\<lambda>(_, p). pn_encumbrances p \<noteq> []) held)\<rparr>)))"

definition follow_draft :: "minting \<Rightarrow> act_context \<Rightarrow> bool \<Rightarrow> entry_body \<Rightarrow> draft" where
  "follow_draft mints cx resolved body =
     \<lparr>dr_entry_id = mints MINT_ENTRY 0, dr_kind = (if resolved then INSTRUMENT_RESOLVED else INSTRUMENT_MERGED),
      dr_effective_date = cx_today cx, dr_reason = [], dr_break_ids = map brk_break_id (by_breaks body),
      dr_idempotency_key = [], dr_actor = \<lparr>at_kind = Some (BySystem \<lparr>sya_instance_id = []\<rparr>)\<rparr>, dr_body = body\<rparr>"

definition follow_replacement ::
  "known \<Rightarrow> minting \<Rightarrow> account_book \<Rightarrow> nat \<Rightarrow> act_context \<Rightarrow> string \<Rightarrow> string \<Rightarrow> bool
    \<Rightarrow> store_error + made_act option" where
  "follow_replacement kn mints b head cx old instrument resolved =
     rbind (merge_body b old instrument) (\<lambda>body.
       if by_lines body = [] \<and> by_tombstones body = [] \<and> by_breaks body = [] then Inr None
       else rbind (made kn b head cx (follow_draft mints cx resolved body)) (\<lambda>m. Inr (Some m)))"

section \<open>Facts\<close>

definition buckets_exact :: "position_state \<Rightarrow> bool" where
  "buckets_exact p \<longleftrightarrow> exact_ok (pn_settled p) \<and> exact_ok (pn_not_stated p)
     \<and> list_all (\<lambda>(q, _). exact_ok q) (bt_values (pn_pending p))"

lemma merge_line_val:
  "exact_ok q \<Longrightarrow> line_val j (merge_line k to bu q) = (if j = (to, snd k) then ex_val q else 0)"
  "exact_ok q \<Longrightarrow> line_val j ((merge_line k to bu q)\<lparr>ml_lot_id := i\<rparr>) = (if j = (to, snd k) then ex_val q else 0)"
  "exact_ok q \<Longrightarrow> line_val j ((merge_line k to bu q)\<lparr>ml_lot_id := i, ml_opens_lot := t\<rparr>) = (if j = (to, snd k) then ex_val q else 0)"
  by (auto simp: line_val_def line_key_def merge_line_def movement_line_default_def)

abbreviation moved_val :: "pos_key \<Rightarrow> pos_key \<Rightarrow> string \<Rightarrow> rat \<Rightarrow> rat" where
  "moved_val j k instrument v \<equiv> of_bool (j = (instrument, snd k)) * v - of_bool (j = k) * v"

lemma bucket_lines_val:
  "exact_ok (snd (snd (snd bu))) \<Longrightarrow>
    (\<Sum>line\<leftarrow>bucket_lines k instrument bu. line_val j line) = moved_val j k instrument (ex_val (snd (snd (snd bu))))"
  by (cases k) (auto simp: bucket_lines_def merge_line_val)

lemma buckets_lines_val:
  "\<forall>bu \<in> set bus. exact_ok (snd (snd (snd bu))) \<Longrightarrow>
    (\<Sum>line\<leftarrow>concat (map (bucket_lines k instrument) bus). line_val j line)
      = moved_val j k instrument (\<Sum>bu\<leftarrow>bus. ex_val (snd (snd (snd bu))))"
  by (induction bus) (auto simp: bucket_lines_val algebra_simps)

lemma merge_lot_lines_val:
  "lot_lines k instrument carrier x = Inr lines \<Longrightarrow> (\<Sum>line\<leftarrow>lines. line_val j line) = 0"
  by (cases k) (auto simp: lot_lines_def rbind_eq_Inr merge_line_val dest!: required_val split: if_splits)

lemma lots_lines_val:
  "rfold (\<lambda>s out. rbind (lot_lines k instrument carrier (ls_lot s)) (\<lambda>more_lines. Inr (out @ more_lines))) ss lines = Inr lines'
    \<Longrightarrow> (\<Sum>line\<leftarrow>lines'. line_val j line) = (\<Sum>line\<leftarrow>lines. line_val j line)"
  by (induction ss arbitrary: lines) (fastforce simp: rbind_eq_Inr dest: merge_lot_lines_val)+

lemma merge_buckets_val:
  "(\<Sum>bu\<leftarrow>merge_buckets p. ex_val (snd (snd (snd bu)))) = trade_val p"
  by (simp add: merge_buckets_def trade_val_def is_zero_val o_def case_prod_beta)

lemma merge_buckets_exact: "buckets_exact p \<Longrightarrow> \<forall>bu \<in> set (merge_buckets p). exact_ok (snd (snd (snd bu)))"
  by (auto simp: merge_buckets_def buckets_exact_def list_all_iff)

lemma moved_position_val:
  assumes "moved_position instrument (k, p) = Inr lines" "buckets_exact p"
  shows "(\<Sum>line\<leftarrow>lines. line_val j line) = moved_val j k instrument (trade_val p)"
proof -
  from assms(1) have "\<exists>carrier. rfold (\<lambda>s out. rbind (lot_lines k instrument carrier (ls_lot s)) (\<lambda>more_lines. Inr (out @ more_lines)))
      (bt_values (pn_lots p)) (concat (map (bucket_lines k instrument) (merge_buckets p))) = Inr lines"
    unfolding moved_position_def Let_def prod.case by (rule exI)
  with lots_lines_val buckets_lines_val [OF merge_buckets_exact [OF assms(2)]] show ?thesis
    by (metis merge_buckets_val)
qed

lemma moved_positions_val:
  assumes "rfold (\<lambda>kp out. rbind (moved_position instrument kp) (\<lambda>more_lines. Inr (out @ more_lines))) kps lines = Inr lines'"
    and "\<forall>(k, p) \<in> set kps. buckets_exact p"
  shows "(\<Sum>line\<leftarrow>lines'. line_val j line) = (\<Sum>line\<leftarrow>lines. line_val j line)
    + (\<Sum>(k, p)\<leftarrow>kps. moved_val j k instrument (trade_val p))"
  using assms
proof (induction kps arbitrary: lines)
  case (Cons kp kps)
  obtain k p where kp: "kp = (k, p)" by (cases kp)
  from Cons.prems obtain more where more: "moved_position instrument (k, p) = Inr more"
    "rfold (\<lambda>kp out. rbind (moved_position instrument kp) (\<lambda>more_lines. Inr (out @ more_lines))) kps (lines @ more) = Inr lines'"
    by (auto simp: kp rbind_eq_Inr)
  from Cons.IH [OF more(2)] Cons.prems(2) moved_position_val [OF more(1), of j] show ?case by (simp add: kp)
qed simp

text \<open>What every key of an instrument sums to, over a map's entries.\<close>

lemma keyed_sum:
  fixes g :: "'v \<Rightarrow> rat"
  assumes "bt_wf m"
  shows "(\<Sum>(k, p)\<leftarrow>filter P m. of_bool (k = j) * g p)
    = (case bt_get m j of Some p \<Rightarrow> if P (j, p) then g p else 0 | None \<Rightarrow> 0)"
  using assms
proof (induction m)
  case (Cons kp m)
  obtain k p where kp: "kp = (k, p)" by (cases kp)
  from Cons.prems have "bt_wf m" "k \<notin> fst ` set m" by (auto simp: kp bt_wf_Cons)
  with Cons.IH bt_get_None_iff [of m k] show ?case by (auto simp: kp split: option.splits)
qed simp


lemma moved_split:
  "\<forall>(k, p) \<in> set kps. fst k = old \<Longrightarrow> (\<Sum>(k, p)\<leftarrow>kps. moved_val j k instrument (trade_val p)) =
      (if fst j = instrument then (\<Sum>(k, p)\<leftarrow>kps. of_bool (k = (old, snd j)) * trade_val p) else 0)
      - (\<Sum>(k, p)\<leftarrow>kps. of_bool (k = j) * trade_val p)"
proof (induction kps)
  case (Cons kp kps)
  obtain k p where kp: "kp = (k, p)" by (cases kp)
  with Cons.prems have "of_bool (j = (instrument, snd k)) = (if fst j = instrument then of_bool (k = (old, snd j)) else (0 :: rat))"
    by (cases j; cases k) auto
  with Cons show ?case by (simp add: kp)
qed simp

lemma follow_stages:
  assumes "follow_replacement kn mints b head cx old instrument resolved = Inr (Some m)"
  obtains d where "merge_body b old instrument = Inr (dr_body d)" "made kn b head cx d = Inr m"
proof -
  from assms obtain body where "merge_body b old instrument = Inr body" "made kn b head cx (follow_draft mints cx resolved body) = Inr m"
    by (auto simp: follow_replacement_def rbind_eq_Inr split: if_split_asm)
  with that [of "follow_draft mints cx resolved body"] show ?thesis by (simp add: follow_draft_def)
qed

section \<open>Properties\<close>

text \<open>C13: Following a merged record moves, position by position, the whole of what the account holds
  under the one onto the other, to the last digit: nothing is left under the record replaced, the
  other holds what it held and that, and no other instrument is touched. However its quantity was
  split between buckets, value dates and lots.\<close>

theorem a_merge_moves_the_quantity_whole:
  assumes follow: "follow_replacement kn mints b head cx old instrument resolved = Inr (Some m)"
    and distinct: "old \<noteq> instrument" and ok: "book_ok b" "bt_wf (ab_positions b)"
    and exact: "\<forall>(k, p) \<in> set (ab_positions b). buckets_exact p"
    and held: "\<not> pn_removed (position_at b (old, rest))"
  shows "held_val (md_book m) (old, rest) = 0
    \<and> held_val (md_book m) (instrument, rest) = held_val b (instrument, rest) + held_val b (old, rest)
    \<and> (\<forall>j. fst j \<noteq> old \<and> fst j \<noteq> instrument \<longrightarrow> held_val (md_book m) j = held_val b j)"
proof -
  from follow obtain d where d: "merge_body b old instrument = Inr (dr_body d)" "made kn b head cx d = Inr m"
    by (rule follow_stages)
  from d(1) have lines: "rfold (\<lambda>kp out. rbind (moved_position instrument kp) (\<lambda>more_lines. Inr (out @ more_lines)))
      (held_under b old) [] = Inr (by_lines (dr_body d))"
    by (auto simp: merge_body_def rbind_eq_Inr Let_def dest: arg_cong [where f = by_lines])
  have "\<forall>(k, p) \<in> set (held_under b old). buckets_exact p" using exact by (auto simp: held_under_def)
  note sums = moved_positions_val [OF lines this]
  have moved: "held_val (md_book m) j = held_val b j + (\<Sum>(k, p)\<leftarrow>held_under b old. moved_val j k instrument (trade_val p))" for j
    using made_effects(2) [OF d(2) ok(1), of j] sums [of j] by (simp add: body_val_def)
  have key: "(\<Sum>(k, p)\<leftarrow>held_under b old. of_bool (k = j) * trade_val p) =
      (case bt_get (ab_positions b) j of Some p \<Rightarrow> if fst j = old \<and> \<not> pn_removed p then trade_val p else 0 | None \<Rightarrow> 0)" for j
    unfolding held_under_def keyed_sum [OF ok(2)] by (simp split: option.split)
  have under: "fst k = old" if "(k, p) \<in> set (held_under b old)" for k p using that by (simp add: held_under_def)
  have split: "(\<Sum>(k, p)\<leftarrow>held_under b old. moved_val j k instrument (trade_val p)) =
      (if fst j = instrument then (\<Sum>(k, p)\<leftarrow>held_under b old. of_bool (k = (old, snd j)) * trade_val p) else 0)
      - (\<Sum>(k, p)\<leftarrow>held_under b old. of_bool (k = j) * trade_val p)" for j
    by (rule moved_split) (use under in auto)
  have at: "(\<Sum>(k, p)\<leftarrow>held_under b old. of_bool (k = (old, rest)) * trade_val p) = held_val b (old, rest)"
    using held by (simp add: key held_val_def position_at_def split: option.splits)
  have gone: "(\<Sum>(k, p)\<leftarrow>held_under b old. of_bool (k = j) * trade_val p) = 0" if "fst j \<noteq> old" for j
    using that by (simp add: key split: option.splits)
  have all: "held_val (md_book m) j = held_val b j
      + ((if fst j = instrument then (\<Sum>(k, p)\<leftarrow>held_under b old. of_bool (k = (old, snd j)) * trade_val p) else 0)
         - (\<Sum>(k, p)\<leftarrow>held_under b old. of_bool (k = j) * trade_val p))" for j
    by (simp only: moved split)
  show ?thesis unfolding all by (use distinct in \<open>simp add: at gone\<close>)
qed


lemma sample_merge:
  "\<exists>m1 m2. made knows_nothing (book_new ''a1'' ''P0'') 0 plain_context lot_draft = Inr m1
    \<and> follow_replacement knows_nothing plain_mints (md_book m1) 10 plain_context ''INS-1'' ''INS-2'' False = Inr (Some m2)
    \<and> lot_owner (md_book m2) ''LOT-1'' = Some (''INS-1'', 1, [])
    \<and> pn_removed (position_at (md_book m2) (''INS-1'', 1, []))
    \<and> \<not> pn_removed (position_at (md_book m1) (''INS-1'', 1, []))
    \<and> open_quantities (position_at (md_book m2) (''INS-1'', 1, [])) = [num_wire (mk 0 0)]
    \<and> open_quantities (position_at (md_book m2) (''INS-2'', 1, [])) = [num_wire (mk 5 0)]
    \<and> held_val (md_book m1) (''INS-1'', 1, []) = 5 \<and> bt_wf (ab_positions (md_book m1))
    \<and> (\<forall>(k, p) \<in> set (ab_positions (md_book m1)). buckets_exact p)"
  by (simp add: entry_evals made_def drafted_def lot_draft_def plain_context_def sample_line_def instruments_in_def
      cx_cause_def wire_is_zero_def check_book_def check_position_def has_open_lots_def is_base_def on_its_side_def
      is_negative_def negated_def lots_open_def lot_keys_def guard_r_def ex_eq_val position_at_def holding_side_no.simps
      follow_replacement_def merge_body_def held_under_def moved_position_def merge_buckets_def bucket_lines_def merge_line_def
      lot_lines_def follow_draft_def move_lot_def lot_moved_def sale_for_def magnitude_below_def magnitude_def ex_less_def
      ex_cmp_val cmp_def ex_val_def PLACES_def record_relief_def proceeds_def lot_owner_def open_quantities_def held_val_def
      trade_val_def buckets_exact_def bt_wf_Cons)


lemma sample_merge_parts:
  obtains m1 m2 where "made knows_nothing (book_new ''a1'' ''P0'') 0 plain_context lot_draft = Inr m1"
    "follow_replacement knows_nothing plain_mints (md_book m1) 10 plain_context ''INS-1'' ''INS-2'' False = Inr (Some m2)"
    "lot_owner (md_book m2) ''LOT-1'' = Some (''INS-1'', 1, [])" "pn_removed (position_at (md_book m2) (''INS-1'', 1, []))"
    "\<not> pn_removed (position_at (md_book m1) (''INS-1'', 1, []))"
    "open_quantities (position_at (md_book m2) (''INS-1'', 1, [])) = [num_wire (mk 0 0)]"
    "open_quantities (position_at (md_book m2) (''INS-2'', 1, [])) = [num_wire (mk 5 0)]"
    "held_val (md_book m1) (''INS-1'', 1, []) = 5" "bt_wf (ab_positions (md_book m1))"
    "\<forall>(k, p) \<in> set (ab_positions (md_book m1)). buckets_exact p"
  by (rule exE [OF sample_merge]) (elim exE conjE, rule that)

theorem a_merge_moves_the_quantity_whole_witness:
  "\<exists>b m. follow_replacement knows_nothing plain_mints b 10 plain_context ''INS-1'' ''INS-2'' False = Inr (Some m)
    \<and> held_val b (''INS-1'', 1, []) = 5 \<and> held_val (md_book m) (''INS-1'', 1, []) = 0
    \<and> held_val (md_book m) (''INS-2'', 1, []) = held_val b (''INS-2'', 1, []) + 5"
proof -
  obtain m1 m2 where m: "made knows_nothing (book_new ''a1'' ''P0'') 0 plain_context lot_draft = Inr m1"
    "follow_replacement knows_nothing plain_mints (md_book m1) 10 plain_context ''INS-1'' ''INS-2'' False = Inr (Some m2)"
    "\<not> pn_removed (position_at (md_book m1) (''INS-1'', 1, []))"
    "held_val (md_book m1) (''INS-1'', 1, []) = 5" "bt_wf (ab_positions (md_book m1))"
    "\<forall>(k, p) \<in> set (ab_positions (md_book m1)). buckets_exact p"
    by (rule sample_merge_parts) (rule that)
  have ok: "book_ok (md_book m1)" by (rule made_effects(1) [OF m(1)]) simp
  from a_merge_moves_the_quantity_whole [OF m(2) _ ok m(5,6,3)] m(2,4) show ?thesis
    by (intro exI [of _ "md_book m1"] exI [of _ m2]) simp
qed

section \<open>A moved lot's owner\<close>

text \<open>\<open>lot_owner\<close> gives "the position holding a lot, by the lot's identifier": after a merge onto an
  instrument whose identifier comes later, it is the tombstone of the record replaced, where the lot
  is closed, and not the position that holds it open. An adjustment of the lot's basis made then is
  written on the tombstone.\<close>

lemma a_moved_lots_owner_is_its_tombstone:
  "\<exists>b. lot_owner b ''LOT-1'' = Some (''INS-1'', 1, []) \<and> pn_removed (position_at b (''INS-1'', 1, []))
    \<and> open_quantities (position_at b (''INS-1'', 1, [])) = [num_wire (mk 0 0)]
    \<and> open_quantities (position_at b (''INS-2'', 1, [])) = [num_wire (mk 5 0)]
    \<and> (\<exists>d m m'. made knows_nothing (book_new ''a1'' ''P0'') 0 plain_context d = Inr m
        \<and> follow_replacement knows_nothing plain_mints (md_book m) 10 plain_context ''INS-1'' ''INS-2'' False = Inr (Some m')
        \<and> b = md_book m')"
  by (rule sample_merge_parts) blast

end
