(* ===== verification/Spec2Isabelle.thy ===== *)
theory Spec2Isabelle
  imports Exact_Decimal Grants Access Book_Store Lease Writer_Books Instrument_Hot Calendar_Date
    Order_Status Order_Touched Order_Settle Order_Policy Book_Breaks_Kept Book_Merge
begin

text \<open>
  Meridian's core: the book of record of a fund's accounts and what stands around it.

  \<^bold>\<open>The program.\<close> A deployment keeps, per account, a book: the positions and lots its entries
  make, the breaks found against a custodian, and the order path -- orders, their placements at
  venues, executions, bookings, alerts. A command on an account is decided on the account's book
  into a draft of an entry, or refused; the entry is numbered, applied and checked on a copy, and
  committed with the message that asked for it (\<open>crates/bor\<close>). One member writes a partition of
  accounts at a time, holding a lease (\<open>crates/runtime\<close>), and every entry is published as a change
  others follow (\<open>crates/changes\<close>). Who may ask for what is read from the records an admin authors
  (\<open>crates/access\<close>) and from the topics a plugin is granted (\<open>crates/sidecar\<close>, \<open>crates/bus\<close>).
  Instruments are read through a layer held in memory (\<open>crates/instrument\<close>). Every amount is an
  exact decimal (\<open>crates/domain\<close>).

  \<^bold>\<open>The shared ground.\<close>
  \<^item> \<open>Prelude\<close>: a fallible function is a sum, \<open>Inl\<close> the error; \<open>?\<close> is \<open>rbind\<close>, a loop that may leave
    with an error \<open>rfold\<close>; a 128-bit integer is an \<open>int\<close> checked where the code checks it.
  \<^item> \<open>Rust_Text\<close>, \<open>BTree_Map\<close>: the standard library's texts, ordered maps and sets, as used. The
    locale \<open>lookup_map\<close> is what clients rely on of a map.
  \<^item> \<open>Exact_Decimal\<close> (\<open>domain/src/exact.rs\<close>): the decimals; sums, comparison and text are exact
    (\<open>sums_are_exact\<close>, \<open>comparison_is_numeric\<close>, \<open>decimal_round_trips\<close>), and what a sum refuses.
    \<open>Calendar_Date\<close> (\<open>domain/src/date.rs\<close>): days counted, read and printed.

  \<^bold>\<open>Around the book.\<close>
  \<^item> \<open>Topics\<close> (\<open>bus/src/topic.rs\<close>) and \<open>Grants\<close> (\<open>sidecar/src/grants.rs\<close>, \<open>roles.rs\<close>): the matcher is
    the grammar of patterns, and a subscription admitted under the locale \<open>pattern_cover\<close> hears
    nothing its grants do not.
  \<^item> \<open>Access\<close> (\<open>access/src/lib.rs\<close>): permissions folded into levels, sessions, administration and a
    plugin's scope. The locale \<open>held_view\<close> follows the fold once for each thing read of it.
  \<^item> \<open>Change_Log\<close> (\<open>changes/src/lib.rs\<close>): pages, the tail, the epoch fence and catching up, under the
    locale \<open>paged_log\<close>, which \<open>Book_Store\<close> interprets on its own reads.
  \<^item> \<open>Book_Store\<close> (\<open>bor/src/memory.rs\<close>, \<open>store.rs\<close>): a command given once, the fenced commit, bodies
    loaded on demand, a take-over. The decision is an argument there, as in the source.
  \<^item> \<open>Writer_Books\<close> (\<open>bor/src/writer.rs\<close>) and \<open>Instrument_Hot\<close> (\<open>instrument/src/hot.rs\<close>): two layers
    over a record, bounded, the least recently used leaving first. \<open>Recency\<close> holds what they share
    and the locale \<open>read_through\<close>, interpreted on each.
  \<^item> \<open>Lease\<close> (\<open>runtime/src/lease.rs\<close>, \<open>member.rs\<close>): an election over the locale \<open>lease_api\<close>, in two
    steps so that others' requests may come between, and the loop that keeps what was won.

  \<^bold>\<open>The account's book\<close> (\<open>bor/src/book.rs\<close>, \<open>decide.rs\<close>, \<open>journal.rs\<close>).
  \<^item> Its data: \<open>Book_Records\<close> and \<open>Book_Requests\<close>, the contract's messages (\<open>domain/src/v1.rs\<close>), field
    by field; \<open>account_book\<close> of \<open>Book_Apply\<close> is \<open>Book\<close>.
  \<^item> \<open>Book_Positions\<close>: what a movement line does to a position and its lots. \<open>Book_Apply\<close> and
    \<open>Book_Replay\<close>: an entry applied, stage by stage as \<open>Book::apply\<close> is written, \<open>check\<close>, and a
    journal replayed, whole or as of a watermark.
  \<^item> \<open>Book_Context\<close>: \<open>Context\<close> and \<open>made\<close>, by which every act becomes an entry. \<open>Book_Opening\<close>,
    \<open>Book_Breaks\<close>, \<open>Book_Resolve\<close>, \<open>Book_Merge\<close>: the acts. \<open>Book_Account\<close>: the commands as the service
    gives each to its act, and runs of them.
  \<^item> What is proved: lines move a quantity and its lots alike (\<open>Book_Quantities\<close>), so open lots sum to
    the quantity in every checked book (\<open>Book_Balance\<close>); references are consecutive and chained, and
    an entry replays to what it made (\<open>Book_Numbering\<close>); an opening and a merge are whole; a
    position is the sum of the entries standing (\<open>Book_Account\<close>); breaks are kept and ended
    once (\<open>Book_Breaks_Kept\<close>). \<open>Book_Frame\<close> holds what an entry leaves alone.

  \<^bold>\<open>The order path\<close> (\<open>bor/src/orders.rs\<close>, \<open>order_decide.rs\<close>, \<open>transitions.rs\<close>, \<open>order_service.rs\<close>).
  \<^item> Its data: \<open>Order_Records\<close> and \<open>Order_Requests\<close>, the contract's messages. \<open>ledger\<close> of \<open>Order_Ledger\<close>
    is \<open>Ledger\<close>, \<open>act\<close> is \<open>Act\<close>, and \<open>apply_act\<close> is \<open>Ledger::apply\<close>, one definition per arm.
  \<^item> No state is stored: \<open>Order_Fold\<close> and \<open>Order_Status\<close> fold it, as they fold the quantities, from
    what was reported. \<open>Order_Touched\<close> says which records an entry numbers. \<open>Order_Shape\<close> is the
    invariant of every ledger entries make, \<open>Order_Moves\<close> the venue's state machine as a step
    relation beside the code, which every act follows.
  \<^item> The commands: \<open>Order_Table\<close> is the table of transitions and \<open>Order_Plan\<close> what each command
    shares, with \<open>finish\<close>, which settles a plan's consequences (\<open>Order_Settle\<close>) and makes the entry
    (\<open>made\<close>). \<open>Order_Propose\<close>, \<open>Order_Commands\<close>, \<open>Order_Placing\<close> and \<open>Order_Instructions\<close> are the commands;
    \<open>order_act\<close> of \<open>Order_Service\<close> gives a command to its act.
  \<^item> What is proved: the folds return; idle, committed and filled make up what is ordered; an
    order's filled is the sum over everything split from it; an entry changes no record it does not
    number; settling ends exactly what has nothing live. \<open>Order_After\<close> follows one order through an
    entry's acts, \<open>Order_Gate\<close> says which acts each command may decide (\<open>may_decide\<close>), and
    \<open>Order_Policy\<close> draws from both what the commands leave of an order: it is released only
    through the gate, what holds it is lifted only by a person, and an end is final.
    \<open>Order_Samples\<close> holds the concrete books these are evaluated on.

  \<^bold>\<open>How the parts meet.\<close> \<open>finish\<close> is where the order path enters the book: its plan's acts and lines
  go through \<open>made\<close> into \<open>apply_entry\<close>, which plays the acts on the ledger and the lines on the
  positions, numbers both, and is checked. \<open>with_bodies\<close> of \<open>Book_Store\<close> is how a reversal is given
  the body it asks for, and \<open>Writer_Books\<close> keeps the books a commit leaves.

  \<^bold>\<open>Bounds.\<close> The folds down split orders, and the walk a cancel makes of them, recurse at most once
  more than there are orders held: on a forest, which \<open>Order_Shape\<close> keeps, that is never
  reached and more changes nothing (\<open>status_folds_return\<close>); reached, it is \<open>Panicked\<close>, as an index that
  is not there is. \<open>BODY_ROUNDS\<close> and the eight steps a replaced instrument is followed are the
  source's own. \<open>settle_loop\<close> and \<open>catch_up\<close> are partial functions, \<open>None\<close> where they do not return:
  that they return is proved of every ledger a book makes and of every store that keeps its
  promises. The other loops end by a measure: the parents left to add, the lots and buckets
  left to open, the parts left to publish, the entries left to evict.

  \<^bold>\<open>Refusals.\<close> An error carries its kind and what its sentence names, the words kept as a list of
  parts; the sentences themselves are not repeated. What is only logged is left out.

  \<^bold>\<open>Taken as given.\<close> Identifiers minted are random in the source: a supply, by prefix and how many
  were drawn, is an argument. Clocks, an instrument's record, what it became, the members of another
  account's book and the kind of user a command comes from are arguments read before the act. The
  encoded length of a message, the contract's generated files and the Lease's API likewise. A hash
  map whose order nothing reads is a map.

  \<^bold>\<open>Not modelled.\<close>
  \<^item> In \<open>order_decide.rs\<close> the fund's facts of a trade: executions, corrections and accepted matches,
    charges, value-date rolls, and the lines and reliefs they move positions by. The acts they
    leave in the ledger and the lines in the book are modelled, how they are decided is not.
  \<^item> Bookings, allocations and give-ups as commands (\<open>booking.rs\<close>), and lifecycle events
    (\<open>lifecycle.rs\<close>); their records are kept by the modelled book.
  \<^item> SQL, serialisation, bus handlers, network and process wiring: the Postgres stores, the services
    around the acts, the broker's client, the conductor, probes and the first run.
  \<^item> The lake, the street store, the resolution of instruments and the configuration's own records,
    which take no part in an order or a position; analytics, floating-point numerics that keep
    no record; the dashboard's pages and the surface a plugin calls.
\<close>

end
